(* ===== verification/Prelude.thy ===== *)
theory Prelude
  imports Main "HOL-Library.Word"
begin

unbundle bit_operations_syntax

text \<open>
  Shared vocabulary of the development: the machine integers of the ARMv5 target (32-bit
  \<^verbatim>\<open>int\<close>, \<^verbatim>\<open>long\<close> and pointers), the negative error codes that the kernel driver
  returns, and the arithmetic facts on shifts, masks and page rounding that the components
  use. \<open>word_arith\<close> collects the rewrites that move a word expression to \<open>nat\<close>.
\<close>

named_theorems word_arith "rewrites from word expressions to natural numbers"

type_synonym u8 = "8 word"
type_synonym u16 = "16 word"
type_synonym u32 = "32 word"

section \<open>Error codes\<close>

text \<open>
  The error codes of the driver. \<open>EGENERIC\<close> is the literal \<^verbatim>\<open>-1\<close> that
  \<^verbatim>\<open>vpu_alloc_dma_buffer\<close> and the PrP scaler return; \<open>DivByZero\<close> and
  \<open>Undefined\<close> are not codes of the driver but an integer division by zero and any other
  undefined behaviour of C (an access outside an array, a signed overflow), kept apart so that
  their absence can be stated.
\<close>

datatype errno =
    EGENERIC | ENOENT | EIO | ENXIO | EAGAIN | ENOMEM | EACCES | EFAULT | EBUSY | ENODEV
  | EINVAL | ENOSPC | ETIME | EOPNOTSUPP | ERESTARTSYS | DivByZero | Undefined

fun errno_code :: "errno \<Rightarrow> int" where
  "errno_code EGENERIC = -1"
| "errno_code ENOENT = -2"
| "errno_code EIO = -5"
| "errno_code ENXIO = -6"
| "errno_code EAGAIN = -11"
| "errno_code ENOMEM = -12"
| "errno_code EACCES = -13"
| "errno_code EFAULT = -14"
| "errno_code EBUSY = -16"
| "errno_code ENODEV = -19"
| "errno_code EINVAL = -22"
| "errno_code ENOSPC = -28"
| "errno_code ETIME = -62"
| "errno_code EOPNOTSUPP = -95"
| "errno_code ERESTARTSYS = -512"
| "errno_code DivByZero = 0"
| "errno_code Undefined = 0"

section \<open>C arithmetic\<close>

text \<open>Integer division of C truncates towards zero; \<^verbatim>\<open>>>\<close> of a signed value is arithmetic.\<close>

definition c_div :: "int \<Rightarrow> int \<Rightarrow> int" where
  "c_div a b = sgn a * sgn b * (\<bar>a\<bar> div \<bar>b\<bar>)"

lemma c_div_nonneg [simp]: "0 \<le> a \<Longrightarrow> 0 < b \<Longrightarrow> c_div a b = a div b"
  by (cases "a = 0") (simp_all add: c_div_def sgn_if)

text \<open>The remainder takes the sign of the dividend.\<close>

definition c_rem :: "int \<Rightarrow> int \<Rightarrow> int" where
  "c_rem a b = sgn a * (\<bar>a\<bar> mod \<bar>b\<bar>)"

lemma c_rem_nonneg [simp]: "0 \<le> a \<Longrightarrow> 0 < b \<Longrightarrow> c_rem a b = a mod b"
  by (cases "a = 0") (simp_all add: c_rem_def sgn_if)

lemma c_rem_abs_less: "b \<noteq> 0 \<Longrightarrow> \<bar>c_rem a b\<bar> < \<bar>b\<bar>"
  by (cases "a = 0") (simp_all add: c_rem_def abs_mult)

section \<open>Shifts, masks and pages\<close>

lemma unat_drop_bit [word_arith]: "unat (drop_bit n (w :: 'a::len word)) = unat w div 2 ^ n"
  by (simp add: unat_drop_bit_eq flip: drop_bit_eq_div)

lemma drop_bit_mask_out [simp]:
  "drop_bit n (w AND NOT (mask n) :: 'a::len word) = drop_bit n w"
  by (rule bit_word_eqI) (auto simp: bit_simps dest: bit_imp_le_length)

lemma push_drop_mask_out:
  "push_bit n (drop_bit n w) = (w AND NOT (mask n) :: 'a::len word)"
  by (rule bit_word_eqI) (auto simp: bit_simps)

lemma unat_push_bit [word_arith]:
  "unat w * 2 ^ n < 2 ^ LENGTH('a) \<Longrightarrow> unat (push_bit n (w :: 'a::len word)) = unat w * 2 ^ n"
  by (simp add: unsigned_push_bit_eq push_bit_nat_def take_bit_nat_eq_self)

lemma unat_mask_out [word_arith]:
  "unat (w AND NOT (mask n) :: 'a::len word) = unat w div 2 ^ n * 2 ^ n"
proof -
  have "unat (drop_bit n w) * 2 ^ n \<le> unat w"
    by (simp add: word_arith)
  then have "unat (drop_bit n w) * 2 ^ n < 2 ^ LENGTH('a)"
    using unsigned_less [of w] by (rule le_less_trans)
  then show ?thesis
    by (simp flip: push_drop_mask_out add: unat_push_bit unat_drop_bit)
qed

lemma int_div_less:
  assumes "x < k * b" "0 < (b :: int)"
  shows "x div b < k"
proof (rule ccontr)
  assume "\<not> x div b < k"
  then have "k * b \<le> x div b * b" using assms(2) by (simp add: mult_right_mono)
  also have "\<dots> \<le> x" using assms(2) by (simp flip: minus_mod_eq_div_mult)
  finally show False using assms(1) by simp
qed

lemma int_or_low:
  assumes "0 \<le> n" "n < 2 ^ k"
  shows "push_bit k w OR n = 2 ^ k * w + (n :: int)"
proof -
  have "take_bit k n = n" using assms by (simp add: take_bit_int_eq_self)
  then have "push_bit k w AND n = push_bit k w AND take_bit k n" by simp
  also have "\<dots> = 0" by (rule bit_eqI) (auto simp: bit_simps)
  finally have "push_bit k w + n = push_bit k w OR n" by (rule disjunctive_add_eq_or)
  then show ?thesis by (simp add: push_bit_eq_mult mult.commute)
qed

lemma word_or_low:
  assumes "unat w < 2 ^ k"
  shows "push_bit k x OR w = push_bit k x + (w :: 'a::len word)"
proof -
  have "take_bit k w = w"
    using assms by (simp add: word_unat_eq_iff unsigned_take_bit_eq take_bit_nat_eq_self)
  then have "push_bit k x AND w = push_bit k x AND take_bit k w" by simp
  also have "\<dots> = 0" by (rule bit_word_eqI) (auto simp: bit_simps)
  finally show ?thesis by (simp add: disjunctive_add_eq_or)
qed

lemma unat_or_low:
  assumes "unat w < 2 ^ k" "unat x * 2 ^ k + unat w < 2 ^ LENGTH('a)"
  shows "unat (push_bit k x OR w :: 'a::len word) = unat x * 2 ^ k + unat w"
proof -
  have "unat (push_bit k x) = unat x * 2 ^ k" using assms(2) by (intro unat_push_bit) simp
  then show ?thesis using assms(2) by (simp add: word_or_low [OF assms(1)] unat_word_ariths)
qed

lemma small_bit:
  assumes "unat w < 2 ^ k" "k \<le> n"
  shows "\<not> bit (w :: 'a::len word) n"
proof -
  have "w = take_bit k w"
    using assms(1) by (simp add: word_unat_eq_iff unsigned_take_bit_eq take_bit_nat_eq_self)
  then show ?thesis using assms(2) by (metis bit_take_bit_iff not_less)
qed

lemma sint_unat: "unat w < 2 ^ 31 \<Longrightarrow> sint (w :: u32) = int (unat w)"
proof -
  assume "unat w < 2 ^ 31"
  then have "uint w < 2 ^ 31" by (metis of_nat_less_iff of_nat_numeral of_nat_power uint_nat)
  then have "sint w = uint w" by (simp add: sint_uint signed_take_bit_int_eq_self_iff order_trans [of _ 0])
  then show ?thesis by (simp only: uint_nat)
qed

lemma aligned_offset:
  assumes "(p :: nat) \<le> a" "a mod k = 0" "p mod k = 0"
  shows "a = p + (a - p) div k * k"
proof -
  have "k dvd a - p" using assms(2,3) by (simp add: mod_eq_0_iff_dvd dvd_diff_nat)
  then show ?thesis using assms(1) by simp
qed

section \<open>Sets and lists\<close>

lemma shifted_interval: "{p + k | k. i \<le> k \<and> k < j} = {p + i ..< p + (j :: nat)}"
proof (intro set_eqI iffI)
  fix x assume "x \<in> {p + i ..< p + j}"
  then have "x = p + (x - p) \<and> i \<le> x - p \<and> x - p < j" by auto
  then show "x \<in> {p + k | k. i \<le> k \<and> k < j}" by blast
qed auto

end
