(* ===== verification/Pool.thy ===== *)
theory Pool
  imports Prelude
begin

unbundle bit_operations_syntax

text \<open>
  The early-boot DMA pool of the driver (\<^verbatim>\<open>src/kernel/mxc_vpu.c\<close>, \<^verbatim>\<open>vpu_pool_*\<close> and
  \<^verbatim>\<open>vpu_alloc_dma_buffer\<close>/\<^verbatim>\<open>vpu_free_dma_buffer\<close>): up to three 4 MB page blocks, each with
  a bitmap of its 1024 pages. The bitmap routines of the kernel are a parameter
  (\<open>bitmap_ops\<close>) with their documented behaviour as the hypothesis \<open>bitmap_api_ok\<close>.
  The contract that the driver relies on is the locale \<open>dma_allocator\<close>; it is interpreted
  on the functions of this theory.
\<close>

section \<open>The kernel's bitmap routines\<close>

record bitmap_ops =
  bitmap_find_next_zero_area :: "bool list \<Rightarrow> nat \<Rightarrow> nat \<Rightarrow> nat \<Rightarrow> nat"
  bitmap_set :: "bool list \<Rightarrow> nat \<Rightarrow> nat \<Rightarrow> bool list"
  bitmap_clear :: "bool list \<Rightarrow> nat \<Rightarrow> nat \<Rightarrow> bool list"

definition area_free :: "bool list \<Rightarrow> nat \<Rightarrow> nat \<Rightarrow> bool" where
  "area_free m i n \<longleftrightarrow> i + n \<le> length m \<and> (\<forall>j < n. \<not> m ! (i + j))"

text \<open>
  What the kernel documents: the search returns the start of a zero area of \<open>nr\<close> bits
  when there is one and a value not below \<open>size\<close> when there is none;
  \<^verbatim>\<open>bitmap_set\<close>/\<^verbatim>\<open>bitmap_clear\<close> change exactly the given area.
\<close>

definition bitmap_api_ok :: "bitmap_ops \<Rightarrow> bool" where
  "bitmap_api_ok B \<longleftrightarrow>
     (\<forall>m nr. 0 < nr \<longrightarrow>
        (if \<exists>i. area_free m i nr
         then area_free m (bitmap_find_next_zero_area B m (length m) 0 nr) nr
         else length m \<le> bitmap_find_next_zero_area B m (length m) 0 nr)) \<and>
     (\<forall>m s n. s + n \<le> length m \<longrightarrow>
        length (bitmap_set B m s n) = length m \<and>
        (\<forall>i < length m. bitmap_set B m s n ! i = (s \<le> i \<and> i < s + n \<or> m ! i))) \<and>
     (\<forall>m s n. s + n \<le> length m \<longrightarrow>
        length (bitmap_clear B m s n) = length m \<and>
        (\<forall>i < length m. bitmap_clear B m s n ! i = (m ! i \<and> \<not> (s \<le> i \<and> i < s + n))))"

lemma bitmap_find_cases:
  assumes "bitmap_api_ok B" "0 < nr"
  shows "if \<exists>i. area_free m i nr
         then area_free m (bitmap_find_next_zero_area B m (length m) 0 nr) nr
         else length m \<le> bitmap_find_next_zero_area B m (length m) 0 nr"
  using assms(1) [unfolded bitmap_api_ok_def, THEN conjunct1, THEN spec, THEN spec,
      THEN mp, OF assms(2)] .

lemma area_free_less: "area_free m i n \<Longrightarrow> 0 < n \<Longrightarrow> i < length m"
  by (simp add: area_free_def)

lemma bitmap_findD:
  assumes "bitmap_api_ok B" "0 < nr" "bitmap_find_next_zero_area B m (length m) 0 nr < length m"
  shows "area_free m (bitmap_find_next_zero_area B m (length m) 0 nr) nr"
  using bitmap_find_cases [OF assms(1,2), of m] assms(3) by (simp split: if_splits)

lemma bitmap_find_noneD:
  assumes "bitmap_api_ok B" "0 < nr"
    and "\<not> bitmap_find_next_zero_area B m (length m) 0 nr < length m"
  shows "\<not> area_free m i nr"
  using bitmap_find_cases [OF assms(1,2), of m] assms(2,3) area_free_less [of m _ nr]
  by (auto split: if_splits)

lemma bitmap_setD:
  assumes "bitmap_api_ok B" "s + n \<le> length m"
  shows "length (bitmap_set B m s n) = length m"
    and "i < length m \<Longrightarrow> bitmap_set B m s n ! i = (s \<le> i \<and> i < s + n \<or> m ! i)"
  using assms unfolding bitmap_api_ok_def by blast+

lemma bitmap_clearD:
  assumes "bitmap_api_ok B" "s + n \<le> length m"
  shows "length (bitmap_clear B m s n) = length m"
    and "i < length m \<Longrightarrow> bitmap_clear B m s n ! i = (m ! i \<and> \<not> (s \<le> i \<and> i < s + n))"
  using assms unfolding bitmap_api_ok_def by blast+

section \<open>Pool blocks\<close>

text \<open>
  A block is its physical address and its bitmap; the \<^verbatim>\<open>struct page\<close> pointer only names
  the same memory for \<^verbatim>\<open>__free_pages\<close>. The array \<^verbatim>\<open>vpu_pool\<close> with its fill count
  \<^verbatim>\<open>vpu_pool_nblocks\<close> is the list of the filled entries.
\<close>

record vpu_pool_block =
  phys :: u32
  bitmap :: "bool list"

type_synonym vpu_pool = "vpu_pool_block list"

abbreviation VPU_POOL_BLOCK_PAGES :: nat where
  "VPU_POOL_BLOCK_PAGES \<equiv> 1024"

abbreviation VPU_POOL_BLOCK_SIZE :: u32 where
  "VPU_POOL_BLOCK_SIZE \<equiv> 4194304"

abbreviation VPU_POOL_MAX_BLOCKS :: nat where
  "VPU_POOL_MAX_BLOCKS \<equiv> 3"

text \<open>
  \<^verbatim>\<open>vpu_pool_init\<close>: \<open>alloc_pages i\<close> is the physical address of the page block that the
  page allocator hands out at the \<open>i\<close>-th request, \<open>None\<close> when it fails, which ends
  the loop.
\<close>

fun pool_init_loop :: "(nat \<Rightarrow> u32 option) \<Rightarrow> nat \<Rightarrow> nat \<Rightarrow> vpu_pool" where
  "pool_init_loop alloc_pages i 0 = []"
| "pool_init_loop alloc_pages i (Suc n) =
     (case alloc_pages i of
        None \<Rightarrow> []
      | Some pg \<Rightarrow> \<lparr>phys = pg, bitmap = replicate VPU_POOL_BLOCK_PAGES False\<rparr>
                   # pool_init_loop alloc_pages (Suc i) n)"

definition vpu_pool_init :: "(nat \<Rightarrow> u32 option) \<Rightarrow> vpu_pool" where
  "vpu_pool_init alloc_pages = pool_init_loop alloc_pages 0 VPU_POOL_MAX_BLOCKS"

text \<open>\<^verbatim>\<open>vpu_pool_destroy\<close>: the blocks given back to the page allocator, and the empty pool.\<close>

definition vpu_pool_destroy :: "vpu_pool \<Rightarrow> u32 list \<times> vpu_pool" where
  "vpu_pool_destroy pool = (map phys pool, [])"

text \<open>\<^verbatim>\<open>PAGE_ALIGN(size) >> PAGE_SHIFT\<close> on the 32-bit \<^verbatim>\<open>unsigned long\<close>, wrap-around included.\<close>

definition npages :: "u32 \<Rightarrow> u32" where
  "npages sz = drop_bit 12 ((sz + 4095) AND NOT (mask 12))"

fun pool_scan :: "bitmap_ops \<Rightarrow> vpu_pool \<Rightarrow> nat \<Rightarrow> (u32 \<times> vpu_pool) option" where
  "pool_scan B [] n = None"
| "pool_scan B (b # bs) n =
     (let idx = bitmap_find_next_zero_area B (bitmap b) VPU_POOL_BLOCK_PAGES 0 n
      in if idx < VPU_POOL_BLOCK_PAGES
         then Some (phys b + push_bit 12 (of_nat idx),
                    b\<lparr>bitmap := bitmap_set B (bitmap b) idx n\<rparr> # bs)
         else map_option (\<lambda>(a, bs'). (a, b # bs')) (pool_scan B bs n))"

definition vpu_pool_alloc :: "bitmap_ops \<Rightarrow> vpu_pool \<Rightarrow> u32 \<Rightarrow> u32 \<times> vpu_pool" where
  "vpu_pool_alloc B pool sz =
     (let n = npages sz
      in if n = 0 \<or> of_nat VPU_POOL_BLOCK_PAGES < n then (0, pool)
         else case pool_scan B pool (unat n) of
                None \<Rightarrow> (0, pool)
              | Some r \<Rightarrow> r)"

text \<open>
  \<^verbatim>\<open>vpu_pool_free\<close>: the code clears \<open>npages size\<close> bits from the index of \<open>phys\<close>
  without comparing them with the end of the bitmap. A clear that would run past the bitmap
  (a write outside \<^verbatim>\<open>vpu_pool[i].bitmap\<close>) is the result \<open>None\<close>.
\<close>

fun pool_unscan :: "bitmap_ops \<Rightarrow> vpu_pool \<Rightarrow> u32 \<Rightarrow> nat \<Rightarrow> vpu_pool option" where
  "pool_unscan B [] a n = Some []"
| "pool_unscan B (b # bs) a n =
     (if phys b \<le> a \<and> a < phys b + VPU_POOL_BLOCK_SIZE
      then let idx = unat (drop_bit 12 (a - phys b))
           in if idx + n \<le> length (bitmap b)
              then Some (b\<lparr>bitmap := bitmap_clear B (bitmap b) idx n\<rparr> # bs)
              else None
      else map_option ((#) b) (pool_unscan B bs a n))"

definition vpu_pool_free :: "bitmap_ops \<Rightarrow> vpu_pool \<Rightarrow> u32 \<Rightarrow> u32 \<Rightarrow> vpu_pool option" where
  "vpu_pool_free B pool a sz =
     (if a = 0 then Some pool else pool_unscan B pool a (unat (npages sz)))"

section \<open>Memory descriptors\<close>

record vpu_mem_desc =
  mem_size :: u32
  phy_addr :: u32
  cpu_addr :: u32
  virt_uaddr :: u32

definition zero_mem_desc :: vpu_mem_desc where
  "zero_mem_desc = \<lparr>mem_size = 0, phy_addr = 0, cpu_addr = 0, virt_uaddr = 0\<rparr>"

definition vpu_alloc_dma_buffer ::
    "bitmap_ops \<Rightarrow> vpu_pool \<Rightarrow> vpu_mem_desc \<Rightarrow> errno + (vpu_mem_desc \<times> vpu_pool)" where
  "vpu_alloc_dma_buffer B pool mem =
     (case vpu_pool_alloc B pool (mem_size mem) of
        (a, pool') \<Rightarrow>
          if a = 0 then Inl EGENERIC
          else Inr (mem\<lparr>phy_addr := a, cpu_addr := a\<rparr>, pool'))"

definition vpu_free_dma_buffer ::
    "bitmap_ops \<Rightarrow> vpu_pool \<Rightarrow> vpu_mem_desc \<Rightarrow> vpu_pool option" where
  "vpu_free_dma_buffer B pool mem =
     (if phy_addr mem \<noteq> 0 then vpu_pool_free B pool (phy_addr mem) (mem_size mem) else Some pool)"

section \<open>Pages in use\<close>

definition pages :: "u32 \<Rightarrow> u32 \<Rightarrow> nat set" where
  "pages a n = {unat a div 4096 ..< unat a div 4096 + unat (npages n)}"

definition block_used :: "vpu_pool_block \<Rightarrow> nat set" where
  "block_used b = {unat (phys b) div 4096 + i | i. i < length (bitmap b) \<and> bitmap b ! i}"

definition pool_used :: "vpu_pool \<Rightarrow> nat set" where
  "pool_used pool = (\<Union>b \<in> set pool. block_used b)"

definition block_wf :: "vpu_pool_block \<Rightarrow> bool" where
  "block_wf b \<longleftrightarrow> length (bitmap b) = VPU_POOL_BLOCK_PAGES \<and> 0 < unat (phys b) \<and>
     unat (phys b) mod 4096 = 0 \<and> unat (phys b) + 4194304 < 2 ^ 32"

definition blocks_apart :: "vpu_pool_block \<Rightarrow> vpu_pool_block \<Rightarrow> bool" where
  "blocks_apart a b \<longleftrightarrow> unat (phys a) + 4194304 \<le> unat (phys b) \<or>
                        unat (phys b) + 4194304 \<le> unat (phys a)"

definition pool_wf :: "vpu_pool \<Rightarrow> bool" where
  "pool_wf pool \<longleftrightarrow> list_all block_wf pool \<and> sorted_wrt blocks_apart pool"

definition pool_inv :: "bitmap_ops \<Rightarrow> vpu_pool \<Rightarrow> bool" where
  "pool_inv B pool \<longleftrightarrow> bitmap_api_ok B \<and> pool_wf pool"

definition region_in :: "vpu_pool_block \<Rightarrow> u32 \<Rightarrow> u32 \<Rightarrow> bool" where
  "region_in b a n \<longleftrightarrow> phys b \<le> a \<and> unat a mod 4096 = 0 \<and>
     unat a + unat (npages n) * 4096 \<le> unat (phys b) + 4194304 \<and> 0 < npages n"

definition region :: "vpu_pool \<Rightarrow> u32 \<Rightarrow> u32 \<Rightarrow> bool" where
  "region pool a n \<longleftrightarrow> (\<exists>b \<in> set pool. region_in b a n)"

section \<open>The allocator's contract\<close>

text \<open>
  \<open>covers U rs\<close>: the pages \<open>U\<close> are exactly the pages of the live buffers \<open>rs\<close>, and no
  page belongs to two of them.
\<close>

definition apart :: "u32 \<times> u32 \<Rightarrow> u32 \<times> u32 \<Rightarrow> bool" where
  "apart r s \<longleftrightarrow> pages (fst r) (snd r) \<inter> pages (fst s) (snd s) = {}"

definition covers :: "nat set \<Rightarrow> (u32 \<times> u32) list \<Rightarrow> bool" where
  "covers U rs \<longleftrightarrow> U = (\<Union>r \<in> set rs. pages (fst r) (snd r)) \<and> sorted_wrt apart rs"

fun free_all :: "('p \<Rightarrow> u32 \<Rightarrow> u32 \<Rightarrow> 'p option) \<Rightarrow> 'p \<Rightarrow> (u32 \<times> u32) list \<Rightarrow> 'p option" where
  "free_all free p [] = Some p"
| "free_all free p (r # rs) =
     (case free p (fst r) (snd r) of None \<Rightarrow> None | Some p' \<Rightarrow> free_all free p' rs)"

lemma apart_sym: "apart r s \<longleftrightarrow> apart s r"
  by (auto simp: apart_def)

lemma covers_Cons:
  "covers U rs \<Longrightarrow> U \<inter> pages a n = {} \<Longrightarrow> covers (U \<union> pages a n) ((a, n) # rs)"
  by (auto simp: covers_def apart_def)

lemma covers_remove:
  assumes "covers U (rs @ (a, n) # ss)"
  shows "covers (U - pages a n) (rs @ ss)"
proof -
  have "\<forall>r \<in> set (rs @ ss). pages (fst r) (snd r) \<inter> pages a n = {}"
    using assms by (auto simp: covers_def sorted_wrt_append apart_def)
  then show ?thesis
    using assms by (auto simp: covers_def sorted_wrt_append)
qed

locale dma_allocator =
  fixes alloc :: "'p \<Rightarrow> u32 \<Rightarrow> u32 \<times> 'p"
    and free :: "'p \<Rightarrow> u32 \<Rightarrow> u32 \<Rightarrow> 'p option"
    and used :: "'p \<Rightarrow> nat set"
    and reg :: "'p \<Rightarrow> u32 \<Rightarrow> u32 \<Rightarrow> bool"
    and inv :: "'p \<Rightarrow> bool"
  assumes alloc_fail: "inv p \<Longrightarrow> alloc p n = (0, p') \<Longrightarrow> p' = p"
    and alloc_inv: "inv p \<Longrightarrow> alloc p n = (a, p') \<Longrightarrow> inv p'"
    and alloc_used: "inv p \<Longrightarrow> alloc p n = (a, p') \<Longrightarrow> a \<noteq> 0 \<Longrightarrow> used p' = used p \<union> pages a n"
    and alloc_fresh: "inv p \<Longrightarrow> alloc p n = (a, p') \<Longrightarrow> a \<noteq> 0 \<Longrightarrow> used p \<inter> pages a n = {}"
    and alloc_region: "inv p \<Longrightarrow> alloc p n = (a, p') \<Longrightarrow> a \<noteq> 0 \<Longrightarrow> reg p a n"
    and alloc_regions: "inv p \<Longrightarrow> alloc p n = (a, p') \<Longrightarrow> reg p' b m = reg p b m"
    and free_returns: "inv p \<Longrightarrow> reg p a n \<Longrightarrow> \<exists>p'. free p a n = Some p'"
    and free_inv: "inv p \<Longrightarrow> free p a n = Some p' \<Longrightarrow> inv p'"
    and free_used: "inv p \<Longrightarrow> reg p a n \<Longrightarrow> free p a n = Some p' \<Longrightarrow> used p' = used p - pages a n"
    and free_regions: "inv p \<Longrightarrow> free p a n = Some p' \<Longrightarrow> reg p' b m = reg p b m"
    and region_nonzero: "inv p \<Longrightarrow> reg p a n \<Longrightarrow> a \<noteq> 0"
begin

lemma alloc_live:
  assumes "inv p" "covers (used p) rs" "alloc p n = (a, p')" "a \<noteq> 0"
  shows "covers (used p') ((a, n) # rs)"
  using covers_Cons [OF assms(2) alloc_fresh [OF assms(1,3,4)]]
  by (simp add: alloc_used [OF assms(1,3,4)])

lemma free_live:
  assumes "inv p" "covers (used p) (rs @ (a, n) # ss)" "reg p a n" "free p a n = Some p'"
  shows "covers (used p') (rs @ ss)"
  using covers_remove [OF assms(2)] by (simp add: free_used [OF assms(1,3,4)])

lemma free_all_live:
  assumes "inv p" "covers (used p) (rs @ ss)" "\<forall>r \<in> set rs. reg p (fst r) (snd r)"
  shows "\<exists>p'. free_all free p rs = Some p' \<and> inv p' \<and> covers (used p') ss \<and>
              (\<forall>b m. reg p' b m = reg p b m)"
  using assms
proof (induction rs arbitrary: p)
  case Nil
  then show ?case by simp
next
  case (Cons r rs)
  obtain a n where r: "r = (a, n)" by (cases r)
  with Cons.prems obtain q where q: "free p a n = Some q"
    using free_returns by fastforce
  have "inv q" using free_inv Cons.prems(1) q by blast
  moreover have "covers (used q) (rs @ ss)"
    using free_live [of p "[]" a n "rs @ ss"] Cons.prems r q by simp
  moreover have "\<forall>r \<in> set rs. reg q (fst r) (snd r)"
    using free_regions [OF Cons.prems(1) q] Cons.prems(3) by simp
  ultimately obtain p' where "free_all free q rs = Some p'" "inv p'" "covers (used p') ss"
    "\<forall>b m. reg p' b m = reg q b m"
    using Cons.IH by blast
  then show ?case using q r free_regions [OF Cons.prems(1) q] by simp
qed

text \<open>A buffer that is allocated and freed again leaves the pages in use as they were.\<close>

lemma alloc_free_used:
  assumes "inv p" "alloc p n = (a, p')" "a \<noteq> 0" "free p' a n = Some p''"
  shows "used p'' = used p"
proof -
  have "reg p' a n" using alloc_region alloc_regions assms by blast
  then have "used p'' = used p' - pages a n"
    using free_used alloc_inv assms by blast
  then show ?thesis using alloc_used alloc_fresh assms by fastforce
qed

end

section \<open>Page arithmetic\<close>

lemma unat_npages_wrap: "unat (npages n) = ((unat n + 4095) mod 2 ^ 32) div 4096"
  unfolding npages_def drop_bit_mask_out by (simp add: word_arith unat_word_ariths)

lemma unat_npages: "unat n + 4095 < 2 ^ 32 \<Longrightarrow> unat (npages n) = (unat n + 4095) div 4096"
  by (simp add: unat_npages_wrap)

lemma npages_overflow: "2 ^ 32 \<le> unat n + 4095 \<Longrightarrow> npages n = 0"
proof -
  assume a: "2 ^ 32 \<le> unat n + 4095"
  have "unat n < 2 ^ 32" using unsigned_less [of n] by simp
  with a have "(unat n + 4095) mod 2 ^ 32 < 4096"
    by (simp add: mod_if) arith
  then have "unat (npages n) = 0" by (simp add: unat_npages_wrap)
  then show ?thesis by (simp add: unsigned_eq_0_iff)
qed

lemma npages_covers: "npages n \<noteq> 0 \<Longrightarrow> unat n \<le> unat (npages n) * 4096"
  using npages_overflow [of n] unat_npages [of n] by (cases "unat n + 4095 < 2 ^ 32") auto

lemma npages_range:
  "npages n = 0 \<or> of_nat VPU_POOL_BLOCK_PAGES < npages n \<longleftrightarrow> unat n = 0 \<or> 4194304 < unat n"
proof -
  have "unat (npages n) = 0 \<or> 1024 < unat (npages n) \<longleftrightarrow> unat n = 0 \<or> 4194304 < unat n"
  proof (cases "unat n + 4095 < 2 ^ 32")
    case True
    then show ?thesis unfolding unat_npages [OF True] by arith
  next
    case False
    then show ?thesis using npages_overflow [of n] by simp
  qed
  then show ?thesis by (simp add: word_less_nat_alt unsigned_eq_0_iff)
qed

lemma page_addr:
  assumes "block_wf b" "i < VPU_POOL_BLOCK_PAGES"
  shows "unat (phys b + push_bit 12 (of_nat i)) = unat (phys b) + i * 4096"
proof -
  have i: "unat (of_nat i :: u32) = i"
    using assms(2) by (simp add: unat_of_nat)
  then have "unat (push_bit 12 (of_nat i :: u32)) = i * 4096"
    using assms(2) by (simp add: word_arith)
  moreover have "unat (phys b) + i * 4096 < 2 ^ 32"
    using assms by (simp add: block_wf_def)
  ultimately show ?thesis
    by (simp add: unat_word_ariths)
qed

lemma block_used_range:
  "block_wf b \<Longrightarrow> block_used b \<subseteq> {unat (phys b) div 4096 ..< unat (phys b) div 4096 + 1024}"
  by (auto simp: block_used_def block_wf_def)

section \<open>One block\<close>

lemma block_used_set:
  assumes "bitmap_api_ok B" "area_free (bitmap b) i n"
  shows "block_used (b\<lparr>bitmap := bitmap_set B (bitmap b) i n\<rparr>) =
         block_used b \<union> {unat (phys b) div 4096 + i ..< unat (phys b) div 4096 + i + n}"
    (is "?L = _ \<union> {?p + i ..< ?p + i + n}")
proof -
  have le: "i + n \<le> length (bitmap b)" using assms(2) by (simp add: area_free_def)
  note bits = bitmap_setD [OF assms(1) le]
  have "?L = {?p + k | k. k < length (bitmap b) \<and> (i \<le> k \<and> k < i + n \<or> bitmap b ! k)}"
    using bits by (auto simp: block_used_def)
  also have "\<dots> = block_used b \<union> {?p + k | k. i \<le> k \<and> k < i + n}"
    using le by (auto simp: block_used_def)
  also have "{?p + k | k. i \<le> k \<and> k < i + n} = {?p + i ..< ?p + i + n}"
    by (simp add: shifted_interval add.assoc)
  finally show ?thesis .
qed

lemma block_used_clear:
  assumes "bitmap_api_ok B" "i + n \<le> length (bitmap b)"
  shows "block_used (b\<lparr>bitmap := bitmap_clear B (bitmap b) i n\<rparr>) =
         block_used b - {unat (phys b) div 4096 + i ..< unat (phys b) div 4096 + i + n}"
  using bitmap_clearD [OF assms] by (auto simp: block_used_def)

lemma area_free_unused:
  "area_free (bitmap b) i n \<Longrightarrow>
   block_used b \<inter> {unat (phys b) div 4096 + i ..< unat (phys b) div 4096 + i + n} = {}"
proof -
  assume a: "area_free (bitmap b) i n"
  have "\<not> bitmap b ! k" if "i \<le> k" "k < i + n" for k
    using a that by (auto simp: area_free_def dest: spec [of _ "k - i"])
  then show ?thesis by (auto simp: block_used_def)
qed

lemma blocks_apart_used:
  assumes "block_wf b" "block_wf c" "blocks_apart b c"
  shows "{unat (phys b) div 4096 ..< unat (phys b) div 4096 + 1024} \<inter> block_used c = {}"
proof -
  have "unat (phys b) div 4096 + 1024 \<le> unat (phys c) div 4096 \<or>
        unat (phys c) div 4096 + 1024 \<le> unat (phys b) div 4096"
    using assms(3) unfolding blocks_apart_def by arith
  then show ?thesis using block_used_range [OF assms(2)] by fastforce
qed

section \<open>The pool\<close>

lemma pool_wf_update:
  "pool_wf (pre @ b # post) \<Longrightarrow> length bm = VPU_POOL_BLOCK_PAGES \<Longrightarrow>
   pool_wf (pre @ b\<lparr>bitmap := bm\<rparr> # post)"
  by (simp add: pool_wf_def block_wf_def blocks_apart_def sorted_wrt_append)

lemma pool_wf_others:
  assumes "pool_wf (pre @ b # post)"
  shows "block_wf b" and "c \<in> set pre \<union> set post \<Longrightarrow> block_wf c \<and> blocks_apart b c"
  using assms by (auto simp: pool_wf_def sorted_wrt_append list_all_iff blocks_apart_def)

lemma pool_used_split: "pool_used (pre @ b # post) = pool_used (pre @ post) \<union> block_used b"
  by (auto simp: pool_used_def)

lemma pool_used_others:
  assumes "pool_wf (pre @ b # post)"
  shows "{unat (phys b) div 4096 ..< unat (phys b) div 4096 + 1024} \<inter> pool_used (pre @ post) = {}"
  using blocks_apart_used [OF pool_wf_others(1) [OF assms]] pool_wf_others(2) [OF assms]
  by (fastforce simp: pool_used_def)

lemma region_update: "region (pre @ b\<lparr>bitmap := bm\<rparr> # post) a n = region (pre @ b # post) a n"
  by (simp add: region_def region_in_def)

lemma pool_scan_SomeD:
  assumes "pool_scan B pool n = Some (a, pool')"
    and "bitmap_api_ok B" "list_all block_wf pool" "0 < n"
  shows "\<exists>pre b post i. pool = pre @ b # post \<and> area_free (bitmap b) i n \<and> i < 1024 \<and>
     a = phys b + push_bit 12 (of_nat i) \<and>
     pool' = pre @ b\<lparr>bitmap := bitmap_set B (bitmap b) i n\<rparr> # post"
  using assms
proof (induction pool arbitrary: pool')
  case Nil
  then show ?case by simp
next
  case (Cons b bs)
  let ?i = "bitmap_find_next_zero_area B (bitmap b) 1024 0 n"
  have len: "length (bitmap b) = 1024" using Cons.prems(3) by (simp add: block_wf_def)
  show ?case
  proof (cases "?i < 1024")
    case True
    then have "area_free (bitmap b) ?i n"
      using bitmap_findD [OF Cons.prems(2,4), of "bitmap b"] len by simp
    with True Cons.prems(1) show ?thesis
      by (intro exI [of _ "[]"] exI [of _ b] exI [of _ bs] exI [of _ ?i]) (auto simp: Let_def)
  next
    case False
    then obtain bs' where "pool_scan B bs n = Some (a, bs')" "pool' = b # bs'"
      using Cons.prems(1) by (auto simp: Let_def)
    with Cons.IH [of bs'] Cons.prems(2-4) show ?thesis
      by (metis append_Cons list.pred_inject(2))
  qed
qed

lemma pool_scan_NoneD:
  assumes "pool_scan B pool n = None" "bitmap_api_ok B" "list_all block_wf pool" "0 < n"
    and "b \<in> set pool"
  shows "\<not> area_free (bitmap b) i n"
  using assms(1,3,5)
proof (induction pool)
  case Nil
  then show ?case by simp
next
  case (Cons c cs)
  have len: "length (bitmap c) = 1024" using Cons.prems(2) by (simp add: block_wf_def)
  then have "\<not> area_free (bitmap c) i n"
    using bitmap_find_noneD [OF assms(2,4), of "bitmap c"] Cons.prems(1)
    by (auto simp: Let_def split: if_splits)
  with Cons show ?case by (auto simp: Let_def split: if_splits)
qed

lemma vpu_pool_alloc_SomeD:
  assumes "vpu_pool_alloc B pool n = (a, pool')" "a \<noteq> 0" "bitmap_api_ok B" "pool_wf pool"
  obtains pre b post i where "pool = pre @ b # post" "area_free (bitmap b) i (unat (npages n))"
    "i + unat (npages n) \<le> 1024" "0 < unat (npages n)" "unat a = unat (phys b) + i * 4096"
    "pool' = pre @ b\<lparr>bitmap := bitmap_set B (bitmap b) i (unat (npages n))\<rparr> # post"
proof -
  have np: "0 < unat (npages n)" and scan: "pool_scan B pool (unat (npages n)) = Some (a, pool')"
    using assms(1,2) by (auto simp: vpu_pool_alloc_def Let_def unat_gt_0 split: if_splits option.splits)
  have wf: "list_all block_wf pool" using assms(4) by (simp add: pool_wf_def)
  from pool_scan_SomeD [OF scan assms(3) wf np] obtain pre b post i
    where *: "pool = pre @ b # post" "area_free (bitmap b) i (unat (npages n))" "i < 1024"
      "a = phys b + push_bit 12 (of_nat i)"
      "pool' = pre @ b\<lparr>bitmap := bitmap_set B (bitmap b) i (unat (npages n))\<rparr> # post"
    by blast
  have b: "block_wf b" using wf *(1) by simp
  show ?thesis
    using that [OF *(1,2) _ np _ *(5)] *(2-4) page_addr [OF b *(3)] b
    by (simp add: area_free_def block_wf_def)
qed

lemma pages_in_block:
  assumes "block_wf b" "unat a = unat (phys b) + i * 4096"
  shows "pages a n = {unat (phys b) div 4096 + i ..< unat (phys b) div 4096 + i + unat (npages n)}"
  using assms by (simp add: pages_def add.commute)

lemma vpu_pool_alloc_facts:
  assumes "vpu_pool_alloc B pool n = (a, pool')" "a \<noteq> 0" "pool_inv B pool"
  shows "pool_used pool' = pool_used pool \<union> pages a n" (is ?used)
    and "pool_used pool \<inter> pages a n = {}" (is ?fresh)
    and "region pool a n" (is ?region)
    and "region pool' c m = region pool c m" (is ?regions)
    and "pool_inv B pool'" (is ?inv)
proof -
  have api: "bitmap_api_ok B" and wf: "pool_wf pool"
    using assms(3) by (simp_all add: pool_inv_def)
  from vpu_pool_alloc_SomeD [OF assms(1,2) api wf] obtain pre b post i
    where *: "pool = pre @ b # post" "area_free (bitmap b) i (unat (npages n))"
      "i + unat (npages n) \<le> 1024" "0 < unat (npages n)" "unat a = unat (phys b) + i * 4096"
      "pool' = pre @ b\<lparr>bitmap := bitmap_set B (bitmap b) i (unat (npages n))\<rparr> # post"
    by blast
  have b: "block_wf b" using pool_wf_others(1) wf *(1) by blast
  note pg = pages_in_block [OF b *(5), of n]
  show ?used
    unfolding *(1,6) pool_used_split block_used_set [OF api *(2)] pg by blast
  have "pages a n \<inter> pool_used (pre @ post) = {}"
  proof -
    have "pages a n \<subseteq> {unat (phys b) div 4096 ..< unat (phys b) div 4096 + 1024}"
      using *(3) unfolding pg by auto
    then show ?thesis using pool_used_others [OF wf [unfolded *(1)]] by blast
  qed
  then show ?fresh
    using area_free_unused [OF *(2)] unfolding *(1) pool_used_split pg by blast
  show ?region
    unfolding region_def *(1) using *(3-5) b
    by (intro bexI [of _ b]) (simp_all add: region_in_def word_le_nat_alt word_less_nat_alt block_wf_def)
  show ?regions unfolding *(1,6) by (rule region_update)
  have "length (bitmap_set B (bitmap b) i (unat (npages n))) = 1024"
    using bitmap_setD(1) [OF api] *(2) b by (simp add: area_free_def block_wf_def)
  then show ?inv
    using pool_wf_update wf api unfolding *(1,6) pool_inv_def by blast
qed

lemma vpu_pool_alloc_fail:
  "pool_inv B pool \<Longrightarrow> vpu_pool_alloc B pool n = (0, pool') \<Longrightarrow> pool' = pool"
proof (cases "npages n = 0 \<or> of_nat VPU_POOL_BLOCK_PAGES < npages n")
  case False
  assume inv: "pool_inv B pool" and "vpu_pool_alloc B pool n = (0, pool')"
  with False have "pool_scan B pool (unat (npages n)) = None \<longrightarrow> pool' = pool"
    and scan: "pool_scan B pool (unat (npages n)) \<noteq> None \<longrightarrow>
      pool_scan B pool (unat (npages n)) = Some (0, pool')"
    by (auto simp: vpu_pool_alloc_def Let_def)
  moreover have "pool_scan B pool (unat (npages n)) \<noteq> Some (0, pool')"
  proof
    assume scan0: "pool_scan B pool (unat (npages n)) = Some (0, pool')"
    have wf: "list_all block_wf pool" and api: "bitmap_api_ok B" and np: "0 < unat (npages n)"
      using inv False by (simp_all add: pool_inv_def pool_wf_def unat_gt_0)
    from pool_scan_SomeD [OF scan0 api wf np] obtain pre b post i
      where "pool = pre @ b # post" "i < 1024" "0 = phys b + push_bit 12 (of_nat i)"
      by blast
    then have "block_wf b" "i < 1024" "phys b + push_bit 12 (of_nat i) = 0"
      using wf by simp_all
    then show False using page_addr [of b i] by (simp add: block_wf_def)
  qed
  ultimately show ?thesis by blast
qed (simp add: vpu_pool_alloc_def Let_def)

lemma block_window:
  assumes "block_wf b"
  shows "phys b \<le> a \<and> a < phys b + VPU_POOL_BLOCK_SIZE \<longleftrightarrow>
         unat (phys b) \<le> unat a \<and> unat a < unat (phys b) + 4194304"
  using assms by (simp add: block_wf_def word_le_nat_alt word_less_nat_alt unat_word_ariths)

lemma pool_unscan_SomeD:
  assumes "pool_unscan B pool a n = Some pool'" "list_all block_wf pool"
  shows "(pool' = pool \<and> (\<forall>b \<in> set pool. \<not> (phys b \<le> a \<and> a < phys b + VPU_POOL_BLOCK_SIZE))) \<or>
    (\<exists>pre b post i. pool = pre @ b # post \<and> phys b \<le> a \<and> a < phys b + VPU_POOL_BLOCK_SIZE \<and>
       i = (unat a - unat (phys b)) div 4096 \<and> i + n \<le> 1024 \<and>
       pool' = pre @ b\<lparr>bitmap := bitmap_clear B (bitmap b) i n\<rparr> # post)"
  using assms
proof (induction pool arbitrary: pool')
  case Nil
  then show ?case by simp
next
  case (Cons b bs)
  show ?case
  proof (cases "phys b \<le> a \<and> a < phys b + VPU_POOL_BLOCK_SIZE")
    case True
    then have "unat (drop_bit 12 (a - phys b)) = (unat a - unat (phys b)) div 4096"
      by (simp add: word_arith unat_sub)
    with True Cons.prems show ?thesis
      by (intro disjI2 exI [of _ "[]"] exI [of _ b] exI [of _ bs])
        (auto simp: Let_def block_wf_def split: if_splits)
  next
    case False
    then obtain bs' where bs': "pool_unscan B bs a n = Some bs'" "pool' = b # bs'"
      using Cons.prems(1) by auto
    with Cons.IH [of bs'] Cons.prems(2) show ?thesis
      using False by (metis append_Cons list.pred_inject(2) set_ConsD)
  qed
qed

lemma vpu_pool_free_inv:
  assumes "pool_inv B pool" "vpu_pool_free B pool a n = Some pool'"
  shows "pool_inv B pool' \<and> region pool' c m = region pool c m"
proof -
  have api: "bitmap_api_ok B" and wf: "pool_wf pool" and all: "list_all block_wf pool"
    using assms(1) by (simp_all add: pool_inv_def pool_wf_def)
  have "pool' = pool \<or> (\<exists>pre b post i. pool = pre @ b # post \<and> i + unat (npages n) \<le> 1024 \<and>
      pool' = pre @ b\<lparr>bitmap := bitmap_clear B (bitmap b) i (unat (npages n))\<rparr> # post)"
    using assms(2) pool_unscan_SomeD [OF _ all, of B a "unat (npages n)" pool']
    by (auto simp: vpu_pool_free_def split: if_splits)
  then consider "pool' = pool" | pre b post i where "pool = pre @ b # post"
      "i + unat (npages n) \<le> 1024"
      "pool' = pre @ b\<lparr>bitmap := bitmap_clear B (bitmap b) i (unat (npages n))\<rparr> # post"
    by blast
  then show ?thesis
  proof cases
    case 2
    then have len: "length (bitmap b) = 1024" using all by (simp add: block_wf_def)
    then have "length (bitmap_clear B (bitmap b) i (unat (npages n))) = 1024"
      using bitmap_clearD(1) [OF api, of i "unat (npages n)" "bitmap b"] 2(2) by simp
    then have "pool_inv B pool'"
      using pool_wf_update wf api 2 unfolding pool_inv_def by blast
    moreover have "region pool' c m = region pool c m"
      unfolding 2 by (rule region_update)
    ultimately show ?thesis ..
  qed (use assms(1) in simp_all)
qed

lemma region_block:
  assumes "pool_wf pool" "region pool a n"
  obtains pre b post i where "pool = pre @ b # post" "region_in b a n"
    "unat a = unat (phys b) + i * 4096" "i + unat (npages n) \<le> 1024" "0 < unat (npages n)"
proof -
  obtain b where b: "b \<in> set pool" "region_in b a n" using assms(2) by (auto simp: region_def)
  then obtain pre post where p: "pool = pre @ b # post" by (meson split_list)
  have wf: "block_wf b" using assms(1) p by (simp add: pool_wf_def)
  define i where "i = (unat a - unat (phys b)) div 4096"
  have le: "unat (phys b) \<le> unat a" and al: "unat a mod 4096 = 0" "unat (phys b) mod 4096 = 0"
    using b(2) wf by (simp_all add: region_in_def word_le_nat_alt block_wf_def)
  then have a: "unat a = unat (phys b) + i * 4096" unfolding i_def by (rule aligned_offset)
  then show ?thesis
    using that [OF p b(2) a] b(2) by (simp add: region_in_def word_less_nat_alt)
qed

lemma region_window:
  assumes "pool_wf (pre @ b # post)" "region_in b a n" "c \<in> set pre"
  shows "\<not> (phys c \<le> a \<and> a < phys c + VPU_POOL_BLOCK_SIZE)"
proof -
  have c: "block_wf c" "blocks_apart b c" using pool_wf_others(2) [OF assms(1)] assms(3) by blast+
  have "unat (phys b) \<le> unat a" "unat a < unat (phys b) + 4194304"
    using assms(2) by (auto simp: region_in_def word_le_nat_alt word_less_nat_alt)
  then show ?thesis using c(2) unfolding block_window [OF c(1)] blocks_apart_def by linarith
qed

lemma pool_unscan_skip:
  "\<forall>c \<in> set pre. \<not> (phys c \<le> a \<and> a < phys c + VPU_POOL_BLOCK_SIZE) \<Longrightarrow>
   pool_unscan B (pre @ bs) a n =
     (case pool_unscan B bs a n of None \<Rightarrow> None | Some bs' \<Rightarrow> Some (pre @ bs'))"
  by (induction pre) (auto split: option.splits)

lemma vpu_pool_free_region:
  assumes "pool_inv B pool" "region pool a n"
  obtains pool' where "vpu_pool_free B pool a n = Some pool'"
    "pool_used pool' = pool_used pool - pages a n"
proof -
  have api: "bitmap_api_ok B" and wf: "pool_wf pool" using assms(1) by (simp_all add: pool_inv_def)
  from region_block [OF wf assms(2)] obtain pre b post i
    where *: "pool = pre @ b # post" "region_in b a n" "unat a = unat (phys b) + i * 4096"
      "i + unat (npages n) \<le> 1024" "0 < unat (npages n)" by blast
  have b: "block_wf b" using pool_wf_others(1) wf *(1) by blast
  have win: "phys b \<le> a \<and> a < phys b + VPU_POOL_BLOCK_SIZE"
    unfolding block_window [OF b] using *(3-5) by simp
  then have idx: "unat (drop_bit 12 (a - phys b)) = i"
    using *(3) by (simp add: word_arith unat_sub)
  have len: "i + unat (npages n) \<le> length (bitmap b)" using *(4) b by (simp add: block_wf_def)
  let ?p = "pre @ b\<lparr>bitmap := bitmap_clear B (bitmap b) i (unat (npages n))\<rparr> # post"
  have "a \<noteq> 0" using *(3) b by (auto simp: block_wf_def)
  then have "vpu_pool_free B pool a n = Some ?p"
    using win idx len pool_unscan_skip [of pre a B "b # post"] region_window [OF wf [unfolded *(1)] *(2)]
    unfolding *(1) by (auto simp: vpu_pool_free_def)
  moreover have "pool_used ?p = pool_used pool - pages a n"
  proof -
    note pg = pages_in_block [OF b *(3), of n]
    have "pages a n \<subseteq> {unat (phys b) div 4096 ..< unat (phys b) div 4096 + 1024}"
      using *(4) unfolding pg by auto
    then have "pages a n \<inter> pool_used (pre @ post) = {}"
      using pool_used_others [OF wf [unfolded *(1)]] by blast
    then show ?thesis
      unfolding *(1) pool_used_split block_used_clear [OF api len] pg by blast
  qed
  ultimately show ?thesis by (rule that)
qed

interpretation vpool: dma_allocator "vpu_pool_alloc B" "vpu_pool_free B" pool_used region
    "pool_inv B" for B
proof (unfold_locales, goal_cases)
  case (2 p n a p')
  then show ?case
    by (cases "a = 0") (auto dest: vpu_pool_alloc_fail vpu_pool_alloc_facts(5))
next
  case (6 p n a p' b m)
  then show ?case
    by (cases "a = 0") (auto dest: vpu_pool_alloc_fail vpu_pool_alloc_facts(4))
next
  case (9 p a n p')
  then show ?case using vpu_pool_free_region [of B p a n] by auto
next
  case (11 p a n)
  then show ?case
    by (auto simp: region_def region_in_def pool_inv_def pool_wf_def list_all_iff block_wf_def
        word_le_nat_alt)
qed (auto dest: vpu_pool_alloc_fail vpu_pool_alloc_facts vpu_pool_free_inv
      elim: vpu_pool_free_region)

section \<open>A bitmap library that meets the documentation\<close>

definition bitmap_lib :: bitmap_ops where
  "bitmap_lib = \<lparr>
     bitmap_find_next_zero_area = (\<lambda>m sz start n.
       case find (\<lambda>i. list_all Not (take n (drop i m))) [start ..< Suc sz - n] of
         None \<Rightarrow> sz | Some i \<Rightarrow> i),
     bitmap_set = (\<lambda>m s n. map (\<lambda>i. s \<le> i \<and> i < s + n \<or> m ! i) [0 ..< length m]),
     bitmap_clear = (\<lambda>m s n. map (\<lambda>i. m ! i \<and> \<not> (s \<le> i \<and> i < s + n)) [0 ..< length m])\<rparr>"

lemma area_free_take:
  "i + n \<le> length m \<Longrightarrow> list_all Not (take n (drop i m)) \<longleftrightarrow> area_free m i n"
  by (auto simp: area_free_def list_all_length)

lemma bitmap_lib_ok: "bitmap_api_ok bitmap_lib"
proof -
  have find: "if \<exists>i. area_free m i nr
      then area_free m (bitmap_find_next_zero_area bitmap_lib m (length m) 0 nr) nr
      else length m \<le> bitmap_find_next_zero_area bitmap_lib m (length m) 0 nr" if "0 < nr" for m nr
  proof (cases "find (\<lambda>i. list_all Not (take nr (drop i m))) [0 ..< Suc (length m) - nr]")
    case None
    then have "\<not> area_free m i nr" for i
      using area_free_take [of i nr m]
      by (auto simp: find_None_iff area_free_def less_diff_conv)
    with None show ?thesis by (simp add: bitmap_lib_def)
  next
    case (Some i)
    then have "i + nr \<le> length m" "list_all Not (take nr (drop i m))"
      by (auto simp: find_Some_iff less_diff_conv)
    with Some show ?thesis using area_free_take [of i nr m] by (auto simp: bitmap_lib_def)
  qed
  show ?thesis
    unfolding bitmap_api_ok_def
    by (intro conjI allI impI find) (simp_all add: bitmap_lib_def)
qed

lemma pool_wf_single:
  "0 < unat a \<Longrightarrow> unat a mod 4096 = 0 \<Longrightarrow> unat a + 4194304 < 2 ^ 32 \<Longrightarrow> length bm = 1024 \<Longrightarrow>
   pool_wf [\<lparr>phys = a, bitmap = bm\<rparr>]"
  by (simp add: pool_wf_def block_wf_def)

text \<open>A pool of one block at the start of the i.MX27 SDRAM, all pages free.\<close>

definition sdram_pool :: vpu_pool where
  "sdram_pool = [\<lparr>phys = 0xA0000000, bitmap = replicate 1024 False\<rparr>]"

lemma sdram_pool_inv: "pool_inv bitmap_lib sdram_pool"
  unfolding pool_inv_def sdram_pool_def by (simp add: bitmap_lib_ok pool_wf_single)

lemma sdram_pool_scan:
  assumes "0 < n" "n \<le> 1024"
  shows "pool_scan bitmap_lib sdram_pool n =
     Some (0xA0000000, [\<lparr>phys = 0xA0000000, bitmap = bitmap_set bitmap_lib (replicate 1024 False) 0 n\<rparr>])"
proof -
  have up: "[0 ..< 1025 - n] = 0 # [1 ..< 1025 - n]"
    using assms by (simp add: upt_rec [of 0])
  have "bitmap_find_next_zero_area bitmap_lib (replicate 1024 False) 1024 0 n = 0"
    using assms unfolding bitmap_lib_def by (simp del: upt_Suc add: up list_all_iff)
  then show ?thesis by (simp add: sdram_pool_def)
qed

lemma sdram_pool_alloc:
  "vpu_pool_alloc bitmap_lib sdram_pool 5000 = (0xA0000000,
     [\<lparr>phys = 0xA0000000, bitmap = bitmap_set bitmap_lib (replicate 1024 False) 0 2\<rparr>])"
proof -
  have "npages 5000 = 2" unfolding npages_def drop_bit_mask_out by simp
  then show ?thesis using sdram_pool_scan [of 2] by (simp add: vpu_pool_alloc_def)
qed

section \<open>Properties of the pool\<close>

text \<open>
  C21. A buffer that \<^verbatim>\<open>vpu_pool_alloc\<close> hands out is page aligned, lies inside one pool block,
  is at least as large as requested, shares no page with any buffer in use, and afterwards
  exactly its pages are in use in addition; the pool stays well formed.
\<close>

theorem vpu_pool_alloc_correct:
  assumes "pool_inv B pool" "vpu_pool_alloc B pool n = (a, pool')" "a \<noteq> 0"
  shows "pool_inv B pool' \<and> region pool a n \<and> unat a mod 4096 = 0 \<and>
         unat n \<le> card (pages a n) * 4096 \<and>
         pages a n \<inter> pool_used pool = {} \<and> pool_used pool' = pool_used pool \<union> pages a n"
proof -
  have reg: "region pool a n" by (rule vpool.alloc_region [OF assms])
  then have "unat a mod 4096 = 0" "npages n \<noteq> 0" by (auto simp: region_def region_in_def)
  then show ?thesis
    using vpool.alloc_inv [OF assms(1,2)] reg vpool.alloc_fresh [OF assms] vpool.alloc_used [OF assms]
      npages_covers [of n] by (simp add: pages_def Int_commute)
qed

theorem vpu_pool_alloc_correct_witness:
  "\<exists>pool'. pool_inv bitmap_lib sdram_pool \<and>
     vpu_pool_alloc bitmap_lib sdram_pool 5000 = (0xA0000000, pool') \<and>
     pool_used pool' = pool_used sdram_pool \<union> pages 0xA0000000 5000"
  using vpu_pool_alloc_correct [OF sdram_pool_inv sdram_pool_alloc] sdram_pool_inv
    sdram_pool_alloc by simp

text \<open>
  \<^verbatim>\<open>vpu_pool_alloc\<close> fails (returns 0, pool unchanged) exactly when the request rounds to
  no page or to more than a block, or when no block has enough free pages in a row: there is
  no spurious out-of-memory. A request within a page of \<open>2\<^sup>3\<^sup>2\<close> wraps around in
  \<^verbatim>\<open>PAGE_ALIGN\<close> and is refused.
\<close>

theorem vpu_pool_alloc_fails_iff:
  assumes "pool_inv B pool"
  shows "fst (vpu_pool_alloc B pool n) = 0 \<longleftrightarrow>
     unat n = 0 \<or> 4194304 < unat n \<or>
     (\<forall>b \<in> set pool. \<forall>i. \<not> area_free (bitmap b) i (unat (npages n)))"
proof -
  have api: "bitmap_api_ok B" and wf: "list_all block_wf pool"
    using assms by (simp_all add: pool_inv_def pool_wf_def)
  note size = npages_range [of n]
  show ?thesis
  proof (cases "unat n = 0 \<or> 4194304 < unat n")
    case True
    then show ?thesis using size by (auto simp: vpu_pool_alloc_def Let_def)
  next
    case False
    then have np: "0 < unat (npages n)" using size unsigned_0 by (metis unat_gt_0)
    show ?thesis
    proof (cases "pool_scan B pool (unat (npages n))")
      case None
      then show ?thesis
        using pool_scan_NoneD [OF None api wf np] False by (simp add: vpu_pool_alloc_def Let_def)
    next
      case (Some r)
      then have r: "vpu_pool_alloc B pool n = r"
        using False size by (simp add: vpu_pool_alloc_def Let_def)
      obtain pre b post i where "pool = pre @ b # post" "area_free (bitmap b) i (unat (npages n))"
        "i < 1024" "fst r = phys b + push_bit 12 (of_nat i)"
        using pool_scan_SomeD [of B pool _ "fst r" "snd r", OF _ api wf np] Some by auto
      moreover from this have "fst r \<noteq> 0"
        using wf page_addr [of b i] by (auto simp: block_wf_def)
      ultimately show ?thesis using r False by auto
    qed
  qed
qed

theorem vpu_pool_alloc_fails_iff_witness:
  "pool_inv bitmap_lib sdram_pool \<and> fst (vpu_pool_alloc bitmap_lib sdram_pool 0xFFFFF001) = 0"
  using vpu_pool_alloc_fails_iff [OF sdram_pool_inv, of "0xFFFFF001"] sdram_pool_inv by simp

text \<open>
  C22. Freeing a buffer with the address and size of its allocation stays inside the bitmap
  and restores the pool bit for bit.
\<close>

theorem vpu_pool_free_alloc:
  assumes "pool_inv B pool" "vpu_pool_alloc B pool n = (a, pool')" "a \<noteq> 0"
  shows "vpu_pool_free B pool' a n = Some pool"
proof -
  have api: "bitmap_api_ok B" and wf: "pool_wf pool" using assms(1) by (simp_all add: pool_inv_def)
  have wf': "pool_wf pool'" using vpool.alloc_inv [OF assms(1,2)] by (simp add: pool_inv_def)
  from vpu_pool_alloc_SomeD [OF assms(2,3) api wf] obtain pre b post i
    where *: "pool = pre @ b # post" "area_free (bitmap b) i (unat (npages n))"
      "i + unat (npages n) \<le> 1024" "0 < unat (npages n)" "unat a = unat (phys b) + i * 4096"
      "pool' = pre @ b\<lparr>bitmap := bitmap_set B (bitmap b) i (unat (npages n))\<rparr> # post"
    by blast
  let ?n = "unat (npages n)" and ?b = "b\<lparr>bitmap := bitmap_set B (bitmap b) i (unat (npages n))\<rparr>"
  have b: "block_wf b" using pool_wf_others(1) wf *(1) by blast
  have win: "phys b \<le> a \<and> a < phys b + VPU_POOL_BLOCK_SIZE"
    unfolding block_window [OF b] using *(3-5) by simp
  have reg: "region_in ?b a n"
    using *(3-5) b by (simp add: region_in_def word_le_nat_alt word_less_nat_alt block_wf_def)
  have idx: "unat (drop_bit 12 (a - phys b)) = i" using *(5) win by (simp add: word_arith unat_sub)
  have le: "i + ?n \<le> length (bitmap b)" using *(2) by (simp add: area_free_def)
  note s = bitmap_setD [OF api le]
  have le': "i + ?n \<le> length (bitmap_set B (bitmap b) i ?n)" using le s(1) by simp
  have "bitmap_clear B (bitmap_set B (bitmap b) i ?n) i ?n = bitmap b"
  proof (rule nth_equalityI)
    fix k assume "k < length (bitmap_clear B (bitmap_set B (bitmap b) i ?n) i ?n)"
    then have k: "k < length (bitmap b)" using bitmap_clearD(1) [OF api le'] s(1) by simp
    have "\<not> bitmap b ! k" if "i \<le> k" "k < i + ?n"
      using *(2) that by (auto simp: area_free_def dest: spec [of _ "k - i"])
    then show "bitmap_clear B (bitmap_set B (bitmap b) i ?n) i ?n ! k = bitmap b ! k"
      using bitmap_clearD(2) [OF api le', of k] s k by auto
  qed (use bitmap_clearD(1) [OF api le'] s(1) in simp)
  moreover have "a \<noteq> 0" by (rule assms(3))
  ultimately show ?thesis
    using pool_unscan_skip [of pre a B "?b # post" ?n] region_window [OF wf' [unfolded *(6)] reg]
      win idx le' unfolding *(1,6) by (auto simp: vpu_pool_free_def)
qed

theorem vpu_pool_free_alloc_witness:
  "\<exists>pool'. vpu_pool_alloc bitmap_lib sdram_pool 5000 = (0xA0000000, pool') \<and>
     vpu_pool_free bitmap_lib pool' 0xA0000000 5000 = Some sdram_pool"
  using vpu_pool_free_alloc [OF sdram_pool_inv sdram_pool_alloc] sdram_pool_alloc by simp

end
