(* ===== verification/PP_Scale.thy ===== *)
theory PP_Scale
  imports Prelude
begin

unbundle bit_operations_syntax

text \<open>
  The resize tables of the eMMA post-processor (\<^verbatim>\<open>src/kernel/mxc_vpu.c\<close>: \<^verbatim>\<open>pp_gcd\<close>,
  \<^verbatim>\<open>pp_scale_0d\<close>, \<^verbatim>\<open>pp_scale_1d\<close>, \<^verbatim>\<open>pp_build_resize\<close>). The hardware table
  \<^verbatim>\<open>u16 tbl[PP_TBL_MAX]\<close> with its fill index \<open>k\<close> is the list of its first \<open>k\<close> entries: the
  code only ever appends at \<open>k\<close>. The C \<^verbatim>\<open>int\<close>s are mathematical integers: a loop runs at
  most 40 times, so its positions stay below 83 times and the weight's numerator below 66 times
  the reduced sizes, and signed overflow (undefined in C) cannot arise for sizes below
  \<open>2\<^sup>2\<^sup>4\<close>, which the properties assume.
\<close>

section \<open>Greatest common divisor\<close>

function pp_gcd_loop :: "u32 \<Rightarrow> u32 \<Rightarrow> u32" where
  "pp_gcd_loop x y = (if y = 0 \<or> x mod y = 0 then y else pp_gcd_loop y (x mod y))"
  by pat_completeness auto
termination
  by (relation "measure (\<lambda>(x, y). unat y)") (auto simp: unat_mod word_less_nat_alt unat_gt_0)

declare pp_gcd_loop.simps [simp del]

text \<open>\<^verbatim>\<open>x % y\<close> faults when the smaller argument is 0; afterwards the divisor is never 0.\<close>

definition pp_gcd :: "u32 \<Rightarrow> u32 \<Rightarrow> errno + u32" where
  "pp_gcd x y =
     (let (x, y) = (if x < y then (y, x) else (x, y))
      in if y = 0 then Inl DivByZero else Inr (pp_gcd_loop x y))"

section \<open>Table entries\<close>

abbreviation PP_TBL_MAX :: nat where
  "PP_TBL_MAX \<equiv> 40"

text \<open>The weight of \<^verbatim>\<open>pp_scale_0d\<close>: scaled to 32, rounded, and moved off the raw values 1 and 32.\<close>

definition pp_weight :: "int \<Rightarrow> int \<Rightarrow> int" where
  "pp_weight coeff base =
     (let c = c_div (push_bit 5 coeff + drop_bit 1 base) base
      in if c \<ge> 31 then c - 1 else if c = 1 then c + 1 else c)"

text \<open>An output entry: \<^verbatim>\<open>(coeff << PP_BC_NXT | nxt) << 1 | 1\<close>.\<close>

definition pp_entry :: "int \<Rightarrow> int \<Rightarrow> u16" where
  "pp_entry w nxt = word_of_int (push_bit 1 (push_bit 2 w OR nxt) OR 1)"

text \<open>The \<^verbatim>\<open>do\<close> loop that appends the entries which only skip input.\<close>

function pp_skip :: "u16 list \<Rightarrow> int \<Rightarrow> errno + u16 list" where
  "pp_skip tbl nxt =
     (if PP_TBL_MAX \<le> length tbl then Inl ENOSPC
      else let tbl' = tbl @ [word_of_int (push_bit 1 (if nxt > 1 then 1 else nxt))]
           in if nxt - 1 > 0 then pp_skip tbl' (nxt - 1) else Inr tbl')"
  by pat_completeness auto
termination
  by (relation "measure (\<lambda>(tbl, nxt). nat nxt)") auto

declare pp_skip.simps [simp del]

definition pp_scale_0d :: "u16 list \<Rightarrow> int \<Rightarrow> int \<Rightarrow> int \<Rightarrow> errno + u16 list" where
  "pp_scale_0d tbl coeff base nxt =
     (if PP_TBL_MAX \<le> length tbl then Inl ENOSPC
      else if base = 0 then Inl DivByZero
      else if nxt < 4 then Inr (tbl @ [pp_entry (pp_weight coeff base) nxt])
      else pp_skip (tbl @ [pp_entry (pp_weight coeff base) 1]) (nxt - 1))"

lemma pp_skip_grows: "pp_skip tbl nxt = Inr tbl' \<Longrightarrow> length tbl < length tbl' \<and> length tbl < PP_TBL_MAX"
proof (induction tbl nxt rule: pp_skip.induct)
  case (1 tbl nxt)
  show ?case
  proof (cases "PP_TBL_MAX \<le> length tbl \<or> \<not> nxt - 1 > 0")
    case True
    then show ?thesis using "1.prems" by (auto simp: pp_skip.simps [of tbl nxt] Let_def split: if_splits)
  next
    case False
    then show ?thesis
      using "1.IH" [OF _ refl] "1.prems"
      by (auto simp: pp_skip.simps [of tbl nxt] Let_def split: if_splits)
  qed
qed

lemma pp_scale_0d_grows:
  "pp_scale_0d tbl coeff base nxt = Inr tbl' \<Longrightarrow> length tbl < length tbl' \<and> length tbl < PP_TBL_MAX"
  by (auto simp: pp_scale_0d_def Let_def split: if_splits dest: pp_skip_grows)

section \<open>One dimension\<close>

text \<open>Upscaling: \<^verbatim>\<open>inv < outv\<close>.\<close>

function pp_up_loop :: "int \<Rightarrow> int \<Rightarrow> int \<Rightarrow> u16 list \<Rightarrow> errno + u16 list" where
  "pp_up_loop inp outv v tbl =
     (let coeff = outv - v;
          v' = (if v + inp \<ge> outv then v + inp - outv else v + inp);
          nxt = (if v + inp \<ge> outv then 1 else 0)
      in case pp_scale_0d tbl coeff outv nxt of
           Inl e \<Rightarrow> Inl e
         | Inr tbl' \<Rightarrow> if v' \<noteq> 0 then pp_up_loop inp outv v' tbl' else Inr tbl')"
  by pat_completeness auto
termination
  by (relation "measure (\<lambda>(inp, outv, v, tbl). PP_TBL_MAX - length tbl)")
    (auto dest!: pp_scale_0d_grows)

declare pp_up_loop.simps [simp del]

text \<open>
  Downscaling by 2 or 4: the inner \<^verbatim>\<open>while (v >= outv)\<close>. Its divisor \<open>outv\<close> is a reduced
  output size and so at least 1; the guard \<open>0 < outv\<close> is always true.
\<close>

function pp_carry :: "int \<Rightarrow> int \<Rightarrow> int \<Rightarrow> int \<times> int" where
  "pp_carry outv v nxt = (if 0 < outv \<and> v \<ge> outv then pp_carry outv (v - outv) (nxt + 1) else (v, nxt))"
  by pat_completeness auto
termination
  by (relation "measure (\<lambda>(outv, v, nxt). nat v)") auto

declare pp_carry.simps [simp del]

function pp_half_loop :: "int \<Rightarrow> int \<Rightarrow> int \<Rightarrow> u16 list \<Rightarrow> errno + u16 list" where
  "pp_half_loop coeff outv v tbl =
     (case pp_carry outv (v + coeff) 2 of
        (v', nxt) \<Rightarrow>
          (case pp_scale_0d tbl 1 2 nxt of
             Inl e \<Rightarrow> Inl e
           | Inr tbl' \<Rightarrow> if v' \<noteq> 0 then pp_half_loop coeff outv v' tbl' else Inr tbl'))"
  by pat_completeness auto
termination
  by (relation "measure (\<lambda>(coeff, outv, v, tbl). PP_TBL_MAX - length tbl)")
    (auto dest!: pp_scale_0d_grows)

declare pp_half_loop.simps [simp del]

text \<open>Downscaling by less than 2: the inner \<^verbatim>\<open>for (nxt = 0; v < out_pos; nxt++)\<close>.\<close>

function pp_advance :: "int \<Rightarrow> int \<Rightarrow> int \<Rightarrow> int \<Rightarrow> int \<Rightarrow> int \<times> int \<times> int" where
  "pp_advance in_pos_inc out_pos v carry nxt =
     (if 0 < in_pos_inc \<and> v < out_pos
      then pp_advance in_pos_inc out_pos (v + in_pos_inc) (carry - in_pos_inc) (nxt + 1)
      else (v, carry, nxt))"
  by pat_completeness auto
termination
  by (relation "measure (\<lambda>(in_pos_inc, out_pos, v, carry, nxt). nat (out_pos - v))") auto

declare pp_advance.simps [simp del]

function pp_mid_loop :: "int \<Rightarrow> int \<Rightarrow> int \<Rightarrow> int \<Rightarrow> int \<Rightarrow> u16 list \<Rightarrow> errno + u16 list" where
  "pp_mid_loop inp outv v out_pos carry tbl =
     (let coeff = v - out_pos;
          out_pos' = out_pos + 2 * inp
      in case pp_advance (2 * outv) out_pos' v (carry + 2 * inp) 0 of
           (v', carry', nxt) \<Rightarrow>
             (case pp_scale_0d tbl coeff (2 * outv) nxt of
                Inl e \<Rightarrow> Inl e
              | Inr tbl' \<Rightarrow>
                  if carry' \<noteq> inp - outv then pp_mid_loop inp outv v' out_pos' carry' tbl'
                  else Inr tbl'))"
  by pat_completeness auto
termination
  by (relation "measure (\<lambda>(inp, outv, v, out_pos, carry, tbl). PP_TBL_MAX - length tbl)")
    (auto dest!: pp_scale_0d_grows)

declare pp_mid_loop.simps [simp del]

definition pp_scale_1d :: "u16 list \<Rightarrow> int \<Rightarrow> int \<Rightarrow> errno + u16 list" where
  "pp_scale_1d tbl inp outv =
     (if inp = outv then pp_scale_0d tbl 1 1 1
      else if inp < outv then pp_up_loop inp outv 0 tbl
      else if inp \<ge> 2 * outv then
        (if inp \<noteq> 2 * outv \<and> inp \<noteq> 4 * outv then Inl EOPNOTSUPP
         else pp_half_loop (inp - 2 * outv) outv 0 tbl)
      else pp_mid_loop inp outv (outv + 2 * outv) inp (inp - outv) tbl)"

section \<open>Both dimensions\<close>

record pp_resize =
  rz_tbl :: "u16 list"
  rz_index :: u32

text \<open>
  \<^verbatim>\<open>*index_reg\<close>: \<^verbatim>\<open>((hlen - 1) << 16) | (hlen << 8) | (vlen - 1)\<close>; a table shared by both
  dimensions starts at 0 and leaves the middle field out.
\<close>

definition pp_index :: "nat \<Rightarrow> nat \<Rightarrow> nat \<Rightarrow> u32" where
  "pp_index h s e = push_bit 16 (of_nat h) OR push_bit 8 (of_nat s) OR of_nat e"

definition pp_build_resize :: "u32 \<Rightarrow> u32 \<Rightarrow> u32 \<Rightarrow> u32 \<Rightarrow> errno + pp_resize" where
  "pp_build_resize src_w src_h dst_w dst_h =
     (case pp_gcd src_w dst_w of Inl e \<Rightarrow> Inl e | Inr gw \<Rightarrow>
      case pp_gcd src_h dst_h of Inl e \<Rightarrow> Inl e | Inr gh \<Rightarrow>
      let hn = sint (src_w div gw); hd' = sint (dst_w div gw);
          vn = sint (src_h div gh); vd' = sint (dst_h div gh)
      in if hd' > 4 * hn \<or> vd' > 4 * vn then Inl EOPNOTSUPP
         else if (hn > 2 * hd' \<and> hn \<noteq> 4 * hd') \<or> (vn > 2 * vd' \<and> vn \<noteq> 4 * vd') then Inl EOPNOTSUPP
         else case pp_scale_1d [] hn hd' of Inl e \<Rightarrow> Inl e | Inr tbl \<Rightarrow>
           let hlen = length tbl
           in if hlen = 0 then Inl EOPNOTSUPP
              else if hn = vn \<and> hd' = vd' then
                Inr \<lparr>rz_tbl = tbl, rz_index = pp_index (hlen - 1) 0 (hlen - 1)\<rparr>
              else case pp_scale_1d tbl vn vd' of Inl e \<Rightarrow> Inl e | Inr tbl' \<Rightarrow>
                let vlen = length tbl'
                in if vlen \<le> hlen then Inl EOPNOTSUPP
                   else Inr \<lparr>rz_tbl = tbl', rz_index = pp_index (hlen - 1) hlen (vlen - 1)\<rparr>)"

section \<open>Reading a table\<close>

text \<open>
  The post-processor reads an entry as: bit 0, emit an output sample; bits 1 and 2, the number
  of input samples to step over; bits 3 to 7, the weight. The output and input samples of one
  pass over a table are what it emits and steps over in all.
\<close>

definition ent_out :: "u16 \<Rightarrow> nat" where
  "ent_out e = unat e mod 2"

definition ent_nxt :: "u16 \<Rightarrow> nat" where
  "ent_nxt e = unat e div 2 mod 4"

definition ent_weight :: "u16 \<Rightarrow> nat" where
  "ent_weight e = unat e div 8"

definition outputs :: "u16 list \<Rightarrow> nat" where
  "outputs tbl = sum_list (map ent_out tbl)"

definition inputs :: "u16 list \<Rightarrow> nat" where
  "inputs tbl = sum_list (map ent_nxt tbl)"

definition valid_entry :: "u16 \<Rightarrow> bool" where
  "valid_entry e \<longleftrightarrow> unat e < 256 \<and> ent_weight e \<noteq> 1"

lemma outputs_simps [simp]:
  "outputs [] = 0" "outputs (e # t) = ent_out e + outputs t"
  "outputs (s @ t) = outputs s + outputs t"
  by (simp_all add: outputs_def)

lemma inputs_simps [simp]:
  "inputs [] = 0" "inputs (e # t) = ent_nxt e + inputs t"
  "inputs (s @ t) = inputs s + inputs t"
  by (simp_all add: inputs_def)

lemma pp_weight_range:
  assumes "0 \<le> coeff" "coeff \<le> base" "0 < base"
  shows "0 \<le> pp_weight coeff base \<and> pp_weight coeff base \<le> 31 \<and> pp_weight coeff base \<noteq> 1"
proof -
  let ?x = "32 * coeff + base div 2"
  have b2: "0 \<le> base div 2" "base div 2 < base" using assms by auto
  then have x: "0 \<le> ?x" "?x < 33 * base" using assms by auto
  then have c: "c_div (push_bit 5 coeff + drop_bit 1 base) base = ?x div base"
    using assms by (simp add: push_bit_eq_mult drop_bit_eq_div mult.commute)
  have "0 \<le> ?x div base" using x assms by (simp add: pos_imp_zdiv_nonneg_iff)
  moreover have "?x div base < 33"
    by (rule int_div_less [OF x(2) assms(3)])
  ultimately show ?thesis unfolding pp_weight_def c Let_def by auto
qed

lemma unat_entry:
  assumes "0 \<le> x" "x < 2 ^ 16"
  shows "unat (word_of_int x :: u16) = nat x"
  using assms by (simp add: unsigned_of_int take_bit_int_eq_self)

lemma entry_value:
  assumes "0 \<le> w" "w \<le> 31" "0 \<le> n" "n < 4"
  shows "unat (pp_entry w n) = nat (8 * w + 2 * n + 1)"
proof -
  have "push_bit 2 w OR n = 4 * w + n" using int_or_low [of n 2 w] assms by simp
  moreover have "push_bit 1 (4 * w + n) OR 1 = 8 * w + 2 * n + 1"
    using int_or_low [of 1 1 "4 * w + n"] by simp
  ultimately show ?thesis
    using unat_entry [of "8 * w + 2 * n + 1"] assms by (simp add: pp_entry_def)
qed

lemma entry_fields:
  assumes "0 \<le> w" "w \<le> 31" "0 \<le> n" "n < 4"
    and e: "e = pp_entry w n"
  shows "ent_out e = 1" "ent_nxt e = nat n" "ent_weight e = nat w" "w \<noteq> 1 \<Longrightarrow> valid_entry e"
proof -
  have u: "unat e = nat (8 * w + 2 * n + 1)" unfolding e by (rule entry_value [OF assms(1-4)])
  obtain w' n' where wn: "w = int w'" "n = int n'" using assms(1,3) nonneg_int_cases by metis
  then have u': "unat e = 8 * w' + 2 * n' + 1" and "n' < 4" "w' \<le> 31" using u assms by simp_all
  then show "ent_out e = 1" "ent_nxt e = nat n" "ent_weight e = nat w"
    unfolding ent_out_def ent_nxt_def ent_weight_def wn nat_int by presburger+
  then show "w \<noteq> 1 \<Longrightarrow> valid_entry e"
    using u' wn \<open>n' < 4\<close> \<open>w' \<le> 31\<close> by (simp add: valid_entry_def)
qed

lemma pp_scale_0d_full: "PP_TBL_MAX \<le> length tbl \<Longrightarrow> pp_scale_0d tbl coeff base nxt = Inl ENOSPC"
  by (simp add: pp_scale_0d_def)

lemma pp_scale_0d_one:
  assumes "length tbl < PP_TBL_MAX" "0 \<le> coeff" "coeff \<le> base" "0 < base" "0 \<le> nxt" "nxt < 4"
  obtains e where "pp_scale_0d tbl coeff base nxt = Inr (tbl @ [e])" "ent_out e = 1"
    "ent_nxt e = nat nxt" "valid_entry e"
proof -
  note w = pp_weight_range [OF assms(2-4)]
  let ?e = "pp_entry (pp_weight coeff base) nxt"
  have "pp_scale_0d tbl coeff base nxt = Inr (tbl @ [?e])"
    using assms by (simp add: pp_scale_0d_def)
  then show ?thesis using that entry_fields [OF _ _ assms(5,6) refl, of "pp_weight coeff base"] w by blast
qed

section \<open>A pass over a table\<close>

text \<open>
  A loop of the scaler steps a phase \<open>r\<close> by \<open>step\<close> modulo \<open>M\<close> and stops when it is back
  at 0. \<open>first_return M r step m\<close>: this happens after \<open>m\<close> steps and not before.
\<close>

definition no_return :: "int \<Rightarrow> int \<Rightarrow> int \<Rightarrow> nat \<Rightarrow> bool" where
  "no_return M r step n \<longleftrightarrow> (\<forall>j. 0 < j \<and> j \<le> n \<longrightarrow> \<not> M dvd r + int j * step)"

definition first_return :: "int \<Rightarrow> int \<Rightarrow> int \<Rightarrow> nat \<Rightarrow> bool" where
  "first_return M r step m \<longleftrightarrow> 0 < m \<and> M dvd r + int m * step \<and> no_return M r step (m - 1)"

definition emits :: "int \<Rightarrow> int \<Rightarrow> int \<Rightarrow> u16 list \<Rightarrow> errno + u16 list \<Rightarrow> bool" where
  "emits M r step tbl res \<longleftrightarrow>
     (case res of
        Inl e \<Rightarrow> e = ENOSPC \<and> no_return M r step (PP_TBL_MAX - length tbl)
      | Inr tbl' \<Rightarrow> \<exists>new. tbl' = tbl @ new \<and> length tbl' \<le> PP_TBL_MAX \<and> list_all valid_entry new \<and>
          outputs new = length new \<and> first_return M r step (length new) \<and>
          int (inputs new) * M = r + int (length new) * step)"

lemma dvd_shift:
  assumes "r' = r + step - q * M" "0 < j"
  shows "M dvd r + int j * step \<longleftrightarrow> M dvd r' + int (j - 1) * step"
proof -
  have "r + int j * step = r' + int (j - 1) * step + q * M"
    using assms by (cases j) (simp_all add: algebra_simps)
  then show ?thesis by simp
qed

lemma no_return_Suc:
  assumes "r' = r + step - q * M" "\<not> M dvd r'" "no_return M r' step n"
  shows "no_return M r step (Suc n)"
  unfolding no_return_def
proof (intro allI impI)
  fix j assume j: "0 < j \<and> j \<le> Suc n"
  show "\<not> M dvd r + int j * step"
    using assms(2,3) j dvd_shift [OF assms(1), of j]
    by (cases "j = 1") (auto simp: no_return_def dest: spec [of _ "j - 1"])
qed

lemma first_return_Suc:
  assumes "r' = r + step - q * M" "\<not> M dvd r'" "first_return M r' step n"
  shows "first_return M r step (Suc n)"
  using assms no_return_Suc [OF assms(1,2), of "n - 1"] dvd_shift [OF assms(1), of "Suc n"]
  by (simp add: first_return_def)

lemma emits_full: "PP_TBL_MAX \<le> length tbl \<Longrightarrow> emits M r step tbl (Inl ENOSPC)"
  by (simp add: emits_def no_return_def)

lemma emits_last:
  assumes "length tbl < PP_TBL_MAX" "valid_entry e" "ent_out e = 1" "int (ent_nxt e) * M = r + step"
  shows "emits M r step tbl (Inr (tbl @ [e]))"
proof -
  have "first_return M r step 1"
    using assms(4) dvd_triv_right [of M "int (ent_nxt e)"] by (simp add: first_return_def no_return_def)
  then show ?thesis
    using assms by (auto simp: emits_def intro!: exI [of _ "[e]"])
qed

lemma emits_more:
  assumes "length tbl < PP_TBL_MAX" "valid_entry e" "ent_out e = 1"
    and r': "r' = r + step - int (ent_nxt e) * M" and "\<not> M dvd r'"
    and res: "emits M r' step (tbl @ [e]) res"
  shows "emits M r step tbl res"
proof (cases res)
  case (Inl err)
  then have "err = ENOSPC" "no_return M r' step (PP_TBL_MAX - Suc (length tbl))"
    using res by (simp_all add: emits_def)
  moreover have "PP_TBL_MAX - length tbl = Suc (PP_TBL_MAX - Suc (length tbl))"
    using assms(1) by simp
  ultimately show ?thesis
    using no_return_Suc [OF r' assms(5)] Inl by (simp add: emits_def)
next
  case (Inr tbl')
  then obtain new where "tbl' = tbl @ e # new" "length tbl' \<le> PP_TBL_MAX" "list_all valid_entry new"
      "outputs new = length new" "first_return M r' step (length new)"
      "int (inputs new) * M = r' + int (length new) * step"
    using res by (auto simp: emits_def)
  then show ?thesis
    unfolding emits_def Inr using first_return_Suc [OF r' assms(5)] assms(2,3) r'
    by (auto intro!: exI [of _ "e # new"] simp: algebra_simps)
qed

text \<open>From phase 0 the first return is after \<open>p\<close> steps, where \<open>q/p\<close> is \<open>step/M\<close> in lowest terms.\<close>

lemma first_return_coprime:
  assumes "coprime p q" "0 < p" "0 < k"
  shows "k * p dvd int j * (k * q) \<longleftrightarrow> p dvd int j"
proof -
  have "int j * (k * q) = k * (int j * q)" by simp
  then have "k * p dvd int j * (k * q) \<longleftrightarrow> p dvd int j * q"
    using dvd_times_left_cancel_iff [of k p "int j * q"] assms(3) by simp
  then show ?thesis using coprime_dvd_mult_left_iff [OF assms(1), of "int j"] by simp
qed

lemma emits_coprime:
  assumes em: "emits (k * int p) 0 (k * int q) tbl res" and "coprime p q" "0 < p" "0 < k"
  shows "case res of
      Inl e \<Rightarrow> e = ENOSPC \<and> PP_TBL_MAX < length tbl + p
    | Inr tbl' \<Rightarrow> \<exists>new. tbl' = tbl @ new \<and> length tbl' \<le> PP_TBL_MAX \<and> list_all valid_entry new \<and>
        length new = p \<and> outputs new = p \<and> inputs new = q"
proof -
  have co: "coprime (int p) (int q)" using assms(2) by simp
  have dv: "k * int p dvd int j * (k * int q) \<longleftrightarrow> p dvd j" for j
    using first_return_coprime [OF co _ assms(4), of j] assms(3) by simp
  show ?thesis
  proof (cases res)
    case (Inl e)
    then show ?thesis
      using em assms(3) by (auto simp: emits_def no_return_def dv dest!: spec [of _ p])
  next
    case (Inr tbl')
    then obtain new where new: "tbl' = tbl @ new" "length tbl' \<le> PP_TBL_MAX" "list_all valid_entry new"
      "outputs new = length new" "first_return (k * int p) 0 (k * int q) (length new)"
      "int (inputs new) * (k * int p) = int (length new) * (k * int q)"
      using em by (auto simp: emits_def)
    then have pos: "0 < length new" and "p dvd length new"
      and least: "\<forall>j. 0 < j \<and> j \<le> length new - 1 \<longrightarrow> \<not> p dvd j"
      by (simp_all add: first_return_def no_return_def dv)
    then have "p \<le> length new" by (simp add: dvd_imp_le)
    moreover have "\<not> p \<le> length new - 1" using least assms(3) dvd_refl by blast
    ultimately have len: "length new = p" using pos by simp
    have "int (inputs new) * int p = int q * int p" using new(6) assms(4) len by simp
    then have "inputs new = q" using assms(3) by simp
    then show ?thesis using new len Inr by auto
  qed
qed

section \<open>The three loops\<close>

lemma pp_up_loop_emits:
  assumes "0 < inp" "inp < outv" "0 \<le> v" "v < outv"
  shows "emits outv v inp tbl (pp_up_loop inp outv v tbl)"
  using assms
proof (induction inp outv v tbl rule: pp_up_loop.induct)
  case (1 inp outv v tbl)
  let ?v = "if v + inp \<ge> outv then v + inp - outv else v + inp"
  let ?n = "if v + inp \<ge> outv then 1 else 0 :: int"
  note unfold = pp_up_loop.simps [of inp outv v tbl]
  show ?case
  proof (cases "length tbl < PP_TBL_MAX")
    case False
    then show ?thesis unfolding unfold by (simp add: pp_scale_0d_full emits_full)
  next
    case True
    have c: "0 \<le> outv - v" "outv - v \<le> outv" "0 < outv" "0 \<le> ?n" "?n < 4"
      using "1.prems" by auto
    from pp_scale_0d_one [OF True c]
    obtain e where e: "pp_scale_0d tbl (outv - v) outv ?n = Inr (tbl @ [e])" "ent_out e = 1"
      "ent_nxt e = nat ?n" "valid_entry e" by blast
    have v': "?v = v + inp - int (ent_nxt e) * outv" using e(3) by auto
    have range: "0 \<le> ?v" "?v < outv" using "1.prems" by auto
    show ?thesis
    proof (cases "?v = 0")
      case True
      then show ?thesis
        unfolding unfold Let_def e(1) using emits_last [OF \<open>length tbl < PP_TBL_MAX\<close> e(4,2)] v' by simp
    next
      case False
      then have nd: "\<not> outv dvd ?v" using range zdvd_not_zless [of ?v outv] by simp
      have "emits outv ?v inp (tbl @ [e]) (pp_up_loop inp outv ?v (tbl @ [e]))"
        using "1.IH" [OF refl refl refl e(1) False] "1.prems" range by blast
      from emits_more [OF True e(4,2) v' nd this] show ?thesis
        unfolding unfold Let_def e(1) using False by simp
    qed
  qed
qed

lemma pp_advance_spec:
  assumes "0 < D" "v < out_pos"
  shows "\<exists>k. 0 < k \<and> pp_advance D out_pos v carry nxt = (v + k * D, carry - k * D, nxt + k) \<and>
     out_pos \<le> v + k * D \<and> v + k * D < out_pos + D"
  using assms
proof (induction D out_pos v carry nxt rule: pp_advance.induct)
  case (1 D out_pos v carry nxt)
  note unfold = pp_advance.simps [of D out_pos v carry nxt]
  show ?case
  proof (cases "v + D < out_pos")
    case True
    then obtain k where "0 < k" "pp_advance D out_pos (v + D) (carry - D) (nxt + 1) =
        (v + D + k * D, carry - D - k * D, nxt + 1 + k)"
      "out_pos \<le> v + D + k * D" "v + D + k * D < out_pos + D"
      using "1.IH" "1.prems" by blast
    then show ?thesis using "1.prems" unfold
      by (intro exI [of _ "k + 1"]) (simp add: algebra_simps)
  next
    case False
    then have "pp_advance D out_pos (v + D) (carry - D) (nxt + 1) = (v + D, carry - D, nxt + 1)"
      by (simp add: pp_advance.simps)
    then show ?thesis using "1.prems" False unfold by (intro exI [of _ 1]) simp
  qed
qed

lemma pp_mid_loop_emits:
  assumes "0 < outv" "outv < inp" "inp < 2 * outv" "0 \<le> v - out_pos" "v - out_pos < 2 * outv"
    and "carry = out_pos - v + 2 * outv"
  shows "emits (2 * outv) (3 * outv - inp - (v - out_pos)) (2 * inp) tbl
           (pp_mid_loop inp outv v out_pos carry tbl)"
  using assms
proof (induction inp outv v out_pos carry tbl rule: pp_mid_loop.induct)
  case (1 inp outv v out_pos carry tbl)
  let ?o = "out_pos + 2 * inp" and ?D = "2 * outv"
  have D: "0 < ?D" "v < ?o" using "1.prems" by auto
  from pp_advance_spec [OF D, of "carry + 2 * inp" 0] obtain k
    where k: "0 < k" "pp_advance ?D ?o v (carry + 2 * inp) 0 =
        (v + k * ?D, carry + 2 * inp - k * ?D, k)" "?o \<le> v + k * ?D" "v + k * ?D < ?o + ?D"
    by auto
  have "k * outv < 3 * outv" using k(4) "1.prems" by linarith
  then have k4: "k < 4" using "1.prems"(1) by (simp add: mult_less_cancel_right)
  let ?v = "v + k * ?D" and ?c = "carry + 2 * inp - k * ?D"
  let ?r = "3 * outv - inp - (?v - ?o)"
  note unfold = pp_mid_loop.simps [of inp outv v out_pos carry tbl]
  show ?case
  proof (cases "length tbl < PP_TBL_MAX")
    case False
    then show ?thesis unfolding unfold k(2) by (simp add: pp_scale_0d_full emits_full)
  next
    case True
    have c: "0 \<le> v - out_pos" "v - out_pos \<le> ?D" "0 < ?D" "0 \<le> k" "k < 4"
      using "1.prems" k(1) k4 by auto
    from pp_scale_0d_one [OF True c]
    obtain e where e: "pp_scale_0d tbl (v - out_pos) ?D k = Inr (tbl @ [e])" "ent_out e = 1"
      "ent_nxt e = nat k" "valid_entry e" by blast
    have r': "?r = 3 * outv - inp - (v - out_pos) + 2 * inp - int (ent_nxt e) * ?D"
      using e(3) k(1) by simp
    have stop: "?c = inp - outv \<longleftrightarrow> ?r = 0" using "1.prems"(6) by linarith
    show ?thesis
    proof (cases "?r = 0")
      case True
      then show ?thesis
        unfolding unfold Let_def k(2) prod.case e(1) sum.case
        using emits_last [OF \<open>length tbl < PP_TBL_MAX\<close> e(4,2)] r' stop by simp
    next
      case False
      then have go: "?c \<noteq> inp - outv" using stop by simp
      have small: "\<bar>?r\<bar> < ?D" using k(3,4) "1.prems" by linarith
      then have nd: "\<not> ?D dvd ?r" using False dvd_imp_le_int [of ?r ?D] D(1) by linarith
      have st: "0 \<le> ?v - ?o" "?v - ?o < ?D" "?c = ?o - ?v + ?D"
        using k(3,4) "1.prems"(6) by linarith+
      have "emits ?D ?r (2 * inp) (tbl @ [e]) (pp_mid_loop inp outv ?v ?o ?c (tbl @ [e]))"
        by (rule "1.IH" [OF refl refl k(2) [symmetric] refl e(1) go "1.prems"(1-3) st])
      from emits_more [OF True e(4,2) r' nd this] show ?thesis
        unfolding unfold Let_def k(2) prod.case e(1) sum.case using go by simp
    qed
  qed
qed

lemma pp_carry_values: "pp_carry 1 0 2 = (0, 2)" "pp_carry 1 2 2 = (0, 4)"
  by (simp_all add: pp_carry.simps)

lemma pp_weight_half: "pp_weight 1 2 = 16"
  by (simp add: pp_weight_def)

lemma skip_entry: "ent_out 2 = 0" "ent_nxt 2 = 1" "valid_entry 2"
  by (simp_all add: ent_out_def ent_nxt_def valid_entry_def ent_weight_def)

lemma pp_skip_three:
  "pp_skip tbl 3 = (if length tbl + 3 \<le> PP_TBL_MAX then Inr (tbl @ [2, 2, 2]) else Inl ENOSPC)"
  by (auto simp: pp_skip.simps)

section \<open>Correctness of a one-dimensional table\<close>

text \<open>The entries a ratio of \<open>q\<close> input to \<open>p\<close> output samples (in lowest terms) takes.\<close>

definition entries :: "nat \<Rightarrow> nat \<Rightarrow> nat" where
  "entries p q = (if q = 4 * p then 4 else p)"

definition supported :: "nat \<Rightarrow> nat \<Rightarrow> bool" where
  "supported p q \<longleftrightarrow> q \<le> 2 * p \<or> q = 4 * p"

definition ratio_ok :: "nat \<Rightarrow> nat \<Rightarrow> bool" where
  "ratio_ok p q \<longleftrightarrow> p \<le> 4 * q \<and> supported p q"

definition table_for :: "nat \<Rightarrow> nat \<Rightarrow> u16 list \<Rightarrow> errno + u16 list \<Rightarrow> bool" where
  "table_for p q tbl res \<longleftrightarrow>
     (case res of
        Inl e \<Rightarrow> e = ENOSPC \<and> PP_TBL_MAX < length tbl + entries p q
      | Inr tbl' \<Rightarrow> \<exists>new. tbl' = tbl @ new \<and> length tbl' \<le> PP_TBL_MAX \<and>
          length new = entries p q \<and> list_all valid_entry new \<and> outputs new = p \<and> inputs new = q)"

lemma table_one:
  assumes "length tbl < PP_TBL_MAX \<Longrightarrow> res = Inr (tbl @ [e])"
    and "\<not> length tbl < PP_TBL_MAX \<Longrightarrow> res = Inl ENOSPC"
    and "ent_out e = 1" "ent_nxt e = q" "valid_entry e" "q \<noteq> 4"
  shows "table_for 1 q tbl res"
  using assms by (cases "length tbl < PP_TBL_MAX") (auto simp: table_for_def entries_def)

lemma table_copy: "table_for 1 1 tbl (pp_scale_0d tbl 1 1 1)"
proof -
  have "pp_weight 1 1 = 31" by (simp add: pp_weight_def)
  then show ?thesis
    using entry_fields [of 31 1, OF _ _ _ _ refl] table_one [of tbl _ "pp_entry 31 1" 1]
    by (simp add: pp_scale_0d_def)
qed

lemma table_half: "table_for 1 2 tbl (pp_half_loop 0 1 0 tbl)"
proof -
  have "pp_half_loop 0 1 0 tbl = pp_scale_0d tbl 1 2 2"
    by (subst pp_half_loop.simps) (simp add: pp_carry_values split: sum.split)
  then show ?thesis
    using entry_fields [of 16 2, OF _ _ _ _ refl] table_one [of tbl _ "pp_entry 16 2" 2]
    by (simp add: pp_scale_0d_def pp_weight_half)
qed

lemma table_quarter: "table_for 1 4 tbl (pp_half_loop 2 1 0 tbl)"
proof -
  have "pp_half_loop 2 1 0 tbl = pp_scale_0d tbl 1 2 4"
    by (subst pp_half_loop.simps) (simp add: pp_carry_values split: sum.split)
  then show ?thesis
    using entry_fields [of 16 1, OF _ _ _ _ refl]
    by (auto simp: pp_scale_0d_def pp_weight_half pp_skip_three table_for_def entries_def skip_entry)
qed

lemma emits_table:
  assumes "emits (k * int p) 0 (k * int q) tbl res" "coprime p q" "0 < p" "0 < k" "q \<noteq> 4 * p"
  shows "table_for p q tbl res"
  using emits_coprime [OF assms(1-4)] assms(5)
  by (auto simp: table_for_def entries_def split: sum.splits)

lemma pp_scale_1d_table:
  assumes "coprime p q" "0 < p" "0 < q" "supported p q"
  shows "table_for p q tbl (pp_scale_1d tbl (int q) (int p))"
proof -
  consider "q = p" | "q < p" | "q = 2 * p" | "q = 4 * p" | "p < q" "q < 2 * p"
    using assms(4)
    by (cases "q = p"; cases "q < p"; cases "q = 2 * p") (auto simp: supported_def)
  then show ?thesis
  proof cases
    case 1
    then have "p = 1" using assms(1) by simp
    then show ?thesis using 1 table_copy by (simp add: pp_scale_1d_def)
  next
    case 2
    then have "emits (1 * int p) 0 (1 * int q) tbl (pp_up_loop (int q) (int p) 0 tbl)"
      using pp_up_loop_emits [of "int q" "int p" 0] assms(3) by simp
    from emits_table [OF this assms(1,2)] 2 show ?thesis by (simp add: pp_scale_1d_def)
  next
    case 3
    then have "p = 1" using assms(1) by (simp add: coprime_mult_right_iff)
    then show ?thesis using 3 table_half by (simp add: pp_scale_1d_def)
  next
    case 4
    then have "p = 1" using assms(1) by (simp add: coprime_mult_right_iff)
    then show ?thesis using 4 table_quarter by (simp add: pp_scale_1d_def)
  next
    case 5
    have "emits (2 * int p) 0 (2 * int q) tbl
        (pp_mid_loop (int q) (int p) (3 * int p) (int q) (int q - int p) tbl)"
      using pp_mid_loop_emits [of "int p" "int q" "3 * int p" "int q" "int q - int p" tbl] 5 assms(2)
      by simp
    from emits_table [OF this assms(1,2)] 5 show ?thesis by (simp add: pp_scale_1d_def)
  qed
qed

lemma pp_scale_1d_unsupported:
  "0 < p \<Longrightarrow> \<not> supported p q \<Longrightarrow> pp_scale_1d tbl (int q) (int p) = Inl EOPNOTSUPP"
  by (auto simp: pp_scale_1d_def supported_def)

section \<open>Both dimensions\<close>

lemma pp_gcd_loop_gcd: "y \<noteq> 0 \<Longrightarrow> unat (pp_gcd_loop x y) = gcd (unat x) (unat y)"
proof (induction x y rule: pp_gcd_loop.induct)
  case (1 x y)
  show ?case
  proof (cases "x mod y = 0")
    case True
    then have "unat x mod unat y = 0" by (metis unat_mod unsigned_0)
    then show ?thesis using True by (simp add: pp_gcd_loop.simps [of x y] gcd_nat.absorb2 mod_eq_0_iff_dvd)
  next
    case False
    then have "unat (pp_gcd_loop y (x mod y)) = gcd (unat y) (unat x mod unat y)"
      using "1.IH" "1.prems" by (simp add: unat_mod)
    then show ?thesis
      using False "1.prems" by (simp add: pp_gcd_loop.simps [of x y] gcd_red_nat [of "unat x"])
  qed
qed

lemma pp_gcd_Inr:
  assumes "x \<noteq> 0" "y \<noteq> 0"
  obtains g where "pp_gcd x y = Inr g" "unat g = gcd (unat x) (unat y)"
  using assms that [of "if x < y then pp_gcd_loop y x else pp_gcd_loop x y"]
  by (cases "x < y") (auto simp: pp_gcd_def pp_gcd_loop_gcd gcd.commute)

text \<open>What the hardware reads: the horizontal table ends at bits 16 to 23 of the index
  register, the vertical one runs from bits 8 to 15 to bits 0 to 7.\<close>

definition h_end :: "pp_resize \<Rightarrow> nat" where
  "h_end r = unat (rz_index r) div 65536"

definition v_start :: "pp_resize \<Rightarrow> nat" where
  "v_start r = unat (rz_index r) div 256 mod 256"

definition v_end :: "pp_resize \<Rightarrow> nat" where
  "v_end r = unat (rz_index r) mod 256"

definition h_table :: "pp_resize \<Rightarrow> u16 list" where
  "h_table r = take (Suc (h_end r)) (rz_tbl r)"

definition v_table :: "pp_resize \<Rightarrow> u16 list" where
  "v_table r = drop (v_start r) (take (Suc (v_end r)) (rz_tbl r))"

lemma index_value:
  assumes "a < 256" "b < 256" "c < 256"
  shows "unat (pp_index a b c) = a * 65536 + b * 256 + c"
proof -
  have u: "unat (of_nat k :: u32) = k" if "k < 256" for k
    using that by (simp add: unat_of_nat)
  have "unat (push_bit 8 (of_nat b) OR of_nat c :: u32) = b * 256 + c"
    using unat_or_low [of "of_nat c :: u32" 8 "of_nat b"] assms by (simp add: u)
  then show ?thesis
    using unat_or_low [of "push_bit 8 (of_nat b) OR of_nat c :: u32" 16 "of_nat a"] assms
    by (simp add: pp_index_def u or.assoc)
qed

lemma index_fields:
  assumes "rz_index r = pp_index a b c"
    and "a < 256" "b < 256" "c < 256"
  shows "h_end r = a" "v_start r = b" "v_end r = c"
proof -
  have u: "unat (rz_index r) = (a * 256 + b) * 256 + c"
    unfolding assms(1) index_value [OF assms(2-4)] by simp
  have "b * 256 + c < 65536" using assms(3,4) by simp
  then have "(a * 65536 + (b * 256 + c)) div 65536 = a" by simp
  then show "h_end r = a" by (simp add: h_end_def u)
  have dm: "(x * 256 + c) div 256 = x" "(x * 256 + c) mod 256 = c" "(x * 256 + b) mod 256 = b" for x
    using assms(3,4) by simp_all
  then show "v_start r = b" "v_end r = c" unfolding v_start_def v_end_def u by (simp_all only: dm)
qed

definition fits :: "nat \<Rightarrow> nat \<Rightarrow> bool" where
  "fits p q \<longleftrightarrow> 0 < p \<and> 0 < q \<and> coprime p q \<and> p \<le> 4 * q \<and> supported p q"

text \<open>The reduced problem: \<open>p\<close> output samples for \<open>q\<close> input samples in each dimension.\<close>

definition build_reduced :: "nat \<Rightarrow> nat \<Rightarrow> nat \<Rightarrow> nat \<Rightarrow> errno + pp_resize" where
  "build_reduced q p q' p' =
     (if int p > 4 * int q \<or> int p' > 4 * int q' then Inl EOPNOTSUPP
      else if (int q > 2 * int p \<and> int q \<noteq> 4 * int p) \<or> (int q' > 2 * int p' \<and> int q' \<noteq> 4 * int p')
      then Inl EOPNOTSUPP
      else case pp_scale_1d [] (int q) (int p) of Inl e \<Rightarrow> Inl e | Inr tbl \<Rightarrow>
        let hlen = length tbl
        in if hlen = 0 then Inl EOPNOTSUPP
           else if int q = int q' \<and> int p = int p' then
             Inr \<lparr>rz_tbl = tbl, rz_index = pp_index (hlen - 1) 0 (hlen - 1)\<rparr>
           else case pp_scale_1d tbl (int q') (int p') of Inl e \<Rightarrow> Inl e | Inr tbl' \<Rightarrow>
             let vlen = length tbl'
             in if vlen \<le> hlen then Inl EOPNOTSUPP
                else Inr \<lparr>rz_tbl = tbl', rz_index = pp_index (hlen - 1) hlen (vlen - 1)\<rparr>)"

lemma reduced_dim:
  assumes "0 < unat (s :: u32)" "0 < unat d" "unat s < 2 ^ 31" "unat d < 2 ^ 31"
    and g: "unat g = gcd (unat s) (unat d)"
  shows "sint (s div g) = int (unat s div gcd (unat s) (unat d))"
    and "sint (d div g) = int (unat d div gcd (unat s) (unat d))"
  using sint_unat [of "s div g"] sint_unat [of "d div g"] assms(3,4)
    le_less_trans [OF div_le_dividend [of "unat s" "unat g"]]
    le_less_trans [OF div_le_dividend [of "unat d" "unat g"]]
  by (simp_all add: unat_div g)

lemma pp_build_resize_reduced:
  assumes "0 < unat sw" "0 < unat dw" "0 < unat sh" "0 < unat dh"
    and "unat sw < 2 ^ 31" "unat dw < 2 ^ 31" "unat sh < 2 ^ 31" "unat dh < 2 ^ 31"
  shows "pp_build_resize sw sh dw dh =
     build_reduced (unat sw div gcd (unat sw) (unat dw)) (unat dw div gcd (unat sw) (unat dw))
                   (unat sh div gcd (unat sh) (unat dh)) (unat dh div gcd (unat sh) (unat dh))"
proof -
  have nz: "sw \<noteq> 0" "dw \<noteq> 0" "sh \<noteq> 0" "dh \<noteq> 0" using assms by auto
  obtain gw where gw: "pp_gcd sw dw = Inr gw" "unat gw = gcd (unat sw) (unat dw)"
    using pp_gcd_Inr [OF nz(1,2)] by blast
  obtain gh where gh: "pp_gcd sh dh = Inr gh" "unat gh = gcd (unat sh) (unat dh)"
    using pp_gcd_Inr [OF nz(3,4)] by blast
  note w = reduced_dim [OF assms(1,2,5,6) gw(2)] and h = reduced_dim [OF assms(3,4,7,8) gh(2)]
  show ?thesis
    unfolding pp_build_resize_def gw(1) gh(1) sum.case Let_def w h build_reduced_def ..
qed

definition resize_entries :: "nat \<Rightarrow> nat \<Rightarrow> nat \<Rightarrow> nat \<Rightarrow> nat" where
  "resize_entries q p q' p' = entries p q + (if q = q' \<and> p = p' then 0 else entries p' q')"

definition resize_ok :: "nat \<Rightarrow> nat \<Rightarrow> nat \<Rightarrow> nat \<Rightarrow> pp_resize \<Rightarrow> bool" where
  "resize_ok q p q' p' r \<longleftrightarrow>
     length (rz_tbl r) \<le> PP_TBL_MAX \<and> list_all valid_entry (rz_tbl r) \<and>
     h_end r < length (rz_tbl r) \<and> v_start r \<le> v_end r \<and> v_end r < length (rz_tbl r) \<and>
     outputs (h_table r) = p \<and> inputs (h_table r) = q \<and>
     outputs (v_table r) = p' \<and> inputs (v_table r) = q'"

lemma resize_ok_shared:
  assumes "table_for p q [] (Inr tbl)" "0 < length tbl"
  shows "resize_ok q p q p
     \<lparr>rz_tbl = tbl, rz_index = pp_index (length tbl - 1) 0 (length tbl - 1)\<rparr>"
    (is "resize_ok _ _ _ _ ?r")
proof -
  have t: "length tbl \<le> PP_TBL_MAX" "list_all valid_entry tbl" "outputs tbl = p" "inputs tbl = q"
    using assms(1) by (simp_all add: table_for_def)
  have "h_end ?r = length tbl - 1" "v_start ?r = 0" "v_end ?r = length tbl - 1"
    using index_fields [of ?r "length tbl - 1" 0 "length tbl - 1"] t(1) by simp_all
  then show ?thesis using t assms(2) by (simp add: resize_ok_def h_table_def v_table_def)
qed

lemma resize_ok_split:
  assumes "table_for p q [] (Inr tbl)" "0 < length tbl" "table_for p' q' tbl (Inr tbl')"
    and "length tbl < length tbl'"
  shows "resize_ok q p q' p'
     \<lparr>rz_tbl = tbl', rz_index = pp_index (length tbl - 1) (length tbl) (length tbl' - 1)\<rparr>"
    (is "resize_ok _ _ _ _ ?r")
proof -
  have t: "length tbl \<le> PP_TBL_MAX" "list_all valid_entry tbl" "outputs tbl = p" "inputs tbl = q"
    using assms(1) by (simp_all add: table_for_def)
  obtain new where n: "tbl' = tbl @ new" "length tbl' \<le> PP_TBL_MAX" "list_all valid_entry new"
    "outputs new = p'" "inputs new = q'"
    using assms(3) by (auto simp: table_for_def)
  have "h_end ?r = length tbl - 1" "v_start ?r = length tbl" "v_end ?r = length tbl' - 1"
    using index_fields [of ?r "length tbl - 1" "length tbl" "length tbl' - 1"] t(1) n(2) by simp_all
  then show ?thesis
    using t n assms(2,4)
    by (cases tbl; cases new) (auto simp: resize_ok_def h_table_def v_table_def)
qed

lemma build_reduced_spec:
  assumes "fits p q" "fits p' q'"
  shows "case build_reduced q p q' p' of
      Inl e \<Rightarrow> e = ENOSPC \<and> PP_TBL_MAX < resize_entries q p q' p'
    | Inr r \<Rightarrow> resize_ok q p q' p' r \<and> resize_entries q p q' p' \<le> PP_TBL_MAX"
proof -
  have h: "table_for p q tbl (pp_scale_1d tbl (int q) (int p))"
    and v: "table_for p' q' tbl (pp_scale_1d tbl (int q') (int p'))" for tbl
    using assms by (auto simp: fits_def intro: pp_scale_1d_table)
  have ratio: "\<not> (int p > 4 * int q \<or> int p' > 4 * int q')"
    "\<not> ((int q > 2 * int p \<and> int q \<noteq> 4 * int p) \<or> (int q' > 2 * int p' \<and> int q' \<noteq> 4 * int p'))"
    using assms by (auto simp: fits_def supported_def)
  have pos: "0 < entries p q" "0 < entries p' q'" using assms by (auto simp: fits_def entries_def)
  show ?thesis
  proof (cases "pp_scale_1d [] (int q) (int p)")
    case (Inl e)
    then show ?thesis
      using h [of "[]"] ratio by (auto simp: build_reduced_def table_for_def resize_entries_def)
  next
    case (Inr tbl)
    then have ht: "table_for p q [] (Inr tbl)" using h [of "[]"] by simp
    then have len: "length tbl = entries p q" "length tbl \<le> PP_TBL_MAX" by (auto simp: table_for_def)
    then have lpos: "0 < length tbl" using pos by simp
    show ?thesis
    proof (cases "q = q' \<and> p = p'")
      case True
      then show ?thesis
        using resize_ok_shared [OF ht lpos] Inr ratio len lpos
        by (auto simp: build_reduced_def resize_entries_def Let_def)
    next
      case False
      have vt: "table_for p' q' tbl (pp_scale_1d tbl (int q') (int p'))" by (rule v)
      show ?thesis
      proof (cases "pp_scale_1d tbl (int q') (int p')")
        case (Inl e)
        then show ?thesis
          using vt Inr False ratio len lpos
          by (auto simp: build_reduced_def resize_entries_def table_for_def)
      next
        case (Inr tbl')
        then have "length tbl' = length tbl + entries p' q'" "length tbl' \<le> PP_TBL_MAX"
          using vt by (auto simp: table_for_def)
        then show ?thesis
          using resize_ok_split [OF ht lpos, of p' q' tbl'] vt Inr False ratio len lpos pos
            \<open>pp_scale_1d [] (int q) (int p) = Inr tbl\<close>
          by (auto simp: build_reduced_def resize_entries_def Let_def)
      qed
    qed
  qed
qed

lemma reduced_coprime:
  assumes "0 < (a :: nat)" "0 < b"
  shows "coprime (b div gcd a b) (a div gcd a b)" "0 < a div gcd a b" "0 < b div gcd a b"
  using assms div_gcd_coprime [of b a] by (auto simp: gcd.commute div_greater_zero_iff gcd_le1_nat gcd_le2_nat)

lemma pp_build_resize_spec:
  assumes "0 < unat sw" "0 < unat dw" "0 < unat sh" "0 < unat dh"
    and "unat sw < 2 ^ 24" "unat dw < 2 ^ 24" "unat sh < 2 ^ 24" "unat dh < 2 ^ 24"
    and q: "q = unat sw div gcd (unat sw) (unat dw)" and p: "p = unat dw div gcd (unat sw) (unat dw)"
    and q': "q' = unat sh div gcd (unat sh) (unat dh)" and p': "p' = unat dh div gcd (unat sh) (unat dh)"
  shows "case pp_build_resize sw sh dw dh of
      Inl e \<Rightarrow> if ratio_ok p q \<and> ratio_ok p' q'
               then e = ENOSPC \<and> PP_TBL_MAX < resize_entries q p q' p' else e = EOPNOTSUPP
    | Inr r \<Rightarrow> ratio_ok p q \<and> ratio_ok p' q' \<and> resize_entries q p q' p' \<le> PP_TBL_MAX \<and>
               resize_ok q p q' p' r"
proof -
  have red: "pp_build_resize sw sh dw dh = build_reduced q p q' p'"
    unfolding p q p' q' using assms(1-8) by (intro pp_build_resize_reduced) simp_all
  note h = reduced_coprime [OF assms(1,2), folded q p]
    and v = reduced_coprime [OF assms(3,4), folded q' p']
  show ?thesis
  proof (cases "ratio_ok p q \<and> ratio_ok p' q'")
    case False
    then have "build_reduced q p q' p' = Inl EOPNOTSUPP"
      by (auto simp: build_reduced_def supported_def ratio_ok_def)
    with False red show ?thesis by auto
  next
    case True
    then have "fits p q" "fits p' q'" using h v by (simp_all add: fits_def ratio_ok_def)
    from build_reduced_spec [OF this] show ?thesis
      using True red by (cases "build_reduced q p q' p'") auto
  qed
qed

section \<open>Properties of the resize tables\<close>

text \<open>
  \<^verbatim>\<open>pp_gcd\<close> terminates with the greatest common divisor of two nonzero sizes; it faults
  exactly when one of them is zero.
\<close>

theorem pp_gcd_correct:
  "map_sum id unat (pp_gcd x y) =
     (if x = 0 \<or> y = 0 then Inl DivByZero else Inr (gcd (unat x) (unat y)))"
proof (cases "x = 0 \<or> y = 0")
  case True
  then show ?thesis by (cases "x < y") (auto simp: pp_gcd_def word_gt_0)
next
  case False
  then obtain g where "pp_gcd x y = Inr g" "unat g = gcd (unat x) (unat y)"
    using pp_gcd_Inr by blast
  with False show ?thesis by simp
qed

text \<open>
  One-dimensional scaling is exact: for a ratio in lowest terms of \<open>q\<close> input to \<open>p\<close>
  output samples that the hardware supports (any upscale, downscale up to 2, exactly 4), the
  appended entries emit exactly \<open>p\<close> output samples and step over exactly \<open>q\<close> input samples,
  every entry has a weight the hardware accepts and fits 8 bits, the table never grows past 40
  entries, and the only failure is \<^verbatim>\<open>-ENOSPC\<close>, exactly when the entries do not fit.
\<close>

theorem pp_scale_1d_exact:
  assumes "coprime p q" "0 < p" "0 < q" "supported p q" "length tbl \<le> PP_TBL_MAX"
  shows "case pp_scale_1d tbl (int q) (int p) of
      Inl e \<Rightarrow> e = ENOSPC \<and> PP_TBL_MAX < length tbl + entries p q
    | Inr tbl' \<Rightarrow> \<exists>new. tbl' = tbl @ new \<and> length tbl' \<le> PP_TBL_MAX \<and> length new = entries p q \<and>
        list_all valid_entry new \<and> outputs new = p \<and> inputs new = q"
  using pp_scale_1d_table [OF assms(1-4)] by (simp add: table_for_def)

theorem pp_scale_1d_exact_witness:
  "\<exists>tbl'. pp_scale_1d [] 4 5 = Inr tbl' \<and> length tbl' = 5 \<and> outputs tbl' = 5 \<and> inputs tbl' = 4"
proof -
  have "coprime (5 :: nat) 4" by (simp add: coprime_iff_gcd_eq_1 gcd_non_0_nat)
  from pp_scale_1d_exact [OF this, of "[]"] show ?thesis
    by (simp add: supported_def entries_def split: sum.splits)
qed

text \<open>
  C23. \<^verbatim>\<open>pp_build_resize\<close> on nonzero sizes below \<open>2\<^sup>2\<^sup>4\<close>: it succeeds exactly when both reduced
  ratios are within the hardware limits (upscale at most 4, downscale at most 2 or exactly 4)
  and the entries of both dimensions fit the 40-entry table; otherwise it returns
  \<^verbatim>\<open>-EOPNOTSUPP\<close> for a ratio and \<^verbatim>\<open>-ENOSPC\<close> for the table. On success the index register
  delimits a horizontal and a vertical table inside the entries written, and each emits and
  steps over exactly the reduced output and input sizes.
\<close>

theorem pp_build_resize_correct:
  assumes "0 < unat sw" "0 < unat dw" "0 < unat sh" "0 < unat dh"
    and "unat sw < 2 ^ 24" "unat dw < 2 ^ 24" "unat sh < 2 ^ 24" "unat dh < 2 ^ 24"
    and q: "q = unat sw div gcd (unat sw) (unat dw)" and p: "p = unat dw div gcd (unat sw) (unat dw)"
    and q': "q' = unat sh div gcd (unat sh) (unat dh)" and p': "p' = unat dh div gcd (unat sh) (unat dh)"
  shows "case pp_build_resize sw sh dw dh of
      Inl e \<Rightarrow> if ratio_ok p q \<and> ratio_ok p' q'
               then e = ENOSPC \<and> PP_TBL_MAX < resize_entries q p q' p' else e = EOPNOTSUPP
    | Inr r \<Rightarrow> ratio_ok p q \<and> ratio_ok p' q' \<and> resize_entries q p q' p' \<le> PP_TBL_MAX \<and>
               resize_ok q p q' p' r"
  by (rule pp_build_resize_spec [OF assms])

theorem pp_build_resize_correct_witness:
  "\<exists>r. pp_build_resize 720 480 800 480 = Inr r \<and> resize_ok 9 10 1 1 r"
proof -
  have g: "gcd 720 (800 :: nat) = 80" by (simp add: gcd_non_0_nat)
  have "case pp_build_resize 720 480 800 480 of
      Inl e \<Rightarrow> if ratio_ok 10 9 \<and> ratio_ok 1 1
               then e = ENOSPC \<and> PP_TBL_MAX < resize_entries 9 10 1 1 else e = EOPNOTSUPP
    | Inr r \<Rightarrow> ratio_ok 10 9 \<and> ratio_ok 1 1 \<and> resize_entries 9 10 1 1 \<le> PP_TBL_MAX \<and>
               resize_ok 9 10 1 1 r"
    by (rule pp_build_resize_correct) (simp_all add: g)
  then show ?thesis
    by (simp add: ratio_ok_def supported_def resize_entries_def entries_def split: sum.splits)
qed

end
