(* ===== verification/PP_Convert.thy ===== *)
theory PP_Convert
  imports PP_Scale
begin

unbundle bit_operations_syntax

text \<open>
  The eMMA post-processor operations of \<^verbatim>\<open>src/kernel/mxc_vpu.c\<close>: the interrupt handler, the
  colour-coefficient check, the hardware reset and \<^verbatim>\<open>pp_convert\<close>. Register reads return
  whatever the device answers: the parameter \<open>rd n off\<close> is the value of the \<open>n\<close>-th read,
  from offset \<open>off\<close>. Register writes are logged in order. What happens while the driver
  sleeps is the parameter \<open>ev\<close>.
\<close>

section \<open>State\<close>

record vpu_pp_csc =
  c0 :: u32
  c1 :: u32
  c2 :: u32
  c3 :: u32
  c4 :: u32
  x0 :: u32

text \<open>
  The conversion requests of the two eMMA blocks, with the fields that \<^verbatim>\<open>pp_convert\<close> and
  \<^verbatim>\<open>prp_convert\<close> read and that \<^verbatim>\<open>vpu_stream.c\<close> passes.
\<close>

record convert_args =
  src_y :: u32
  src_w :: u32
  src_h :: u32
  src_stride :: u32
  dst_rgb :: u32
  dst_w :: u32
  dst_h :: u32
  dst_stride :: u32
  dst_bpp :: u32

record vpu_pp_convert = convert_args +
  src_qp :: u32

record pp_state =
  pp_base :: bool
  pp_lock :: bool
  pp_status :: u32
  pp_done :: bool
  pp_csc :: vpu_pp_csc
  ccm_base :: bool
  ccm :: "u32 \<Rightarrow> u32"
  pp_reads :: nat
  pp_log :: "(u32 \<times> u32) list"

definition pp_csc_default :: vpu_pp_csc where
  "pp_csc_default = \<lparr>c0 = 0x95, c1 = 0xcc, c2 = 0x32, c3 = 0x68, c4 = 0x104, x0 = 1\<rparr>"

abbreviation (input) "PP_CNTL \<equiv> 0x00 :: u32"
abbreviation (input) "PP_INTRCNTL \<equiv> 0x04 :: u32"
abbreviation (input) "PP_INTRSTATUS \<equiv> 0x08 :: u32"
abbreviation (input) "PP_SOURCE_Y_PTR \<equiv> 0x0c :: u32"
abbreviation (input) "PP_SOURCE_CB_PTR \<equiv> 0x10 :: u32"
abbreviation (input) "PP_SOURCE_CR_PTR \<equiv> 0x14 :: u32"
abbreviation (input) "PP_DEST_RGB_PTR \<equiv> 0x18 :: u32"
abbreviation (input) "PP_QUANTIZER_PTR \<equiv> 0x1c :: u32"
abbreviation (input) "PP_PROCESS_PARA \<equiv> 0x20 :: u32"
abbreviation (input) "PP_FRAME_WIDTH \<equiv> 0x24 :: u32"
abbreviation (input) "PP_DISPLAY_WIDTH \<equiv> 0x28 :: u32"
abbreviation (input) "PP_IMAGE_SIZE \<equiv> 0x2c :: u32"
abbreviation (input) "PP_DEST_FRAME_FMT_CNTL \<equiv> 0x30 :: u32"
abbreviation (input) "PP_RESIZE_INDEX \<equiv> 0x34 :: u32"
abbreviation (input) "PP_CSC_COEF_123 \<equiv> 0x38 :: u32"
abbreviation (input) "PP_CSC_COEF_4 \<equiv> 0x3c :: u32"
abbreviation (input) "PP_RESIZE_COEF_TBL \<equiv> 0x100 :: u32"
abbreviation (input) "PP_CNTL_SWRST \<equiv> 0x100 :: u32"
abbreviation (input) "PP_CNTL_CSC_TABLE_A0 \<equiv> 0x20 :: u32"
abbreviation (input) "PP_CNTL_CSCEN \<equiv> 0x10 :: u32"
abbreviation (input) "PP_CNTL_PP_EN \<equiv> 0x01 :: u32"
abbreviation (input) "PP_INTR_ERR \<equiv> 4 :: u32"
abbreviation (input) "PP_INTR_FRAME \<equiv> 1 :: u32"

section \<open>Register access\<close>

definition PPW :: "u32 \<Rightarrow> u32 \<Rightarrow> 's pp_state_scheme \<Rightarrow> 's pp_state_scheme" where
  "PPW off v s = s\<lparr>pp_log := pp_log s @ [(off, v)]\<rparr>"

definition PPR :: "(nat \<Rightarrow> u32 \<Rightarrow> u32) \<Rightarrow> u32 \<Rightarrow> 's pp_state_scheme \<Rightarrow> u32 \<times> 's pp_state_scheme" where
  "PPR rd off s = (rd (pp_reads s) off, s\<lparr>pp_reads := Suc (pp_reads s)\<rparr>)"

definition emma_force_clk_on :: "'s pp_state_scheme \<Rightarrow> 's pp_state_scheme" where
  "emma_force_clk_on s =
     (if ccm_base s
      then let m = (ccm s)(0x20 := ccm s 0x20 OR push_bit 27 1)
           in s\<lparr>ccm := m(0x24 := m 0x24 OR push_bit 18 1)\<rparr>
      else s)"

section \<open>Operations\<close>

text \<open>\<^verbatim>\<open>pp_irq_handler\<close>; \<open>raw\<close> is what the status register reads.\<close>

definition pp_irq_handler :: "u32 \<Rightarrow> 's pp_state_scheme \<Rightarrow> 's pp_state_scheme" where
  "pp_irq_handler raw s =
     (let st = raw AND (PP_INTR_ERR OR PP_INTR_FRAME)
      in if st = 0 then s
         else (PPW PP_INTRSTATUS st s)\<lparr>pp_status := st, pp_done := True\<rparr>)"

definition pp_csc_valid :: "vpu_pp_csc \<Rightarrow> bool" where
  "pp_csc_valid csc \<longleftrightarrow>
     \<not> (c0 csc > 0xff \<or> c1 csc > 0xff \<or> c2 csc > 0xff \<or> c3 csc > 0xff \<or> c4 csc > 0x1ff \<or> x0 csc > 1)"

text \<open>The polling loop of \<^verbatim>\<open>pp_hw_reset\<close>: whether \<^verbatim>\<open>SWRST\<close> read as clear within \<open>n\<close> polls.\<close>

fun pp_poll_reset :: "(nat \<Rightarrow> u32 \<Rightarrow> u32) \<Rightarrow> nat \<Rightarrow> 's pp_state_scheme \<Rightarrow> bool \<times> 's pp_state_scheme" where
  "pp_poll_reset rd 0 s = (False, s)"
| "pp_poll_reset rd (Suc n) s =
     (case PPR rd PP_CNTL s of
        (v, s') \<Rightarrow> if v AND PP_CNTL_SWRST = 0 then (True, s') else pp_poll_reset rd n s')"

definition pp_hw_reset :: "(nat \<Rightarrow> u32 \<Rightarrow> u32) \<Rightarrow> 's pp_state_scheme \<Rightarrow> errno option \<times> 's pp_state_scheme" where
  "pp_hw_reset rd s =
     (case pp_poll_reset rd 1000 (PPW PP_CNTL PP_CNTL_SWRST s) of
        (False, s1) \<Rightarrow> (Some ETIME, s1)
      | (True, s1) \<Rightarrow>
          (case PPR rd PP_CNTL s1 of
             (v, s2) \<Rightarrow> if v \<noteq> 0x876 then (Some EIO, snd (PPR rd PP_CNTL s2))
                         else (None, PPW PP_INTRSTATUS (PP_INTR_ERR OR PP_INTR_FRAME) s2)))"

text \<open>
  \<^verbatim>\<open>wait_event_interruptible_timeout(pp_queue, pp_done != 0, ...)\<close>: an interrupt whose status
  reads \<open>raw\<close>, the timeout, or a signal. The result is the remaining time (positive), 0, or
  \<^verbatim>\<open>-ERESTARTSYS\<close>.
\<close>

datatype wait_event = Irq u32 | Timeout | Signal

definition pp_wait :: "wait_event \<Rightarrow> 's pp_state_scheme \<Rightarrow> int \<times> 's pp_state_scheme" where
  "pp_wait ev s =
     (case ev of
        Irq raw \<Rightarrow> let s' = pp_irq_handler raw s in (if pp_done s' then 1 else 0, s')
      | Timeout \<Rightarrow> (0, s)
      | Signal \<Rightarrow> (errno_code ERESTARTSYS, s))"

text \<open>The argument checks at the head of \<^verbatim>\<open>pp_convert\<close>, up to the resize table.\<close>

definition eff_bpp :: "'a convert_args_scheme \<Rightarrow> u32" where
  "eff_bpp c = (if dst_bpp c \<noteq> 0 then dst_bpp c else 16)"

definition pp_check :: "bool \<Rightarrow> vpu_pp_convert \<Rightarrow> errno option" where
  "pp_check mapped c =
     (let bpp = eff_bpp c; dst_bytes = bpp div 8
      in if bpp = 32 \<and> (src_w c \<noteq> dst_w c \<or> src_h c \<noteq> dst_h c) then Some EOPNOTSUPP
         else if \<not> mapped then Some ENODEV
         else if src_w c < 32 \<or> src_h c < 32 \<or> dst_w c < 8 \<or> dst_h c < 8 then Some EINVAL
         else if src_w c AND 7 \<noteq> 0 \<or> src_h c AND 7 \<noteq> 0 \<or> src_stride c AND 7 \<noteq> 0 then Some EINVAL
         else if dst_w c AND 1 \<noteq> 0 \<or> dst_h c AND 1 \<noteq> 0 \<or> dst_stride c AND (dst_bytes - 1) \<noteq> 0
         then Some EINVAL
         else if (src_y c OR dst_rgb c) AND 3 \<noteq> 0 then Some EINVAL
         else if src_stride c < src_w c \<or> dst_stride c < dst_w c * dst_bytes then Some EINVAL
         else None)"

text \<open>The destination pixel format and the output mode bits derived from it.\<close>

definition pp_fmt :: "u32 \<Rightarrow> u32" where
  "pp_fmt bpp =
     (if bpp = 32
      then push_bit 26 18 OR push_bit 21 10 OR push_bit 16 2 OR push_bit 8 6 OR push_bit 4 6 OR 6
      else push_bit 26 11 OR push_bit 21 5 OR push_bit 16 0 OR push_bit 8 5 OR push_bit 4 6 OR 5)"

definition pp_mode :: "u32 \<Rightarrow> u32 \<Rightarrow> u32" where
  "pp_mode bpp fmt =
     (let red_off = drop_bit 26 fmt AND 0x3f; grn_off = drop_bit 21 fmt AND 0x1f;
          blu_off = drop_bit 16 fmt AND 0x1f; red_wid = drop_bit 8 fmt AND 0xf;
          grn_wid = drop_bit 4 fmt AND 0xf; blu_wid = fmt AND 0xf;
          w = red_off + red_wid;
          w2 = blu_off + blu_wid;
          w = (if w < w2 then w2 else w);
          w2 = grn_off + grn_wid;
          w = (if w < w2 then w2 else w)
      in if bpp = 32 then 0
         else if w > 16 then push_bit 7 24
         else if w > 8 then push_bit 7 16
         else push_bit 7 8)"

definition pp_cntl :: "u32 \<Rightarrow> vpu_pp_convert \<Rightarrow> u32" where
  "pp_cntl cur c =
     (let cntl = cur AND NOT (if src_qp c \<noteq> 0 then 0x34 else 0x36);
          cntl = (if src_qp c \<noteq> 0 then cntl OR 2 else cntl);
          cntl = cntl AND NOT 0xC00;
          cntl = cntl OR pp_mode (eff_bpp c) (pp_fmt (eff_bpp c));
          cntl = cntl OR PP_CNTL_CSCEN
      in cntl OR (PP_CNTL_CSC_TABLE_A0 OR PP_CNTL_PP_EN))"

fun pp_write_table :: "nat \<Rightarrow> u16 list \<Rightarrow> 's pp_state_scheme \<Rightarrow> 's pp_state_scheme" where
  "pp_write_table i [] s = s"
| "pp_write_table i (e # tbl) s =
     pp_write_table (Suc i) tbl (PPW (PP_RESIZE_COEF_TBL + of_nat (i * 4)) (ucast e) s)"

text \<open>The programming of the block between the reset and the start bit.\<close>

definition pp_program :: "vpu_pp_convert \<Rightarrow> pp_resize \<Rightarrow> 's pp_state_scheme \<Rightarrow> 's pp_state_scheme" where
  "pp_program c r s =
     (let csc = pp_csc s;
          src_layout_h = (src_h c + 15) AND NOT 15;
          ysz = src_stride c * src_layout_h;
          s = PPW PP_SOURCE_Y_PTR (src_y c) s;
          s = PPW PP_SOURCE_CB_PTR (src_y c + ysz) s;
          s = PPW PP_SOURCE_CR_PTR (src_y c + ysz + drop_bit 2 ysz) s;
          s = PPW PP_DEST_RGB_PTR (dst_rgb c) s;
          s = PPW PP_QUANTIZER_PTR (src_qp c) s;
          s = PPW PP_PROCESS_PARA (push_bit 16 (src_w c) OR src_h c) s;
          s = PPW PP_FRAME_WIDTH (src_stride c) s;
          s = PPW PP_DISPLAY_WIDTH (dst_stride c) s;
          s = PPW PP_IMAGE_SIZE (push_bit 16 (dst_w c) OR dst_h c) s;
          s = PPW PP_DEST_FRAME_FMT_CNTL (pp_fmt (eff_bpp c)) s;
          s = PPW PP_CSC_COEF_123 (push_bit 24 (c0 csc) OR push_bit 16 (c1 csc) OR
                                   push_bit 8 (c2 csc) OR c3 csc) s;
          s = PPW PP_CSC_COEF_4 ((if x0 csc \<noteq> 0 then push_bit 9 1 else 0) OR c4 csc) s;
          s = PPW PP_RESIZE_INDEX (rz_index r) s;
          s = pp_write_table 0 (rz_tbl r) s
      in (PPW PP_INTRCNTL (PP_INTR_ERR OR PP_INTR_FRAME) s)\<lparr>pp_status := 0, pp_done := False\<rparr>)"

definition pp_convert ::
    "(nat \<Rightarrow> u32 \<Rightarrow> u32) \<Rightarrow> wait_event \<Rightarrow> vpu_pp_convert \<Rightarrow> 's pp_state_scheme \<Rightarrow> errno option \<times> 's pp_state_scheme" where
  "pp_convert rd ev c s =
     (case pp_check (pp_base s) c of Some e \<Rightarrow> (Some e, s) | None \<Rightarrow>
      case pp_build_resize (src_w c) (src_h c) (dst_w c) (dst_h c) of
        Inl e \<Rightarrow> (Some (if e = ENOSPC then EOPNOTSUPP else e), s)
      | Inr r \<Rightarrow>
        (case pp_hw_reset rd (emma_force_clk_on (s\<lparr>pp_lock := True\<rparr>)) of
           (Some e, s1) \<Rightarrow> (Some e, s1\<lparr>pp_lock := False\<rparr>)
         | (None, s1) \<Rightarrow>
           (case PPR rd PP_CNTL (pp_program c r s1) of (cur, s2) \<Rightarrow>
            case pp_wait ev (PPW PP_CNTL (pp_cntl cur c) s2) of (rc, s3) \<Rightarrow>
              if rc \<le> 0 then
                (Some (if rc < 0 then ERESTARTSYS else ETIME), (snd (pp_hw_reset rd s3))\<lparr>pp_lock := False\<rparr>)
              else if pp_status s3 AND PP_INTR_ERR \<noteq> 0 then
                (Some EIO, (snd (pp_hw_reset rd s3))\<lparr>pp_lock := False\<rparr>)
              else (None, s3\<lparr>pp_lock := False\<rparr>))))"

section \<open>What the operations leave alone\<close>

lemma PPW_simps [simp]:
  "pp_lock (PPW off v s) = pp_lock s" "pp_base (PPW off v s) = pp_base s"
  "pp_csc (PPW off v s) = pp_csc s" "pp_status (PPW off v s) = pp_status s"
  "pp_done (PPW off v s) = pp_done s" "pp_reads (PPW off v s) = pp_reads s"
  "ccm (PPW off v s) = ccm s" "ccm_base (PPW off v s) = ccm_base s"
  "pp_log (PPW off v s) = pp_log s @ [(off, v)]"
  by (simp_all add: PPW_def)

lemma PPR_simps [simp]:
  "fst (PPR rd off s) = rd (pp_reads s) off" "pp_lock (snd (PPR rd off s)) = pp_lock s"
  "pp_base (snd (PPR rd off s)) = pp_base s" "pp_csc (snd (PPR rd off s)) = pp_csc s"
  "pp_status (snd (PPR rd off s)) = pp_status s" "pp_done (snd (PPR rd off s)) = pp_done s"
  "pp_log (snd (PPR rd off s)) = pp_log s" "ccm (snd (PPR rd off s)) = ccm s"
  "ccm_base (snd (PPR rd off s)) = ccm_base s"
  by (simp_all add: PPR_def)

text \<open>The configuration of the block: mapping, lock, colour coefficients.\<close>

definition pp_config :: "'s pp_state_scheme \<Rightarrow> bool \<times> bool \<times> vpu_pp_csc" where
  "pp_config s = (pp_base s, pp_lock s, pp_csc s)"

lemma pp_config_simps [simp]:
  "pp_config (PPW off v s) = pp_config s" "pp_config (snd (PPR rd off s)) = pp_config s"
  "pp_config (emma_force_clk_on s) = pp_config s" "pp_config (pp_irq_handler raw s) = pp_config s"
  "pp_config (s\<lparr>pp_status := st, pp_done := d\<rparr>) = pp_config s"
  by (simp_all add: pp_config_def emma_force_clk_on_def pp_irq_handler_def Let_def)

lemma pp_poll_reset_frame [simp]:
  "pp_config (snd (pp_poll_reset rd n s)) = pp_config s"
  "pp_log (snd (pp_poll_reset rd n s)) = pp_log s"
  by (induction n arbitrary: s) (simp_all add: case_prod_unfold)

lemma pp_hw_reset_config [simp]: "pp_config (snd (pp_hw_reset rd s)) = pp_config s"
  using pp_poll_reset_frame(1) [of rd 1000 "PPW PP_CNTL PP_CNTL_SWRST s"]
  by (simp add: pp_hw_reset_def case_prod_unfold split: bool.split del: pp_poll_reset.simps)

lemma pp_write_table_config [simp]: "pp_config (pp_write_table i tbl s) = pp_config s"
  by (induction tbl arbitrary: i s) simp_all

lemma pp_program_config [simp]: "pp_config (pp_program c r s) = pp_config s"
  by (simp add: pp_program_def Let_def)

lemma pp_wait_config [simp]: "pp_config (snd (pp_wait ev s)) = pp_config s"
  by (simp add: pp_wait_def Let_def split: wait_event.split)

lemma pp_config_lock: "pp_config (s\<lparr>pp_lock := b\<rparr>) = (pp_base s, b, pp_csc s)"
  by (simp add: pp_config_def)

section \<open>The register programme of a conversion\<close>

definition table_writes :: "nat \<Rightarrow> u16 list \<Rightarrow> (u32 \<times> u32) list" where
  "table_writes i tbl =
     map (\<lambda>(k, e). (PP_RESIZE_COEF_TBL + of_nat (k * 4), ucast e)) (enumerate i tbl)"

lemma pp_write_table_log: "pp_log (pp_write_table i tbl s) = pp_log s @ table_writes i tbl"
  by (induction tbl arbitrary: i s) (simp_all add: table_writes_def)

definition program_writes :: "vpu_pp_csc \<Rightarrow> vpu_pp_convert \<Rightarrow> pp_resize \<Rightarrow> (u32 \<times> u32) list" where
  "program_writes csc c r =
     (let ysz = src_stride c * ((src_h c + 15) AND NOT 15)
      in [(PP_SOURCE_Y_PTR, src_y c),
          (PP_SOURCE_CB_PTR, src_y c + ysz),
          (PP_SOURCE_CR_PTR, src_y c + ysz + drop_bit 2 ysz),
          (PP_DEST_RGB_PTR, dst_rgb c),
          (PP_QUANTIZER_PTR, src_qp c),
          (PP_PROCESS_PARA, push_bit 16 (src_w c) OR src_h c),
          (PP_FRAME_WIDTH, src_stride c),
          (PP_DISPLAY_WIDTH, dst_stride c),
          (PP_IMAGE_SIZE, push_bit 16 (dst_w c) OR dst_h c),
          (PP_DEST_FRAME_FMT_CNTL, pp_fmt (eff_bpp c)),
          (PP_CSC_COEF_123, push_bit 24 (c0 csc) OR push_bit 16 (c1 csc) OR push_bit 8 (c2 csc) OR c3 csc),
          (PP_CSC_COEF_4, (if x0 csc \<noteq> 0 then push_bit 9 1 else 0) OR c4 csc),
          (PP_RESIZE_INDEX, rz_index r)]
         @ table_writes 0 (rz_tbl r) @ [(PP_INTRCNTL, PP_INTR_ERR OR PP_INTR_FRAME)])"

lemma pp_program_log: "pp_log (pp_program c r s) = pp_log s @ program_writes (pp_csc s) c r"
  by (simp add: pp_program_def program_writes_def Let_def pp_write_table_log)

lemma pp_hw_reset_ok_log:
  "pp_hw_reset rd s = (None, s') \<Longrightarrow>
   pp_log s' = pp_log s @ [(PP_CNTL, PP_CNTL_SWRST), (PP_INTRSTATUS, PP_INTR_ERR OR PP_INTR_FRAME)]"
  using pp_poll_reset_frame(2) [of rd 1000 "PPW PP_CNTL PP_CNTL_SWRST s"]
  by (auto simp: pp_hw_reset_def case_prod_unfold split: bool.splits if_splits
      simp del: pp_poll_reset.simps)

lemma emma_force_clk_on_log [simp]: "pp_log (emma_force_clk_on s) = pp_log s"
  by (simp add: emma_force_clk_on_def Let_def)

lemma pp_mode_fmt: "pp_mode bpp (pp_fmt bpp) = (if bpp = 32 then 0 else 0x800)"
  by (simp add: pp_mode_def pp_fmt_def Let_def)

lemma pp_check_mapped: "pp_check mapped c = None \<Longrightarrow> mapped"
  by (auto simp: pp_check_def Let_def split: if_splits)

lemma pp_check_sizes:
  assumes "pp_check mapped c = None"
  shows "32 \<le> unat (src_w c)" "32 \<le> unat (src_h c)" "8 \<le> unat (dst_w c)" "8 \<le> unat (dst_h c)"
    "unat (src_w c) \<le> unat (src_stride c)"
  using assms by (auto simp: pp_check_def Let_def word_less_nat_alt split: if_splits)

lemma pp_check_stride: "pp_check mapped c = None \<Longrightarrow> 2 dvd unat (src_stride c)"
proof -
  assume "pp_check mapped c = None"
  then have "src_stride c AND mask 3 = 0" by (auto simp: pp_check_def Let_def mask_eq_exp_minus_1 split: if_splits)
  then have "take_bit 3 (src_stride c) = 0" by (simp add: take_bit_eq_mask)
  then have "take_bit 3 (unat (src_stride c)) = 0" by (metis unsigned_take_bit_eq unsigned_0)
  then have "unat (src_stride c) mod 8 = 0" by (simp add: take_bit_eq_mod)
  then show ?thesis by presburger
qed

lemma pp_check_range: "e \<in> {EOPNOTSUPP, ENODEV, EINVAL}" if "pp_check mapped c = Some e"
  using that by (auto simp: pp_check_def Let_def split: if_splits)

lemma pp_hw_reset_errors: "fst (pp_hw_reset rd s) = Some e \<Longrightarrow> e \<in> {ETIME, EIO}"
  by (auto simp: pp_hw_reset_def case_prod_unfold split: bool.splits if_splits prod.splits
      simp del: pp_poll_reset.simps)

lemma pp_build_resize_errors:
  assumes "pp_build_resize sw sh dw dh = Inl e"
    and "0 < unat sw" "0 < unat dw" "0 < unat sh" "0 < unat dh"
    and "unat sw < 2 ^ 24" "unat dw < 2 ^ 24" "unat sh < 2 ^ 24" "unat dh < 2 ^ 24"
  shows "e \<in> {ENOSPC, EOPNOTSUPP}"
  using pp_build_resize_spec [OF assms(2-9) refl refl refl refl] assms(1)
  by (simp split: if_splits)

lemma pp_build_resize_length:
  assumes "pp_build_resize sw sh dw dh = Inr r"
    and "0 < unat sw" "0 < unat dw" "0 < unat sh" "0 < unat dh"
    and "unat sw < 2 ^ 24" "unat dw < 2 ^ 24" "unat sh < 2 ^ 24" "unat dh < 2 ^ 24"
  shows "length (rz_tbl r) \<le> PP_TBL_MAX"
  using pp_build_resize_spec [OF assms(2-9) refl refl refl refl] assms(1)
  by (simp add: resize_ok_def)

section \<open>A sample conversion\<close>

text \<open>An idle block, and the upscale of a 640x360 frame to an 800x450 window of a 16 bpp screen.\<close>

definition pp_idle :: pp_state where
  "pp_idle = \<lparr>pp_base = True, pp_lock = False, pp_status = 0, pp_done = False,
     pp_csc = pp_csc_default, ccm_base = True, ccm = (\<lambda>_. 0), pp_reads = 0, pp_log = []\<rparr>"

definition pp_sample :: vpu_pp_convert where
  "pp_sample = \<lparr>src_y = 0xA0000000, src_w = 640, src_h = 360, src_stride = 640,
     dst_rgb = 0xA1000000, dst_w = 800, dst_h = 450, dst_stride = 1600, dst_bpp = 16, src_qp = 0\<rparr>"

lemma pp_sample_check: "pp_check True pp_sample = None"
  by (simp add: pp_check_def eff_bpp_def pp_sample_def)

lemma pp_sample_resize: "\<exists>r. pp_build_resize 640 360 800 450 = Inr r"
proof -
  have g: "gcd 640 (800 :: nat) = 160" "gcd 360 (450 :: nat) = 90" by (simp_all add: gcd_non_0_nat)
  have "case pp_build_resize 640 360 800 450 of
      Inl e \<Rightarrow> if ratio_ok 5 4 \<and> ratio_ok 5 4
               then e = ENOSPC \<and> PP_TBL_MAX < resize_entries 4 5 4 5 else e = EOPNOTSUPP
    | Inr r \<Rightarrow> ratio_ok 5 4 \<and> ratio_ok 5 4 \<and> resize_entries 4 5 4 5 \<le> PP_TBL_MAX \<and>
               resize_ok 4 5 4 5 r"
    by (rule pp_build_resize_spec) (simp_all add: g)
  then show ?thesis
    by (simp add: ratio_ok_def supported_def resize_entries_def entries_def split: sum.splits)
qed

lemma pp_hw_reset_immediate: "fst (pp_hw_reset (\<lambda>_ _. 0x876) s) = None"
proof -
  have poll: "fst (pp_poll_reset (\<lambda>_ _. 0x876) (Suc n) t)" for n t
    by (simp add: PPR_def)
  have "fst (pp_poll_reset (\<lambda>_ _. 0x876) 1000 t)" for t
    using poll [of 999 t] by (simp del: pp_poll_reset.simps)
  then show ?thesis
    by (simp add: pp_hw_reset_def case_prod_unfold PPR_def split: bool.split
        del: pp_poll_reset.simps)
qed

lemma pp_sample_convert: "\<exists>s'. pp_convert (\<lambda>_ _. 0x876) (Irq 1) pp_sample pp_idle = (None, s')"
proof -
  obtain r where r: "pp_build_resize 640 360 800 450 = Inr r" using pp_sample_resize by blast
  have "fst (pp_convert (\<lambda>_ _. 0x876) (Irq 1) pp_sample pp_idle) = None"
    using pp_hw_reset_immediate [of "emma_force_clk_on (pp_idle\<lparr>pp_lock := True\<rparr>)"] r pp_sample_check
    by (auto simp: pp_convert_def pp_idle_def pp_sample_def pp_wait_def pp_irq_handler_def PPR_def
        case_prod_unfold split: option.split prod.split)
  then show ?thesis by (metis prod.collapse)
qed

section \<open>Properties of the conversion\<close>

text \<open>
  \<^verbatim>\<open>pp_convert\<close> gives the PP mutex back on every return path (argument errors, failed
  reset, timeout, signal, error interrupt, success), and keeps the mapping and the colour
  coefficients; a request refused by the checks or by the resize tables touches neither the
  hardware nor any state.
\<close>

theorem pp_convert_frame:
  fixes s :: "'s pp_state_scheme"
  assumes "\<not> pp_lock s"
  shows "pp_config (snd (pp_convert rd ev c s)) = pp_config s \<and>
     (pp_check (pp_base s) c \<noteq> None \<or> (\<exists>e. pp_build_resize (src_w c) (src_h c) (dst_w c) (dst_h c) = Inl e)
        \<longrightarrow> snd (pp_convert rd ev c s) = s)"
proof -
  let ?s0 = "emma_force_clk_on (s\<lparr>pp_lock := True\<rparr>)"
  have unlock: "pp_config (t\<lparr>pp_lock := False\<rparr>) = pp_config s"
    if "pp_config t = pp_config (s\<lparr>pp_lock := True\<rparr>)" for t :: "'s pp_state_scheme"
    using that assms by (simp add: pp_config_def)
  have reset: "pp_config (snd (pp_hw_reset rd ?s0)) = pp_config (s\<lparr>pp_lock := True\<rparr>)" by simp
  have "pp_config (snd (pp_convert rd ev c s)) = pp_config s"
    using reset unlock
    by (auto simp: pp_convert_def case_prod_unfold split: option.split sum.split prod.split)
  then show ?thesis
    by (auto simp: pp_convert_def split: option.split)
qed

theorem pp_convert_frame_witness:
  "\<not> pp_lock pp_idle \<and>
   pp_config (snd (pp_convert (\<lambda>_ _. 0x876) (Irq 1) pp_sample pp_idle)) = pp_config pp_idle"
  using pp_convert_frame [of pp_idle "\<lambda>_ _. 0x876" "Irq 1" pp_sample] by (simp add: pp_idle_def)

text \<open>The writes of a conversion that returns 0.\<close>

lemma pp_convert_writes:
  assumes "pp_convert rd ev c s = (None, s')"
  shows "\<exists>r raw cur. pp_base s \<and> pp_check True c = None \<and>
     pp_build_resize (src_w c) (src_h c) (dst_w c) (dst_h c) = Inr r \<and>
     ev = Irq raw \<and> raw AND 5 \<noteq> 0 \<and> raw AND PP_INTR_ERR = 0 \<and>
     pp_log s' = pp_log s @ [(PP_CNTL, PP_CNTL_SWRST), (PP_INTRSTATUS, 5)] @
       program_writes (pp_csc s) c r @ [(PP_CNTL, pp_cntl cur c), (PP_INTRSTATUS, raw AND 5)]"
proof -
  let ?s0 = "emma_force_clk_on (s\<lparr>pp_lock := True\<rparr>)"
  obtain r where chk: "pp_check (pp_base s) c = None"
    and r: "pp_build_resize (src_w c) (src_h c) (dst_w c) (dst_h c) = Inr r"
    using assms by (auto simp: pp_convert_def split: option.splits sum.splits)
  obtain s1 where s1: "pp_hw_reset rd ?s0 = (None, s1)"
    using assms chk r by (auto simp: pp_convert_def split: option.splits prod.splits)
  let ?s2 = "snd (PPR rd PP_CNTL (pp_program c r s1))"
  let ?cur = "fst (PPR rd PP_CNTL (pp_program c r s1))"
  let ?s3 = "PPW PP_CNTL (pp_cntl ?cur c) ?s2"
  have w: "0 < fst (pp_wait ev ?s3)" "pp_status (snd (pp_wait ev ?s3)) AND 4 = 0"
    and s': "s' = (snd (pp_wait ev ?s3))\<lparr>pp_lock := False\<rparr>"
    using assms chk r s1 by (auto simp: pp_convert_def case_prod_unfold not_le split: if_splits)
  have done3: "\<not> pp_done ?s3" by (simp add: pp_program_def Let_def)
  then obtain raw where raw: "ev = Irq raw" "raw AND 5 \<noteq> 0"
    and w3: "snd (pp_wait ev ?s3) = (PPW PP_INTRSTATUS (raw AND 5) ?s3)\<lparr>pp_status := raw AND 5, pp_done := True\<rparr>"
    using w(1) by (auto simp: pp_wait_def pp_irq_handler_def Let_def split: wait_event.splits if_splits)
  have "pp_csc s1 = pp_csc s"
    using pp_hw_reset_config [of rd ?s0] s1 by (simp add: pp_config_def emma_force_clk_on_def Let_def)
  then have "pp_log s' = pp_log s @ [(PP_CNTL, PP_CNTL_SWRST), (PP_INTRSTATUS, 5)] @
       program_writes (pp_csc s) c r @ [(PP_CNTL, pp_cntl ?cur c), (PP_INTRSTATUS, raw AND 5)]"
    unfolding s' w3 using pp_hw_reset_ok_log [OF s1] by (simp add: pp_program_log)
  moreover have "raw AND PP_INTR_ERR = 0" using w(2) unfolding w3 by (simp add: and.assoc)
  moreover have "pp_base s" using pp_check_mapped [OF chk] .
  ultimately show ?thesis
    using chk r raw by (intro exI [of _ r] exI [of _ raw] exI [of _ ?cur]) simp
qed

text \<open>
  C24. A conversion that returns 0 has passed every check, was completed by a frame interrupt
  without the error bit, and has issued exactly this register sequence: reset, status clear,
  the source, destination and format programme with the current colour coefficients, the
  resize table, the interrupt enables, the start word, and the status acknowledge.
\<close>

theorem pp_convert_success:
  assumes "pp_convert rd ev c s = (None, s')"
  shows "\<exists>r raw cur. pp_base s \<and> pp_check True c = None \<and>
     pp_build_resize (src_w c) (src_h c) (dst_w c) (dst_h c) = Inr r \<and>
     ev = Irq raw \<and> raw AND 5 \<noteq> 0 \<and> raw AND PP_INTR_ERR = 0 \<and>
     pp_log s' = pp_log s @ [(PP_CNTL, PP_CNTL_SWRST), (PP_INTRSTATUS, 5)] @
       program_writes (pp_csc s) c r @ [(PP_CNTL, pp_cntl cur c), (PP_INTRSTATUS, raw AND 5)]"
  by (rule pp_convert_writes [OF assms])

theorem pp_convert_success_witness:
  "\<exists>s' r cur. pp_convert (\<lambda>_ _. 0x876) (Irq 1) pp_sample pp_idle = (None, s') \<and>
     pp_log s' = [(PP_CNTL, PP_CNTL_SWRST), (PP_INTRSTATUS, 5)] @
       program_writes pp_csc_default pp_sample r @ [(PP_CNTL, pp_cntl cur pp_sample), (PP_INTRSTATUS, 1)]"
proof -
  obtain s' where s': "pp_convert (\<lambda>_ _. 0x876) (Irq 1) pp_sample pp_idle = (None, s')"
    using pp_sample_convert by blast
  from pp_convert_success [OF s'] s' show ?thesis by (auto simp: pp_idle_def)
qed

text \<open>
  The start word: for every value the control register holds, the block is enabled with
  colour conversion, deblocking is on exactly when a quantiser buffer is given, bit 2 is
  cleared, the output mode is 16 bpp (\<open>10\<close>) or, for 32 bpp requests, four-byte pixels
  (\<open>00\<close>), and no other bit changes.
\<close>

theorem pp_cntl_bits:
  "bit (pp_cntl cur c) n =
     (if n \<in> {0, 4, 5} then True
      else if n = 1 then src_qp c \<noteq> 0
      else if n \<in> {2, 10} then False
      else if n = 11 then eff_bpp c \<noteq> 32
      else bit cur n)"
proof (cases "n < 32")
  case False
  then show ?thesis by (auto dest: bit_imp_le_length)
next
  case True
  have n: "n \<in> {0, 1, 2, 3, 4, 5, 6, 7, 8, 9, 10, 11} \<or> n \<in> {12 ..< 32}"
    using True by simp arith
  then show ?thesis
  proof
    assume "n \<in> {0, 1, 2, 3, 4, 5, 6, 7, 8, 9, 10, 11}"
    then show ?thesis
      unfolding pp_cntl_def Let_def pp_mode_fmt
      by (elim insertE) (auto simp: bit_simps bit_numeral_rec)
  next
    assume n12: "n \<in> {12 ..< 32}"
    then have low: "\<not> bit k n" and high: "bit (NOT k) n" if "unat k < 2 ^ 12" for k :: u32
      using small_bit [OF that, of n] by (auto simp: bit_not_iff)
    have "\<not> bit (2 :: u32) n" "\<not> bit (0x10 :: u32) n" "\<not> bit (0x21 :: u32) n" "\<not> bit (0x800 :: u32) n"
      by (rule low, simp)+
    moreover have "bit (NOT 0x34 :: u32) n" "bit (NOT 0x36 :: u32) n" "bit (NOT 0xC00 :: u32) n"
      by (rule high, simp)+
    ultimately show ?thesis
      unfolding pp_cntl_def Let_def pp_mode_fmt using n12 by (auto simp: bit_or_iff bit_and_iff)
  qed
qed

section \<open>The planes that a conversion reads\<close>

text \<open>The value that a register holds after the writes of a log, and the bytes of a plane.\<close>

definition reg_held :: "u32 \<Rightarrow> 's pp_state_scheme \<Rightarrow> u32 option" where
  "reg_held off s = map_of (rev (pp_log s)) off"

definition plane :: "nat \<Rightarrow> nat \<Rightarrow> nat \<Rightarrow> nat \<Rightarrow> nat set" where
  "plane a stride w h = {a + y * stride + x |x y. x < w \<and> y < h}"

lemma plane_within:
  assumes "w \<le> stride" "h \<le> lines" "n = stride * lines"
  shows "plane a stride w h \<subseteq> {a ..< a + n}"
proof -
  have "y * stride + x < stride * lines" if "x < w" "y < h" for x y
  proof -
    have "y * stride + x < (y + 1) * stride" using that(1) assms(1) by simp
    also have "\<dots> \<le> lines * stride" using that(2) assms(2) by (intro mult_le_mono1) simp
    finally show ?thesis by (simp only: mult.commute)
  qed
  then show ?thesis by (auto simp: plane_def assms(3))
qed

lemma table_writes_off:
  assumes "length tbl \<le> 40" "unat off < 256"
  shows "map_of (rev (table_writes 0 tbl)) off = None"
proof -
  have "PP_RESIZE_COEF_TBL + of_nat (k * 4) \<noteq> off" if "k < length tbl" for k
  proof -
    have k: "k * 4 < 160" using that assms(1) by simp
    then have "unat (of_nat (k * 4) :: u32) = k * 4" by (simp add: unat_of_nat take_bit_nat_eq_self del: of_nat_mult)
    then have "unat (PP_RESIZE_COEF_TBL + of_nat (k * 4)) = 256 + k * 4"
      using k by (subst unat_word_ariths) simp
    then show ?thesis using assms(2) by auto
  qed
  then show ?thesis by (fastforce simp: table_writes_def map_of_eq_None_iff in_set_enumerate_eq simp del: of_nat_mult)
qed

lemma program_pointers:
  assumes "length (rz_tbl r) \<le> 40" "ysz = src_stride c * ((src_h c + 15) AND NOT 15)"
    and "pp_log s' = l @ program_writes csc c r @ [(PP_CNTL, v), (PP_INTRSTATUS, u)]"
  shows "reg_held PP_SOURCE_Y_PTR s' = Some (src_y c)" "reg_held PP_SOURCE_CB_PTR s' = Some (src_y c + ysz)"
    "reg_held PP_SOURCE_CR_PTR s' = Some (src_y c + ysz + drop_bit 2 ysz)"
    "reg_held PP_FRAME_WIDTH s' = Some (src_stride c)"
  using assms(1) by (simp_all add: reg_held_def assms(2,3) program_writes_def Let_def map_add_def table_writes_off)

lemma layout_size:
  fixes h stride :: u32
  assumes "unat stride * (unat h + 15) < 2 ^ 32" "0 < unat stride"
  shows "unat (stride * ((h + 15) AND NOT 15)) = unat stride * ((unat h + 15) div 16 * 16)"
proof -
  let ?S = "unat stride" and ?L = "(unat h + 15) div 16 * 16"
  have "unat h + 15 \<le> ?S * (unat h + 15)" using assms(2) by simp
  then have "unat h + 15 < 2 ^ 32" using assms(1) by linarith
  then have L: "unat ((h + 15) AND NOT 15) = ?L"
    using unat_mask_out [of "h + 15" 4] by (simp add: unat_word_ariths mask_eq_exp_minus_1)
  have "?S * ?L \<le> ?S * (unat h + 15)" by (intro mult_le_mono2) simp
  then have "?S * ?L < 2 ^ 32" using assms(1) by linarith
  then show ?thesis unfolding unat_word_ariths L by simp
qed

text \<open>
  C25. The planes that a conversion reads are those of the decoder's frame: a conversion that
  returns 0, of sizes below \<open>2\<^sup>2\<^sup>4\<close> and of a frame that does not wrap around the address space,
  leaves the three pointer registers at the luma plane, whose lines are counted up to a multiple
  of 16, at the \<^verbatim>\<open>Cb\<close> plane right behind it and at the \<^verbatim>\<open>Cr\<close> plane right behind that one, each of a
  quarter of the size. Reading the processed width and height from there, with the programmed
  stride for luma and half of it for chroma, never leaves a plane for the next one nor the frame.
\<close>

theorem pp_planes_disjoint:
  assumes "pp_convert rd ev c s = (None, s')"
    and "unat (src_w c) < 2 ^ 24" "unat (dst_w c) < 2 ^ 24" "unat (src_h c) < 2 ^ 24" "unat (dst_h c) < 2 ^ 24"
    and "unat (src_y c) + 2 * (unat (src_stride c) * (unat (src_h c) + 15)) < 2 ^ 32"
  shows "\<exists>Y Cb Cr S. reg_held PP_SOURCE_Y_PTR s' = Some Y \<and> reg_held PP_SOURCE_CB_PTR s' = Some Cb \<and>
     reg_held PP_SOURCE_CR_PTR s' = Some Cr \<and> reg_held PP_FRAME_WIDTH s' = Some S \<and> Y = src_y c \<and> S = src_stride c \<and>
     (let lines = (unat (src_h c) + 15) div 16 * 16; w = unat (src_w c); h = unat (src_h c)
      in unat Cb = unat Y + unat S * lines \<and> unat Cr = unat Cb + (unat S div 2) * (lines div 2) \<and>
         plane (unat Y) (unat S) w h \<subseteq> {unat Y ..< unat Cb} \<and>
         plane (unat Cb) (unat S div 2) (w div 2) (h div 2) \<subseteq> {unat Cb ..< unat Cr} \<and>
         plane (unat Cr) (unat S div 2) (w div 2) (h div 2) \<subseteq> {unat Cr ..< unat Y + 3 * (unat S * lines) div 2})"
proof -
  let ?S = "unat (src_stride c)" and ?H = "unat (src_h c)" and ?W = "unat (src_w c)"
  let ?L = "(?H + 15) div 16 * 16" and ?y = "src_stride c * ((src_h c + 15) AND NOT 15)"
  obtain r v u l where chk: "pp_check True c = None"
    and r: "pp_build_resize (src_w c) (src_h c) (dst_w c) (dst_h c) = Inr r"
    and log: "pp_log s' = l @ program_writes (pp_csc s) c r @ [(PP_CNTL, v), (PP_INTRSTATUS, u)]"
    using pp_convert_writes [OF assms(1)] by fastforce
  note sz = pp_check_sizes [OF chk]
  have "length (rz_tbl r) \<le> 40"
    using pp_build_resize_spec [OF _ _ _ _ assms(2-5) refl refl refl refl] sz unfolding r by (simp add: resize_ok_def)
  note regs = program_pointers [OF this refl log]
  have big: "?S * (?H + 15) < 2 ^ 32" "0 < ?S" using assms(6) sz by linarith+
  have y: "unat ?y = ?S * ?L" by (rule layout_size [OF big])
  obtain k where k: "?S = 2 * k" using pp_check_stride [OF chk] by (auto simp: dvd_def)
  define m where "m = (?H + 15) div 16 * 8"
  have q: "?S * ?L = 4 * (k * m)" "?L div 2 = m" "?S div 2 = k" unfolding k m_def by simp_all
  have y4: "unat (drop_bit 2 ?y) = k * m" unfolding unat_drop_bit y q(1) by simp
  have "?S * ?L \<le> ?S * (?H + 15)" by (intro mult_le_mono2) simp
  then have room: "unat (src_y c) + 2 * (4 * (k * m)) < 2 ^ 32" using assms(6) unfolding q(1) by linarith
  have add: "unat (a + b) = unat a + unat b" if "unat a + unat b < 2 ^ 32" for a b :: u32
    using that by (subst unat_word_ariths) simp
  have Cb: "unat (src_y c + ?y) = unat (src_y c) + ?S * ?L" using room y q(1) by (subst add) simp_all
  have Cr: "unat (src_y c + ?y + drop_bit 2 ?y) = unat (src_y c + ?y) + (?S div 2) * (?L div 2)"
    using room Cb y4 unfolding q by (subst add) simp_all
  have HL: "?H \<le> ?L" by presburger
  have half: "?W div 2 \<le> ?S div 2" "?H div 2 \<le> ?L div 2" using sz(5) HL by (simp_all add: div_le_mono)
  have tail: "unat (src_y c + ?y + drop_bit 2 ?y) + (?S div 2) * (?L div 2) = unat (src_y c) + 3 * (?S * ?L) div 2"
    unfolding Cr Cb q by simp
  note inside = plane_within [OF sz(5) HL refl, of "unat (src_y c)"] plane_within [OF half refl, of "unat (src_y c + ?y)"]
    plane_within [OF half refl, of "unat (src_y c + ?y + drop_bit 2 ?y)"]
  show ?thesis
    unfolding Let_def by (intro exI conjI, (rule regs refl)+, rule Cb, rule Cr) (use inside in \<open>simp_all only: Cb [symmetric] Cr [symmetric] tail\<close>)
qed

theorem pp_planes_disjoint_witness:
  "\<exists>s' Cb Cr. pp_convert (\<lambda>_ _. 0x876) (Irq 1) pp_sample pp_idle = (None, s') \<and>
     reg_held PP_SOURCE_CB_PTR s' = Some Cb \<and> reg_held PP_SOURCE_CR_PTR s' = Some Cr \<and>
     unat Cb = unat (src_y pp_sample) + 640 * 368 \<and> unat Cr = unat Cb + 320 * 184"
proof -
  obtain s' where s': "pp_convert (\<lambda>_ _. 0x876) (Irq 1) pp_sample pp_idle = (None, s')"
    using pp_sample_convert by blast
  from pp_planes_disjoint [OF s'] s' show ?thesis by (auto simp: pp_sample_def Let_def)
qed

text \<open>
  Errors of \<^verbatim>\<open>pp_convert\<close>: for requests with sizes below \<open>2\<^sup>2\<^sup>4\<close> it never divides by
  zero and never reports \<^verbatim>\<open>-ENOSPC\<close>; the codes are \<^verbatim>\<open>-EOPNOTSUPP\<close>, \<^verbatim>\<open>-ENODEV\<close> and
  \<^verbatim>\<open>-EINVAL\<close> from the checks and \<^verbatim>\<open>-ETIME\<close>, \<^verbatim>\<open>-EIO\<close> and \<^verbatim>\<open>-ERESTARTSYS\<close> from the hardware.
\<close>

theorem pp_convert_errors:
  assumes "unat (src_w c) < 2 ^ 24" "unat (src_h c) < 2 ^ 24" "unat (dst_w c) < 2 ^ 24"
    and "unat (dst_h c) < 2 ^ 24" "fst (pp_convert rd ev c s) = Some e"
  shows "e \<in> {EOPNOTSUPP, ENODEV, EINVAL, ETIME, EIO, ERESTARTSYS}"
proof (cases "pp_check (pp_base s) c")
  case (Some e')
  then show ?thesis using assms(5) pp_check_range [OF Some] by (auto simp: pp_convert_def)
next
  case None
  show ?thesis
  proof (cases "pp_build_resize (src_w c) (src_h c) (dst_w c) (dst_h c)")
    case (Inl e')
    then show ?thesis
      using assms None pp_check_sizes [OF None] pp_build_resize_errors [OF Inl]
      by (auto simp: pp_convert_def split: if_splits)
  next
    case (Inr r)
    then show ?thesis
      using assms(5) None
      by (auto simp: pp_convert_def case_prod_unfold split: option.splits prod.splits if_splits
          dest: pp_hw_reset_errors)
  qed
qed

theorem pp_convert_errors_witness:
  "fst (pp_convert (\<lambda>_ _. 0) Timeout (pp_sample\<lparr>dst_w := 4\<rparr>) pp_idle) = Some EINVAL \<and>
   EINVAL \<in> {EOPNOTSUPP, ENODEV, EINVAL, ETIME, EIO, ERESTARTSYS}"
proof -
  have e: "fst (pp_convert (\<lambda>_ _. 0) Timeout (pp_sample\<lparr>dst_w := 4\<rparr>) pp_idle) = Some EINVAL"
    by (simp add: pp_convert_def pp_check_def eff_bpp_def pp_sample_def pp_idle_def)
  show ?thesis using e pp_convert_errors [OF _ _ _ _ e] by (simp add: pp_sample_def)
qed

end
