(* ===== verification/PrP_Scale.thy ===== *)
theory PrP_Scale
  imports Prelude
begin

unbundle bit_operations_syntax

text \<open>
  The resize tables of the eMMA pre-processor (\<^verbatim>\<open>src/kernel/mxc_vpu.c\<close>: \<^verbatim>\<open>prp_gcd\<close> to
  \<^verbatim>\<open>prp_scale\<close>). The sizes are integers: the C \<^verbatim>\<open>int\<close> parameters are the request's unsigned
  sizes, negative from \<open>2\<^sup>3\<^sup>1\<close> on. The fields of \<^verbatim>\<open>scale_t\<close> are unsigned bytes on ARM; the arrays
  \<^verbatim>\<open>tbl\<close> and \<^verbatim>\<open>ratio\<close> are lists of their 20 elements. In the helpers a return of \<^verbatim>\<open>-1\<close> is
  the Boolean \<open>False\<close> beside the structure as the call left it; from \<^verbatim>\<open>prp_scale_build\<close> on,
  where a negative output size can reach undefined behaviour, the result is a sum.
\<close>

abbreviation (input) MAX_TBL :: nat where "MAX_TBL \<equiv> 20"
abbreviation (input) SZ_COEF :: nat where "SZ_COEF \<equiv> 8"
abbreviation (input) ALGO_AUTO :: nat where "ALGO_AUTO \<equiv> 0"
abbreviation (input) ALGO_BIL :: nat where "ALGO_BIL \<equiv> 1"
abbreviation (input) ALGO_AVG :: nat where "ALGO_AVG \<equiv> 2"
abbreviation (input) SCALE_RETRY :: nat where "SCALE_RETRY \<equiv> 16"

record scale_t =
  sc_tbl :: "nat list"
  sc_len :: nat
  sc_algo :: nat
  sc_ratio :: "nat list"

definition scale_init :: scale_t where
  "scale_init = \<lparr>sc_tbl = replicate 20 0, sc_len = 0, sc_algo = ALGO_AUTO, sc_ratio = replicate 20 0\<rparr>"

text \<open>\<^verbatim>\<open>t->tbl[t->len++] = v\<close>\<close>

definition sc_push :: "nat \<Rightarrow> scale_t \<Rightarrow> scale_t" where
  "sc_push v t = t\<lparr>sc_tbl := (sc_tbl t)[sc_len t := v], sc_len := Suc (sc_len t)\<rparr>"

section \<open>Reading a table\<close>

text \<open>
  \<^verbatim>\<open>prp_scale_get\<close>. The inner loop steps over the zero entries that follow a bilinear entry;
  it runs at most to \<^verbatim>\<open>len\<close>.
\<close>

function skip_zeros :: "scale_t \<Rightarrow> nat \<Rightarrow> nat \<Rightarrow> nat \<times> nat" where
  "skip_zeros t i out =
     (if i \<noteq> 0 \<and> i < sc_len t \<and> sc_tbl t ! i = 0 then skip_zeros t (Suc i) (Suc out) else (i, out))"
  by pat_completeness auto
termination
  by (relation "measure (\<lambda>(t, i, out). sc_len t - i)") auto

declare skip_zeros.simps [simp del]

definition prp_scale_get :: "scale_t \<Rightarrow> nat \<Rightarrow> nat \<times> nat \<times> nat" where
  "prp_scale_get t i =
     (let c = sc_tbl t ! i;
          i1 = Suc i mod sc_len t;
          (i2, out) = (if sc_algo t = ALGO_BIL
                       then (case skip_zeros t i1 1 of (k, n) \<Rightarrow> (if k = sc_len t then 0 else k, n))
                       else (i1, drop_bit 3 c));
          c = c AND 7
      in (if c = 7 then 8 else c, i2, out))"

section \<open>Ratios\<close>

function prp_gcd_loop :: "int \<Rightarrow> int \<Rightarrow> int" where
  "prp_gcd_loop x y = (if y = 0 \<or> c_rem x y = 0 then y else prp_gcd_loop y (c_rem x y))"
  by pat_completeness auto
termination
  by (relation "measure (\<lambda>(x, y). nat \<bar>y\<bar>)") (auto simp: c_rem_abs_less)

declare prp_gcd_loop.simps [simp del]

definition prp_gcd :: "int \<Rightarrow> int \<Rightarrow> int" where
  "prp_gcd x y = (if x < y then prp_gcd_loop y x else prp_gcd_loop x y)"

text \<open>\<^verbatim>\<open>prp_ratio\<close> returns 0 without setting \<^verbatim>\<open>*den\<close> when a size is 0: the result \<open>None\<close>.\<close>

definition prp_ratio :: "int \<Rightarrow> int \<Rightarrow> (int \<times> int) option" where
  "prp_ratio x y =
     (if x = 0 \<or> y = 0 then None
      else let g = prp_gcd x y in Some (c_div x g, c_div y g))"

section \<open>Building a table\<close>

fun prp_pad :: "nat \<Rightarrow> scale_t \<Rightarrow> bool \<times> scale_t" where
  "prp_pad 0 t = (True, t)"
| "prp_pad (Suc n) t = (if MAX_TBL \<le> sc_len t then (False, t) else prp_pad n (sc_push 0 t))"

text \<open>
  \<^verbatim>\<open>prp_scale_bilinear(t, coeff, base, nxt)\<close>: the entry, then \<open>nxt - 1\<close> zero entries.
\<close>

definition prp_scale_bilinear :: "scale_t \<Rightarrow> nat \<Rightarrow> nat \<Rightarrow> nat \<Rightarrow> bool \<times> scale_t" where
  "prp_scale_bilinear t coeff base nxt =
     (if 20 \<le> sc_len t then (False, t)
      else let c = (push_bit 3 coeff + drop_bit 1 base) div base;
               c = (if SZ_COEF - 1 \<le> c then c - 1 else c)
           in prp_pad (nxt - 1) (sc_push ((c OR SZ_COEF) mod 256) t))"

text \<open>The averaging coefficients \<^verbatim>\<open>prp_c1\<close> to \<^verbatim>\<open>prp_c20\<close>.\<close>

definition prp_ave_coeff :: "nat list list" where
  "prp_ave_coeff =
     [[7],
      [4, 4],
      [2, 4, 2],
      [2, 2, 2, 2],
      [1, 2, 2, 2, 1],
      [1, 1, 2, 2, 1, 1],
      [1, 1, 1, 2, 1, 1, 1],
      [1, 1, 1, 1, 1, 1, 1, 1],
      [1, 1, 1, 1, 1, 1, 1, 1, 0],
      [0, 1, 1, 1, 1, 1, 1, 1, 1, 0],
      [0, 1, 1, 1, 1, 0, 1, 1, 1, 1, 0],
      [0, 1, 1, 0, 1, 1, 1, 1, 0, 1, 1, 0],
      [0, 1, 1, 0, 1, 1, 0, 1, 1, 0, 1, 1, 0],
      [0, 1, 1, 0, 1, 1, 0, 1, 1, 0, 1, 0, 1, 0],
      [0, 1, 0, 1, 0, 1, 1, 0, 1, 1, 0, 1, 0, 1, 0],
      [1, 0, 1, 0, 1, 0, 1, 0, 1, 0, 1, 0, 1, 0, 1, 0],
      [0, 1, 0, 1, 0, 1, 0, 1, 0, 1, 0, 1, 0, 1, 0, 1, 0],
      [0, 1, 0, 1, 0, 1, 0, 1, 0, 0, 1, 0, 1, 0, 1, 0, 1, 0],
      [0, 1, 0, 1, 0, 1, 0, 1, 0, 0, 1, 0, 1, 0, 1, 0, 0, 1, 0],
      [0, 1, 0, 0, 1, 0, 1, 0, 1, 0, 0, 1, 0, 1, 0, 1, 0, 0, 1, 0]]"

text \<open>\<^verbatim>\<open>memcpy(&t->tbl[t->len], prp_ave_coeff[base - 1], base)\<close>, then the flag on the last entry.\<close>

definition copy_at :: "nat list \<Rightarrow> nat \<Rightarrow> nat list \<Rightarrow> nat list" where
  "copy_at xs n ys = take n xs @ ys @ drop (n + length ys) xs"

definition prp_scale_ave :: "scale_t \<Rightarrow> nat \<Rightarrow> bool \<times> scale_t" where
  "prp_scale_ave t base =
     (if 20 < sc_len t + base then (False, t)
      else let tbl = copy_at (sc_tbl t) (sc_len t) (prp_ave_coeff ! (base - 1));
               len = sc_len t + base
           in (True, t\<lparr>sc_tbl := tbl[len - 1 := tbl ! (len - 1) OR SZ_COEF], sc_len := len\<rparr>))"

text \<open>
  \<^verbatim>\<open>prp_ave_scale\<close>: the array \<open>a\<close> of group sizes, then one averaging group per output
  sample.
\<close>

definition ave_groups :: "nat \<Rightarrow> nat \<Rightarrow> nat list" where
  "ave_groups inp outv =
     (let r = inp mod outv;
          v = (outv - r) div 2
      in map (\<lambda>k. if r \<noteq> 0 \<and> v \<le> k \<and> k < r + v then inp div outv + 1 else inp div outv) [0 ..< outv])"

fun ave_loop :: "nat list \<Rightarrow> nat \<Rightarrow> scale_t \<Rightarrow> bool \<times> scale_t" where
  "ave_loop [] k t = (True, t)"
| "ave_loop (g # gs) k t =
     (case prp_scale_ave t g of
        (False, t') \<Rightarrow> (False, t')
      | (True, t') \<Rightarrow> ave_loop gs (Suc k) (t'\<lparr>sc_ratio := (sc_ratio t')[k := g]\<rparr>))"

definition prp_ave_scale :: "scale_t \<Rightarrow> nat \<Rightarrow> nat \<Rightarrow> bool \<times> scale_t" where
  "prp_ave_scale t inp outv =
     (if outv \<noteq> 1 then ave_loop (ave_groups inp outv) 0 t
      else case prp_scale_ave t inp of
             (False, t') \<Rightarrow> (False, t')
           | (True, t') \<Rightarrow> (True, t'\<lparr>sc_ratio := (sc_ratio t')[0 := inp]\<rparr>))"

lemma prp_pad_len: "prp_pad n t = (b, t') \<Longrightarrow> sc_len t \<le> sc_len t'"
  by (induction n arbitrary: t) (fastforce simp: sc_push_def split: if_splits)+

lemma prp_bilinear_len:
  "prp_scale_bilinear t c b n = (True, t') \<Longrightarrow> sc_len t < 20 \<and> sc_len t < sc_len t'"
  by (auto simp: prp_scale_bilinear_def Let_def sc_push_def split: if_splits dest!: prp_pad_len)

text \<open>
  The bilinear loops. For a ratio of 2 or more, \<^verbatim>\<open>while (v >= outv)\<close> is division with
  remainder; for a smaller one, \<^verbatim>\<open>for (nxt = 0; v < out_pos; nxt++)\<close> moves the input position,
  whose guard \<open>0 < outv\<close> always holds.
\<close>

function bil_half_loop :: "nat \<Rightarrow> nat \<Rightarrow> nat \<Rightarrow> scale_t \<Rightarrow> bool \<times> scale_t" where
  "bil_half_loop coeff outv v t =
     (let v1 = v + coeff; nxt = 2 + v1 div outv; v' = v1 mod outv
      in case prp_scale_bilinear t 1 2 nxt of
           (False, t') \<Rightarrow> (False, t')
         | (True, t') \<Rightarrow> if v' \<noteq> 0 then bil_half_loop coeff outv v' t' else (True, t'))"
  by pat_completeness auto
termination
  by (relation "measure (\<lambda>(coeff, outv, v, t). 20 - sc_len t)") (auto dest!: prp_bilinear_len [OF sym])

declare bil_half_loop.simps [simp del]

function bil_advance :: "int \<Rightarrow> int \<Rightarrow> int \<Rightarrow> int \<Rightarrow> nat \<Rightarrow> int \<times> int \<times> nat" where
  "bil_advance in_pos_inc out_pos v carry nxt =
     (if 0 < in_pos_inc \<and> v < out_pos
      then bil_advance in_pos_inc out_pos (v + in_pos_inc) (carry - in_pos_inc) (Suc nxt)
      else (v, carry, nxt))"
  by pat_completeness auto
termination
  by (relation "measure (\<lambda>(in_pos_inc, out_pos, v, carry, nxt). nat (out_pos - v))") auto

declare bil_advance.simps [simp del]

function bil_mid_loop :: "int \<Rightarrow> int \<Rightarrow> int \<Rightarrow> int \<Rightarrow> int \<Rightarrow> scale_t \<Rightarrow> bool \<times> scale_t" where
  "bil_mid_loop inp outv v out_pos carry t =
     (let coeff = v - out_pos;
          out_pos' = out_pos + 2 * inp
      in case bil_advance (2 * outv) out_pos' v (carry + 2 * inp) 0 of
           (v', carry', nxt) \<Rightarrow>
             (case prp_scale_bilinear t (nat coeff) (nat (2 * outv)) nxt of
                (False, t') \<Rightarrow> (False, t')
              | (True, t') \<Rightarrow>
                  if carry' \<noteq> inp - outv then bil_mid_loop inp outv v' out_pos' carry' t'
                  else (True, t')))"
  by pat_completeness auto
termination
  by (relation "measure (\<lambda>(inp, outv, v, out_pos, carry, t). 20 - sc_len t)")
    (auto dest!: prp_bilinear_len [OF sym])

declare bil_mid_loop.simps [simp del]

text \<open>
  \<^verbatim>\<open>prp_scale_build\<close>; \<open>Inr\<close> is its Boolean result and the structure. The two branches with
  a negative \<open>outv\<close> leave the defined part of C: averaging increments \<^verbatim>\<open>a[v]\<close> below the array when
  there is a positive remainder, and the bilinear loop subtracts a negative number until it
  overflows. With no remainder averaging returns an empty table. More than 20 groups would
  overrun \<^verbatim>\<open>a\<close>.
\<close>

definition prp_scale_build :: "scale_t \<Rightarrow> int \<Rightarrow> int \<Rightarrow> errno + (bool \<times> scale_t)" where
  "prp_scale_build t inp outv =
     (let t = t\<lparr>sc_len := 0\<rparr>;
          t = (if sc_algo t = ALGO_AUTO
               then t\<lparr>sc_algo := if outv \<noteq> inp \<and> 2 * outv > inp then ALGO_BIL else ALGO_AVG\<rparr> else t);
          t = (if inp = outv \<and> sc_algo t = ALGO_BIL then t\<lparr>sc_algo := ALGO_AVG\<rparr> else t);
          t = t\<lparr>sc_tbl := replicate 20 0\<rparr>;
          t = (if sc_algo t = ALGO_BIL
               then t\<lparr>sc_ratio := (sc_ratio t)[0 := nat (inp mod 256), 1 := nat (outv mod 256)]\<rparr>
               else t\<lparr>sc_ratio := replicate 20 0\<rparr>)
      in if inp = outv then
           Inr (prp_scale_ave (t\<lparr>sc_ratio := if sc_algo t = ALGO_BIL then (sc_ratio t)[0 := 1, 1 := 1]
                                              else (sc_ratio t)[0 := 1]\<rparr>) 1)
         else if inp < outv then Inr (False, t)
         else if sc_algo t \<noteq> ALGO_BIL then
           (if 20 < outv then Inl Undefined
            else if outv \<le> 0 then (if 0 < c_rem inp outv then Inl Undefined else Inr (True, t))
            else Inr (prp_ave_scale t (nat inp) (nat outv)))
         else if outv \<le> 0 then Inl Undefined
         else if 2 * outv \<le> inp then Inr (bil_half_loop (nat (inp - 2 * outv)) (nat outv) 0 t)
         else Inr (bil_mid_loop inp outv (3 * outv) inp (inp - outv) t))"

section \<open>Choosing a ratio\<close>

text \<open>The \<^verbatim>\<open>lp_retry\<close> loop of \<^verbatim>\<open>prp_scale\<close>: the structure and the output size it settles on.\<close>

fun prp_try :: "scale_t \<Rightarrow> int \<Rightarrow> int \<Rightarrow> nat \<Rightarrow> errno + (scale_t \<times> int)" where
  "prp_try t din dout retry =
     (case prp_ratio din dout of
        None \<Rightarrow> Inl EGENERIC
      | Some (num, den) \<Rightarrow>
          (case (if int MAX_TBL < num then Inr (False, t) else prp_scale_build t num den) of
             Inl e \<Rightarrow> Inl e
           | Inr (True, t') \<Rightarrow> Inr (t', dout)
           | Inr (False, t') \<Rightarrow>
               (case retry of 0 \<Rightarrow> Inl EGENERIC | Suc r \<Rightarrow> prp_try t' din (dout + 1) r)))"

declare prp_try.simps [simp del]

text \<open>
  The remainder loops at the end of \<^verbatim>\<open>prp_scale\<close>, for an input size that is no multiple of
  the table's input count; \<^verbatim>\<open>nxt\<close> is at least 1 in a bilinear table.
\<close>

function bil_rest :: "scale_t \<Rightarrow> nat \<Rightarrow> int \<Rightarrow> nat \<Rightarrow> nat" where
  "bil_rest t i rest j =
     (if rest \<le> 0 then j
      else case prp_scale_get t i of
             (k, i', nxt) \<Rightarrow>
               if rest = 1 \<and> k < SZ_COEF then j
               else if nxt = 0 then j
               else bil_rest t i' (rest - int nxt) (Suc j mod 256))"
  by pat_completeness auto
termination
  by (relation "measure (\<lambda>(t, i, rest, j). nat rest)") auto

declare bil_rest.simps [simp del]

fun avg_rest :: "nat list \<Rightarrow> int \<Rightarrow> nat \<Rightarrow> nat" where
  "avg_rest [] rest outv = outv"
| "avg_rest (r # rs) rest outv = (if rest \<le> 0 then outv else avg_rest rs (rest - int r) (Suc outv mod 65536))"

definition to_u16 :: "int \<Rightarrow> nat" where
  "to_u16 x = nat (x mod 65536)"

definition prp_scale ::
    "scale_t \<Rightarrow> int \<Rightarrow> int \<Rightarrow> int \<Rightarrow> nat \<Rightarrow> nat \<Rightarrow> errno + (scale_t \<times> nat)" where
  "prp_scale t din dout inp vout retry =
     (if din < dout then Inl EGENERIC
      else case prp_try t din dout retry of
        Inl e \<Rightarrow> Inl e
      | Inr (t', _) \<Rightarrow>
          let fin = (\<lambda>outv. Inr (t', if vout = 0 \<or> outv < vout then outv else vout))
          in if sc_algo t' = ALGO_BIL then
               (let r0 = int (sc_ratio t' ! 0); r1 = int (sc_ratio t' ! 1)
                in if r0 = 0 then Inl DivByZero
                   else fin ((to_u16 (c_div inp r0 * r1) + bil_rest t' 0 (c_rem inp r0) 0) mod 65536))
             else
               (let rs = takeWhile (\<lambda>r. r \<noteq> 0) (sc_ratio t');
                    tot = int (sum_list rs mod 256)
                in if tot = 0 then Inl DivByZero
                   else fin (avg_rest (sc_ratio t') (c_rem inp tot)
                              (to_u16 (c_div inp tot) * length rs mod 65536))))"

section \<open>Filling a table\<close>

text \<open>\<open>tbl_is t xs\<close>: the first \<^verbatim>\<open>len\<close> entries of the table are \<open>xs\<close>, the rest are zero.\<close>

definition tbl_is :: "scale_t \<Rightarrow> nat list \<Rightarrow> bool" where
  "tbl_is t xs \<longleftrightarrow> sc_tbl t = xs @ replicate (20 - length xs) 0 \<and> sc_len t = length xs \<and> length xs \<le> 20"

definition same_mode :: "scale_t \<Rightarrow> scale_t \<Rightarrow> bool" where
  "same_mode t t' \<longleftrightarrow> sc_algo t' = sc_algo t \<and> sc_ratio t' = sc_ratio t"

lemma sc_push_is:
  assumes "tbl_is t xs" "length xs < 20"
  shows "tbl_is (sc_push v t) (xs @ [v])" "same_mode t (sc_push v t)"
proof -
  have "replicate (20 - length xs) (0 :: nat) = 0 # replicate (19 - length xs) 0"
    using assms(2) by (cases "20 - length xs") auto
  then show "tbl_is (sc_push v t) (xs @ [v])"
    using assms by (simp add: tbl_is_def sc_push_def list_update_append)
qed (simp add: same_mode_def sc_push_def)

lemma prp_pad_is:
  assumes "tbl_is t xs" "length xs + n \<le> 20"
  obtains t' where "prp_pad n t = (True, t')" "tbl_is t' (xs @ replicate n 0)" "same_mode t t'"
  using assms
proof (induction n arbitrary: t xs thesis)
  case 0
  then show ?case by (simp add: same_mode_def)
next
  case (Suc n)
  have len: "length xs < 20" using Suc.prems(3) by simp
  note p = sc_push_is [OF Suc.prems(2) len, of 0]
  obtain t' where "prp_pad n (sc_push 0 t) = (True, t')" "tbl_is t' ((xs @ [0]) @ replicate n 0)"
    "same_mode (sc_push 0 t) t'"
    using Suc.IH [OF _ p(1)] Suc.prems(3) by (metis add_Suc_right add_Suc length_append_singleton)
  then show ?case
    using Suc.prems(1) [of t'] Suc.prems(2) len p(2) by (auto simp: tbl_is_def same_mode_def)
qed

text \<open>The 3-bit weight of the nearer sample, rounded; 7 stands for 8 eighths.\<close>

definition bil_weight :: "nat \<Rightarrow> nat \<Rightarrow> nat" where
  "bil_weight coeff base = (let c = (8 * coeff + base div 2) div base in if 7 \<le> c then c - 1 else c)"

lemma bil_weight_le: "0 < base \<Longrightarrow> coeff \<le> base \<Longrightarrow> bil_weight coeff base \<le> 7"
proof -
  assume b: "0 < base" "coeff \<le> base"
  then have "8 * coeff + base div 2 < base * 9" by (cases "base = 0") auto
  then have "(8 * coeff + base div 2) div base < 9" by (rule less_mult_imp_div_less [of _ 9 base, simplified mult.commute])
  then show ?thesis by (auto simp: bil_weight_def Let_def)
qed

lemma or_flag: "c \<le> 7 \<Longrightarrow> c OR 8 = (8 + c :: nat)"
proof -
  assume "c \<le> 7"
  then have "c \<in> {0, 1, 2, 3, 4, 5, 6, 7}" by auto
  then show ?thesis by auto
qed

lemma prp_scale_bilinear_is:
  assumes "tbl_is t xs" "0 < nxt" "length xs + nxt \<le> 20" "0 < base" "coeff \<le> base"
  obtains t' where "prp_scale_bilinear t coeff base nxt = (True, t')"
    "tbl_is t' (xs @ (8 + bil_weight coeff base) # replicate (nxt - 1) 0)" "same_mode t t'"
proof -
  let ?e = "8 + bil_weight coeff base"
  have len: "length xs < 20" using assms(2,3) by simp
  note p = sc_push_is [OF assms(1) len, of ?e]
  obtain t' where t': "prp_pad (nxt - 1) (sc_push ?e t) = (True, t')"
    "tbl_is t' ((xs @ [?e]) @ replicate (nxt - 1) 0)" "same_mode (sc_push ?e t) t'"
    using prp_pad_is [OF p(1), of "nxt - 1"] assms(2,3) by auto
  have "(let c = (push_bit 3 coeff + drop_bit 1 base) div base in (if 7 \<le> c then c - 1 else c)) = bil_weight coeff base"
    by (simp add: bil_weight_def push_bit_nat_def drop_bit_nat_def mult.commute)
  then have "prp_scale_bilinear t coeff base nxt = prp_pad (nxt - 1) (sc_push ?e t)"
    using len assms(1) bil_weight_le [OF assms(4,5)]
    by (simp add: prp_scale_bilinear_def Let_def tbl_is_def or_flag)
  then show ?thesis using that t' p(2) by (simp add: same_mode_def)
qed

section \<open>Averaging tables\<close>

text \<open>The entries of one averaging group: its coefficients, the last one flagged.\<close>

definition ave_group :: "nat \<Rightarrow> nat list" where
  "ave_group g = (let cs = prp_ave_coeff ! (g - 1) in cs[g - 1 := cs ! (g - 1) OR 8])"

lemma upto_20: "1 \<le> g \<Longrightarrow> g \<le> 20 \<Longrightarrow>
  (g :: nat) \<in> {1,2,3,4,5,6,7,8,9,10,11,12,13,14,15,16,17,18,19,20}"
  by simp arith

lemma ave_coeff_length: "1 \<le> g \<Longrightarrow> g \<le> 20 \<Longrightarrow> length (prp_ave_coeff ! (g - 1)) = g"
  by (drule (1) upto_20) (auto simp: prp_ave_coeff_def)

lemma ave_group_length: "1 \<le> g \<Longrightarrow> g \<le> 20 \<Longrightarrow> length (ave_group g) = g"
  using ave_coeff_length [of g] by (simp add: ave_group_def Let_def)

lemma prp_scale_ave_is:
  assumes "tbl_is t xs" "1 \<le> g" "length xs + g \<le> 20"
  obtains t' where "prp_scale_ave t g = (True, t')" "tbl_is t' (xs @ ave_group g)" "same_mode t t'"
proof -
  let ?cs = "prp_ave_coeff ! (g - 1)"
  have l: "length ?cs = g" using ave_coeff_length assms(2,3) by simp
  have c: "copy_at (sc_tbl t) (sc_len t) ?cs = xs @ ?cs @ replicate (20 - (length xs + g)) 0"
    using assms(1,3) l by (simp add: copy_at_def tbl_is_def)
  obtain m where g: "g = Suc m" using assms(2) by (cases g) auto
  have u: "(xs @ ?cs @ r)[length xs + g - 1 := (xs @ ?cs @ r) ! (length xs + g - 1) OR 8]
      = xs @ ave_group g @ r" for r
    using l by (simp add: g ave_group_def Let_def list_update_append nth_append)
  show ?thesis
    by (rule that [of "t\<lparr>sc_tbl := xs @ ave_group g @ replicate (20 - (length xs + g)) 0,
          sc_len := length xs + g\<rparr>"])
      (use assms c u ave_group_length [of g] in \<open>simp_all add: prp_scale_ave_def Let_def tbl_is_def same_mode_def\<close>)
qed

lemma ave_loop_is:
  assumes "tbl_is t xs" "\<forall>g \<in> set gs. 1 \<le> g" "length xs + sum_list gs \<le> 20"
    and "k + length gs \<le> length (sc_ratio t)"
  obtains t' where "ave_loop gs k t = (True, t')" "tbl_is t' (xs @ concat (map ave_group gs))"
    "sc_algo t' = sc_algo t"
    "sc_ratio t' = take k (sc_ratio t) @ gs @ drop (k + length gs) (sc_ratio t)"
  using assms
proof (induction gs arbitrary: k t xs thesis)
  case Nil
  then show ?case by simp
next
  case (Cons g gs)
  obtain t1 where t1: "prp_scale_ave t g = (True, t1)" "tbl_is t1 (xs @ ave_group g)" "same_mode t t1"
    using prp_scale_ave_is [OF Cons.prems(2), of g] Cons.prems(3,4) by auto
  let ?t2 = "t1\<lparr>sc_ratio := (sc_ratio t1)[k := g]\<rparr>"
  have g20: "g \<le> 20" using Cons.prems(4) by simp
  have "tbl_is ?t2 (xs @ ave_group g)" using t1(2) by (simp add: tbl_is_def)
  moreover have "length (xs @ ave_group g) + sum_list gs \<le> 20"
    using Cons.prems(3,4) ave_group_length [of g] g20 by simp
  moreover have "Suc k + length gs \<le> length (sc_ratio ?t2)"
    using Cons.prems(5) t1(3) by (simp add: same_mode_def)
  ultimately obtain t' where t': "ave_loop gs (Suc k) ?t2 = (True, t')"
    "tbl_is t' ((xs @ ave_group g) @ concat (map ave_group gs))" "sc_algo t' = sc_algo ?t2"
    "sc_ratio t' = take (Suc k) (sc_ratio ?t2) @ gs @ drop (Suc k + length gs) (sc_ratio ?t2)"
    using Cons.IH [of "Suc k" ?t2 "xs @ ave_group g"] Cons.prems(3) by (metis list.set_intros(2))
  have "take (Suc k) ((sc_ratio t)[k := g]) = take k (sc_ratio t) @ [g]"
    using Cons.prems(5) by (simp add: take_Suc_conv_app_nth)
  then show ?case
    using Cons.prems(1) [of t'] t1 t' by (simp add: same_mode_def)
qed

lemma ave_groups_props:
  assumes "0 < outv" "outv \<le> inp"
  shows "length (ave_groups inp outv) = outv" "\<forall>g \<in> set (ave_groups inp outv). 1 \<le> g"
    "set (ave_groups inp outv) \<subseteq> {inp div outv, inp div outv + 1}"
    "sum_list (ave_groups inp outv) = inp"
proof -
  let ?r = "inp mod outv" and ?q = "inp div outv"
  let ?v = "(outv - ?r) div 2"
  have "1 \<le> ?q" using assms by (simp add: div_greater_zero_iff Suc_leI)
  then show "length (ave_groups inp outv) = outv" "\<forall>g \<in> set (ave_groups inp outv). 1 \<le> g"
    "set (ave_groups inp outv) \<subseteq> {?q, ?q + 1}"
    by (auto simp: ave_groups_def Let_def)
  have r: "?r < outv" using assms(1) by simp
  let ?A = "{k \<in> {0 ..< outv}. ?v \<le> k \<and> k < ?r + ?v}"
  have "?A = {?v ..< ?r + ?v}" using r by auto
  then have card: "card ?A = ?r" by simp
  have "sum_list (ave_groups inp outv) = (\<Sum>k = 0 ..< outv. ?q + (if ?v \<le> k \<and> k < ?r + ?v then 1 else 0))"
    unfolding ave_groups_def Let_def interv_sum_list_conv_sum_set_nat
    by (auto simp: interv_sum_list_conv_sum_set_nat intro!: sum.cong)
  also have "\<dots> = outv * ?q + card ?A"
    by (simp add: sum.distrib sum.If_cases Int_def conj_commute)
  finally show "sum_list (ave_groups inp outv) = inp" using card by simp
qed

text \<open>
  What one averaging group must be: only its last entry is flagged as output, and the weights
  (7 read as 8) add up to 8 eighths.
\<close>

definition entry_weight :: "nat \<Rightarrow> nat" where
  "entry_weight e = (if e mod 8 = 7 then 8 else e mod 8)"

definition avg_group_ok :: "nat list \<Rightarrow> bool" where
  "avg_group_ok g \<longleftrightarrow> g \<noteq> [] \<and> list_all (\<lambda>e. e < 8) (butlast g) \<and> 8 \<le> last g \<and> last g < 16 \<and>
     sum_list (map entry_weight g) = 8"

lemma ave_group_ok: "1 \<le> g \<Longrightarrow> g \<le> 20 \<Longrightarrow> avg_group_ok (ave_group g)"
  by (drule (1) upto_20) (auto simp: avg_group_ok_def ave_group_def prp_ave_coeff_def entry_weight_def)

section \<open>Bilinear tables\<close>

text \<open>
  The geometry behind \<^verbatim>\<open>bil_mid_loop\<close>, in units of half an input sample times \<open>outv\<close>: output
  sample \<open>k\<close> is centred at \<open>inp * (2 * k + 1)\<close>, input sample \<open>j\<close> at \<open>outv * (2 * j + 1)\<close>.
  \<open>bil_pos k\<close> is the input sample to the left of output \<open>k\<close>, and its weight is the distance of
  the output's centre from the sample to the right.
\<close>

definition bil_pos :: "nat \<Rightarrow> nat \<Rightarrow> nat \<Rightarrow> nat" where
  "bil_pos inp outv k = (inp * (2 * k + 1) - outv - 1) div (2 * outv)"

definition bil_coeff :: "nat \<Rightarrow> nat \<Rightarrow> nat \<Rightarrow> nat" where
  "bil_coeff inp outv k = outv * (2 * bil_pos inp outv k + 3) - inp * (2 * k + 1)"

definition bil_entries :: "nat \<Rightarrow> nat \<Rightarrow> nat \<Rightarrow> nat list" where
  "bil_entries inp outv k =
     (8 + bil_weight (bil_coeff inp outv k) (2 * outv))
     # replicate (bil_pos inp outv (Suc k) - bil_pos inp outv k - 1) 0"

definition bil_table :: "nat \<Rightarrow> nat \<Rightarrow> nat list" where
  "bil_table inp outv = concat (map (bil_entries inp outv) [0 ..< outv])"

lemma bil_pos_unique:
  assumes "0 < outv" "inp * (2 * k + 1) \<le> outv * (2 * p + 3)"
    and "outv * (2 * p + 3) < inp * (2 * k + 1) + 2 * outv"
  shows "p = bil_pos inp outv k"
  unfolding bil_pos_def
  by (rule sym, rule div_nat_eqI) (use assms in \<open>auto simp: algebra_simps\<close>)

lemma bil_pos_bounds:
  assumes "0 < outv" "outv < inp"
  shows "inp * (2 * k + 1) \<le> outv * (2 * bil_pos inp outv k + 3)"
    "outv * (2 * bil_pos inp outv k + 3) < inp * (2 * k + 1) + 2 * outv"
proof -
  let ?X = "inp * (2 * k + 1) - outv - 1" and ?p = "bil_pos inp outv k"
  have "outv + 1 \<le> inp * (2 * k + 1)" using assms(2) by (simp add: trans_le_add1)
  moreover have "2 * outv * ?p \<le> ?X"
    unfolding bil_pos_def by (rule times_div_less_eq_dividend)
  moreover have "?X < 2 * outv * ?p + 2 * outv"
    unfolding bil_pos_def using assms(1) dividend_less_times_div [of "2 * outv" ?X] by simp
  ultimately show "inp * (2 * k + 1) \<le> outv * (2 * ?p + 3)"
    "outv * (2 * ?p + 3) < inp * (2 * k + 1) + 2 * outv"
    by (auto simp: algebra_simps)
qed

lemma bil_pos_ends:
  assumes "0 < outv" "outv < inp" "inp < 2 * outv"
  shows "bil_pos inp outv 0 = 0" "bil_pos inp outv outv = inp"
  using bil_pos_unique [of outv inp 0 0] bil_pos_unique [of outv inp outv inp] assms
  by (simp_all add: algebra_simps)

lemma bil_pos_strict:
  assumes "0 < outv" "outv < inp"
  shows "bil_pos inp outv k < bil_pos inp outv (Suc k)"
proof -
  have "outv * (2 * bil_pos inp outv k + 3) < outv * (2 * bil_pos inp outv (Suc k) + 3)"
    using bil_pos_bounds(2) [OF assms, of k] bil_pos_bounds(1) [OF assms, of "Suc k"] assms(2)
    by (simp only: mult_Suc_right distrib_left)
  then show ?thesis by simp
qed

lemma bil_pos_le_inp:
  assumes "0 < outv" "outv < inp" "inp < 2 * outv" "k \<le> outv"
  shows "bil_pos inp outv k \<le> inp"
  using lift_Suc_mono_le [of "bil_pos inp outv" k outv] bil_pos_strict [OF assms(1,2)] assms(4)
    bil_pos_ends(2) [OF assms(1-3)] by (simp add: less_imp_le)

lemma bil_advance_steps:
  "0 < inc \<Longrightarrow> \<exists>m. bil_advance inc out_pos v carry n = (v + int m * inc, carry - int m * inc, n + m) \<and>
     out_pos \<le> v + int m * inc \<and> (m = 0 \<or> v + (int m - 1) * inc < out_pos)"
proof (induction inc out_pos v carry n rule: bil_advance.induct)
  case (1 inc out_pos v carry n)
  show ?case
  proof (cases "v < out_pos")
    case True
    then obtain m where m: "bil_advance inc out_pos (v + inc) (carry - inc) (Suc n) =
        (v + inc + int m * inc, carry - inc - int m * inc, Suc n + m)"
      "out_pos \<le> v + inc + int m * inc" "m = 0 \<or> v + inc + (int m - 1) * inc < out_pos"
      using 1 by auto
    have "bil_advance inc out_pos v carry n = bil_advance inc out_pos (v + inc) (carry - inc) (Suc n)"
      using True 1(2) by (subst bil_advance.simps) simp
    then show ?thesis using m True by (intro exI [of _ "Suc m"]) (auto simp: algebra_simps)
  next
    case False
    then show ?thesis by (intro exI [of _ 0]) (subst bil_advance.simps, simp)
  qed
qed

text \<open>One turn of the loop: from output \<open>k\<close> to output \<open>k + 1\<close>.\<close>

lemma bil_advance_pos:
  assumes "0 < outv" "outv < inp"
  shows "bil_advance (2 * int outv) (int (inp * (2 * Suc k + 1)))
       (int (outv * (2 * bil_pos inp outv k + 3))) carry 0 =
     (int (outv * (2 * bil_pos inp outv (Suc k) + 3)),
      carry + int (outv * (2 * bil_pos inp outv k + 3)) - int (outv * (2 * bil_pos inp outv (Suc k) + 3)),
      bil_pos inp outv (Suc k) - bil_pos inp outv k)"
proof -
  let ?p = "bil_pos inp outv k" and ?v = "int (outv * (2 * bil_pos inp outv k + 3))"
  obtain m where m: "bil_advance (2 * int outv) (int (inp * (2 * Suc k + 1))) ?v carry 0 =
      (?v + int m * (2 * int outv), carry - int m * (2 * int outv), m)"
    "int (inp * (2 * Suc k + 1)) \<le> ?v + int m * (2 * int outv)"
    "m = 0 \<or> ?v + (int m - 1) * (2 * int outv) < int (inp * (2 * Suc k + 1))"
    using bil_advance_steps [of "2 * int outv" "int (inp * (2 * Suc k + 1))" ?v carry 0] assms(1) by auto
  have v: "?v + int m * (2 * int outv) = int (outv * (2 * (?p + m) + 3))" by (simp add: algebra_simps)
  have "inp * (2 * Suc k + 1) \<le> outv * (2 * (?p + m) + 3)" using m(2) unfolding v by linarith
  moreover have "outv * (2 * (?p + m) + 3) < inp * (2 * Suc k + 1) + 2 * outv"
  proof (cases "m = 0")
    case True
    then show ?thesis using bil_pos_bounds(2) [OF assms, of k] assms(2) by simp
  next
    case False
    then have "?v + int m * (2 * int outv) < int (inp * (2 * Suc k + 1)) + 2 * int outv"
      using m(3) by (simp add: left_diff_distrib)
    then show ?thesis unfolding v by linarith
  qed
  ultimately have "?p + m = bil_pos inp outv (Suc k)" by (rule bil_pos_unique [OF assms(1)])
  then show ?thesis using m(1) v by (simp add: algebra_simps)
qed

lemma bil_stop:
  assumes "0 < outv" "outv < inp" "inp < 2 * outv" "coprime inp outv" "k < outv"
  shows "inp * Suc k = outv * bil_pos inp outv (Suc k) \<longleftrightarrow> Suc k = outv"
proof
  assume "inp * Suc k = outv * bil_pos inp outv (Suc k)"
  then have "outv dvd inp * Suc k" by simp
  then have "outv dvd Suc k"
    using assms(4) by (simp only: coprime_commute [of inp] coprime_dvd_mult_right_iff)
  then have "outv \<le> Suc k" by (rule dvd_imp_le) simp
  then show "Suc k = outv" using assms(5) by simp
qed (use bil_pos_ends(2) [OF assms(1-3)] in \<open>simp add: mult.commute\<close>)

lemma double_diff_eq: "a - b = 2 * (c - d) \<Longrightarrow> a = b \<longleftrightarrow> c = (d :: int)"
  by auto

lemma bil_mid_loop_is:
  assumes r: "0 < outv" "outv < inp" "inp < 2 * outv" "coprime inp outv" "inp \<le> 20"
  shows "k < outv \<Longrightarrow> tbl_is t xs \<Longrightarrow> length xs = bil_pos inp outv k \<Longrightarrow>
    \<exists>t'. bil_mid_loop (int inp) (int outv) (int (outv * (2 * bil_pos inp outv k + 3)))
          (int (inp * (2 * k + 1)))
          (int (inp * (2 * k + 1)) + 2 * int outv - int (outv * (2 * bil_pos inp outv k + 3))) t = (True, t') \<and>
        tbl_is t' (xs @ concat (map (bil_entries inp outv) [k ..< outv])) \<and> same_mode t t'"
proof (induction "outv - k" arbitrary: k t xs)
  case 0
  then show ?case by simp
next
  case (Suc n)
  let ?p = "bil_pos inp outv k" and ?p' = "bil_pos inp outv (Suc k)"
  let ?v = "int (outv * (2 * ?p + 3))" and ?v' = "int (outv * (2 * ?p' + 3))"
  let ?o = "int (inp * (2 * k + 1))" and ?o' = "int (inp * (2 * Suc k + 1))"
  note b = bil_pos_bounds [OF r(1,2), of k] and lt = bil_pos_strict [OF r(1,2), of k]
  have le: "?p' \<le> inp" using bil_pos_le_inp [OF r(1-3), of "Suc k"] Suc.prems(1) by simp
  have coeff: "nat (?v - ?o) = bil_coeff inp outv k" using b unfolding bil_coeff_def by linarith
  have "bil_coeff inp outv k \<le> 2 * outv" using b by (simp add: bil_coeff_def)
  then obtain t1 where t1: "prp_scale_bilinear t (bil_coeff inp outv k) (2 * outv) (?p' - ?p) = (True, t1)"
    "tbl_is t1 (xs @ bil_entries inp outv k)" "same_mode t t1"
    using prp_scale_bilinear_is [OF Suc.prems(2), of "?p' - ?p" "2 * outv"] lt le r(1,5) Suc.prems(3)
    by (auto simp: bil_entries_def)
  have o': "?o + 2 * int inp = ?o'" by (simp add: algebra_simps)
  have c': "?o + 2 * int outv - ?v + 2 * int inp + ?v - ?v' = ?o' + 2 * int outv - ?v'" by (simp add: algebra_simps)
  have stop: "?o' + 2 * int outv - ?v' = int inp - int outv \<longleftrightarrow> Suc k = outv"
  proof -
    have "?o' + 2 * int outv - ?v' - (int inp - int outv) = 2 * (int (inp * Suc k) - int (outv * ?p'))"
      by (simp add: algebra_simps)
    then have "?o' + 2 * int outv - ?v' = int inp - int outv \<longleftrightarrow> int (inp * Suc k) = int (outv * ?p')"
      by (rule double_diff_eq)
    then show ?thesis using bil_stop [OF r(1-4) Suc.prems(1)] by (simp only: of_nat_eq_iff)
  qed
  have step: "bil_mid_loop (int inp) (int outv) ?v ?o (?o + 2 * int outv - ?v) t =
      (if Suc k = outv then (True, t1)
       else bil_mid_loop (int inp) (int outv) ?v' ?o' (?o' + 2 * int outv - ?v') t1)"
    apply (subst bil_mid_loop.simps)
    apply (simp only: Let_def o' bil_advance_pos [OF r(1,2)] c' coeff prod.case)
    apply (simp only: nat_mult_distrib nat_int nat_numeral t1(1) prod.case stop bool.case)
    using t1(1) by (simp add: nat_mult_distrib)
  have upt: "[k ..< outv] = k # [Suc k ..< outv]" using Suc.prems(1) by (rule upt_conv_Cons)
  show ?case
  proof (cases "Suc k = outv")
    case True
    then show ?thesis using step t1 upt by simp
  next
    case False
    then have "Suc k < outv" using Suc.prems(1) by simp
    moreover have "length (xs @ bil_entries inp outv k) = ?p'"
      using Suc.prems(3) lt by (simp add: bil_entries_def)
    moreover have "n = outv - Suc k" using Suc.hyps(2) by simp
    ultimately show ?thesis
      using Suc.hyps(1) [of "Suc k" t1 "xs @ bil_entries inp outv k"] t1 step False upt
      by (auto simp: same_mode_def)
  qed
qed

lemma bil_table_length:
  assumes "0 < outv" "outv < inp" "inp < 2 * outv"
  shows "length (bil_table inp outv) = inp"
proof -
  have "length (concat (map (bil_entries inp outv) [0 ..< n])) = bil_pos inp outv n" for n
  proof (induction n)
    case (Suc n)
    then show ?case using bil_pos_strict [OF assms(1,2), of n] by (simp add: bil_entries_def)
  qed (simp add: bil_pos_ends(1) [OF assms])
  then show ?thesis using bil_pos_ends(2) [OF assms] by (simp add: bil_table_def)
qed

section \<open>Correct tables\<close>

text \<open>What a resize table for a reduced ratio of \<open>inp\<close> to \<open>outv\<close> samples is.\<close>

definition prp_table_ok :: "nat \<Rightarrow> nat \<Rightarrow> scale_t \<Rightarrow> bool" where
  "prp_table_ok inp outv t \<longleftrightarrow>
     sc_len t = inp \<and>
     (if outv < inp \<and> inp < 2 * outv
      then sc_algo t = ALGO_BIL \<and> take 2 (sc_ratio t) = [inp, outv] \<and>
           sc_tbl t = bil_table inp outv @ replicate (20 - inp) 0
      else sc_algo t = ALGO_AVG \<and>
           (\<exists>gs. sc_tbl t = concat gs @ replicate (20 - inp) 0 \<and> length gs = outv \<and> length (concat gs) = inp \<and>
             list_all avg_group_ok gs \<and> list_all (\<lambda>g. length g \<in> {inp div outv, inp div outv + 1}) gs \<and>
             sc_ratio t = map length gs @ replicate (20 - outv) 0))"

lemma ave_groups_table:
  assumes "0 < outv" "outv \<le> inp" "inp \<le> 20" "gs = map ave_group (ave_groups inp outv)"
  shows "map length gs = ave_groups inp outv" "length (concat gs) = inp" "length gs = outv"
    "list_all avg_group_ok gs" "list_all (\<lambda>g. length g \<in> {inp div outv, inp div outv + 1}) gs"
proof -
  note g = ave_groups_props [OF assms(1,2)]
  have le: "1 \<le> x \<and> x \<le> 20" if "x \<in> set (ave_groups inp outv)" for x
    using g(2,4) that member_le_sum_list [of x "ave_groups inp outv"] assms(3) by auto
  show lens: "map length gs = ave_groups inp outv"
    unfolding assms(4) by (auto intro!: map_idI ave_group_length dest: le)
  show "length (concat gs) = inp" using lens g(4) by (simp add: length_concat)
  show "length gs = outv" using g(1) assms(4) by simp
  show "list_all avg_group_ok gs" unfolding assms(4) by (auto simp: list_all_iff intro!: ave_group_ok dest: le)
  show "list_all (\<lambda>g. length g \<in> {inp div outv, inp div outv + 1}) gs"
    using g(3) by (auto simp: list_all_iff simp flip: lens)
qed

lemma ave_groups_one: "ave_groups inp 1 = [inp]" "ave_groups inp (Suc 0) = [inp]"
  by (simp_all add: ave_groups_def)

lemma prp_ave_scale_loop:
  "0 < length (sc_ratio t) \<Longrightarrow> prp_ave_scale t inp outv = ave_loop (ave_groups inp outv) 0 t"
  by (auto simp: prp_ave_scale_def ave_groups_one split: prod.split bool.split)

lemma prp_ave_scale_ok:
  assumes "tbl_is t []" "0 < outv" "outv \<le> inp" "inp \<le> 20"
    and "sc_algo t = ALGO_AVG" "sc_ratio t = replicate 20 0" "\<not> (outv < inp \<and> inp < 2 * outv)"
  shows "\<exists>t'. prp_ave_scale t inp outv = (True, t') \<and> prp_table_ok inp outv t'"
proof -
  let ?gs = "map ave_group (ave_groups inp outv)"
  note g = ave_groups_props [OF assms(2,3)] and gt = ave_groups_table [OF assms(2-4) refl]
  obtain t' where t': "ave_loop (ave_groups inp outv) 0 t = (True, t')" "tbl_is t' (concat ?gs)"
    "sc_algo t' = sc_algo t" "sc_ratio t' = ave_groups inp outv @ drop outv (sc_ratio t)"
    using ave_loop_is [OF assms(1) g(2), of 0] g(1,4) assms(3,4,6) by auto
  have "prp_table_ok inp outv t'"
    unfolding prp_table_ok_def if_not_P [OF assms(7)] using t' gt assms(5,6)
    by (auto simp: tbl_is_def intro!: exI [of _ ?gs])
  then show ?thesis using t'(1) prp_ave_scale_loop [of t] assms(6) by simp
qed

lemma prp_scale_build_ok:
  assumes "sc_algo t = ALGO_AUTO" "length (sc_ratio t) = 20" "coprime inp outv"
    and "0 < outv" "outv \<le> inp" "inp \<le> 20"
  obtains t' where "prp_scale_build t (int inp) (int outv) = Inr (True, t')" "prp_table_ok inp outv t'"
proof (cases "inp = outv")
  case True
  then have 1: "inp = 1" "outv = 1" using assms(3) by auto
  let ?t = "t\<lparr>sc_len := 0, sc_algo := ALGO_AVG, sc_tbl := replicate 20 0, sc_ratio := replicate 20 0\<rparr>"
  obtain t' where t': "prp_ave_scale ?t 1 1 = (True, t')" "prp_table_ok 1 1 t'"
    using prp_ave_scale_ok [of ?t 1 1] by (auto simp: tbl_is_def)
  have "prp_scale_build t (int inp) (int outv) = Inr (True, t')"
    using t'(1) assms(1) unfolding 1
    by (auto simp: prp_scale_build_def Let_def prp_ave_scale_def prp_scale_ave_def prp_ave_coeff_def copy_at_def)
  then show ?thesis using that t'(2) 1 by simp
next
  case False
  then have lt: "outv < inp" using assms(5) by simp
  show ?thesis
  proof (cases "inp < 2 * outv")
    case True
    let ?t = "t\<lparr>sc_len := 0, sc_algo := ALGO_BIL, sc_tbl := replicate 20 0,
        sc_ratio := (sc_ratio t)[0 := inp, 1 := outv]\<rparr>"
    obtain t' where t': "bil_mid_loop (int inp) (int outv) (3 * int outv) (int inp)
        (int inp - int outv) ?t = (True, t')" "tbl_is t' (bil_table inp outv)" "same_mode ?t t'"
      using bil_mid_loop_is [OF assms(4) lt True assms(3,6), of 0 ?t "[]"] assms(4)
        bil_pos_ends(1) [OF assms(4) lt True]
      by (auto simp: tbl_is_def bil_table_def mult.commute algebra_simps)
    have "prp_scale_build t (int inp) (int outv) = Inr (True, t')"
      using t'(1) True lt assms
      by (simp add: prp_scale_build_def Let_def nat_mod_distrib)
    moreover have "take 2 ((sc_ratio t)[0 := inp, Suc 0 := outv]) = [inp, outv]"
      using assms(2) by (cases "sc_ratio t"; cases "tl (sc_ratio t)") auto
    then have "prp_table_ok inp outv t'"
      using t'(2,3) True lt assms bil_table_length [OF assms(4) lt True]
      by (simp add: prp_table_ok_def tbl_is_def same_mode_def)
    ultimately show ?thesis by (rule that)
  next
    case ge: False
    let ?t = "t\<lparr>sc_len := 0, sc_algo := ALGO_AVG, sc_tbl := replicate 20 0, sc_ratio := replicate 20 0\<rparr>"
    obtain t' where t': "prp_ave_scale ?t inp outv = (True, t')" "prp_table_ok inp outv t'"
      using prp_ave_scale_ok [of ?t outv inp] assms(4-6) ge by (auto simp: tbl_is_def)
    have "prp_scale_build t (int inp) (int outv) = Inr (True, t')"
      using t'(1) ge lt assms by (simp add: prp_scale_build_def Let_def)
    then show ?thesis using that t'(2) by simp
  qed
qed

section \<open>Ratios in lowest terms\<close>

lemma prp_gcd_loop_pos: "0 < y \<Longrightarrow> 0 \<le> x \<Longrightarrow> prp_gcd_loop x y = gcd x y"
proof (induction x y rule: prp_gcd_loop.induct)
  case (1 x y)
  show ?case
  proof (cases "x mod y = 0")
    case True
    then show ?thesis
      using "1.prems" by (subst prp_gcd_loop.simps) (auto simp: mod_eq_0_iff_dvd gcd_proj2_iff)
  next
    case False
    then have "0 < x mod y" using "1.prems" pos_mod_sign [of y x] by linarith
    then show ?thesis
      using 1 False gcd_red_int [of x y] by (subst prp_gcd_loop.simps) simp
  qed
qed

lemma prp_gcd_pos: "0 < x \<Longrightarrow> 0 < y \<Longrightarrow> prp_gcd x y = gcd x y"
  by (simp add: prp_gcd_def prp_gcd_loop_pos gcd.commute)

lemma prp_ratio_pos:
  assumes "0 < x" "0 < y"
  shows "prp_ratio (int x) (int y) = Some (int (x div gcd x y), int (y div gcd x y))"
  using assms by (simp add: prp_ratio_def Let_def prp_gcd_pos zdiv_int)

lemma reduced_ratio:
  assumes "0 < (y :: nat)" "y \<le> x"
  shows "coprime (x div gcd x y) (y div gcd x y)" "0 < y div gcd x y" "y div gcd x y \<le> x div gcd x y"
  using assms div_gcd_coprime [of x y]
  by (auto simp: div_greater_zero_iff gcd_le2_nat intro: div_le_mono)

text \<open>The first output size from \<open>dout\<close> on whose reduced ratio fits the table.\<close>

definition first_fit :: "nat \<Rightarrow> nat \<Rightarrow> nat \<Rightarrow> nat option" where
  "first_fit din dout retry = find (\<lambda>d. din div gcd din d \<le> 20) [dout ..< Suc (dout + retry)]"

lemma first_fit_step:
  "first_fit din dout (Suc r) = (if din div gcd din dout \<le> 20 then Some dout else first_fit din (Suc dout) r)"
proof -
  have "[dout ..< Suc (dout + Suc r)] = dout # [Suc dout ..< Suc (Suc dout + r)]"
    by (subst upt_conv_Cons) simp_all
  then show ?thesis by (simp add: first_fit_def del: upt_Suc)
qed

lemma first_fit_0: "first_fit din dout 0 = (if din div gcd din dout \<le> 20 then Some dout else None)"
  by (simp add: first_fit_def)

lemma prp_try_spec:
  assumes "sc_algo t = ALGO_AUTO" "length (sc_ratio t) = 20" "0 < dout" "dout \<le> din"
  shows "case first_fit din dout retry of
           None \<Rightarrow> prp_try t (int din) (int dout) retry = Inl EGENERIC
         | Some d \<Rightarrow> dout \<le> d \<and> d \<le> din \<and> (\<exists>t'. prp_try t (int din) (int dout) retry = Inr (t', int d) \<and>
             prp_table_ok (din div gcd din d) (d div gcd din d) t')"
  using assms(3,4)
proof (induction retry arbitrary: dout)
  case 0
  note r = reduced_ratio [OF 0]
  show ?case
  proof (cases "din div gcd din dout \<le> 20")
    case True
    then obtain t' where "prp_scale_build t (int (din div gcd din dout)) (int (dout div gcd din dout)) = Inr (True, t')"
      "prp_table_ok (din div gcd din dout) (dout div gcd din dout) t'"
      using prp_scale_build_ok [OF assms(1,2) r(1,2,3)] by blast
    then show ?thesis
      using 0 True by (subst prp_try.simps) (simp add: first_fit_0 prp_ratio_pos prp_try.simps)
  next
    case False
    then show ?thesis using 0 by (simp add: first_fit_0 prp_try.simps prp_ratio_pos)
  qed
next
  case (Suc n)
  note r = reduced_ratio [OF Suc.prems]
  show ?case
  proof (cases "din div gcd din dout \<le> 20")
    case True
    then obtain t' where "prp_scale_build t (int (din div gcd din dout)) (int (dout div gcd din dout)) = Inr (True, t')"
      "prp_table_ok (din div gcd din dout) (dout div gcd din dout) t'"
      using prp_scale_build_ok [OF assms(1,2) r(1,2,3)] by blast
    then show ?thesis
      using Suc.prems True by (simp add: first_fit_step prp_ratio_pos prp_try.simps)
  next
    case False
    then have "dout \<noteq> din" using Suc.prems by (auto simp: gcd_idem_nat)
    then have "Suc dout \<le> din" using Suc.prems by simp
    moreover have "prp_try t (int din) (int dout) (Suc n) = prp_try t (int din) (int (Suc dout)) n"
      using False Suc.prems by (subst prp_try.simps) (simp add: prp_ratio_pos add.commute)
    ultimately show ?thesis
      using Suc.IH [of "Suc dout"] False by (auto simp: first_fit_step split: option.splits)
  qed
qed

section \<open>Properties of the pre-processor scaler\<close>

text \<open>The output size computed from the table: exact when the input is a multiple of its ratio.\<close>

lemma prp_table_avg_sum:
  assumes "prp_table_ok inp outv t" "\<not> (outv < inp \<and> inp < 2 * outv)"
  shows "sc_algo t = ALGO_AVG" "sum_list (takeWhile (\<lambda>r. r \<noteq> 0) (sc_ratio t)) = inp"
    "length (takeWhile (\<lambda>r. r \<noteq> 0) (sc_ratio t)) = outv"
proof -
  obtain gs where gs: "length gs = outv" "length (concat gs) = inp" "list_all avg_group_ok gs"
    "sc_ratio t = map length gs @ replicate (20 - outv) 0" "sc_algo t = ALGO_AVG"
    using assms(1) unfolding prp_table_ok_def if_not_P [OF assms(2)] by blast
  have "\<And>r. r \<in> set (map length gs) \<Longrightarrow> r \<noteq> 0"
    using gs(3) by (auto simp: list_all_iff avg_group_ok_def)
  then have tw: "takeWhile (\<lambda>r. r \<noteq> 0) (sc_ratio t) = map length gs"
    unfolding gs(4) by (subst takeWhile_append2) auto
  show "sc_algo t = ALGO_AVG" "length (takeWhile (\<lambda>r. r \<noteq> 0) (sc_ratio t)) = outv"
    "sum_list (takeWhile (\<lambda>r. r \<noteq> 0) (sc_ratio t)) = inp"
    using gs(1,2,5) tw by (simp_all add: length_concat)
qed

lemma avg_rest_0: "rs \<noteq> [] \<Longrightarrow> avg_rest rs 0 n = n"
  by (cases rs) simp_all

lemma prp_scale_spec:
  assumes "0 < dout" "dout \<le> din" "din < 65536"
  shows "case first_fit din dout retry of
      None \<Rightarrow> prp_scale scale_init (int din) (int dout) (int din) 0 retry = Inl EGENERIC
    | Some d \<Rightarrow> dout \<le> d \<and> d \<le> din \<and>
        (\<exists>t. prp_scale scale_init (int din) (int dout) (int din) 0 retry = Inr (t, d) \<and>
             prp_table_ok (din div gcd din d) (d div gcd din d) t)"
proof (cases "first_fit din dout retry")
  case None
  then show ?thesis
    using prp_try_spec [of scale_init dout din retry] assms
    by (simp add: prp_scale_def scale_init_def)
next
  case (Some d)
  then obtain t where t: "dout \<le> d" "d \<le> din" "prp_try scale_init (int din) (int dout) retry = Inr (t, int d)"
    "prp_table_ok (din div gcd din d) (d div gcd din d) t"
    using prp_try_spec [of scale_init dout din retry] assms by (auto simp: scale_init_def)
  let ?g = "gcd din d"
  let ?i = "din div ?g" and ?o = "d div ?g"
  have pos: "0 < d" "0 < din" using t(1,2) assms(1) by auto
  have i: "0 < ?i" "?i \<le> 20"
    using pos Some by (auto simp: first_fit_def find_Some_iff div_greater_zero_iff gcd_le1_nat)
  have "din = ?g * ?i" by simp
  then have "din div ?i = ?g" "din mod ?i = 0"
    using i(1) by (metis nonzero_mult_div_cancel_right less_numeral_extra(3), metis mod_mult_self2_is_0)
  then have g: "int din div int ?i = int ?g" "int din mod int ?i = 0" "?g * ?o = d"
    by (simp_all flip: zdiv_int zmod_int)
  have "prp_scale scale_init (int din) (int dout) (int din) 0 retry = Inr (t, d)"
  proof (cases "?o < ?i \<and> ?i < 2 * ?o")
    case True
    then have b: "sc_algo t = ALGO_BIL" "take 2 (sc_ratio t) = [?i, ?o]"
      using t(4) by (auto simp: prp_table_ok_def)
    have "sc_ratio t ! 0 = take 2 (sc_ratio t) ! 0" "sc_ratio t ! 1 = take 2 (sc_ratio t) ! 1"
      by (simp_all add: nth_take)
    then have r: "sc_ratio t ! 0 = ?i" "sc_ratio t ! Suc 0 = ?o" unfolding b(2) by simp_all
    have "to_u16 (int ?g * int ?o) = d" using g(3) t(2) assms(3) by (simp add: to_u16_def flip: of_nat_mult)
    then show ?thesis
      using t(1-3) b(1) r i g assms by (simp add: prp_scale_def bil_rest.simps)
  next
    case False
    note a = prp_table_avg_sum [OF t(4) False]
    have ne: "sc_ratio t \<noteq> []" using a(2) i(1) by auto
    have "?g < 65536" using gcd_le1_nat [of din d] pos assms(3) by linarith
    then have "to_u16 (int ?g) * ?o mod 65536 = d" using g(3) t(2) assms(3) by (simp add: to_u16_def)
    then show ?thesis
      using t(1-3) a i g assms by (simp add: prp_scale_def avg_rest_0 [OF ne])
  qed
  then show ?thesis using Some t(1,2,4) by simp
qed

text \<open>
  C26. Building a resize table never fails for a ratio in lowest terms within the 20-entry
  limit: with the automatic choice of algorithm, a downscale below 2 gives the bilinear table
  in which output \<open>k\<close> is interpolated between the input samples around its centre, with the
  rounded weight, and the table steps over exactly \<open>inp\<close> input samples; every other ratio gives
  \<open>outv\<close> averaging groups that together cover the \<open>inp\<close> samples, differ in size by at most one
  and have weights that add up to 8 eighths. No write leaves the arrays.
\<close>

theorem prp_scale_build_correct:
  assumes "sc_algo t = ALGO_AUTO" "length (sc_ratio t) = 20" "coprime inp outv"
    and "0 < outv" "outv \<le> inp" "inp \<le> 20"
  shows "\<exists>t'. prp_scale_build t (int inp) (int outv) = Inr (True, t') \<and> prp_table_ok inp outv t'"
  using prp_scale_build_ok [OF assms] by blast

theorem prp_scale_build_correct_witness:
  "\<exists>t'. prp_scale_build scale_init 8 5 = Inr (True, t') \<and> sc_len t' = 8"
proof -
  have "coprime (8 :: nat) 5" by (simp add: coprime_iff_gcd_eq_1 gcd_non_0_nat)
  from prp_scale_build_correct [OF _ _ this, of scale_init] show ?thesis
    by (auto simp: scale_init_def prp_table_ok_def)
qed

text \<open>
  C27. The ratio search of \<^verbatim>\<open>prp_scale\<close>, for a whole input of \<open>din\<close> samples: it settles on the
  first output size from \<open>dout\<close> on, at most \<open>retry\<close> above it, whose reduced input count fits the
  20-entry table, returns that size and a correct table for it, and returns \<^verbatim>\<open>-1\<close> exactly when
  there is none. The size reported is never smaller than requested, and it can be larger.
\<close>

theorem prp_scale_correct:
  assumes "0 < dout" "dout \<le> din" "din < 65536"
  shows "case first_fit din dout retry of
      None \<Rightarrow> prp_scale scale_init (int din) (int dout) (int din) 0 retry = Inl EGENERIC
    | Some d \<Rightarrow> dout \<le> d \<and> d \<le> din \<and>
        (\<exists>t. prp_scale scale_init (int din) (int dout) (int din) 0 retry = Inr (t, d) \<and>
             prp_table_ok (din div gcd din d) (d div gcd din d) t)"
  by (rule prp_scale_spec [OF assms])

theorem prp_scale_correct_witness:
  "\<exists>t. prp_scale scale_init 640 601 640 0 16 = Inr (t, 608)"
proof -
  have "first_fit 640 601 16 = Some 608" by (simp add: first_fit_def upt_rec gcd_non_0_nat)
  then show ?thesis using prp_scale_correct [of 601 640 16] by auto
qed

text \<open>
  A destination size of \<open>2\<^sup>3\<^sup>1\<close> or more is a negative \<^verbatim>\<open>int\<close> in \<^verbatim>\<open>prp_scale\<close> and passes its
  guard \<^verbatim>\<open>din < dout\<close>. When its magnitude is a proper multiple of the input size, the averaging
  code increments \<^verbatim>\<open>a[v]\<close> at a negative index: the request reaches undefined behaviour.
\<close>

theorem prp_scale_negative_size:
  assumes "0 < din" "2 \<le> k"
  shows "prp_scale scale_init din (- (din * k)) din 0 retry = Inl Undefined"
proof -
  have k: "0 < k" "din < din * k" using assms by simp_all
  have pos: "0 < din * k" using assms k(1) by simp
  have "c_rem din (- (din * k)) = din" using k pos assms(1) by (simp add: c_rem_def)
  moreover have "c_rem (- (din * k)) din = 0" using assms(1) by (simp add: c_rem_def abs_mult)
  ultimately have "prp_gcd din (- (din * k)) = din"
    using assms k pos
    by (simp add: prp_gcd_def prp_gcd_loop.simps [of din] prp_gcd_loop.simps [of "- (din * k)"])
  moreover have "c_div din din = 1" "c_div (- (din * k)) din = - k"
    using assms(1) k by (simp_all add: c_div_def abs_mult sgn_mult)
  ultimately have r: "prp_ratio din (- (din * k)) = Some (1, - k)"
    using assms k by (simp add: prp_ratio_def)
  have "prp_scale_build scale_init 1 (- k) = Inl Undefined"
    using assms(2) by (simp add: prp_scale_build_def scale_init_def Let_def c_rem_def)
  then show ?thesis using r pos assms(1) by (simp add: prp_scale_def prp_try.simps)
qed

theorem prp_scale_negative_size_witness:
  "prp_scale scale_init 40 (sint (0xFFFFFFB0 :: u32)) 40 0 16 = Inl Undefined"
proof -
  have "sint (0xFFFFFFB0 :: u32) = - (40 * 2)" by simp
  then show ?thesis using prp_scale_negative_size [of 40 2 16] by simp
qed

end
