(* ===== verification/PrP_Convert.thy ===== *)
theory PrP_Convert
  imports PP_Convert PrP_Scale
begin

unbundle bit_operations_syntax

text \<open>
  The eMMA pre-processor operations of \<^verbatim>\<open>src/kernel/mxc_vpu.c\<close>: \<^verbatim>\<open>prp_set_scaler\<close>, the
  interrupt handler and \<^verbatim>\<open>prp_convert\<close>. The state extends the one of the post-processor, with
  which it shares the clock registers; reads and writes are modelled as there.
\<close>

record emma_state = pp_state +
  prp_base :: bool
  prp_lock :: bool
  prp_done :: bool
  prp_reads :: nat
  prp_log :: "(u32 \<times> u32) list"

record vpu_prp_convert = convert_args +
  in_fmt :: u32

abbreviation (input) "PRP_CNTL \<equiv> 0x00 :: u32"
abbreviation (input) "PRP_INTRCNTL \<equiv> 0x04 :: u32"
abbreviation (input) "PRP_INTRSTATUS \<equiv> 0x08 :: u32"
abbreviation (input) "PRP_SOURCE_Y_PTR \<equiv> 0x0c :: u32"
abbreviation (input) "PRP_SOURCE_CB_PTR \<equiv> 0x10 :: u32"
abbreviation (input) "PRP_SOURCE_CR_PTR \<equiv> 0x14 :: u32"
abbreviation (input) "PRP_DEST_RGB1_PTR \<equiv> 0x18 :: u32"
abbreviation (input) "PRP_SOURCE_FRAME_SIZE \<equiv> 0x2c :: u32"
abbreviation (input) "PRP_CH1_LINE_STRIDE \<equiv> 0x30 :: u32"
abbreviation (input) "PRP_SRC_PIXEL_FORMAT_CNTL \<equiv> 0x34 :: u32"
abbreviation (input) "PRP_CH1_PIXEL_FORMAT_CNTL \<equiv> 0x38 :: u32"
abbreviation (input) "PRP_CH1_OUT_IMAGE_SIZE \<equiv> 0x3c :: u32"
abbreviation (input) "PRP_SOURCE_LINE_STRIDE \<equiv> 0x44 :: u32"
abbreviation (input) "PRP_CSC_COEF_012 \<equiv> 0x48 :: u32"
abbreviation (input) "PRP_CSC_COEF_345 \<equiv> 0x4c :: u32"
abbreviation (input) "PRP_CSC_COEF_678 \<equiv> 0x50 :: u32"
abbreviation (input) "PRP_CH1_RZ_HORI_COEF1 \<equiv> 0x54 :: u32"
abbreviation (input) "PRP_CNTL_CH1EN \<equiv> 1 :: u32"
abbreviation (input) "PRP_CNTL_IN_YUV420 \<equiv> 0 :: u32"
abbreviation (input) "PRP_CNTL_IN_RGB16 \<equiv> 0x10 :: u32"
abbreviation (input) "PRP_CNTL_CH1_RGB16 \<equiv> 0x20 :: u32"
abbreviation (input) "PRP_CNTL_CH1_RGB32 \<equiv> 0x40 :: u32"
abbreviation (input) "PRP_CNTL_RST \<equiv> 0x1000 :: u32"
abbreviation (input) "PRP_CNTL_RSTVAL \<equiv> 0x28 :: u32"
abbreviation (input) "PRP_INTRCNTL_RDERR \<equiv> 1 :: u32"
abbreviation (input) "PRP_INTRCNTL_CH1WERR \<equiv> 2 :: u32"
abbreviation (input) "PRP_INTRCNTL_CH1FC \<equiv> 8 :: u32"
abbreviation (input) "PRP_INTRCNTL_LBOVF \<equiv> 0x80 :: u32"
abbreviation (input) "PRP_PIX1_RGB565 \<equiv> 0x2CA00565 :: u32"
abbreviation (input) "PRP_PIX1_TOON32 \<equiv> 0x49420666 :: u32"
abbreviation (input) "PRP_PIXIN_YUV420 \<equiv> 0 :: u32"

definition PRPW :: "u32 \<Rightarrow> u32 \<Rightarrow> 's emma_state_scheme \<Rightarrow> 's emma_state_scheme" where
  "PRPW off v s = s\<lparr>prp_log := prp_log s @ [(off, v)]\<rparr>"

definition PRPR :: "(nat \<Rightarrow> u32 \<Rightarrow> u32) \<Rightarrow> u32 \<Rightarrow> 's emma_state_scheme \<Rightarrow> u32 \<times> 's emma_state_scheme" where
  "PRPR rd off s = (rd (prp_reads s) off, s\<lparr>prp_reads := Suc (prp_reads s)\<rparr>)"

section \<open>The scaler registers\<close>

text \<open>
  \<^verbatim>\<open>prp_set_scaler\<close>: the loop runs from entry 19 down to 0, ten 3-bit coefficients per word with
  a gap of one bit in the middle, and one flag bit per entry.
\<close>

definition scaler_coeff :: "nat list \<Rightarrow> nat \<Rightarrow> u32 \<Rightarrow> u32" where
  "scaler_coeff tbl i c =
     (let c = push_bit 3 c OR of_nat (tbl ! i AND 7)
      in if i = 5 \<or> i = 15 then push_bit 1 c else c)"

fun scaler_loop :: "nat list \<Rightarrow> nat \<Rightarrow> u32 \<times> u32 \<times> u32 \<Rightarrow> u32 \<times> u32 \<times> u32" where
  "scaler_loop tbl 0 r = r"
| "scaler_loop tbl (Suc i) (ca, cb, valid) =
     scaler_loop tbl i
       (if i > 9 then ca else scaler_coeff tbl i ca,
        if i > 9 then scaler_coeff tbl i cb else cb,
        push_bit 1 valid OR of_nat (drop_bit 3 (tbl ! i)))"

definition scaler_words :: "scale_t \<Rightarrow> u32 \<times> u32 \<times> u32" where
  "scaler_words t =
     (case scaler_loop (sc_tbl t) 20 (0, 0, 0) of
        (ca, cb, valid) \<Rightarrow>
          (ca, cb, valid OR (push_bit 24 (of_nat (sc_len t)) OR push_bit 31 (2 - of_nat (sc_algo t)))))"

definition prp_set_scaler :: "u32 \<Rightarrow> scale_t \<Rightarrow> 's emma_state_scheme \<Rightarrow> 's emma_state_scheme" where
  "prp_set_scaler dir t s =
     (let off = PRP_CH1_RZ_HORI_COEF1 + dir * 0xc
      in case scaler_words t of
           (ca, cb, valid) \<Rightarrow> PRPW (off + 8) valid (PRPW (off + 4) cb (PRPW (off + 0) ca s)))"

section \<open>Operations\<close>

definition prp_force_clk_on :: "'s emma_state_scheme \<Rightarrow> 's emma_state_scheme" where
  "prp_force_clk_on s = emma_force_clk_on s"

text \<open>\<open>raw\<close> is what the status register reads when the interrupt is served.\<close>

definition prp_irq_handler :: "(nat \<Rightarrow> u32 \<Rightarrow> u32) \<Rightarrow> u32 \<Rightarrow> 's emma_state_scheme \<Rightarrow> 's emma_state_scheme" where
  "prp_irq_handler rd raw s =
     (let st = raw AND 0x1ff
      in case PRPR rd PRP_CNTL s of
           (v, s) \<Rightarrow> (PRPW PRP_INTRSTATUS st (PRPW PRP_CNTL (v AND NOT PRP_CNTL_CH1EN) s))\<lparr>prp_done := True\<rparr>)"

fun prp_poll_reset :: "(nat \<Rightarrow> u32 \<Rightarrow> u32) \<Rightarrow> nat \<Rightarrow> 's emma_state_scheme \<Rightarrow> 's emma_state_scheme" where
  "prp_poll_reset rd 0 s = s"
| "prp_poll_reset rd (Suc n) s =
     (case PRPR rd PRP_CNTL s of
        (v, s') \<Rightarrow> if v = PRP_CNTL_RSTVAL then s' else prp_poll_reset rd n s')"

definition prp_wait :: "(nat \<Rightarrow> u32 \<Rightarrow> u32) \<Rightarrow> wait_event \<Rightarrow> 's emma_state_scheme \<Rightarrow> int \<times> 's emma_state_scheme" where
  "prp_wait rd ev s =
     (case ev of
        Irq raw \<Rightarrow> let s' = prp_irq_handler rd raw s in (if prp_done s' then 1 else 0, s')
      | Timeout \<Rightarrow> (0, s)
      | Signal \<Rightarrow> (errno_code ERESTARTSYS, s))"

text \<open>A failed \<^verbatim>\<open>prp_scale\<close> is \<^verbatim>\<open>-EINVAL\<close>; undefined behaviour in it stays visible.\<close>

definition prp_scale_err :: "errno \<Rightarrow> errno" where
  "prp_scale_err e = (if e = EGENERIC then EINVAL else e)"

definition prp_check :: "bool \<Rightarrow> vpu_prp_convert \<Rightarrow> errno option" where
  "prp_check mapped c =
     (if \<not> mapped then Some ENODEV
      else if src_w c < 32 \<or> src_h c < 32 \<or> dst_w c < 8 \<or> dst_h c < 8 then Some EINVAL
      else None)"

text \<open>The two scaler tables and the real output size, the width made even.\<close>

definition prp_scalers :: "vpu_prp_convert \<Rightarrow> errno + (scale_t \<times> scale_t \<times> u32 \<times> u32)" where
  "prp_scalers c =
     (case prp_scale scale_init (sint (src_w c)) (sint (dst_w c)) (sint (src_w c)) 0 SCALE_RETRY of
        Inl e \<Rightarrow> Inl (prp_scale_err e)
      | Inr (sw, outw) \<Rightarrow>
          (case prp_scale scale_init (sint (src_h c)) (sint (dst_h c)) (sint (src_h c)) 0 SCALE_RETRY of
             Inl e \<Rightarrow> Inl (prp_scale_err e)
           | Inr (sh, outh) \<Rightarrow> Inr (sw, sh, of_nat outw AND NOT 1, of_nat outh)))"

text \<open>The register programme between the soft reset and the start bit.\<close>

definition prp_program ::
    "vpu_prp_convert \<Rightarrow> scale_t \<Rightarrow> scale_t \<Rightarrow> u32 \<Rightarrow> u32 \<Rightarrow> 's emma_state_scheme \<Rightarrow> 's emma_state_scheme" where
  "prp_program c sw sh outw outh s =
     (let in_rgb = in_fmt c \<noteq> 0;
          s = PRPW PRP_CSC_COEF_012 0x12A66032 s;
          s = PRPW PRP_CSC_COEF_345 0x0D082000 s;
          s = PRPW PRP_CSC_COEF_678 0x80000000 s;
          s = PRPW PRP_SRC_PIXEL_FORMAT_CNTL (if in_rgb then in_fmt c else PRP_PIXIN_YUV420) s;
          s = PRPW PRP_SOURCE_FRAME_SIZE (push_bit 16 (src_w c) OR src_h c) s;
          s = PRPW PRP_SOURCE_LINE_STRIDE (src_stride c) s;
          s = PRPW PRP_SOURCE_Y_PTR (src_y c) s;
          s = (if in_rgb then
                 PRPW PRP_SOURCE_CR_PTR (src_y c) (PRPW PRP_SOURCE_CB_PTR (src_y c) s)
               else let sz = src_stride c * src_h c
                    in PRPW PRP_SOURCE_CR_PTR (src_y c + sz + drop_bit 2 sz)
                         (PRPW PRP_SOURCE_CB_PTR (src_y c + sz) s));
          s = PRPW PRP_CH1_PIXEL_FORMAT_CNTL (if eff_bpp c = 32 then PRP_PIX1_TOON32 else PRP_PIX1_RGB565) s;
          s = PRPW PRP_CH1_OUT_IMAGE_SIZE (push_bit 16 outw OR outh) s;
          s = PRPW PRP_CH1_LINE_STRIDE (dst_stride c) s;
          s = PRPW PRP_DEST_RGB1_PTR (dst_rgb c) s;
          s = prp_set_scaler 0 sw s;
          s = prp_set_scaler 1 sh s
      in PRPW PRP_INTRCNTL (PRP_INTRCNTL_CH1FC OR PRP_INTRCNTL_RDERR OR PRP_INTRCNTL_CH1WERR OR
                            PRP_INTRCNTL_LBOVF) s)"

definition prp_start :: "vpu_prp_convert \<Rightarrow> u32" where
  "prp_start c =
     (if in_fmt c \<noteq> 0 then PRP_CNTL_IN_RGB16 else PRP_CNTL_IN_YUV420) OR
     (if eff_bpp c = 32 then PRP_CNTL_CH1_RGB32 else PRP_CNTL_CH1_RGB16) OR PRP_CNTL_CH1EN"

definition prp_convert ::
    "(nat \<Rightarrow> u32 \<Rightarrow> u32) \<Rightarrow> wait_event \<Rightarrow> vpu_prp_convert \<Rightarrow> 's emma_state_scheme \<Rightarrow>
     errno option \<times> 's emma_state_scheme" where
  "prp_convert rd ev c s =
     (case prp_check (prp_base s) c of Some e \<Rightarrow> (Some e, s) | None \<Rightarrow>
      case prp_scalers c of
        Inl e \<Rightarrow> (Some e, s)
      | Inr (sw, sh, outw, outh) \<Rightarrow>
        (let s = prp_force_clk_on (s\<lparr>prp_lock := True\<rparr>);
             s = prp_poll_reset rd 1000 (PRPW PRP_CNTL PRP_CNTL_RST s);
             s = (prp_program c sw sh outw outh s)\<lparr>prp_done := False\<rparr>;
             s = PRPW PRP_CNTL (prp_start c) s
         in case prp_wait rd ev s of (rc, s) \<Rightarrow>
              if rc \<le> 0 then
                (case PRPR rd PRP_CNTL s of
                   (v, s) \<Rightarrow> (Some ETIME, (PRPW PRP_CNTL (v AND NOT PRP_CNTL_CH1EN) s)\<lparr>prp_lock := False\<rparr>))
              else (None, s\<lparr>prp_lock := False\<rparr>)))"

section \<open>The fields of the scaler registers\<close>

text \<open>A word filled by shifting in digits of \<open>k\<close> bits, highest index first.\<close>

lemma bit_shift_in:
  fixes f :: "nat \<Rightarrow> nat" and c :: u32
  assumes "0 < k" "\<forall>i < b. f i < 2 ^ k" "a \<le> b"
  shows "bit (fold (\<lambda>i c. push_bit k c OR of_nat (f i)) (rev [a ..< b]) c) n \<longleftrightarrow>
    n < 32 \<and> (if n < k * (b - a) then bit (f (a + n div k)) (n mod k) else bit c (n - k * (b - a)))"
  using assms(3,2)
proof (induction b arbitrary: c rule: dec_induct)
  case base
  then show ?case by (auto dest: bit_imp_le_length)
next
  case (step b)
  have high: "bit (f b) m \<Longrightarrow> m < k" for m
    using step.prems bit_take_bit_iff [of k "f b" m] by (simp add: take_bit_nat_eq_self)
  have new: "bit (push_bit k c OR of_nat (f b) :: u32) m \<longleftrightarrow>
      m < 32 \<and> (if m < k then bit (f b) m else bit c (m - k))" for m
    using high [of m] by (auto simp: bit_simps bit_of_nat_iff)
  have S: "Suc b - a = Suc (b - a)" using step.hyps by simp
  consider "n < k * (b - a)" | "k * (b - a) \<le> n" "n < k * Suc (b - a)" | "k * Suc (b - a) \<le> n"
    by linarith
  then show ?case
  proof cases
    case 1
    then have "n < k * Suc (b - a)" by simp
    then show ?thesis using step.IH [of "push_bit k c OR of_nat (f b)"] step.prems step.hyps 1 by (simp add: S)
  next
    case 2
    then have "n div k = b - a" "n mod k = n - k * (b - a)"
      by (auto intro!: div_nat_eqI mod_nat_eqI simp: mult.commute)
    then show ?thesis
      using step.IH [of "push_bit k c OR of_nat (f b)"] step.prems step.hyps 2 new [of "n - k * (b - a)"]
      by (auto simp: S)
  next
    case 3
    then have "k \<le> n - k * (b - a)" "n - k * (b - a) - k = n - k * Suc (b - a)" by auto
    then show ?thesis
      using step.IH [of "push_bit k c OR of_nat (f b)"] step.prems step.hyps 3 new [of "n - k * (b - a)"]
      by (auto simp: S dest: bit_imp_le_length)
  qed
qed

lemma scaler_loop_fold:
  "scaler_loop tbl n (ca, cb, v) =
     (fold (scaler_coeff tbl) (rev [0 ..< min n 10]) ca, fold (scaler_coeff tbl) (rev [10 ..< n]) cb,
      fold (\<lambda>i c. push_bit 1 c OR of_nat (drop_bit 3 (tbl ! i))) (rev [0 ..< n]) v)"
proof (induction n arbitrary: ca cb v)
  case (Suc n)
  show ?case
  proof (cases "n < 10")
    case True
    then have "min (Suc n) 10 = Suc n" "min n 10 = n" "[10 ..< Suc n] = []" by auto
    then show ?thesis using True Suc.IH by simp
  next
    case False
    then have "min (Suc n) 10 = 10" "min n 10 = 10" by auto
    then show ?thesis using False Suc.IH by simp
  qed
qed simp

definition coeff_fold :: "nat list \<Rightarrow> nat \<Rightarrow> nat \<Rightarrow> u32 \<Rightarrow> u32" where
  "coeff_fold tbl a b c = fold (\<lambda>i c. push_bit 3 c OR of_nat (tbl ! i AND 7)) (rev [a ..< b]) c"

lemma and_7: "(n AND 7) = (n mod 8 :: nat)"
  using take_bit_eq_mask [of 3 n] by (simp add: mask_eq_exp_minus_1 take_bit_eq_mod)

lemma bit_mod_8: "bit (n mod 8 :: nat) b \<longleftrightarrow> b < 3 \<and> bit n b"
  using bit_take_bit_iff [of 3 n b] by (simp add: take_bit_eq_mod)

lemma bit_coeff_fold:
  assumes "a \<le> b"
  shows "bit (coeff_fold tbl a b c) n \<longleftrightarrow>
    n < 32 \<and> (if n < 3 * (b - a) then bit (tbl ! (a + n div 3)) (n mod 3) else bit c (n - 3 * (b - a)))"
  unfolding coeff_fold_def
  using bit_shift_in [of 3 b "\<lambda>i. tbl ! i AND 7" a c n] assms by (simp add: and_7 bit_mod_8)

text \<open>The ten coefficients of one word: five above the gap, then five below it.\<close>

lemma scaler_coeff_plain:
  "5 \<notin> set is \<Longrightarrow> 15 \<notin> set is \<Longrightarrow> fold (scaler_coeff tbl) is c =
    fold (\<lambda>i c. push_bit 3 c OR of_nat (tbl ! i AND 7)) is c"
  by (induction "is" arbitrary: c) (auto simp: scaler_coeff_def Let_def)

lemma scaler_half:
  assumes "p = 0 \<or> p = 10"
  shows "fold (scaler_coeff tbl) (rev [p ..< p + 10]) c =
    coeff_fold tbl p (p + 5) (push_bit 1 (coeff_fold tbl (p + 5) (p + 10) c))"
proof -
  have u: "[p ..< p + 10] = [p ..< p + 5] @ [p + 5] @ [p + 6 ..< p + 10]"
    by (simp add: upt_add_eq_append [of p "p + 5" 5, simplified] upt_conv_Cons)
  have u': "[p + 5 ..< p + 10] = (p + 5) # [p + 6 ..< p + 10]" by (simp add: upt_conv_Cons)
  have "scaler_coeff tbl (p + 5) x = push_bit 1 (push_bit 3 x OR of_nat (tbl ! (p + 5) AND 7))" for x
  proof -
    have "p + 5 = 5 \<or> p + 5 = 15" using assms by auto
    then show ?thesis unfolding scaler_coeff_def Let_def by (rule if_P)
  qed
  moreover have "5 \<notin> set (rev [p + 6 ..< p + 10])" "15 \<notin> set (rev [p + 6 ..< p + 10])"
    "5 \<notin> set (rev [p ..< p + 5])" "15 \<notin> set (rev [p ..< p + 5])"
    using assms by auto
  ultimately show ?thesis
    unfolding coeff_fold_def u u' by (simp only: scaler_coeff_plain rev_append fold_append o_apply rev.simps
      fold.simps append.simps id_apply not_False_eq_True)
qed

lemma bit_scaler_half:
  assumes "p = 0 \<or> p = 10" "i < 10" "b < 3"
  shows "bit (fold (scaler_coeff tbl) (rev [p ..< p + 10]) 0) (3 * i + (if 5 \<le> i then 1 else 0) + b) \<longleftrightarrow>
    bit (tbl ! (p + i)) b"
proof (cases "i < 5")
  case True
  then have "3 * i + b < 15" "(3 * i + b) div 3 = i" "(3 * i + b) mod 3 = b" using assms(3) by auto
  then show ?thesis using True by (simp add: scaler_half [OF assms(1)] bit_coeff_fold)
next
  case False
  let ?m = "3 * (i - 5) + b" and ?w = "coeff_fold tbl (p + 5) (p + 10) 0"
  have n: "3 * i + 1 + b = 15 + Suc ?m" "Suc ?m < 17" using False assms(2,3) by auto
  have "bit (coeff_fold tbl p (p + 5) (push_bit 1 ?w)) (15 + Suc ?m) \<longleftrightarrow> bit (push_bit 1 ?w) (Suc ?m)"
    using n(2) bit_coeff_fold [of p "p + 5" tbl "push_bit 1 ?w" "15 + Suc ?m"] by auto
  also have "\<dots> \<longleftrightarrow> bit ?w ?m" using n(2) by (simp only: bit_push_bit_iff) simp
  also have "\<dots> \<longleftrightarrow> bit (tbl ! (p + 5 + ?m div 3)) (?m mod 3)"
    using n(2) False assms(2,3) by (auto simp: bit_coeff_fold)
  also have "\<dots> \<longleftrightarrow> bit (tbl ! (p + i)) b" using False assms(3) by simp
  finally show ?thesis using False n(1) by (simp only: scaler_half [OF assms(1)] if_True not_less)
qed

lemma bit_scaler_valid:
  assumes "\<forall>i < 20. tbl ! i < 16"
  shows "bit (fold (\<lambda>i c. push_bit 1 c OR of_nat (drop_bit 3 (tbl ! i))) (rev [0 ..< 20]) (0 :: u32)) n
    \<longleftrightarrow> n < 20 \<and> 8 \<le> tbl ! n"
proof -
  have d: "drop_bit 3 (tbl ! i) = (if 8 \<le> tbl ! i then 1 else 0)" if "i < 20" for i
  proof -
    have "tbl ! i < 16" using assms that by simp
    then show ?thesis by (auto simp: drop_bit_eq_div div_if)
  qed
  have "bit (fold (\<lambda>i c. push_bit 1 c OR of_nat (drop_bit 3 (tbl ! i))) (rev [0 ..< 20]) (0 :: u32)) n
    \<longleftrightarrow> n < 32 \<and> (if n < 1 * (20 - 0) then bit (drop_bit 3 (tbl ! (0 + n div 1))) (n mod 1) else bit (0 :: u32) (n - 1 * (20 - 0)))"
    by (rule bit_shift_in) (simp_all add: d)
  also have "\<dots> \<longleftrightarrow> n < 20 \<and> 8 \<le> tbl ! n" by (auto simp: d bit_0)
  finally show ?thesis .
qed

lemma len_bits: "(m :: nat) < 128 \<Longrightarrow> bit (push_bit 24 (of_nat m) :: u32) n \<longleftrightarrow> 24 \<le> n \<and> n < 31 \<and> bit m (n - 24)"
proof -
  assume m: "m < 128"
  then have "take_bit 7 m = m" by (simp add: take_bit_nat_eq_self)
  then have "bit m (n - 24) \<Longrightarrow> n - 24 < 7" by (metis bit_take_bit_iff)
  then show ?thesis by (auto simp: bit_push_bit_iff bit_of_nat_iff)
qed

lemma algo_bits: "(k :: nat) \<in> {1, 2} \<Longrightarrow> bit (push_bit 31 (2 - of_nat k) :: u32) n \<longleftrightarrow> n = 31 \<and> k = 1"
  by (auto simp: bit_push_bit_iff bit_1_iff)

section \<open>Properties of the pre-processor\<close>

text \<open>
  The scaler registers hold the table: the three coefficient bits of every entry stand in
  their field (ten entries per word, one bit of gap after the fifth), the flag of entry \<open>i\<close> is bit
  \<open>i\<close> of the third word, bits 24 to 30 hold the length and bit 31 selects the bilinear mode.
\<close>

theorem prp_scaler_words_fields:
  assumes "length (sc_tbl t) = 20" "\<forall>i < 20. sc_tbl t ! i < 16" "sc_len t \<le> 20"
    and "sc_algo t \<in> {ALGO_BIL, ALGO_AVG}" "scaler_words t = (ca, cb, valid)" "i < 10" "b < 3"
  shows "bit ca (3 * i + (if 5 \<le> i then 1 else 0) + b) = bit (sc_tbl t ! i) b \<and>
    bit cb (3 * i + (if 5 \<le> i then 1 else 0) + b) = bit (sc_tbl t ! (10 + i)) b \<and>
    bit valid n =
      (if n < 20 then 8 \<le> sc_tbl t ! n
       else if 24 \<le> n \<and> n < 31 then bit (sc_len t) (n - 24)
       else n = 31 \<and> sc_algo t = ALGO_BIL)"
proof (intro conjI)
  have w: "ca = fold (scaler_coeff (sc_tbl t)) (rev [0 ..< 0 + 10]) 0"
    "cb = fold (scaler_coeff (sc_tbl t)) (rev [10 ..< 10 + 10]) 0"
    "valid = fold (\<lambda>i c. push_bit 1 c OR of_nat (drop_bit 3 (sc_tbl t ! i))) (rev [0 ..< 20]) 0 OR
       (push_bit 24 (of_nat (sc_len t)) OR push_bit 31 (2 - of_nat (sc_algo t)))"
    using assms(5) by (simp_all only: scaler_words_def scaler_loop_fold prod.case) auto
  show "bit ca (3 * i + (if 5 \<le> i then 1 else 0) + b) = bit (sc_tbl t ! i) b"
    unfolding w(1) using bit_scaler_half [of 0 i b "sc_tbl t"] assms(6,7) by simp
  show "bit cb (3 * i + (if 5 \<le> i then 1 else 0) + b) = bit (sc_tbl t ! (10 + i)) b"
    unfolding w(2) using bit_scaler_half [of 10 i b "sc_tbl t"] assms(6,7) by simp
  show "bit valid n =
      (if n < 20 then 8 \<le> sc_tbl t ! n
       else if 24 \<le> n \<and> n < 31 then bit (sc_len t) (n - 24)
       else n = 31 \<and> sc_algo t = ALGO_BIL)"
    unfolding w(3) bit_or_iff bit_scaler_valid [OF assms(2)] algo_bits [OF assms(4)]
    using len_bits [of "sc_len t" n] assms(3) by auto
qed

theorem prp_scaler_words_fields_witness:
  "\<exists>t ca cb valid. prp_scale_build scale_init 1 1 = Inr (True, t) \<and> scaler_words t = (ca, cb, valid) \<and>
     bit valid 0 \<and> bit valid 24 \<and> \<not> bit valid 31 \<and> bit ca 2"
proof -
  define t where "t = \<lparr>sc_tbl = 15 # replicate 19 0, sc_len = 1, sc_algo = ALGO_AVG,
    sc_ratio = 1 # replicate 19 0\<rparr>"
  have "replicate 20 (0 :: nat) = 0 # replicate 19 0" by (simp add: numeral_eq_Suc)
  then have b: "prp_scale_build scale_init 1 1 = Inr (True, t)"
    by (simp add: prp_scale_build_def scale_init_def Let_def prp_scale_ave_def copy_at_def prp_ave_coeff_def
        t_def)
  obtain ca cb valid where w: "scaler_words t = (ca, cb, valid)" by (cases "scaler_words t") auto
  have t: "length (sc_tbl t) = 20" "\<forall>i < 20. sc_tbl t ! i < 16" "sc_len t \<le> 20" "sc_algo t \<in> {1, 2}"
    by (auto simp: t_def nth_Cons split: nat.split)
  note f = prp_scaler_words_fields [OF t w]
  show ?thesis
    using b w f [of 0 2 0] f [of 0 2 24] f [of 0 2 31] 
    by (simp add: t_def bit_numeral_rec bit_0 del: add_2_eq_Suc add_2_eq_Suc')
qed

section \<open>The register programme\<close>

lemma PRPW_simps [simp]:
  "prp_lock (PRPW off v s) = prp_lock s" "prp_base (PRPW off v s) = prp_base s"
  "prp_done (PRPW off v s) = prp_done s" "prp_reads (PRPW off v s) = prp_reads s"
  "prp_log (PRPW off v s) = prp_log s @ [(off, v)]" "pp_config (PRPW off v s) = pp_config s"
  "pp_log (PRPW off v s) = pp_log s"
  by (simp_all add: PRPW_def pp_config_def)

lemma PRPR_simps [simp]:
  "fst (PRPR rd off s) = rd (prp_reads s) off" "prp_lock (snd (PRPR rd off s)) = prp_lock s"
  "prp_base (snd (PRPR rd off s)) = prp_base s" "prp_done (snd (PRPR rd off s)) = prp_done s"
  "prp_log (snd (PRPR rd off s)) = prp_log s" "pp_config (snd (PRPR rd off s)) = pp_config s"
  "pp_log (snd (PRPR rd off s)) = pp_log s"
  by (simp_all add: PRPR_def pp_config_def)

text \<open>What a conversion never changes: the mapping, and everything of the post-processor.\<close>

definition prp_frame :: "'s emma_state_scheme \<Rightarrow> bool \<times> (bool \<times> bool \<times> vpu_pp_csc) \<times> (u32 \<times> u32) list" where
  "prp_frame s = (prp_base s, pp_config s, pp_log s)"

lemma prp_frame_simps [simp]:
  "prp_frame (PRPW off v s) = prp_frame s" "prp_frame (snd (PRPR rd off s)) = prp_frame s"
  "prp_frame (s\<lparr>prp_lock := b\<rparr>) = prp_frame s" "prp_frame (s\<lparr>prp_done := b\<rparr>) = prp_frame s"
  "prp_frame (prp_force_clk_on s) = prp_frame s"
  by (simp_all add: prp_frame_def pp_config_def PRPW_def PRPR_def prp_force_clk_on_def emma_force_clk_on_def Let_def)

lemma prp_clk_log [simp]: "prp_log (prp_force_clk_on s) = prp_log s"
  by (simp add: prp_force_clk_on_def emma_force_clk_on_def Let_def)

lemma prp_poll_frame [simp]:
  "prp_frame (prp_poll_reset rd n s) = prp_frame s" "prp_log (prp_poll_reset rd n s) = prp_log s"
  by (induction n arbitrary: s) (simp_all add: case_prod_unfold)

lemma prp_set_scaler_frame [simp]: "prp_frame (prp_set_scaler dir t s) = prp_frame s"
  by (simp add: prp_set_scaler_def case_prod_unfold Let_def)

lemma prp_program_frame [simp]: "prp_frame (prp_program c sw sh w h s) = prp_frame s"
  by (simp add: prp_program_def Let_def)

lemma prp_wait_frame [simp]: "prp_frame (snd (prp_wait rd ev s)) = prp_frame s"
  by (simp add: prp_wait_def prp_irq_handler_def Let_def case_prod_unfold split: wait_event.split)

definition scaler_writes :: "u32 \<Rightarrow> scale_t \<Rightarrow> (u32 \<times> u32) list" where
  "scaler_writes dir t =
     (case scaler_words t of (ca, cb, valid) \<Rightarrow>
       let off = PRP_CH1_RZ_HORI_COEF1 + dir * 0xc in [(off, ca), (off + 4, cb), (off + 8, valid)])"

definition prp_writes ::
    "vpu_prp_convert \<Rightarrow> scale_t \<Rightarrow> scale_t \<Rightarrow> u32 \<Rightarrow> u32 \<Rightarrow> (u32 \<times> u32) list" where
  "prp_writes c sw sh outw outh =
     [(PRP_CSC_COEF_012, 0x12A66032), (PRP_CSC_COEF_345, 0x0D082000), (PRP_CSC_COEF_678, 0x80000000),
      (PRP_SRC_PIXEL_FORMAT_CNTL, in_fmt c),
      (PRP_SOURCE_FRAME_SIZE, push_bit 16 (src_w c) OR src_h c),
      (PRP_SOURCE_LINE_STRIDE, src_stride c),
      (PRP_SOURCE_Y_PTR, src_y c),
      (PRP_SOURCE_CB_PTR, if in_fmt c = 0 then src_y c + src_stride c * src_h c else src_y c),
      (PRP_SOURCE_CR_PTR, if in_fmt c = 0 then src_y c + src_stride c * src_h c + drop_bit 2 (src_stride c * src_h c)
                          else src_y c),
      (PRP_CH1_PIXEL_FORMAT_CNTL, if eff_bpp c = 32 then PRP_PIX1_TOON32 else PRP_PIX1_RGB565),
      (PRP_CH1_OUT_IMAGE_SIZE, push_bit 16 outw OR outh),
      (PRP_CH1_LINE_STRIDE, dst_stride c),
      (PRP_DEST_RGB1_PTR, dst_rgb c)] @
     scaler_writes 0 sw @ scaler_writes 1 sh @ [(PRP_INTRCNTL, 0x8B)]"

lemma prp_set_scaler_log: "prp_log (prp_set_scaler dir t s) = prp_log s @ scaler_writes dir t"
  by (simp add: prp_set_scaler_def scaler_writes_def case_prod_unfold Let_def)

lemma prp_program_log: "prp_log (prp_program c sw sh w h s) = prp_log s @ prp_writes c sw sh w h"
  by (simp add: prp_program_def prp_writes_def Let_def prp_set_scaler_log)

section \<open>Conversions\<close>

lemma prp_convert_programmed:
  assumes "prp_check (prp_base s) c = None" "prp_scalers c = Inr (sw, sh, outw, outh)"
  shows "\<exists>t. prp_frame t = prp_frame s \<and> \<not> prp_done t \<and>
    prp_log t = prp_log s @ [(PRP_CNTL, PRP_CNTL_RST)] @ prp_writes c sw sh outw outh @ [(PRP_CNTL, prp_start c)] \<and>
    prp_convert rd ev c s =
      (case prp_wait rd ev t of (rc, s) \<Rightarrow>
         if rc \<le> 0 then (Some ETIME, (PRPW PRP_CNTL (fst (PRPR rd PRP_CNTL s) AND NOT PRP_CNTL_CH1EN)
                                       (snd (PRPR rd PRP_CNTL s)))\<lparr>prp_lock := False\<rparr>)
         else (None, s\<lparr>prp_lock := False\<rparr>))"
  using assms
  by (intro exI [of _ "PRPW PRP_CNTL (prp_start c) ((prp_program c sw sh outw outh
        (prp_poll_reset rd 1000 (PRPW PRP_CNTL PRP_CNTL_RST (prp_force_clk_on (s\<lparr>prp_lock := True\<rparr>)))))
          \<lparr>prp_done := False\<rparr>)"])
    (simp add: prp_convert_def prp_program_log Let_def case_prod_unfold)

text \<open>
  \<^verbatim>\<open>prp_convert\<close> never touches the post-processor's registers or configuration, releases its
  lock on every path, and a request that the checks or the scaler refuse leaves the whole state
  unchanged.
\<close>

theorem prp_convert_frame:
  assumes "\<not> prp_lock s"
  shows "prp_frame (snd (prp_convert rd ev c s)) = prp_frame s \<and> \<not> prp_lock (snd (prp_convert rd ev c s)) \<and>
    (prp_check (prp_base s) c \<noteq> None \<or> (\<exists>e. prp_scalers c = Inl e) \<longrightarrow> snd (prp_convert rd ev c s) = s)"
proof (cases "prp_check (prp_base s) c = None \<and> (\<forall>e. prp_scalers c \<noteq> Inl e)")
  case True
  then obtain sw sh w h where "prp_scalers c = Inr (sw, sh, w, h)"
    by (cases "prp_scalers c") auto
  from prp_convert_programmed [OF _ this, of s rd ev] True show ?thesis
    by (auto simp: case_prod_unfold split: if_split_asm)
next
  case False
  then show ?thesis using assms by (auto simp: prp_convert_def split: option.splits)
qed

definition emma_idle :: emma_state where
  "emma_idle = \<lparr>pp_base = True, pp_lock = False, pp_status = 0, pp_done = False, pp_csc = pp_csc_default,
     ccm_base = False, ccm = \<lambda>_. 0, pp_reads = 0, pp_log = [], prp_base = True, prp_lock = False,
     prp_done = False, prp_reads = 0, prp_log = []\<rparr>"

definition prp_sample :: vpu_prp_convert where
  "prp_sample = \<lparr>src_y = 0xA0000000, src_w = 640, src_h = 480, src_stride = 640, dst_rgb = 0xA1000000,
     dst_w = 320, dst_h = 240, dst_stride = 640, dst_bpp = 16, in_fmt = 0\<rparr>"

theorem prp_convert_frame_witness:
  "prp_frame (snd (prp_convert (\<lambda>_ _. 0x28) Timeout (prp_sample\<lparr>dst_w := 4\<rparr>) emma_idle)) = prp_frame emma_idle \<and>
   snd (prp_convert (\<lambda>_ _. 0x28) Timeout (prp_sample\<lparr>dst_w := 4\<rparr>) emma_idle) = emma_idle"
  using prp_convert_frame [of emma_idle "\<lambda>_ _. 0x28" Timeout "prp_sample\<lparr>dst_w := 4\<rparr>"]
  by (simp add: emma_idle_def prp_check_def prp_sample_def)

text \<open>
  C28. A conversion that returns 0 has reset the block, written exactly the register programme
  of the request with the two scaler tables, started channel 1 with the input and output format
  bits, and been completed by an interrupt whose handler cleared the enable bit (which the
  hardware leaves set) and acknowledged the status.
\<close>

theorem prp_convert_success:
  assumes "prp_convert rd ev c s = (None, s')"
  shows "\<exists>sw sh outw outh raw cur. prp_base s \<and> prp_scalers c = Inr (sw, sh, outw, outh) \<and> ev = Irq raw \<and>
    prp_log s' = prp_log s @ [(PRP_CNTL, PRP_CNTL_RST)] @ prp_writes c sw sh outw outh @
      [(PRP_CNTL, prp_start c), (PRP_CNTL, cur AND NOT PRP_CNTL_CH1EN), (PRP_INTRSTATUS, raw AND 0x1ff)]"
proof -
  have chk: "prp_check (prp_base s) c = None" using assms by (auto simp: prp_convert_def split: option.splits)
  obtain sw sh w h where r: "prp_scalers c = Inr (sw, sh, w, h)"
    using assms chk by (cases "prp_scalers c") (auto simp: prp_convert_def)
  obtain t where t: "prp_log t = prp_log s @ [(PRP_CNTL, PRP_CNTL_RST)] @ prp_writes c sw sh w h @ [(PRP_CNTL, prp_start c)]"
    "prp_convert rd ev c s =
      (case prp_wait rd ev t of (rc, s) \<Rightarrow>
         if rc \<le> 0 then (Some ETIME, (PRPW PRP_CNTL (fst (PRPR rd PRP_CNTL s) AND NOT PRP_CNTL_CH1EN)
                                       (snd (PRPR rd PRP_CNTL s)))\<lparr>prp_lock := False\<rparr>)
         else (None, s\<lparr>prp_lock := False\<rparr>))"
    using prp_convert_programmed [OF chk r, of rd ev] by blast
  then have w: "0 < fst (prp_wait rd ev t)" "s' = (snd (prp_wait rd ev t))\<lparr>prp_lock := False\<rparr>"
    using assms by (auto simp: case_prod_unfold not_le split: if_splits)
  then obtain raw where "ev = Irq raw" by (cases ev) (auto simp: prp_wait_def)
  then have "prp_log s' = prp_log t @ [(PRP_CNTL, fst (PRPR rd PRP_CNTL t) AND NOT 1), (PRP_INTRSTATUS, raw AND 0x1ff)]"
    using w(2) by (simp add: prp_wait_def prp_irq_handler_def Let_def case_prod_unfold)
  moreover have "prp_base s" using chk by (auto simp: prp_check_def split: if_splits)
  ultimately show ?thesis using t(1) r \<open>ev = Irq raw\<close> by auto
qed

lemma sint_small: "unat w < 65536 \<Longrightarrow> sint (w :: u32) = int (unat w)"
  by (rule sint_unat) simp

lemma unat_small [simp]: "n < 65536 \<Longrightarrow> unat (of_nat n :: u32) = n"
  by (simp add: unsigned_of_nat take_bit_nat_eq_self)

lemma even_part: "n < 65536 \<Longrightarrow> (of_nat n AND NOT 1 :: u32) = of_nat (n div 2 * 2)"
proof -
  assume "n < 65536"
  then have "unat (of_nat n AND NOT (mask 1) :: u32) = n div 2 * 2" by (subst unat_mask_out) simp
  moreover have "n div 2 * 2 < 65536" using \<open>n < 65536\<close> by simp
  ultimately show ?thesis unfolding word_unat_eq_iff by (simp only: unat_small) simp
qed

text \<open>Requests the scaler is meant for: no upscaling, 16-bit sizes.\<close>

definition prp_fits :: "vpu_prp_convert \<Rightarrow> bool" where
  "prp_fits c \<longleftrightarrow> 0 < unat (dst_w c) \<and> unat (dst_w c) \<le> unat (src_w c) \<and> unat (src_w c) < 65536 \<and>
     0 < unat (dst_h c) \<and> unat (dst_h c) \<le> unat (src_h c) \<and> unat (src_h c) < 65536"

lemma prp_scalers_spec:
  assumes "prp_fits c"
  shows "case (first_fit (unat (src_w c)) (unat (dst_w c)) 16, first_fit (unat (src_h c)) (unat (dst_h c)) 16) of
      (Some dw, Some dh) \<Rightarrow>
        unat (dst_w c) \<le> dw \<and> dw \<le> unat (src_w c) \<and> unat (dst_h c) \<le> dh \<and> dh \<le> unat (src_h c) \<and>
        (\<exists>sw sh. prp_scalers c = Inr (sw, sh, of_nat (dw div 2 * 2), of_nat dh) \<and>
          prp_table_ok (unat (src_w c) div gcd (unat (src_w c)) dw) (dw div gcd (unat (src_w c)) dw) sw \<and>
          prp_table_ok (unat (src_h c) div gcd (unat (src_h c)) dh) (dh div gcd (unat (src_h c)) dh) sh)
    | _ \<Rightarrow> prp_scalers c = Inl EINVAL"
proof -
  note f = assms [unfolded prp_fits_def]
  have w: "sint (src_w c) = int (unat (src_w c))" "sint (dst_w c) = int (unat (dst_w c))"
    "sint (src_h c) = int (unat (src_h c))" "sint (dst_h c) = int (unat (dst_h c))"
    by (rule sint_small, use f in linarith)+
  note x = prp_scale_spec [of "unat (dst_w c)" "unat (src_w c)" 16]
    and y = prp_scale_spec [of "unat (dst_h c)" "unat (src_h c)" 16]
  show ?thesis
    using x y f unfolding prp_scalers_def w
    by (auto simp: prp_scale_err_def even_part [simplified] split: option.splits)
qed

text \<open>
  The output image of the pre-processor: for a downscaling request with 16-bit sizes the
  scaler either refuses with \<^verbatim>\<open>-EINVAL\<close>, when no output size up to 16 above the requested one
  has a ratio that fits the table, or the image programmed is the first one that fits in each
  direction, with the width made even; its tables are correct and it covers at least the
  requested height and the requested width up to evenness. It is exactly the requested image
  when the requested ratios fit, and can be larger otherwise.
\<close>

theorem prp_scalers_image:
  assumes "prp_fits c"
  shows "case (first_fit (unat (src_w c)) (unat (dst_w c)) 16, first_fit (unat (src_h c)) (unat (dst_h c)) 16) of
      (Some dw, Some dh) \<Rightarrow>
        unat (dst_w c) \<le> dw \<and> dw \<le> unat (src_w c) \<and> unat (dst_h c) \<le> dh \<and> dh \<le> unat (src_h c) \<and>
        (\<exists>sw sh. prp_scalers c = Inr (sw, sh, of_nat (dw div 2 * 2), of_nat dh) \<and>
          prp_table_ok (unat (src_w c) div gcd (unat (src_w c)) dw) (dw div gcd (unat (src_w c)) dw) sw \<and>
          prp_table_ok (unat (src_h c) div gcd (unat (src_h c)) dh) (dh div gcd (unat (src_h c)) dh) sh)
    | _ \<Rightarrow> prp_scalers c = Inl EINVAL"
  by (rule prp_scalers_spec [OF assms])

lemma prp_sample_fits: "prp_fits prp_sample" "first_fit 640 320 16 = Some 320" "first_fit 480 240 16 = Some 240"
  by (simp_all add: prp_fits_def prp_sample_def first_fit_def upt_conv_Cons gcd_non_0_nat)

theorem prp_scalers_image_witness:
  "\<exists>sw sh. prp_scalers prp_sample = Inr (sw, sh, 320, 240) \<and> prp_table_ok 2 1 sw"
proof -
  have "gcd 640 (320 :: nat) = 320" by (simp add: gcd_non_0_nat)
  then show ?thesis
    using prp_scalers_image [OF prp_sample_fits(1)] prp_sample_fits(2,3) by (auto simp: prp_sample_def)
qed

theorem prp_convert_success_witness:
  "\<exists>s' raw. prp_convert (\<lambda>_ _. 0x61) (Irq 8) prp_sample emma_idle = (None, s') \<and>
     last (prp_log s') = (PRP_INTRSTATUS, raw AND 0x1ff) \<and> raw = 8"
proof -
  have chk: "prp_check (prp_base emma_idle) prp_sample = None"
    by (simp add: prp_check_def emma_idle_def prp_sample_def)
  obtain sw sh where "prp_scalers prp_sample = Inr (sw, sh, 320, 240)"
    using prp_scalers_spec [OF prp_sample_fits(1)] prp_sample_fits(2,3) by (auto simp: prp_sample_def)
  from prp_convert_programmed [OF chk this, of "\<lambda>_ _. 0x61" "Irq 8"]
  obtain s' where "prp_convert (\<lambda>_ _. 0x61) (Irq 8) prp_sample emma_idle = (None, s')"
    by (auto simp: prp_wait_def prp_irq_handler_def Let_def case_prod_unfold)
  with prp_convert_success [OF this] show ?thesis by auto
qed

text \<open>
  The error codes of \<^verbatim>\<open>prp_convert\<close> on sizes below \<open>2\<^sup>1\<^sup>6\<close>: \<^verbatim>\<open>-ENODEV\<close>, \<^verbatim>\<open>-EINVAL\<close> and
  \<^verbatim>\<open>-ETIME\<close>; no division by zero and no undefined behaviour. A signal is reported as a timeout.
\<close>

theorem prp_convert_errors:
  assumes "unat (src_w c) < 65536" "unat (src_h c) < 65536" "unat (dst_w c) < 65536" "unat (dst_h c) < 65536"
    and "fst (prp_convert rd ev c s) = Some e"
  shows "e \<in> {ENODEV, EINVAL, ETIME}"
proof (cases "prp_check (prp_base s) c")
  case (Some e')
  then show ?thesis using assms(5) by (auto simp: prp_convert_def prp_check_def split: if_splits)
next
  case None
  have sw: "e' = EGENERIC" if "prp_scale scale_init (sint a) (sint b) (sint a) 0 16 = Inl e'"
    "unat a < 65536" "unat b < 65536" "0 < unat b" for a b :: u32 and e'
  proof (cases "unat b \<le> unat a")
    case True
    then show ?thesis
      using prp_scale_spec [of "unat b" "unat a" 16] that by (auto simp: sint_small split: option.splits)
  next
    case False
    then have "sint a < sint b" using that(2,3) sint_small [of a] sint_small [of b] by linarith
    then show ?thesis using that(1) by (simp add: prp_scale_def)
  qed
  have pos: "0 < unat (dst_w c)" "0 < unat (dst_h c)"
    using None by (auto simp: prp_check_def unat_gt_0 split: if_splits)
  show ?thesis
  proof (cases "prp_scalers c")
    case (Inl e')
    then have "e' = EINVAL"
      using sw [of "src_w c" "dst_w c"] sw [of "src_h c" "dst_h c"] assms(1-4) pos
      by (auto simp: prp_scalers_def prp_scale_err_def split: sum.splits if_splits)
    then show ?thesis using Inl None assms(5) by (simp add: prp_convert_def)
  next
    case (Inr r)
    then show ?thesis
      using None assms(5)
      by (auto simp: prp_convert_def Let_def case_prod_unfold split: prod.splits if_splits)
  qed
qed

theorem prp_convert_errors_witness:
  "fst (prp_convert (\<lambda>_ _. 0x28) Signal (prp_sample\<lparr>dst_w := 800\<rparr>) emma_idle) = Some EINVAL \<and>
   EINVAL \<in> {ENODEV, EINVAL, ETIME}"
proof -
  have e: "fst (prp_convert (\<lambda>_ _. 0x28) Signal (prp_sample\<lparr>dst_w := 800\<rparr>) emma_idle) = Some EINVAL"
    by (simp add: prp_convert_def prp_check_def prp_sample_def emma_idle_def prp_scalers_def prp_scale_def
        prp_scale_err_def)
  show ?thesis using e prp_convert_errors [OF _ _ _ _ e] by (simp add: prp_sample_def)
qed

end
