(* ===== verification/Driver.thy ===== *)
theory Driver
  imports Pool PrP_Convert
begin

unbundle bit_operations_syntax

text \<open>
  The character device of the kernel driver (\<^verbatim>\<open>src/kernel/mxc_vpu.c\<close>: \<^verbatim>\<open>vpu_open\<close>,
  \<^verbatim>\<open>vpu_ioctl\<close>, \<^verbatim>\<open>vpu_release\<close>, \<^verbatim>\<open>vpu_mmap\<close> and the interrupt handler), one definition per
  command of the \<^verbatim>\<open>switch\<close>. The kernel services that can fail (\<^verbatim>\<open>kzalloc\<close>,
  \<^verbatim>\<open>copy_from_user\<close>, \<^verbatim>\<open>copy_to_user\<close>, \<^verbatim>\<open>vmalloc_user\<close>), device reads and the event that
  ends a sleep are the environment \<open>vpu_env\<close> of a call. A result \<open>None\<close> is a write outside
  the pool's bitmap. The lifetime of DMA buffers over any sequence of calls is the step
  relation \<open>vpu_step\<close> with its invariant.
\<close>

section \<open>State and environment\<close>

record iram_setting =
  iram_start :: u32
  iram_end :: u32

record vpu_state = emma_state +
  vpu_pool :: vpu_pool
  head :: "vpu_mem_desc list"
  open_count :: u8
  bitwork_mem :: vpu_mem_desc
  share_mem :: vpu_mem_desc
  vshare_mem :: vpu_mem_desc
  codec_done :: bool
  vpu_base :: bool
  vpu_reads :: nat
  vpu_log :: "(u32 \<times> u32) list"
  plat_reset :: bool
  plat_resets :: nat
  allow_prp :: bool
  prp_disabled_warned :: bool
  iram :: iram_setting
  phy_vpu_base_addr :: u32

text \<open>
  \<open>copy_to_left\<close> is the number of bytes \<^verbatim>\<open>copy_to_user\<close> could not copy; \<open>garbage\<close> is what a
  failed \<^verbatim>\<open>copy_from_user\<close> leaves in a descriptor.
\<close>

record vpu_env =
  kzalloc_ok :: bool
  copy_from_ok :: bool
  copy_to_left :: nat
  garbage :: vpu_mem_desc
  vmalloc_user :: "u32 \<Rightarrow> u32"
  vpu_read :: "nat \<Rightarrow> u32 \<Rightarrow> u32"
  pp_read :: "nat \<Rightarrow> u32 \<Rightarrow> u32"
  prp_read :: "nat \<Rightarrow> u32 \<Rightarrow> u32"
  sleep_event :: wait_event
  signal_pending :: bool

datatype reply = NoReply | MemReply vpu_mem_desc | RegReply u32 u32 | CscReply vpu_pp_csc | IramReply iram_setting

type_synonym ioctl_result = "(int \<times> reply \<times> vpu_state) option"

abbreviation (input) "BIT_CODE_RUN \<equiv> 0x000 :: u32"
abbreviation (input) "BIT_INT_CLEAR \<equiv> 0x00C :: u32"
abbreviation (input) "BIT_INT_STATUS \<equiv> 0x010 :: u32"
abbreviation (input) "BIT_CODE_RESET \<equiv> 0x014 :: u32"

definition READ_REG :: "vpu_env \<Rightarrow> u32 \<Rightarrow> vpu_state \<Rightarrow> u32 \<times> vpu_state" where
  "READ_REG e x s = (vpu_read e (vpu_reads s) x, s\<lparr>vpu_reads := Suc (vpu_reads s)\<rparr>)"

definition WRITE_REG :: "u32 \<Rightarrow> u32 \<Rightarrow> vpu_state \<Rightarrow> vpu_state" where
  "WRITE_REG val x s = s\<lparr>vpu_log := vpu_log s @ [(x, val)]\<rparr>"

definition vpu_clk_force_on :: "vpu_state \<Rightarrow> vpu_state" where
  "vpu_clk_force_on s =
     (if ccm_base s then s\<lparr>ccm := (ccm s)(0x24 := ccm s 0x24 OR push_bit 6 1 OR push_bit 16 1)\<rparr> else s)"

text \<open>\<^verbatim>\<open>vpu_irq_handler\<close>: the status read, the acknowledge, the flag.\<close>

definition vpu_irq_handler :: "vpu_env \<Rightarrow> vpu_state \<Rightarrow> vpu_state" where
  "vpu_irq_handler e s =
     (case READ_REG e BIT_INT_STATUS s of
        (_, s) \<Rightarrow> (WRITE_REG 1 BIT_INT_CLEAR s)\<lparr>codec_done := True\<rparr>)"

definition vpu_open :: "vpu_state \<Rightarrow> vpu_state" where
  "vpu_open s = s\<lparr>open_count := open_count s + 1\<rparr>"

section \<open>The commands of \<^verbatim>\<open>vpu_ioctl\<close>\<close>

abbreviation (input) efault :: int where "efault \<equiv> errno_code EFAULT"

definition ioctl_phymem_alloc :: "bitmap_ops \<Rightarrow> vpu_env \<Rightarrow> vpu_mem_desc \<Rightarrow> vpu_state \<Rightarrow> ioctl_result" where
  "ioctl_phymem_alloc B e arg s =
     (if \<not> kzalloc_ok e then Some (errno_code ENOMEM, NoReply, s)
      else if \<not> copy_from_ok e then Some (efault, NoReply, s)
      else case vpu_alloc_dma_buffer B (vpu_pool s) arg of
             Inl err \<Rightarrow> Some (errno_code err, NoReply, s)
           | Inr (mem, pool) \<Rightarrow>
               if copy_to_left e \<noteq> 0 then Some (efault, NoReply, s\<lparr>vpu_pool := pool\<rparr>)
               else Some (0, MemReply mem, s\<lparr>vpu_pool := pool, head := mem # head s\<rparr>))"

fun del_record :: "u32 \<Rightarrow> vpu_mem_desc list \<Rightarrow> vpu_mem_desc list" where
  "del_record a [] = []"
| "del_record a (r # rs) = (if cpu_addr r = a then rs else r # del_record a rs)"

definition ioctl_phymem_free :: "bitmap_ops \<Rightarrow> vpu_env \<Rightarrow> vpu_mem_desc \<Rightarrow> vpu_state \<Rightarrow> ioctl_result" where
  "ioctl_phymem_free B e arg s =
     (if \<not> copy_from_ok e then Some (errno_code EACCES, NoReply, s)
      else case (if cpu_addr arg \<noteq> 0 then vpu_free_dma_buffer B (vpu_pool s) arg else Some (vpu_pool s)) of
             None \<Rightarrow> None
           | Some pool \<Rightarrow>
               Some (0, NoReply, s\<lparr>vpu_pool := pool, head := del_record (cpu_addr arg) (head s)\<rparr>))"

text \<open>
  \<^verbatim>\<open>wait_event_interruptible_timeout(vpu_queue, codec_done != 0, ...)\<close>: it does not sleep when
  the flag is already set.
\<close>

definition vpu_wait :: "vpu_env \<Rightarrow> vpu_state \<Rightarrow> int \<times> vpu_state" where
  "vpu_wait e s =
     (if codec_done s then (1, s)
      else case sleep_event e of
             Irq _ \<Rightarrow> (1, vpu_irq_handler e s)
           | Timeout \<Rightarrow> (0, s)
           | Signal \<Rightarrow> (errno_code ERESTARTSYS, s))"

definition ioctl_wait4int :: "vpu_env \<Rightarrow> vpu_state \<Rightarrow> ioctl_result" where
  "ioctl_wait4int e s =
     (case vpu_wait e s of
        (rc, s) \<Rightarrow>
          if rc = 0 then Some (errno_code ETIME, NoReply, s)
          else if signal_pending e \<or> rc < 0 then Some (errno_code ERESTARTSYS, NoReply, s)
          else Some (0, NoReply, s\<lparr>codec_done := False\<rparr>))"

definition reg_offset_ok :: "u32 \<Rightarrow> bool" where
  "reg_offset_ok off \<longleftrightarrow> \<not> (0x1000 \<le> off \<or> off AND 3 \<noteq> 0)"

definition ioctl_reg_read :: "vpu_env \<Rightarrow> u32 \<Rightarrow> vpu_state \<Rightarrow> ioctl_result" where
  "ioctl_reg_read e off s =
     (if \<not> copy_from_ok e then Some (efault, NoReply, s)
      else if \<not> reg_offset_ok off then Some (errno_code EINVAL, NoReply, s)
      else case READ_REG e off (vpu_clk_force_on s) of
             (v, s) \<Rightarrow> if copy_to_left e \<noteq> 0 then Some (efault, NoReply, s) else Some (0, RegReply off v, s))"

definition ioctl_reg_write :: "vpu_env \<Rightarrow> u32 \<Rightarrow> u32 \<Rightarrow> vpu_state \<Rightarrow> ioctl_result" where
  "ioctl_reg_write e off v s =
     (if \<not> copy_from_ok e then Some (efault, NoReply, s)
      else if \<not> reg_offset_ok off then Some (errno_code EINVAL, NoReply, s)
      else Some (0, NoReply, WRITE_REG v off (vpu_clk_force_on s)))"

definition conv_code :: "errno option \<Rightarrow> int" where
  "conv_code r = (case r of None \<Rightarrow> 0 | Some e \<Rightarrow> errno_code e)"

definition ioctl_prp_convert :: "vpu_env \<Rightarrow> vpu_prp_convert \<Rightarrow> vpu_state \<Rightarrow> ioctl_result" where
  "ioctl_prp_convert e c s =
     (if \<not> allow_prp s then Some (errno_code EOPNOTSUPP, NoReply, s\<lparr>prp_disabled_warned := True\<rparr>)
      else if \<not> copy_from_ok e then Some (efault, NoReply, s)
      else case prp_convert (prp_read e) (sleep_event e) c s of (r, s) \<Rightarrow> Some (conv_code r, NoReply, s))"

definition ioctl_pp_convert :: "vpu_env \<Rightarrow> vpu_pp_convert \<Rightarrow> vpu_state \<Rightarrow> ioctl_result" where
  "ioctl_pp_convert e c s =
     (if \<not> copy_from_ok e then Some (efault, NoReply, s)
      else case pp_convert (pp_read e) (sleep_event e) c s of (r, s) \<Rightarrow> Some (conv_code r, NoReply, s))"

definition ioctl_pp_set_csc :: "vpu_env \<Rightarrow> vpu_pp_csc \<Rightarrow> vpu_state \<Rightarrow> ioctl_result" where
  "ioctl_pp_set_csc e csc s =
     (if \<not> copy_from_ok e then Some (efault, NoReply, s)
      else if \<not> pp_csc_valid csc then Some (errno_code EINVAL, NoReply, s)
      else Some (0, NoReply, s\<lparr>pp_csc := csc\<rparr>))"

definition ioctl_pp_get_csc :: "vpu_env \<Rightarrow> vpu_state \<Rightarrow> ioctl_result" where
  "ioctl_pp_get_csc e s =
     (if copy_to_left e \<noteq> 0 then Some (efault, NoReply, s) else Some (0, CscReply (pp_csc s), s))"

definition ioctl_iram_setting :: "vpu_env \<Rightarrow> vpu_state \<Rightarrow> ioctl_result" where
  "ioctl_iram_setting e s =
     (if copy_to_left e \<noteq> 0 then Some (efault, NoReply, s) else Some (0, IramReply (iram s), s))"

text \<open>
  The three branches that hand out an existing descriptor return what \<^verbatim>\<open>copy_to_user\<close> returns,
  the positive number of bytes left, and not \<^verbatim>\<open>-EFAULT\<close>.
\<close>

definition copy_out :: "vpu_env \<Rightarrow> vpu_mem_desc \<Rightarrow> vpu_state \<Rightarrow> ioctl_result" where
  "copy_out e mem s = Some (int (copy_to_left e), if copy_to_left e = 0 then MemReply mem else NoReply, s)"

definition copy_out_efault :: "vpu_env \<Rightarrow> vpu_mem_desc \<Rightarrow> vpu_state \<Rightarrow> ioctl_result" where
  "copy_out_efault e mem s =
     (if copy_to_left e \<noteq> 0 then Some (efault, NoReply, s) else Some (0, MemReply mem, s))"

definition ioctl_get_share_mem :: "vpu_env \<Rightarrow> vpu_mem_desc \<Rightarrow> vpu_state \<Rightarrow> ioctl_result" where
  "ioctl_get_share_mem e arg s =
     (if cpu_addr (share_mem s) \<noteq> 0 then copy_out e (share_mem s) s
      else if \<not> copy_from_ok e then Some (efault, NoReply, s\<lparr>share_mem := garbage e\<rparr>)
      else let a = vmalloc_user e (mem_size arg)
           in if a = 0 then Some (errno_code ENOMEM, NoReply, s\<lparr>share_mem := arg\<lparr>cpu_addr := 0\<rparr>\<rparr>)
              else let mem = arg\<lparr>cpu_addr := a, phy_addr := a\<rparr>
                   in copy_out_efault e mem (s\<lparr>share_mem := mem\<rparr>))"

definition ioctl_req_vshare_mem :: "vpu_env \<Rightarrow> vpu_mem_desc \<Rightarrow> vpu_state \<Rightarrow> ioctl_result" where
  "ioctl_req_vshare_mem e arg s =
     (if cpu_addr (vshare_mem s) \<noteq> 0 then copy_out e (vshare_mem s) s
      else if \<not> copy_from_ok e then Some (efault, NoReply, s\<lparr>vshare_mem := garbage e\<rparr>)
      else let mem = (if cpu_addr arg = 0 then arg\<lparr>cpu_addr := vmalloc_user e (mem_size arg)\<rparr> else arg)
           in copy_out_efault e mem (s\<lparr>vshare_mem := mem\<rparr>))"

definition ioctl_get_work_addr :: "bitmap_ops \<Rightarrow> vpu_env \<Rightarrow> vpu_mem_desc \<Rightarrow> vpu_state \<Rightarrow> ioctl_result" where
  "ioctl_get_work_addr B e arg s =
     (if cpu_addr (bitwork_mem s) \<noteq> 0 then copy_out e (bitwork_mem s) s
      else if \<not> copy_from_ok e then Some (efault, NoReply, s\<lparr>bitwork_mem := garbage e\<rparr>)
      else case vpu_alloc_dma_buffer B (vpu_pool s) arg of
             Inl _ \<Rightarrow> Some (efault, NoReply, s\<lparr>bitwork_mem := arg\<rparr>)
           | Inr (mem, pool) \<Rightarrow> copy_out_efault e mem (s\<lparr>vpu_pool := pool, bitwork_mem := mem\<rparr>))"

definition ioctl_query_bitwork_mem :: "vpu_env \<Rightarrow> vpu_state \<Rightarrow> ioctl_result" where
  "ioctl_query_bitwork_mem e s = copy_out_efault e (bitwork_mem s) s"

definition ioctl_set_bitwork_mem :: "vpu_env \<Rightarrow> vpu_mem_desc \<Rightarrow> vpu_state \<Rightarrow> ioctl_result" where
  "ioctl_set_bitwork_mem e arg s =
     (if \<not> copy_from_ok e then Some (efault, NoReply, s\<lparr>bitwork_mem := garbage e\<rparr>)
      else Some (0, NoReply, s\<lparr>bitwork_mem := arg\<rparr>))"

text \<open>Halt the BIT processor, pulse its reset, clear a pending interrupt and the flag.\<close>

definition hw_reset_pulse :: "vpu_state \<Rightarrow> vpu_state" where
  "hw_reset_pulse s =
     (let s = vpu_clk_force_on s;
          s = WRITE_REG 0 BIT_CODE_RUN s;
          s = WRITE_REG 1 BIT_CODE_RESET s;
          s = WRITE_REG 0 BIT_CODE_RESET s;
          s = WRITE_REG 1 BIT_INT_CLEAR s
      in s\<lparr>codec_done := False\<rparr>)"

definition ioctl_sys_sw_reset :: "vpu_state \<Rightarrow> ioctl_result" where
  "ioctl_sys_sw_reset s =
     Some (0, NoReply,
       if plat_reset s then s\<lparr>plat_resets := Suc (plat_resets s)\<rparr>
       else if vpu_base s then hw_reset_pulse s
       else s)"

datatype ioctl_cmd =
    PHYMEM_ALLOC vpu_mem_desc | PHYMEM_FREE vpu_mem_desc | WAIT4INT | VL2CC_FLUSH
  | REG_READ u32 | REG_WRITE u32 u32 | PRP_CONVERT vpu_prp_convert | PP_CONVERT vpu_pp_convert
  | PP_SET_CSC vpu_pp_csc | PP_GET_CSC | IRAM_SETTING | CLKGATE_SETTING
  | GET_SHARE_MEM vpu_mem_desc | REQ_VSHARE_MEM vpu_mem_desc | GET_WORK_ADDR vpu_mem_desc
  | QUERY_BITWORK_MEM | SET_BITWORK_MEM vpu_mem_desc | SYS_SW_RESET | REG_DUMP | PHYMEM_DUMP | OTHER u32

fun vpu_ioctl :: "bitmap_ops \<Rightarrow> vpu_env \<Rightarrow> ioctl_cmd \<Rightarrow> vpu_state \<Rightarrow> ioctl_result" where
  "vpu_ioctl B e (PHYMEM_ALLOC arg) s = ioctl_phymem_alloc B e arg s"
| "vpu_ioctl B e (PHYMEM_FREE arg) s = ioctl_phymem_free B e arg s"
| "vpu_ioctl B e WAIT4INT s = ioctl_wait4int e s"
| "vpu_ioctl B e VL2CC_FLUSH s = Some (0, NoReply, s)"
| "vpu_ioctl B e (REG_READ off) s = ioctl_reg_read e off s"
| "vpu_ioctl B e (REG_WRITE off v) s = ioctl_reg_write e off v s"
| "vpu_ioctl B e (PRP_CONVERT c) s = ioctl_prp_convert e c s"
| "vpu_ioctl B e (PP_CONVERT c) s = ioctl_pp_convert e c s"
| "vpu_ioctl B e (PP_SET_CSC csc) s = ioctl_pp_set_csc e csc s"
| "vpu_ioctl B e PP_GET_CSC s = ioctl_pp_get_csc e s"
| "vpu_ioctl B e IRAM_SETTING s = ioctl_iram_setting e s"
| "vpu_ioctl B e CLKGATE_SETTING s = Some (0, NoReply, s)"
| "vpu_ioctl B e (GET_SHARE_MEM arg) s = ioctl_get_share_mem e arg s"
| "vpu_ioctl B e (REQ_VSHARE_MEM arg) s = ioctl_req_vshare_mem e arg s"
| "vpu_ioctl B e (GET_WORK_ADDR arg) s = ioctl_get_work_addr B e arg s"
| "vpu_ioctl B e QUERY_BITWORK_MEM s = ioctl_query_bitwork_mem e s"
| "vpu_ioctl B e (SET_BITWORK_MEM arg) s = ioctl_set_bitwork_mem e arg s"
| "vpu_ioctl B e SYS_SW_RESET s = ioctl_sys_sw_reset s"
| "vpu_ioctl B e REG_DUMP s = Some (0, NoReply, s)"
| "vpu_ioctl B e PHYMEM_DUMP s = Some (0, NoReply, s)"
| "vpu_ioctl B e (OTHER cmd) s = Some (0, NoReply, s)"

section \<open>Closing the device\<close>

text \<open>\<^verbatim>\<open>vpu_free_buffers\<close>: the pool and the records that stay on the list.\<close>

fun free_buffers_loop ::
    "bitmap_ops \<Rightarrow> vpu_pool \<Rightarrow> vpu_mem_desc list \<Rightarrow> (vpu_pool \<times> vpu_mem_desc list) option" where
  "free_buffers_loop B pool [] = Some (pool, [])"
| "free_buffers_loop B pool (r # rs) =
     (if cpu_addr r \<noteq> 0
      then (case vpu_free_dma_buffer B pool r of
              None \<Rightarrow> None | Some pool' \<Rightarrow> free_buffers_loop B pool' rs)
      else map_option (\<lambda>(p, rs'). (p, r # rs')) (free_buffers_loop B pool rs))"

definition vpu_free_buffers :: "bitmap_ops \<Rightarrow> vpu_state \<Rightarrow> vpu_state option" where
  "vpu_free_buffers B s =
     map_option (\<lambda>(pool, rs). s\<lparr>vpu_pool := pool, head := rs\<rparr>) (free_buffers_loop B (vpu_pool s) (head s))"

definition vpu_release :: "bitmap_ops \<Rightarrow> vpu_state \<Rightarrow> vpu_state option" where
  "vpu_release B s =
     (if 0 < open_count s then
        let s = s\<lparr>open_count := open_count s - 1\<rparr>
        in if open_count s = 0
           then vpu_free_buffers B (if vpu_base s then hw_reset_pulse s else s)
           else Some s
      else Some s)"

section \<open>Mapping memory\<close>

text \<open>
  \<^verbatim>\<open>vpu_mmap\<close>: what the area is mapped to. \<open>remap_ok\<close> is the outcome of
  \<^verbatim>\<open>remap_pfn_range\<close>, \<open>remap_vmalloc\<close> the return value of \<^verbatim>\<open>remap_vmalloc_range\<close> for an
  address.
\<close>

datatype mapping = HwRegs u32 u32 | DmaMem u32 u32 | Vmalloc u32

definition vpu_map_hwregs :: "bool \<Rightarrow> u32 \<Rightarrow> u32 \<Rightarrow> vpu_state \<Rightarrow> int \<times> mapping" where
  "vpu_map_hwregs remap_ok vm_start vm_end s =
     (if remap_ok then 0 else errno_code EAGAIN, HwRegs (drop_bit 12 (phy_vpu_base_addr s)) (vm_end - vm_start))"

definition vpu_map_dma_mem :: "bool \<Rightarrow> u32 \<Rightarrow> u32 \<Rightarrow> u32 \<Rightarrow> int \<times> mapping" where
  "vpu_map_dma_mem remap_ok vm_pgoff vm_start vm_end =
     (if remap_ok then 0 else errno_code EAGAIN, DmaMem vm_pgoff (vm_end - vm_start))"

definition vpu_map_vshare_mem :: "(u32 \<Rightarrow> int) \<Rightarrow> u32 \<Rightarrow> int \<times> mapping" where
  "vpu_map_vshare_mem remap_vmalloc vm_pgoff =
     (let a = push_bit 12 vm_pgoff in (remap_vmalloc a, Vmalloc a))"

definition vpu_mmap :: "bool \<Rightarrow> (u32 \<Rightarrow> int) \<Rightarrow> u32 \<Rightarrow> u32 \<Rightarrow> u32 \<Rightarrow> vpu_state \<Rightarrow> int \<times> mapping" where
  "vpu_mmap remap_ok remap_vmalloc vm_pgoff vm_start vm_end s =
     (let offset = drop_bit 12 (cpu_addr (vshare_mem s))
      in if vm_pgoff \<noteq> 0 \<and> vm_pgoff = offset then vpu_map_vshare_mem remap_vmalloc vm_pgoff
         else if vm_pgoff \<noteq> 0 \<and> cpu_addr (share_mem s) \<noteq> 0 \<and>
                 vm_pgoff = drop_bit 12 (cpu_addr (share_mem s))
         then vpu_map_vshare_mem remap_vmalloc vm_pgoff
         else if vm_pgoff \<noteq> 0 then vpu_map_dma_mem remap_ok vm_pgoff vm_start vm_end
         else vpu_map_hwregs remap_ok vm_start vm_end s)"

end
