(* ===== verification/Driver_Safety.thy ===== *)
theory Driver_Safety
  imports Driver
begin

unbundle bit_operations_syntax

text \<open>
  Properties of the driver over every sequence of calls: the lifetime of DMA buffers, the
  register window, the colour coefficients, the completion flag and the last close. The
  allocator enters only through the laws of \<open>dma_allocator\<close>, by its interpretation \<open>vpool\<close>.
\<close>

section \<open>What the conversions leave alone\<close>

lemma PPW_more [simp]: "pp_state.more (PPW off v s) = pp_state.more s"
  by (simp add: PPW_def)

lemma PPR_more [simp]: "pp_state.more (snd (PPR rd off s)) = pp_state.more s"
  by (simp add: PPR_def)

lemma emma_clk_more [simp]: "pp_state.more (emma_force_clk_on s) = pp_state.more s"
  by (simp add: emma_force_clk_on_def Let_def)

lemma pp_poll_more [simp]: "pp_state.more (snd (pp_poll_reset rd n s)) = pp_state.more s"
  by (induction n arbitrary: s) (simp_all add: case_prod_unfold)

lemma pp_hw_reset_more [simp]: "pp_state.more (snd (pp_hw_reset rd s)) = pp_state.more s"
  using pp_poll_more [of rd 1000 "PPW 0 0x100 s"]
  by (simp add: pp_hw_reset_def case_prod_unfold split: bool.split del: pp_poll_reset.simps)

lemma pp_write_table_more [simp]: "pp_state.more (pp_write_table i tbl s) = pp_state.more s"
  by (induction tbl arbitrary: i s) simp_all

lemma pp_program_more [simp]: "pp_state.more (pp_program c r s) = pp_state.more s"
  by (simp add: pp_program_def Let_def)

lemma pp_wait_more [simp]: "pp_state.more (snd (pp_wait ev s)) = pp_state.more s"
  by (simp add: pp_wait_def pp_irq_handler_def Let_def split: wait_event.split)

lemma pp_convert_more [simp]: "pp_state.more (snd (pp_convert rd ev c s)) = pp_state.more s"
  by (simp add: pp_convert_def case_prod_unfold split: option.split sum.split)

lemma PRPW_more [simp]: "emma_state.more (PRPW off v s) = emma_state.more s"
  by (simp add: PRPW_def)

lemma PRPR_more [simp]: "emma_state.more (snd (PRPR rd off s)) = emma_state.more s"
  by (simp add: PRPR_def)

lemma prp_clk_more [simp]: "emma_state.more (prp_force_clk_on s) = emma_state.more s"
  by (simp add: prp_force_clk_on_def emma_force_clk_on_def Let_def)

lemma prp_poll_more [simp]: "emma_state.more (prp_poll_reset rd n s) = emma_state.more s"
  by (induction n arbitrary: s) (simp_all add: case_prod_unfold)

lemma prp_program_more [simp]: "emma_state.more (prp_program c sw sh w h s) = emma_state.more s"
  by (simp add: prp_program_def prp_set_scaler_def case_prod_unfold Let_def)

lemma prp_wait_more [simp]: "emma_state.more (snd (prp_wait rd ev s)) = emma_state.more s"
  by (simp add: prp_wait_def prp_irq_handler_def Let_def case_prod_unfold split: wait_event.split)

lemma prp_convert_more [simp]: "emma_state.more (snd (prp_convert rd ev c s)) = emma_state.more s"
  by (simp add: prp_convert_def case_prod_unfold Let_def split: option.split sum.split del: prp_poll_reset.simps)

lemma emma_more_of_pp: "pp_state.more s' = pp_state.more s \<Longrightarrow> emma_state.more s' = emma_state.more (s :: 'a emma_state_scheme)"
  by (cases s, cases s') simp

text \<open>The driver's own fields: everything but the eMMA state.\<close>

lemma driver_fields:
  "emma_state.more s' = emma_state.more s \<Longrightarrow>
     vpu_pool s' = vpu_pool s \<and> head s' = head s \<and> open_count s' = open_count s \<and> vpu_log s' = vpu_log s \<and>
     codec_done s' = codec_done s \<and> share_mem s' = share_mem s \<and> vshare_mem s' = vshare_mem (s :: vpu_state)"
  by (cases s, cases s') simp

lemma pp_csc_of_frame: "prp_frame s' = prp_frame s \<Longrightarrow> pp_csc s' = pp_csc s"
  by (simp add: prp_frame_def pp_config_def)

lemma convert_fields:
  fixes s :: vpu_state
  shows "pp_convert rd ev c s = (r, s') \<Longrightarrow> vpu_pool s' = vpu_pool s \<and> head s' = head s \<and> vpu_log s' = vpu_log s \<and> open_count s' = open_count s"
    and "prp_convert rd ev d s = (r, s') \<Longrightarrow> vpu_pool s' = vpu_pool s \<and> head s' = head s \<and> vpu_log s' = vpu_log s \<and> open_count s' = open_count s"
  using driver_fields [of s' s] emma_more_of_pp [of s' s] pp_convert_more [of rd ev c s] prp_convert_more [of rd ev d s]
  by auto

lemma clk_fields [simp]:
  "vpu_pool (vpu_clk_force_on s) = vpu_pool s" "head (vpu_clk_force_on s) = head s"
  "vpu_log (vpu_clk_force_on s) = vpu_log s" "pp_csc (vpu_clk_force_on s) = pp_csc s"
  "open_count (vpu_clk_force_on s) = open_count s" "codec_done (vpu_clk_force_on s) = codec_done s"
  by (simp_all add: vpu_clk_force_on_def)

lemma hw_reset_pulse_fields [simp]:
  "vpu_pool (hw_reset_pulse s) = vpu_pool s" "head (hw_reset_pulse s) = head s"
  "pp_csc (hw_reset_pulse s) = pp_csc s" "open_count (hw_reset_pulse s) = open_count s"
  "vpu_log (hw_reset_pulse s) = vpu_log s @ [(0, 0), (0x14, 1), (0x14, 0), (0xC, 1)]"
  "\<not> codec_done (hw_reset_pulse s)"
  by (simp_all add: hw_reset_pulse_def WRITE_REG_def Let_def)

lemma irq_fields [simp]:
  "vpu_pool (vpu_irq_handler e s) = vpu_pool s" "head (vpu_irq_handler e s) = head s"
  "pp_csc (vpu_irq_handler e s) = pp_csc s" "open_count (vpu_irq_handler e s) = open_count s"
  "vpu_log (vpu_irq_handler e s) = vpu_log s @ [(0xC, 1)]" "codec_done (vpu_irq_handler e s)"
  by (simp_all add: vpu_irq_handler_def READ_REG_def WRITE_REG_def)

section \<open>The step relation\<close>

text \<open>
  \<open>honest\<close> is the user's side of the buffer contract: a buffer is freed with a descriptor the
  driver handed out and that is still live. The code does not check it.
\<close>

fun honest :: "ioctl_cmd \<Rightarrow> vpu_state \<Rightarrow> bool" where
  "honest (PHYMEM_FREE m) s = (m \<in> set (head s))"
| "honest _ s = True"

inductive vpu_step :: "bitmap_ops \<Rightarrow> vpu_state \<Rightarrow> vpu_state \<Rightarrow> bool" for B where
  st_open: "vpu_step B s (vpu_open s)"
| st_ioctl: "honest cmd s \<Longrightarrow> vpu_ioctl B e cmd s = Some (ret, rep, s') \<Longrightarrow> vpu_step B s s'"
| st_release: "vpu_release B s = Some s' \<Longrightarrow> vpu_step B s s'"
| st_irq: "vpu_step B s (vpu_irq_handler e s)"

inductive_cases vpu_stepE: "vpu_step B s s'"

inductive vpu_reach :: "bitmap_ops \<Rightarrow> vpu_state \<Rightarrow> vpu_state \<Rightarrow> bool" for B s where
  reach_init: "vpu_reach B s s"
| reach_step: "vpu_reach B s t \<Longrightarrow> vpu_step B t u \<Longrightarrow> vpu_reach B s u"

section \<open>Buffers\<close>

definition buf :: "vpu_mem_desc \<Rightarrow> u32 \<times> u32" where
  "buf m = (phy_addr m, mem_size m)"

text \<open>
  The pages in use are exactly those of the recorded buffers and of some further buffers (the
  work buffer, and buffers whose descriptor could not be copied out); no page belongs to two.
\<close>

definition buffers_ok :: "bitmap_ops \<Rightarrow> vpu_pool \<Rightarrow> vpu_mem_desc list \<Rightarrow> (u32 \<times> u32) list \<Rightarrow> bool" where
  "buffers_ok B pool rs other \<longleftrightarrow>
     pool_inv B pool \<and> covers (pool_used pool) (map buf rs @ other) \<and>
     (\<forall>r \<in> set (map buf rs @ other). region pool (fst r) (snd r)) \<and>
     (\<forall>m \<in> set rs. cpu_addr m = phy_addr m)"

definition driver_inv :: "bitmap_ops \<Rightarrow> vpu_state \<Rightarrow> bool" where
  "driver_inv B s \<longleftrightarrow> (\<exists>other. buffers_ok B (vpu_pool s) (head s) other)"

lemma covers_swap: "covers U (r # rs @ ss) \<longleftrightarrow> covers U (rs @ r # ss)"
  by (auto simp: covers_def sorted_wrt_append apart_sym)

lemma alloc_buffer:
  assumes "buffers_ok B pool rs other" "vpu_alloc_dma_buffer B pool m = Inr (m', pool')"
  shows "buffers_ok B pool' (m' # rs) other" "buffers_ok B pool' rs (buf m' # other)"
    "m' = m\<lparr>phy_addr := phy_addr m', cpu_addr := phy_addr m'\<rparr>"
proof -
  obtain a where a: "vpu_pool_alloc B pool (mem_size m) = (a, pool')" "a \<noteq> 0"
    "m' = m\<lparr>phy_addr := a, cpu_addr := a\<rparr>"
    using assms(2) by (auto simp: vpu_alloc_dma_buffer_def split: prod.splits if_splits)
  note b = assms(1) [unfolded buffers_ok_def]
  have inv: "pool_inv B pool" using b by simp
  have live: "covers (pool_used pool') (buf m' # map buf rs @ other)"
    using vpool.alloc_live [OF inv _ a(1,2)] b a(3) by (simp add: buf_def)
  have reg: "region pool' x y = region pool x y" for x y by (rule vpool.alloc_regions [OF inv a(1)])
  have new: "region pool' (phy_addr m') (mem_size m')"
    using vpool.alloc_region [OF inv a(1,2)] a(3) by (simp add: reg)
  show "m' = m\<lparr>phy_addr := phy_addr m', cpu_addr := phy_addr m'\<rparr>" using a(3) by simp
  show "buffers_ok B pool' (m' # rs) other"
    using b live new vpool.alloc_inv [OF inv a(1)] a(3) by (auto simp: buffers_ok_def buf_def reg)
  show "buffers_ok B pool' rs (buf m' # other)"
    using b live new vpool.alloc_inv [OF inv a(1)] covers_swap
    by (auto simp: buffers_ok_def buf_def reg)
qed

lemma region_pages: "region pool a n \<Longrightarrow> unat a div 4096 \<in> pages a n"
  by (auto simp: region_def region_in_def pages_def unat_gt_0)

lemma live_region:
  assumes "buffers_ok B pool rs other" "m \<in> set rs"
  shows "region pool (phy_addr m) (mem_size m)"
proof -
  have "buf m \<in> set (map buf rs @ other)" using assms(2) by simp
  then have "region pool (fst (buf m)) (snd (buf m))" using assms(1) unfolding buffers_ok_def by blast
  then show ?thesis by (simp add: buf_def)
qed

lemma del_live:
  assumes "buffers_ok B pool rs other" "m \<in> set rs"
  obtains xs ys where "rs = xs @ m # ys" "del_record (cpu_addr m) rs = xs @ ys"
proof -
  obtain xs ys where rs: "rs = xs @ m # ys" using split_list [OF assms(2)] by blast
  note b = assms(1) [unfolded buffers_ok_def]
  have "cpu_addr x \<noteq> cpu_addr m" if "x \<in> set xs" for x
  proof
    assume "cpu_addr x = cpu_addr m"
    then have same: "phy_addr x = phy_addr m" using b rs that by auto
    have "apart (buf x) (buf m)" using b rs that by (auto simp: covers_def sorted_wrt_append)
    moreover have "region pool (phy_addr x) (mem_size x)" "region pool (phy_addr m) (mem_size m)"
      using live_region [OF assms(1)] rs that by auto
    ultimately show False using region_pages same by (fastforce simp: apart_def buf_def)
  qed
  then have "del_record (cpu_addr m) (xs @ m # ys) = xs @ ys" by (induction xs) auto
  then show ?thesis using that rs by blast
qed

lemma free_buffer:
  assumes "buffers_ok B pool rs other" "m \<in> set rs"
  shows "cpu_addr m \<noteq> 0 \<and> (\<exists>pool'. vpu_free_dma_buffer B pool m = Some pool' \<and>
    buffers_ok B pool' (del_record (cpu_addr m) rs) other \<and>
    pool_used pool' = pool_used pool - pages (phy_addr m) (mem_size m))"
proof -
  note b = assms(1) [unfolded buffers_ok_def]
  have inv: "pool_inv B pool" using b by simp
  obtain xs ys where rs: "rs = xs @ m # ys" "del_record (cpu_addr m) rs = xs @ ys"
    using del_live [OF assms] .
  have reg: "region pool (phy_addr m) (mem_size m)" by (rule live_region [OF assms])
  have nz: "phy_addr m \<noteq> 0" by (rule vpool.region_nonzero [OF inv reg])
  obtain pool' where p: "vpu_pool_free B pool (phy_addr m) (mem_size m) = Some pool'"
    using vpool.free_returns [OF inv reg] by blast
  have "covers (pool_used pool') (map buf xs @ map buf ys @ other)"
    using vpool.free_live [OF inv _ reg p, of "map buf xs" "map buf ys @ other"] b rs(1)
    by (simp add: buf_def)
  then have "buffers_ok B pool' (xs @ ys) other"
    using b rs(1) vpool.free_inv [OF inv p] vpool.free_regions [OF inv p] by (auto simp: buffers_ok_def)
  then show ?thesis
    using p nz rs b assms(2) vpool.free_used [OF inv reg p] by (auto simp: vpu_free_dma_buffer_def)
qed

lemma free_buffers_all:
  assumes "buffers_ok B pool rs other"
  shows "\<exists>pool'. free_buffers_loop B pool rs = Some (pool', []) \<and> buffers_ok B pool' [] other"
  using assms
proof (induction rs arbitrary: pool)
  case Nil
  then show ?case by simp
next
  case (Cons m rs)
  from free_buffer [OF Cons.prems, of m]
  obtain pool' where p: "cpu_addr m \<noteq> 0" "vpu_free_dma_buffer B pool m = Some pool'"
    "buffers_ok B pool' rs other" by auto
  then show ?case using Cons.IH [OF p(3)] by simp
qed

section \<open>Every step keeps the invariant\<close>

lemma driver_inv_cong: "vpu_pool s' = vpu_pool s \<Longrightarrow> head s' = head s \<Longrightarrow> driver_inv B s' = driver_inv B s"
  by (simp add: driver_inv_def)

text \<open>The commands that leave the pool and the list of records alone.\<close>

fun touches_pool :: "ioctl_cmd \<Rightarrow> bool" where
  "touches_pool (PHYMEM_ALLOC m) = True"
| "touches_pool (PHYMEM_FREE m) = True"
| "touches_pool (GET_WORK_ADDR m) = True"
| "touches_pool _ = False"

lemmas ioctl_defs = ioctl_wait4int_def vpu_wait_def ioctl_reg_read_def ioctl_reg_write_def
  ioctl_pp_set_csc_def ioctl_pp_get_csc_def ioctl_iram_setting_def ioctl_get_share_mem_def
  ioctl_req_vshare_mem_def ioctl_query_bitwork_mem_def ioctl_set_bitwork_mem_def ioctl_sys_sw_reset_def
  copy_out_def copy_out_efault_def READ_REG_def WRITE_REG_def

lemma ioctl_keeps_pool:
  assumes "\<not> touches_pool cmd" "vpu_ioctl B e cmd s = Some (ret, rep, s')"
  shows "vpu_pool s' = vpu_pool s \<and> head s' = head s"
proof (cases cmd)
  case (PRP_CONVERT c)
  then show ?thesis
    using assms(2) convert_fields(2) [of "prp_read e" "sleep_event e" c s]
    by (auto simp: ioctl_prp_convert_def split: if_splits prod.splits)
next
  case (PP_CONVERT c)
  then show ?thesis
    using assms(2) convert_fields(1) [of "pp_read e" "sleep_event e" c s]
    by (auto simp: ioctl_pp_convert_def split: if_splits prod.splits)
qed (use assms in \<open>auto simp: ioctl_defs Let_def split: if_splits wait_event.splits\<close>)

lemma alloc_inv:
  assumes "driver_inv B s" "vpu_ioctl B e (PHYMEM_ALLOC m) s = Some (ret, rep, s')"
  shows "driver_inv B s'"
proof -
  obtain other where b: "buffers_ok B (vpu_pool s) (head s) other" using assms(1) by (auto simp: driver_inv_def)
  show ?thesis
    using assms alloc_buffer(1,2) [OF b, of m]
    by (auto simp: ioctl_phymem_alloc_def driver_inv_def split: if_splits sum.splits) blast+
qed

lemma work_inv:
  assumes "driver_inv B s" "vpu_ioctl B e (GET_WORK_ADDR m) s = Some (ret, rep, s')"
  shows "driver_inv B s'"
proof -
  obtain other where b: "buffers_ok B (vpu_pool s) (head s) other" using assms(1) by (auto simp: driver_inv_def)
  show ?thesis
    using assms alloc_buffer(2) [OF b, of m]
    by (auto simp: ioctl_get_work_addr_def copy_out_def copy_out_efault_def driver_inv_def
        split: if_splits sum.splits) blast+
qed

lemma free_returns_inv:
  assumes "driver_inv B s" "honest (PHYMEM_FREE m) s"
  shows "\<exists>ret rep s'. vpu_ioctl B e (PHYMEM_FREE m) s = Some (ret, rep, s') \<and> driver_inv B s'"
proof -
  obtain other where b: "buffers_ok B (vpu_pool s) (head s) other" using assms(1) by (auto simp: driver_inv_def)
  show ?thesis
    using free_buffer [OF b, of m] assms by (auto simp: ioctl_phymem_free_def driver_inv_def)
qed

lemma release_returns:
  assumes "buffers_ok B (vpu_pool s) (head s) other"
  shows "\<exists>s'. vpu_release B s = Some s' \<and>
    (if open_count s = 1 then head s' = [] \<and> buffers_ok B (vpu_pool s') [] other \<and> (vpu_base s \<longrightarrow> \<not> codec_done s')
     else head s' = head s \<and> vpu_pool s' = vpu_pool s)"
proof (cases "open_count s = 1")
  case True
  let ?s = "s\<lparr>open_count := 0\<rparr>"
  let ?t = "if vpu_base s then hw_reset_pulse ?s else ?s"
  obtain pool' where p: "free_buffers_loop B (vpu_pool s) (head s) = Some (pool', [])" "buffers_ok B pool' [] other"
    using free_buffers_all [OF assms] by blast
  have "vpu_release B s = vpu_free_buffers B ?t" using True by (simp add: vpu_release_def Let_def)
  also have "\<dots> = Some (?t\<lparr>vpu_pool := pool', head := []\<rparr>)" using p(1) by (simp add: vpu_free_buffers_def)
  finally show ?thesis using True p(2) by simp
next
  case False
  then have "open_count s - 1 \<noteq> 0" by simp
  then show ?thesis using False by (simp add: vpu_release_def Let_def)
qed

lemma ioctl_inv:
  assumes "driver_inv B s" "honest cmd s" "vpu_ioctl B e cmd s = Some (ret, rep, s')"
  shows "driver_inv B s'"
proof (cases "touches_pool cmd")
  case False
  then show ?thesis using ioctl_keeps_pool [OF False assms(3)] assms(1) driver_inv_cong by blast
next
  case True
  then consider m where "cmd = PHYMEM_ALLOC m" | m where "cmd = PHYMEM_FREE m" | m where "cmd = GET_WORK_ADDR m"
    by (cases cmd) auto
  then show ?thesis
  proof cases
    case 1
    then show ?thesis using alloc_inv assms(1,3) by blast
  next
    case (2 m)
    then show ?thesis using free_returns_inv [of B s m e] assms by auto
  next
    case 3
    then show ?thesis using work_inv assms(1,3) by blast
  qed
qed

lemma step_inv: "vpu_step B s s' \<Longrightarrow> driver_inv B s \<Longrightarrow> driver_inv B s'"
proof (induction rule: vpu_step.induct)
  case (st_open s)
  then show ?case by (simp add: driver_inv_def vpu_open_def)
next
  case (st_ioctl cmd s e ret rep s')
  then show ?case using ioctl_inv by blast
next
  case (st_release s s')
  then obtain other where "buffers_ok B (vpu_pool s) (head s) other" by (auto simp: driver_inv_def)
  from release_returns [OF this] st_release show ?case
    by (auto simp: driver_inv_def split: if_splits)
next
  case (st_irq s e)
  then show ?case by (simp add: driver_inv_def)
qed

lemma reach_inv: "vpu_reach B s s' \<Longrightarrow> driver_inv B s \<Longrightarrow> driver_inv B s'"
  by (induction rule: vpu_reach.induct) (auto intro: step_inv)

section \<open>Registers and coefficients\<close>

definition regs_ok :: "vpu_state \<Rightarrow> bool" where
  "regs_ok s \<longleftrightarrow> list_all (\<lambda>w. reg_offset_ok (fst w)) (vpu_log s) \<and> pp_csc_valid (pp_csc s)"

lemma fixed_offsets_ok: "reg_offset_ok 0" "reg_offset_ok 0xC" "reg_offset_ok 0x14"
  by (simp_all add: reg_offset_ok_def)

lemma convert_csc:
  fixes s :: vpu_state
  shows "pp_convert rd ev c s = (r, s') \<Longrightarrow> pp_csc s' = pp_csc s"
    and "prp_convert rd ev d s = (r, s') \<Longrightarrow> pp_csc s' = pp_csc s"
proof -
  assume "pp_convert rd ev c s = (r, s')"
  then have s': "s' = snd (pp_convert rd ev c s)" by simp
  have csc: "pp_csc t = snd (snd (pp_config t))" for t :: vpu_state by (simp add: pp_config_def)
  have lock: "snd (snd (pp_config (t\<lparr>pp_lock := b\<rparr>))) = snd (snd (pp_config t))" for t :: vpu_state and b
    by (simp add: pp_config_def)
  show "pp_csc s' = pp_csc s"
    unfolding s' csc by (simp add: pp_convert_def case_prod_unfold lock split: option.split sum.split)
next
  assume "prp_convert rd ev d s = (r, s')"
  then have s': "s' = snd (prp_convert rd ev d s)" by simp
  have "prp_frame (snd (prp_convert rd ev d s)) = prp_frame s"
    by (simp add: prp_convert_def case_prod_unfold Let_def split: option.split sum.split del: prp_poll_reset.simps)
  then show "pp_csc s' = pp_csc s" unfolding s' by (rule pp_csc_of_frame)
qed

lemma ioctl_regs:
  assumes "regs_ok s" "vpu_ioctl B e cmd s = Some (ret, rep, s')"
  shows "regs_ok s'"
proof (cases cmd)
  case (PRP_CONVERT c)
  then show ?thesis
    using assms convert_fields(2) [of "prp_read e" "sleep_event e" c s] convert_csc(2) [of "prp_read e" "sleep_event e" c s]
    by (auto simp: ioctl_prp_convert_def regs_ok_def split: if_splits prod.splits)
next
  case (PP_CONVERT c)
  then show ?thesis
    using assms convert_fields(1) [of "pp_read e" "sleep_event e" c s] convert_csc(1) [of "pp_read e" "sleep_event e" c s]
    by (auto simp: ioctl_pp_convert_def regs_ok_def split: if_splits prod.splits)
next
  case (PHYMEM_ALLOC m)
  then show ?thesis
    using assms by (auto simp: ioctl_phymem_alloc_def regs_ok_def split: if_splits sum.splits)
next
  case (PHYMEM_FREE m)
  then show ?thesis
    using assms by (auto simp: ioctl_phymem_free_def regs_ok_def split: if_splits option.splits)
next
  case (GET_WORK_ADDR m)
  then show ?thesis
    using assms by (auto simp: ioctl_get_work_addr_def copy_out_def copy_out_efault_def regs_ok_def
        split: if_splits sum.splits)
qed (use assms fixed_offsets_ok in \<open>auto simp: ioctl_defs Let_def regs_ok_def split: if_splits wait_event.splits\<close>)

lemma release_regs: "regs_ok s \<Longrightarrow> vpu_release B s = Some s' \<Longrightarrow> regs_ok s'"
  using fixed_offsets_ok
  by (auto simp: vpu_release_def Let_def vpu_free_buffers_def regs_ok_def split: if_splits)

lemma reach_regs: "vpu_reach B s s' \<Longrightarrow> regs_ok s \<Longrightarrow> regs_ok s'"
proof (induction rule: vpu_reach.induct)
  case (reach_step t u)
  from reach_step.hyps(2) reach_step.IH reach_step.prems show ?case
  proof cases
    case st_open
    then show ?thesis using reach_step by (simp add: regs_ok_def vpu_open_def)
  next
    case st_ioctl
    then show ?thesis using reach_step ioctl_regs by blast
  next
    case st_release
    then show ?thesis using reach_step release_regs by blast
  next
    case st_irq
    then show ?thesis using reach_step fixed_offsets_ok by (auto simp: regs_ok_def)
  qed
qed

section \<open>Properties of the driver\<close>

text \<open>A freshly loaded driver: no page of the pool in use, no record, default coefficients.\<close>

definition vpu_fresh :: "bitmap_ops \<Rightarrow> vpu_state \<Rightarrow> bool" where
  "vpu_fresh B s \<longleftrightarrow> pool_inv B (vpu_pool s) \<and> pool_used (vpu_pool s) = {} \<and> head s = [] \<and>
     open_count s = 0 \<and> vpu_log s = [] \<and> pp_csc s = pp_csc_default"

lemma fresh_inv: "vpu_fresh B s \<Longrightarrow> driver_inv B s"
  unfolding driver_inv_def buffers_ok_def vpu_fresh_def by (intro exI [of _ "[]"]) (simp add: covers_def)

lemma fresh_regs: "vpu_fresh B s \<Longrightarrow> regs_ok s"
  by (simp add: vpu_fresh_def regs_ok_def pp_csc_valid_def pp_csc_default_def)

definition idle_env :: vpu_env where
  "idle_env = \<lparr>kzalloc_ok = True, copy_from_ok = True, copy_to_left = 0, garbage = zero_mem_desc,
     vmalloc_user = \<lambda>_. 0xC8000000, vpu_read = \<lambda>_ _. 0, pp_read = \<lambda>_ _. 0x876, prp_read = \<lambda>_ _. 0x28,
     sleep_event = Irq 1, signal_pending = False\<rparr>"

definition loaded :: vpu_state where
  "loaded = \<lparr>pp_base = True, pp_lock = False, pp_status = 0, pp_done = False, pp_csc = pp_csc_default,
     ccm_base = False, ccm = \<lambda>_. 0, pp_reads = 0, pp_log = [], prp_base = True, prp_lock = False,
     prp_done = False, prp_reads = 0, prp_log = [], vpu_pool = sdram_pool, head = [], open_count = 0,
     bitwork_mem = zero_mem_desc, share_mem = zero_mem_desc, vshare_mem = zero_mem_desc, codec_done = False,
     vpu_base = True, vpu_reads = 0, vpu_log = [], plat_reset = False, plat_resets = 0, allow_prp = False,
     prp_disabled_warned = False, iram = \<lparr>iram_start = 0, iram_end = 0\<rparr>, phy_vpu_base_addr = 0x10023000\<rparr>"

definition req :: vpu_mem_desc where
  "req = \<lparr>mem_size = 5000, phy_addr = 0, cpu_addr = 0, virt_uaddr = 0\<rparr>"

definition got :: vpu_mem_desc where
  "got = \<lparr>mem_size = 5000, phy_addr = 0xA0000000, cpu_addr = 0xA0000000, virt_uaddr = 0\<rparr>"

lemma sdram_unused: "pool_used sdram_pool = {}"
  by (simp add: pool_used_def sdram_pool_def block_used_def)

lemma loaded_fresh: "vpu_fresh bitmap_lib loaded"
  by (simp add: vpu_fresh_def loaded_def sdram_pool_inv sdram_unused)

lemma loaded_alloc:
  "\<exists>s. vpu_ioctl bitmap_lib idle_env (PHYMEM_ALLOC req) loaded = Some (0, MemReply got, s) \<and> head s = [got] \<and>
     open_count s = 0"
  using sdram_pool_alloc
  by (simp add: ioctl_phymem_alloc_def idle_env_def loaded_def req_def got_def vpu_alloc_dma_buffer_def)

lemma loaded_reach:
  obtains s where "vpu_reach bitmap_lib loaded s" "head s = [got]" "open_count s = 0"
proof -
  obtain s where s: "vpu_ioctl bitmap_lib idle_env (PHYMEM_ALLOC req) loaded = Some (0, MemReply got, s)"
    "head s = [got]" "open_count s = 0" using loaded_alloc by blast
  have "vpu_step bitmap_lib loaded s" by (rule st_ioctl [OF _ s(1)]) simp
  then show ?thesis using that s(2,3) reach_step [OF reach_init] by blast
qed

text \<open>
  C5. In every state that opens, closes, interrupts and ioctls of honest callers can reach from a
  freshly loaded driver, the DMA buffers on record lie inside the pool, their pages are in use, and
  no two of them share a page.
\<close>

theorem vpu_buffers_disjoint:
  assumes "vpu_fresh B s0" "vpu_reach B s0 s"
  shows "sorted_wrt (\<lambda>m n. pages (phy_addr m) (mem_size m) \<inter> pages (phy_addr n) (mem_size n) = {}) (head s) \<and>
    (\<forall>m \<in> set (head s). region (vpu_pool s) (phy_addr m) (mem_size m) \<and>
       pages (phy_addr m) (mem_size m) \<subseteq> pool_used (vpu_pool s))"
proof -
  obtain other where b: "buffers_ok B (vpu_pool s) (head s) other"
    using reach_inv [OF assms(2) fresh_inv [OF assms(1)]] by (auto simp: driver_inv_def)
  then have c: "covers (pool_used (vpu_pool s)) (map buf (head s) @ other)" by (simp add: buffers_ok_def)
  then have "sorted_wrt apart (map buf (head s))" by (simp add: covers_def sorted_wrt_append)
  then have "sorted_wrt (\<lambda>m n. pages (phy_addr m) (mem_size m) \<inter> pages (phy_addr n) (mem_size n) = {}) (head s)"
    by (simp add: sorted_wrt_map apart_def buf_def)
  moreover have "pages (phy_addr m) (mem_size m) \<subseteq> pool_used (vpu_pool s)" if "m \<in> set (head s)" for m
    using c that by (auto simp: covers_def buf_def)
  ultimately show ?thesis using live_region [OF b] by blast
qed

theorem vpu_buffers_disjoint_witness:
  "\<exists>s. vpu_reach bitmap_lib loaded s \<and> head s = [got] \<and> region (vpu_pool s) 0xA0000000 5000"
proof -
  obtain s where s: "vpu_reach bitmap_lib loaded s" "head s = [got]" using loaded_reach .
  from vpu_buffers_disjoint [OF loaded_fresh s(1)] s show ?thesis by (auto simp: got_def)
qed

text \<open>
  C15. In the same states no call of an honest caller and no close ever writes outside the pool's
  bitmaps: every one of them returns.
\<close>

theorem vpu_no_corruption:
  assumes "vpu_fresh B s0" "vpu_reach B s0 s"
  shows "(honest cmd s \<longrightarrow> vpu_ioctl B e cmd s \<noteq> None) \<and> vpu_release B s \<noteq> None"
proof -
  have inv: "driver_inv B s" by (rule reach_inv [OF assms(2) fresh_inv [OF assms(1)]])
  then obtain other where b: "buffers_ok B (vpu_pool s) (head s) other" by (auto simp: driver_inv_def)
  have "vpu_ioctl B e cmd s \<noteq> None" if "honest cmd s"
  proof (cases cmd)
    case (PHYMEM_FREE m)
    then show ?thesis using free_returns_inv [OF inv, of m e] that by auto
  next
    case (PHYMEM_ALLOC m)
    then show ?thesis by (simp add: ioctl_phymem_alloc_def split: sum.split)
  next
    case (GET_WORK_ADDR m)
    then show ?thesis by (simp add: ioctl_get_work_addr_def copy_out_def copy_out_efault_def split: sum.split)
  qed (simp_all add: ioctl_defs ioctl_prp_convert_def ioctl_pp_convert_def Let_def split: prod.split wait_event.split)
  then show ?thesis using release_returns [OF b] by auto
qed

theorem vpu_no_corruption_witness:
  "\<exists>s. vpu_reach bitmap_lib loaded s \<and> vpu_ioctl bitmap_lib idle_env (PHYMEM_FREE got) s \<noteq> None"
proof -
  obtain s where s: "vpu_reach bitmap_lib loaded s" "head s = [got]" using loaded_reach .
  from vpu_no_corruption [OF loaded_fresh s(1), of "PHYMEM_FREE got"] s show ?thesis by auto
qed

text \<open>
  C16. The last close frees every recorded buffer: in every reachable state with one opener,
  \<^verbatim>\<open>vpu_release\<close> returns with an empty list, no page of a recorded buffer in use any more, every
  other page as it was, and the completion flag cleared by the hardware reset.
\<close>

theorem vpu_last_close:
  assumes "vpu_fresh B s0" "vpu_reach B s0 s" "open_count s = 1"
  shows "\<exists>s'. vpu_release B s = Some s' \<and> head s' = [] \<and> (vpu_base s \<longrightarrow> \<not> codec_done s') \<and>
    pool_used (vpu_pool s') = pool_used (vpu_pool s) - (\<Union>m \<in> set (head s). pages (phy_addr m) (mem_size m))"
proof -
  obtain other where b: "buffers_ok B (vpu_pool s) (head s) other"
    using reach_inv [OF assms(2) fresh_inv [OF assms(1)]] by (auto simp: driver_inv_def)
  obtain s' where s': "vpu_release B s = Some s'" "head s' = []" "buffers_ok B (vpu_pool s') [] other"
    "vpu_base s \<longrightarrow> \<not> codec_done s'"
    using release_returns [OF b] assms(3) by auto
  have u: "pool_used (vpu_pool s') = (\<Union>r \<in> set other. pages (fst r) (snd r))"
    using s'(3) by (simp add: buffers_ok_def covers_def)
  have c: "covers (pool_used (vpu_pool s)) (map buf (head s) @ other)" using b by (simp add: buffers_ok_def)
  have "pages (phy_addr m) (mem_size m) \<inter> pages (fst r) (snd r) = {}" if "m \<in> set (head s)" "r \<in> set other" for m r
    using c that by (auto simp: covers_def sorted_wrt_append apart_def buf_def)
  moreover have "pool_used (vpu_pool s) =
      (\<Union>m \<in> set (head s). pages (phy_addr m) (mem_size m)) \<union> (\<Union>r \<in> set other. pages (fst r) (snd r))"
    using c by (auto simp: covers_def buf_def)
  ultimately have "pool_used (vpu_pool s') = pool_used (vpu_pool s) - (\<Union>m \<in> set (head s). pages (phy_addr m) (mem_size m))"
    unfolding u by blast
  then show ?thesis using s' by blast
qed

theorem vpu_last_close_witness:
  "\<exists>s s'. vpu_reach bitmap_lib loaded s \<and> vpu_release bitmap_lib s = Some s' \<and> head s = [got] \<and> head s' = []"
proof -
  obtain s where s: "vpu_reach bitmap_lib loaded s" "head s = [got]" "open_count s = 0" using loaded_reach .
  then have "vpu_reach bitmap_lib loaded (vpu_open s)" "open_count (vpu_open s) = 1" "head (vpu_open s) = [got]"
    using reach_step [OF s(1) st_open] by (simp_all add: vpu_open_def)
  with vpu_last_close [OF loaded_fresh, of "vpu_open s"] show ?thesis by blast
qed

text \<open>
  C20. Every VPU register write, of any caller, stays inside the 4 KB window at a word offset, and
  the colour coefficients that every conversion packs into the two coefficient registers always fit
  their fields: 8 bits for the first four, 9 bits for the fifth and one bit for the offset flag.
\<close>

theorem vpu_regs_in_window:
  assumes "vpu_fresh B s0" "vpu_reach B s0 s"
  shows "(\<forall>(off, v) \<in> set (vpu_log s). unat off < 4096 \<and> unat off mod 4 = 0) \<and>
    (let k = pp_csc s in unat (c0 k) < 256 \<and> unat (c1 k) < 256 \<and> unat (c2 k) < 256 \<and> unat (c3 k) < 256 \<and>
      unat (c4 k) < 512 \<and> unat (x0 k) < 2)"
proof -
  have r: "regs_ok s" by (rule reach_regs [OF assms(2) fresh_regs [OF assms(1)]])
  have "unat off < 4096 \<and> unat off mod 4 = 0" if "reg_offset_ok off" for off
  proof -
    have "off AND 3 = take_bit 2 off" by (simp add: take_bit_eq_mask mask_eq_exp_minus_1)
    then have "unat (off AND 3) = unat off mod 4" by (simp only: unsigned_take_bit_eq) (simp add: take_bit_eq_mod)
    moreover have "off < 0x1000" "off AND 3 = 0" using that by (auto simp: reg_offset_ok_def not_le)
    ultimately show ?thesis by (auto simp: word_less_nat_alt)
  qed
  moreover have "unat (c0 k) < 256 \<and> unat (c1 k) < 256 \<and> unat (c2 k) < 256 \<and> unat (c3 k) < 256 \<and> unat (c4 k) < 512 \<and> unat (x0 k) < 2"
    if "pp_csc_valid k" for k using that by (auto simp: pp_csc_valid_def not_less word_le_nat_alt)
  ultimately show ?thesis using r by (auto simp: regs_ok_def list_all_iff Let_def)
qed

text \<open>Coefficients at the limits of their fields, and the last register of the window.\<close>

definition wide_csc :: vpu_pp_csc where
  "wide_csc = \<lparr>c0 = 0xff, c1 = 0, c2 = 0xff, c3 = 0, c4 = 0x1ff, x0 = 0\<rparr>"

theorem vpu_regs_in_window_witness:
  "\<exists>s v. vpu_reach bitmap_lib loaded s \<and> vpu_log s = [(0xFFC, v)] \<and> pp_csc s = wide_csc \<and> unat (0xFFC :: u32) < 4096 \<and> unat (c4 wide_csc) < 512"
proof -
  define s1 where "s1 = loaded\<lparr>pp_csc := wide_csc\<rparr>"
  define s2 where "s2 = WRITE_REG 7 0xFFC (vpu_clk_force_on s1)"
  have "vpu_ioctl bitmap_lib idle_env (PP_SET_CSC wide_csc) loaded = Some (0, NoReply, s1)"
    by (simp add: ioctl_pp_set_csc_def idle_env_def pp_csc_valid_def wide_csc_def s1_def)
  from reach_step [OF reach_init st_ioctl [OF _ this]] have 1: "vpu_reach bitmap_lib loaded s1" by simp
  have "vpu_ioctl bitmap_lib idle_env (REG_WRITE 0xFFC 7) s1 = Some (0, NoReply, s2)"
    by (simp add: ioctl_reg_write_def idle_env_def reg_offset_ok_def s2_def)
  from reach_step [OF 1 st_ioctl [OF _ this]] have r: "vpu_reach bitmap_lib loaded s2" by simp
  have l: "vpu_log s2 = [(0xFFC, 7)]" "pp_csc s2 = wide_csc" by (simp_all add: s2_def s1_def loaded_def WRITE_REG_def vpu_clk_force_on_def)
  from vpu_regs_in_window [OF loaded_fresh r] r l show ?thesis by (auto simp: Let_def)
qed

text \<open>
  C19. Waiting loses no completion: \<^verbatim>\<open>VPU_IOC_WAIT4INT\<close> returns 0 exactly when no signal is pending
  and the interrupt has come, before the call or during it, and consumes the flag; a timeout
  or a signal leaves the flag as the interrupt handler set it, so that the next wait returns at
  once.
\<close>

theorem vpu_wait_keeps_completion:
  assumes "vpu_ioctl B e WAIT4INT s = Some (ret, rep, s')"
  defines "completed \<equiv> codec_done s \<or> (\<exists>raw. sleep_event e = Irq raw)"
  shows "(ret = 0 \<longleftrightarrow> completed \<and> \<not> signal_pending e) \<and>
    (ret \<noteq> 0 \<longrightarrow> ret = errno_code (if completed \<or> sleep_event e = Signal then ERESTARTSYS else ETIME)) \<and>
    (codec_done s' \<longleftrightarrow> completed \<and> ret \<noteq> 0)"
  using assms(1) unfolding completed_def
  by (auto simp: ioctl_wait4int_def vpu_wait_def split: if_splits wait_event.splits)

theorem vpu_wait_keeps_completion_witness:
  "\<exists>s'. vpu_ioctl bitmap_lib (idle_env\<lparr>signal_pending := True\<rparr>) WAIT4INT loaded = Some (-512, NoReply, s') \<and>
     codec_done s'"
proof -
  obtain s' where s': "vpu_ioctl bitmap_lib (idle_env\<lparr>signal_pending := True\<rparr>) WAIT4INT loaded = Some (-512, NoReply, s')"
    by (simp add: ioctl_wait4int_def vpu_wait_def idle_env_def loaded_def)
  from vpu_wait_keeps_completion [OF s'] s' show ?thesis by (simp add: idle_env_def)
qed

text \<open>
  When the reply of \<^verbatim>\<open>VPU_IOC_PHYMEM_ALLOC\<close> cannot be copied out, the pages stay allocated with
  no record of them: neither a later free by the caller, who never learns the address, nor the
  last close gives them back.
\<close>

theorem vpu_alloc_leaks:
  assumes "driver_inv B s" "kzalloc_ok e" "copy_from_ok e" "copy_to_left e \<noteq> 0"
    and "vpu_pool_alloc B (vpu_pool s) (mem_size m) = (a, pool')" "a \<noteq> 0" "open_count s = 1"
  shows "\<exists>s' s''. vpu_ioctl B e (PHYMEM_ALLOC m) s = Some (errno_code EFAULT, NoReply, s') \<and> head s' = head s \<and>
    vpu_release B s' = Some s'' \<and> pages a (mem_size m) \<inter> pool_used (vpu_pool s) = {} \<and>
    pages a (mem_size m) \<subseteq> pool_used (vpu_pool s'')"
proof -
  let ?m = "m\<lparr>phy_addr := a, cpu_addr := a\<rparr>" and ?s = "s\<lparr>vpu_pool := pool'\<rparr>"
  obtain other where b: "buffers_ok B (vpu_pool s) (head s) other" using assms(1) by (auto simp: driver_inv_def)
  have al: "vpu_alloc_dma_buffer B (vpu_pool s) m = Inr (?m, pool')"
    using assms(5,6) by (simp add: vpu_alloc_dma_buffer_def)
  have b': "buffers_ok B (vpu_pool ?s) (head ?s) (buf ?m # other)" using alloc_buffer(2) [OF b al] by simp
  obtain s'' where s'': "vpu_release B ?s = Some s''" "buffers_ok B (vpu_pool s'') [] (buf ?m # other)"
    using release_returns [OF b'] assms(7) by auto
  have "pages a (mem_size m) \<subseteq> pool_used (vpu_pool s'')"
    using s''(2) by (auto simp: buffers_ok_def covers_def buf_def)
  moreover have "pages a (mem_size m) \<inter> pool_used (vpu_pool s) = {}"
    using vpool.alloc_fresh [OF _ assms(5,6)] b by (auto simp: buffers_ok_def)
  moreover have "vpu_ioctl B e (PHYMEM_ALLOC m) s = Some (errno_code EFAULT, NoReply, ?s)"
    using assms(2-4) al by (simp add: ioctl_phymem_alloc_def)
  ultimately show ?thesis using s''(1) by auto
qed

theorem vpu_alloc_leaks_witness:
  "\<exists>s'. vpu_ioctl bitmap_lib (idle_env\<lparr>copy_to_left := 16\<rparr>) (PHYMEM_ALLOC req) (vpu_open loaded) =
     Some (errno_code EFAULT, NoReply, s') \<and> head s' = []"
proof -
  have i: "driver_inv bitmap_lib (vpu_open loaded)"
    using fresh_inv [OF loaded_fresh] by (simp add: driver_inv_def vpu_open_def)
  have o: "vpu_pool (vpu_open loaded) = sdram_pool" "open_count (vpu_open loaded) = 1" "head (vpu_open loaded) = []"
    by (simp_all add: vpu_open_def loaded_def)
  from vpu_alloc_leaks [OF i, of "idle_env\<lparr>copy_to_left := 16\<rparr>" req] show ?thesis
    using sdram_pool_alloc o by (auto simp: idle_env_def req_def)
qed

text \<open>
  The eight-bit open counter wraps: with 256 openers more, the state is the same as without
  them. So with 257 openers the first close already frees every buffer, whoever still uses it.
\<close>

theorem vpu_open_count_wraps:
  assumes "vpu_fresh B s0" "vpu_reach B s0 s" "open_count s = 0"
  shows "\<exists>s'. vpu_release B ((vpu_open ^^ 257) s) = Some s' \<and> head s' = [] \<and> open_count s' = 0"
proof -
  have n: "(vpu_open ^^ n) s = s\<lparr>open_count := open_count s + of_nat n\<rparr>" for n
    by (induction n) (simp_all add: vpu_open_def ac_simps)
  have one: "(vpu_open ^^ 257) s = s\<lparr>open_count := 1\<rparr>" unfolding n using assms(3) by simp
  obtain other where "buffers_ok B (vpu_pool s) (head s) other"
    using reach_inv [OF assms(2) fresh_inv [OF assms(1)]] by (auto simp: driver_inv_def)
  from free_buffers_all [OF this] show ?thesis
    unfolding one by (auto simp: vpu_release_def Let_def vpu_free_buffers_def)
qed

theorem vpu_open_count_wraps_witness:
  "\<exists>s s'. vpu_reach bitmap_lib loaded s \<and> head s = [got] \<and>
     vpu_release bitmap_lib ((vpu_open ^^ 257) s) = Some s' \<and> head s' = []"
proof -
  obtain s where s: "vpu_reach bitmap_lib loaded s" "head s = [got]" "open_count s = 0" using loaded_reach .
  from vpu_open_count_wraps [OF loaded_fresh s(1,3)] s show ?thesis by blast
qed

end
