(* ===== verification/Driver_Init.thy ===== *)
theory Driver_Init
  imports Driver_Safety
begin

unbundle bit_operations_syntax

text \<open>
  Loading and unloading the kernel module (\<^verbatim>\<open>src/kernel/mxc_vpu.c\<close>: \<^verbatim>\<open>vpu_init\<close>,
  \<^verbatim>\<open>vpu_exit\<close>, the unused platform path \<^verbatim>\<open>vpu_dev_probe\<close>/\<^verbatim>\<open>vpu_dev_remove\<close>, suspend and
  resume). The kernel services that hand out resources are the environment \<open>init_env\<close>; the
  resources held are a list, so that an error path that forgets one shows. The clock
  controller and the SDRAM controller registers are plain memory.
\<close>

section \<open>Environment and state\<close>

datatype resource =
    VpuMap | CcmMap | SdramcMap | M3ifMap | Iram u32 | Chrdev | ClassDev | DeviceNode | ClkRef | ClkOn
  | VpuIrq | PpMap | PpIrq | PrpMap | PrpIrq | PoolPages u32

text \<open>An error of a service is its negative code; \<open>None\<close> is success.\<close>

record init_env =
  map_vpu :: bool
  map_ccm :: bool
  map_sdramc :: bool
  map_m3if :: bool
  map_pp :: bool
  map_prp :: bool
  iram_alloc :: u32
  iram_fixed :: u32
  vpu_base_addr :: u32
  chrdev_ok :: bool
  class_err :: "int option"
  device_err :: "int option"
  clk_ok :: bool
  vpu_irq_err :: "int option"
  pp_irq_ok :: bool
  prp_irq_ok :: bool
  alloc_pages :: "nat \<Rightarrow> u32 option"
  pp_reg :: "nat \<Rightarrow> u32 \<Rightarrow> u32"
  prp_reg :: "nat \<Rightarrow> u32 \<Rightarrow> u32"

record module_params =
  hclk_max :: int
  vpu_div :: int
  clear_lhd :: int
  iram_size :: int

record module_state =
  drv :: vpu_state
  held :: "resource list"
  sdramc_base :: bool
  m3if_base :: bool
  sdramc :: "u32 \<Rightarrow> u32"
  iram_alloc_size :: u32
  vpu_clk :: bool
  vfrees :: "u32 list"

definition acquire :: "resource \<Rightarrow> module_state \<Rightarrow> module_state" where
  "acquire r m = m\<lparr>held := r # held m\<rparr>"

definition drop_res :: "resource \<Rightarrow> module_state \<Rightarrow> module_state" where
  "drop_res r m = m\<lparr>held := remove1 r (held m)\<rparr>"

section \<open>Clocks\<close>

text \<open>The PLL decoding loop body: \<open>r\<close> is \<^verbatim>\<open>MPCTL0\<close> or \<^verbatim>\<open>SPCTL0\<close>.\<close>

definition pll_khz :: "u32 \<Rightarrow> u32" where
  "pll_khz r =
     (let mfi = drop_bit 10 r AND 0xF;
          mfn = r AND 0x3FF;
          mfd = drop_bit 16 r AND 0x3FF;
          pd = drop_bit 26 r AND 0xF;
          freq = 2 * 26000 div (pd + 1);
          mfi = (if mfi < 5 then 5 else mfi);
          mfn_abs = (if 0x200 \<le> mfn then 0x400 - mfn else mfn);
          frac = (freq * mfn_abs) div (mfd + 1)
      in freq * mfi + (if 0x200 \<le> mfn then - frac else frac))"

record clock_report =
  mpll :: u32
  spll :: u32
  main2 :: u32
  arm_khz :: u32
  ahb_khz :: u32
  spec_percent :: u32

definition clock_dump :: "(u32 \<Rightarrow> u32) \<Rightarrow> clock_report" where
  "clock_dump c =
     (let cscr = c 0; mpll_khz = pll_khz (c 0x04); spll_khz = pll_khz (c 0x0C);
          main1_khz = mpll_khz;
          main2_khz = (2 * mpll_khz) div 3;
          cpu_pdf = drop_bit 12 cscr AND 3;
          ahb_pdf = drop_bit 8 cscr AND 3;
          arm_src = drop_bit 15 cscr AND 1;
          arm_parent = (if arm_src \<noteq> 0 then main1_khz else main2_khz);
          ahb = main2_khz div (ahb_pdf + 1)
      in \<lparr>mpll = mpll_khz, spll = spll_khz, main2 = main2_khz, arm_khz = arm_parent div (cpu_pdf + 1),
          ahb_khz = ahb, spec_percent = (ahb * 100) div 133000\<rparr>)"

text \<open>Programming \<^verbatim>\<open>CSCR.AHB_PDF\<close> from \<^verbatim>\<open>hclk_max\<close>.\<close>

definition program_ahb_pdf :: "int \<Rightarrow> (u32 \<Rightarrow> u32) \<Rightarrow> u32 \<Rightarrow> u32" where
  "program_ahb_pdf hclk c =
     (let cscr = c 0;
          want_pdf = (if hclk \<noteq> 0 then 1 else 2);
          cur_pdf = drop_bit 8 cscr AND 3
      in if cur_pdf \<noteq> want_pdf
         then c(0 := (cscr AND NOT (push_bit 8 3)) OR push_bit 8 want_pdf)
         else c)"

text \<open>
  Programming \<^verbatim>\<open>PCDR0\<close> bits 15 to 10 from \<^verbatim>\<open>vpu_div\<close>, with the VPU clock gated around the
  change. \<open>pcdr0\<close> is the value read before.
\<close>

definition program_vpu_div :: "int \<Rightarrow> u32 \<Rightarrow> (u32 \<Rightarrow> u32) \<Rightarrow> u32 \<Rightarrow> u32" where
  "program_vpu_div vdiv pcdr0 c =
     (let cur_pdf = drop_bit 10 pcdr0 AND 0x3f
      in if 0 \<le> vdiv \<and> (word_of_int vdiv :: u32) \<noteq> cur_pdf
         then let want = word_of_int vdiv AND 0x3f;
                  pccr1 = c 0x24;
                  c = c(0x24 := pccr1 AND NOT (push_bit 6 1));
                  c = c(0x18 := (pcdr0 AND NOT (push_bit 10 0x3f)) OR push_bit 10 want)
              in c(0x24 := pccr1 OR push_bit 6 1)
         else c)"

definition MX27_SDRAMC_ESDCFG0_LHD :: u32 where
  "MX27_SDRAMC_ESDCFG0_LHD = push_bit 5 1"

definition program_lhd :: "int \<Rightarrow> (u32 \<Rightarrow> u32) \<Rightarrow> u32 \<Rightarrow> u32" where
  "program_lhd clear sd =
     (if clear \<noteq> 0
      then let old = sd 0x10; new = old AND NOT MX27_SDRAMC_ESDCFG0_LHD
           in if old \<noteq> new then sd(0x10 := new) else sd
      else sd)"

section \<open>Module initialisation\<close>

text \<open>
  Internal RAM: \<open>iram_alloc\<close> is the address the allocator sets, 0 when it is stubbed; the fixed
  base is then used without having been allocated.
\<close>

definition init_iram :: "init_env \<Rightarrow> module_params \<Rightarrow> module_state \<Rightarrow> module_state" where
  "init_iram e p m =
     (let m = m\<lparr>drv := (drv m)\<lparr>iram := \<lparr>iram_start = 0, iram_end = 0\<rparr>\<rparr>, iram_alloc_size := 0\<rparr>
      in if 0 < iram_size p
         then let a = iram_alloc e;
                  m = (if a \<noteq> 0 then acquire (Iram a) m else m);
                  a = (if a = 0 \<and> iram_size p \<le> 0xb000 then iram_fixed e else a)
              in if a \<noteq> 0
                 then m\<lparr>drv := (drv m)\<lparr>iram := \<lparr>iram_start = a, iram_end = a + word_of_int (iram_size p) - 1\<rparr>\<rparr>,
                        iram_alloc_size := word_of_int (iram_size p)\<rparr>
                 else m
         else m)"

definition init_clocks :: "init_env \<Rightarrow> module_params \<Rightarrow> module_state \<Rightarrow> module_state" where
  "init_clocks e p m =
     (if map_ccm e
      then let m = acquire CcmMap (m\<lparr>drv := (drv m)\<lparr>ccm_base := True\<rparr>\<rparr>);
               c = ccm (drv m);
               pcdr0 = c 0x18;
               c = program_ahb_pdf (hclk_max p) c;
               c = program_vpu_div (vpu_div p) pcdr0 c
           in m\<lparr>drv := (drv m)\<lparr>ccm := c\<rparr>\<rparr>
      else m\<lparr>drv := (drv m)\<lparr>ccm_base := False\<rparr>\<rparr>)"

definition init_sdramc :: "init_env \<Rightarrow> module_params \<Rightarrow> module_state \<Rightarrow> module_state" where
  "init_sdramc e p m =
     (let m = (if map_sdramc e then acquire SdramcMap m else m)\<lparr>sdramc_base := map_sdramc e\<rparr>;
          m = (if map_m3if e then acquire M3ifMap m else m)\<lparr>m3if_base := map_m3if e\<rparr>
      in if map_sdramc e then m\<lparr>sdramc := program_lhd (clear_lhd p) (sdramc m)\<rparr> else m)"

text \<open>The labels of the error exit, each falling through to the next.\<close>

definition err_iounmap :: "module_state \<Rightarrow> module_state" where
  "err_iounmap m =
     (let m = (if iram_alloc_size m \<noteq> 0 then drop_res (Iram (iram_start (iram (drv m)))) m else m);
          m = (if ccm_base (drv m) then drop_res CcmMap m else m);
          m = (if sdramc_base m then drop_res SdramcMap m else m);
          m = (if m3if_base m then drop_res M3ifMap m else m)
      in drop_res VpuMap m)"

definition err_chrdev :: "module_state \<Rightarrow> module_state" where
  "err_chrdev m = err_iounmap (drop_res Chrdev m)"

definition err_class :: "module_state \<Rightarrow> module_state" where
  "err_class m = err_chrdev (drop_res ClassDev m)"

definition err_clk :: "module_state \<Rightarrow> module_state" where
  "err_clk m = err_class (drop_res DeviceNode (if vpu_clk m then drop_res ClkRef m else m))"

definition init_clk :: "init_env \<Rightarrow> module_state \<Rightarrow> module_state" where
  "init_clk e m =
     (let m = (if clk_ok e then acquire ClkOn (acquire ClkRef m) else m)\<lparr>vpu_clk := clk_ok e\<rparr>
      in m\<lparr>drv := vpu_clk_force_on (drv m)\<rparr>)"

definition init_pp :: "init_env \<Rightarrow> module_state \<Rightarrow> module_state" where
  "init_pp e m =
     (if \<not> map_pp e then m\<lparr>drv := (drv m)\<lparr>pp_base := False\<rparr>\<rparr>
      else if \<not> pp_irq_ok e then m\<lparr>drv := (drv m)\<lparr>pp_base := False\<rparr>\<rparr>
      else acquire PpIrq (acquire PpMap
             (m\<lparr>drv := snd (pp_hw_reset (pp_reg e) (emma_force_clk_on ((drv m)\<lparr>pp_base := True\<rparr>)))\<rparr>)))"

definition init_prp :: "init_env \<Rightarrow> module_state \<Rightarrow> module_state" where
  "init_prp e m =
     (if \<not> map_prp e then m\<lparr>drv := (drv m)\<lparr>prp_base := False\<rparr>\<rparr>
      else if \<not> prp_irq_ok e then m\<lparr>drv := (drv m)\<lparr>prp_base := False\<rparr>\<rparr>
      else acquire PrpIrq (acquire PrpMap
             (m\<lparr>drv := prp_poll_reset (prp_reg e) 1000
                (PRPW PRP_CNTL PRP_CNTL_RST (prp_force_clk_on ((drv m)\<lparr>prp_base := True\<rparr>)))\<rparr>)))"

definition init_pool :: "init_env \<Rightarrow> module_state \<Rightarrow> module_state" where
  "init_pool e m =
     (let pool = vpu_pool_init (alloc_pages e)
      in m\<lparr>drv := (drv m)\<lparr>vpu_pool := pool\<rparr>, held := map (\<lambda>b. PoolPages (phys b)) pool @ held m\<rparr>)"

text \<open>The part of \<^verbatim>\<open>vpu_init\<close> before the character device, and the whole of it.\<close>

definition init_hw :: "init_env \<Rightarrow> module_params \<Rightarrow> module_state \<Rightarrow> module_state" where
  "init_hw e p m =
     (let m = acquire VpuMap (m\<lparr>drv := (drv m)\<lparr>phy_vpu_base_addr := vpu_base_addr e, vpu_base := True\<rparr>\<rparr>)
      in init_sdramc e p (init_clocks e p (init_iram e p m)))"

definition vpu_init :: "init_env \<Rightarrow> module_params \<Rightarrow> module_state \<Rightarrow> int \<times> module_state" where
  "vpu_init e p m =
     (if \<not> map_vpu e then (errno_code ENOMEM, m)
      else let m = init_hw e p m in
      if \<not> chrdev_ok e then (errno_code EBUSY, err_iounmap m)
      else let m = acquire Chrdev m in
      case class_err e of Some err \<Rightarrow> (err, err_chrdev m) | None \<Rightarrow>
      let m = acquire ClassDev m in
      case device_err e of Some err \<Rightarrow> (err, err_class m) | None \<Rightarrow>
      let m = init_clk e (acquire DeviceNode m) in
      case vpu_irq_err e of Some err \<Rightarrow> (err, err_clk m) | None \<Rightarrow>
      (0, init_prp e (init_pp e (init_pool e (acquire VpuIrq m)))))"

section \<open>Module exit\<close>

text \<open>
  \<^verbatim>\<open>vpu_exit\<close>; \<open>None\<close> when freeing the work buffer leaves the bitmap, which a descriptor set
  by \<^verbatim>\<open>VPU_IOC_SET_BITWORK_MEM\<close> can make it do.
\<close>

definition vpu_exit :: "bitmap_ops \<Rightarrow> module_state \<Rightarrow> module_state option" where
  "vpu_exit B m =
     (let m = drop_res VpuIrq m;
          m = (if pp_base (drv m) then drop_res PpMap (drop_res PpIrq m) else m);
          m = (if prp_base (drv m) then drop_res PrpMap (drop_res PrpIrq m) else m);
          m = (if vpu_clk m then drop_res ClkRef m else m);
          m = drop_res Chrdev (drop_res ClassDev (drop_res DeviceNode m))
      in case vpu_free_dma_buffer B (vpu_pool (drv m)) (bitwork_mem (drv m)) of
           None \<Rightarrow> None
         | Some pool \<Rightarrow>
             (let d = drv m; (freed, pool') = vpu_pool_destroy pool;
                  m = m\<lparr>held := fold (\<lambda>a. remove1 (PoolPages a)) freed (held m),
                        vfrees := vfrees m @ [cpu_addr (share_mem d), cpu_addr (vshare_mem d)],
                        drv := d\<lparr>vpu_pool := pool',
                                 share_mem := (share_mem d)\<lparr>cpu_addr := 0, phy_addr := 0\<rparr>,
                                 vshare_mem := (vshare_mem d)\<lparr>cpu_addr := 0\<rparr>\<rparr>\<rparr>
              in Some (err_iounmap m)))"

section \<open>The platform driver\<close>

text \<open>
  \<^verbatim>\<open>vpu_dev_probe\<close>. \<open>plat_iram\<close> is the IRAM size of the platform data when it enables one,
  \<open>mem_res\<close> and \<open>irq_res\<close> whether the resources are there. The goto labels fall through as in
  the code, which on the paths to \<^verbatim>\<open>err_out_class\<close> destroys the device also when
  \<^verbatim>\<open>device_create\<close> has failed.
\<close>

record plat_env =
  plat_iram :: u32
  mem_res :: "u32 option"
  irq_res :: bool

definition probe_iram :: "init_env \<Rightarrow> module_params \<Rightarrow> plat_env \<Rightarrow> module_state \<Rightarrow> module_state" where
  "probe_iram e p q m =
     (let requested = (if 0 < iram_size p then word_of_int (iram_size p) else plat_iram q);
          m = m\<lparr>iram_alloc_size := 0\<rparr>;
          a = (if requested \<noteq> 0 then iram_alloc e else 0);
          m = (if a \<noteq> 0 then acquire (Iram a) m else m);
          a = (if a = 0 \<and> requested \<noteq> 0 \<and> requested \<le> 0xb000 then iram_fixed e else a)
      in if a = 0 then m\<lparr>drv := (drv m)\<lparr>iram := \<lparr>iram_start = 0, iram_end = 0\<rparr>\<rparr>\<rparr>
         else m\<lparr>drv := (drv m)\<lparr>iram := \<lparr>iram_start = a, iram_end = a + requested - 1\<rparr>\<rparr>,
                iram_alloc_size := requested\<rparr>)"

definition err_out_chrdev :: "module_state \<Rightarrow> module_state" where
  "err_out_chrdev m = drop_res VpuMap (drop_res Chrdev m)"

definition err_out_class :: "module_state \<Rightarrow> module_state" where
  "err_out_class m = err_out_chrdev (drop_res ClassDev (drop_res DeviceNode m))"

definition vpu_dev_probe :: "init_env \<Rightarrow> module_params \<Rightarrow> plat_env \<Rightarrow> module_state \<Rightarrow> int \<times> module_state" where
  "vpu_dev_probe e p q m =
     (let m = probe_iram e p q m in
      case mem_res q of None \<Rightarrow> (errno_code ENODEV, m) | Some a \<Rightarrow>
      let m = m\<lparr>drv := (drv m)\<lparr>phy_vpu_base_addr := a, vpu_base := map_vpu e\<rparr>\<rparr>;
          m = (if map_vpu e then acquire VpuMap m else m) in
      if \<not> chrdev_ok e then (errno_code EBUSY, drop_res VpuMap m)
      else let m = acquire Chrdev m in
      case class_err e of Some err \<Rightarrow> (err, err_out_chrdev m) | None \<Rightarrow>
      let m = acquire ClassDev m in
      case device_err e of Some err \<Rightarrow> (err, err_out_class m) | None \<Rightarrow>
      let m = acquire DeviceNode m in
      if \<not> clk_ok e then (errno_code ENOENT, err_out_class m)
      else let m = (acquire ClkRef m)\<lparr>vpu_clk := True\<rparr> in
      if \<not> irq_res q then (errno_code ENXIO, err_out_class m)
      else case vpu_irq_err e of Some err \<Rightarrow> (err, err_out_class m) | None \<Rightarrow>
      (0, acquire VpuIrq m))"

definition vpu_dev_remove :: "module_state \<Rightarrow> module_state" where
  "vpu_dev_remove m =
     (let m = drop_res VpuMap (drop_res VpuIrq m)
      in if iram_alloc_size m \<noteq> 0 then drop_res (Iram (iram_start (iram (drv m)))) m else m)"

text \<open>
  Suspend and resume. \<open>usecount\<close> is the clock's use count, \<open>usercount\<close> the count saved for
  resume; both are returned updated. \<open>polls\<close> are the values of the busy
  flag and of \<^verbatim>\<open>time_after(jiffies, timeout)\<close> at each turn of the waiting loop. \<open>None\<close>: the loop
  is still waiting when the polls end.
\<close>

fun suspend_poll :: "(bool \<times> bool) list \<Rightarrow> bool option" where
  "suspend_poll [] = None"
| "suspend_poll ((busy, late) # ps) =
     (if \<not> busy then Some True else if late then Some False else suspend_poll ps)"

definition vpu_suspend :: "(bool \<times> bool) list \<Rightarrow> u8 \<Rightarrow> nat \<Rightarrow> nat \<Rightarrow> (int \<times> nat \<times> nat) option" where
  "vpu_suspend polls opens usecount usercount =
     (if 0 < opens
      then (case suspend_poll polls of
              None \<Rightarrow> None
            | Some False \<Rightarrow> Some (errno_code EAGAIN, usecount, usercount)
            | Some True \<Rightarrow> Some (0, 0, usecount))
      else Some (0, 0, usecount))"

definition vpu_resume :: "nat \<Rightarrow> nat \<Rightarrow> nat" where
  "vpu_resume usercount usecount = usecount + usercount"

section \<open>Properties of loading and unloading\<close>

lemma drop_acquire [simp]: "drop_res r (acquire r m) = m"
  by (simp add: drop_res_def acquire_def)

lemma held_simps [simp]:
  "held (acquire r m) = r # held m" "held (drop_res r m) = remove1 r (held m)"
  "drv (acquire r m) = drv m" "drv (drop_res r m) = drv m"
  "vpu_clk (acquire r m) = vpu_clk m" "vpu_clk (drop_res r m) = vpu_clk m"
  "sdramc_base (acquire r m) = sdramc_base m" "sdramc_base (drop_res r m) = sdramc_base m"
  "m3if_base (acquire r m) = m3if_base m" "m3if_base (drop_res r m) = m3if_base m"
  "iram_alloc_size (acquire r m) = iram_alloc_size m" "iram_alloc_size (drop_res r m) = iram_alloc_size m"
  by (simp_all add: acquire_def drop_res_def)

text \<open>What the error exit releases, as a function on the held resources.\<close>

definition unmap_list :: "module_state \<Rightarrow> resource list \<Rightarrow> resource list" where
  "unmap_list m hs =
     remove1 VpuMap
       ((if m3if_base m then remove1 M3ifMap else id)
         ((if sdramc_base m then remove1 SdramcMap else id)
           ((if ccm_base (drv m) then remove1 CcmMap else id)
             ((if iram_alloc_size m \<noteq> 0 then remove1 (Iram (iram_start (iram (drv m)))) else id) hs))))"

lemma held_err_iounmap: "held (err_iounmap m) = unmap_list m (held m)"
  by (simp add: err_iounmap_def unmap_list_def Let_def)

text \<open>What \<open>init_hw\<close> holds, and that the error exit gives back exactly that.\<close>

definition hw_held :: "init_env \<Rightarrow> module_params \<Rightarrow> resource list" where
  "hw_held e p =
     (if map_m3if e then [M3ifMap] else []) @ (if map_sdramc e then [SdramcMap] else []) @
     (if map_ccm e then [CcmMap] else []) @ (if 0 < iram_size p \<and> iram_alloc e \<noteq> 0 then [Iram (iram_alloc e)] else []) @
     [VpuMap]"

lemma held_init_hw: "held (init_hw e p m) = hw_held e p @ held m"
  by (simp add: init_hw_def init_sdramc_def init_clocks_def init_iram_def Let_def hw_held_def)

lemma init_hw_fields [simp]:
  "m3if_base (init_hw e p m) = map_m3if e" "sdramc_base (init_hw e p m) = map_sdramc e"
  "ccm_base (drv (init_hw e p m)) = map_ccm e"
  by (simp_all add: init_hw_def init_sdramc_def init_clocks_def init_iram_def Let_def)

lemma init_hw_iram:
  assumes "0 < iram_size p" "iram_size p < 2 ^ 31" "iram_alloc e \<noteq> 0"
  shows "iram_alloc_size (init_hw e p m) \<noteq> 0" "iram_start (iram (drv (init_hw e p m))) = iram_alloc e"
proof -
  have "(word_of_int (iram_size p) :: u32) \<noteq> 0"
    using assms(1,2) by (simp add: word_of_int_eq_0_iff zdvd_not_zless)
  then show "iram_alloc_size (init_hw e p m) \<noteq> 0" "iram_start (iram (drv (init_hw e p m))) = iram_alloc e"
    using assms by (simp_all add: init_hw_def init_sdramc_def init_clocks_def init_iram_def Let_def)
qed

lemma unmap_init_hw:
  assumes "iram_size p < 2 ^ 31" "\<forall>r \<in> set hs. r \<in> {ClkOn}"
    and "m3if_base m' = map_m3if e" "sdramc_base m' = map_sdramc e" "ccm_base (drv m') = map_ccm e"
    and "iram_alloc_size m' = iram_alloc_size (init_hw e p m)" "iram (drv m') = iram (drv (init_hw e p m))"
  shows "unmap_list m' (hs @ hw_held e p) = hs"
proof -
  have ne: "r \<notin> set hs" if "r \<noteq> ClkOn" for r using assms(2) that by auto
  show ?thesis
  proof (cases "0 < iram_size p \<and> iram_alloc e \<noteq> 0")
    case True
    then show ?thesis
      using init_hw_iram [of p e m] assms
      by (simp add: unmap_list_def hw_held_def ne remove1_append)
  next
    case False
    then have "remove1 (Iram a) (hs @ hw_held e p) = hs @ hw_held e p" for a
      using ne by (auto simp: hw_held_def remove1_append remove1_idem)
    then show ?thesis
      using False assms by (simp add: unmap_list_def hw_held_def ne remove1_append)
  qed
qed

lemma init_clk_fields [simp]:
  "m3if_base (init_clk e m) = m3if_base m" "sdramc_base (init_clk e m) = sdramc_base m"
  "ccm_base (drv (init_clk e m)) = ccm_base (drv m)" "iram (drv (init_clk e m)) = iram (drv m)"
  "iram_alloc_size (init_clk e m) = iram_alloc_size m" "vpu_clk (init_clk e m) = clk_ok e"
  "held (init_clk e m) = (if clk_ok e then [ClkOn, ClkRef] else []) @ held m"
  by (simp_all add: init_clk_def Let_def vpu_clk_force_on_def)

text \<open>
  C18. A module load that fails gives back every resource it had acquired: the mappings, the
  internal RAM, the device number, class and node, and the clock reference. One thing is
  forgotten: the clock that was enabled stays enabled when the interrupt request fails.
\<close>

theorem vpu_init_unwinds:
  assumes "held m = []" "iram_size p < 2 ^ 31" "vpu_init e p m = (ret, m')" "ret \<noteq> 0"
  shows "held m' = (if map_vpu e \<and> chrdev_ok e \<and> class_err e = None \<and> device_err e = None \<and> clk_ok e
                    then [ClkOn] else [])"
proof -
  note un = unmap_init_hw [OF assms(2), of _ _ e m] and hw = held_init_hw [of e p m] assms(1)
  show ?thesis
    using assms(3,4) un [of "[]"] un [of "[ClkOn]"] hw
    by (auto simp: vpu_init_def Let_def err_chrdev_def err_class_def err_clk_def held_err_iounmap
        split: if_splits option.splits)
qed

definition boot :: module_state where
  "boot = \<lparr>drv = loaded\<lparr>vpu_pool := [], pp_base := False, prp_base := False, vpu_base := False\<rparr>, held = [],
     sdramc_base = False, m3if_base = False, sdramc = \<lambda>_. 0x20, iram_alloc_size = 0, vpu_clk = False, vfrees = []\<rparr>"

definition good_env :: init_env where
  "good_env = \<lparr>map_vpu = True, map_ccm = True, map_sdramc = True, map_m3if = True, map_pp = True, map_prp = True,
     iram_alloc = 0, iram_fixed = 0xFFFF4C00, vpu_base_addr = 0x10023000, chrdev_ok = True, class_err = None,
     device_err = None, clk_ok = True, vpu_irq_err = None, pp_irq_ok = True, prp_irq_ok = True,
     alloc_pages = \<lambda>i. if i = 0 then Some 0xA0000000 else None, pp_reg = \<lambda>_ _. 0x876, prp_reg = \<lambda>_ _. 0x28\<rparr>"

definition params :: module_params where
  "params = \<lparr>hclk_max = 1, vpu_div = 1, clear_lhd = 1, iram_size = 0xb000\<rparr>"

theorem vpu_init_unwinds_witness:
  "\<exists>m'. vpu_init (good_env\<lparr>vpu_irq_err := Some (-16)\<rparr>) params boot = (-16, m') \<and> held m' = [ClkOn]"
proof -
  obtain m' where m': "vpu_init (good_env\<lparr>vpu_irq_err := Some (-16)\<rparr>) params boot = (-16, m')"
    by (simp add: vpu_init_def good_env_def Let_def)
  from vpu_init_unwinds [OF _ _ m'] m' show ?thesis
    by (simp add: boot_def params_def good_env_def)
qed

section \<open>From load to service\<close>

text \<open>
  What the page allocator documents for blocks of order 10: nonzero addresses aligned to the
  block size, below the end of the address space, each handed out once.
\<close>

definition alloc_pages_ok :: "(nat \<Rightarrow> u32 option) \<Rightarrow> bool" where
  "alloc_pages_ok ap \<longleftrightarrow>
     (\<forall>i a. ap i = Some a \<longrightarrow> 0 < unat a \<and> unat a mod 4194304 = 0 \<and> unat a + 4194304 < 2 ^ 32) \<and>
     (\<forall>i j a b. i \<noteq> j \<longrightarrow> ap i = Some a \<longrightarrow> ap j = Some b \<longrightarrow> a \<noteq> b)"

lemma block_aligned_apart:
  assumes "x mod 4194304 = 0" "y mod 4194304 = 0" "x \<noteq> (y :: nat)"
  shows "x + 4194304 \<le> y \<or> y + 4194304 \<le> x"
proof -
  obtain k l where "x = 4194304 * k" "y = 4194304 * l" using assms(1,2) by (metis mod_0_imp_dvd dvdE)
  then show ?thesis using assms(3) by (cases "k < l") auto
qed

lemma pool_init_loop_block:
  "b \<in> set (pool_init_loop ap i n) \<Longrightarrow>
     \<exists>j. i \<le> j \<and> ap j = Some (phys b) \<and> bitmap b = replicate 1024 False"
proof (induction n arbitrary: i)
  case (Suc n)
  then show ?case
  proof (cases "ap i")
    case (Some a)
    then consider "phys b = a" "bitmap b = replicate 1024 False" | "b \<in> set (pool_init_loop ap (Suc i) n)"
      using Suc.prems by auto
    then show ?thesis
    proof cases
      case 1
      then show ?thesis using Some by (intro exI [of _ i]) simp
    next
      case 2
      then show ?thesis using Suc.IH [OF 2] by (meson Suc_leD)
    qed
  qed (use Suc.prems in simp)
qed simp

lemma pool_init_wf:
  assumes "alloc_pages_ok ap"
  shows "pool_wf (pool_init_loop ap i n)"
proof (induction n arbitrary: i)
  case (Suc n)
  show ?case
  proof (cases "ap i")
    case (Some a)
    have b: "block_wf b" if mem: "b \<in> set (pool_init_loop ap j k)" for b j k
    proof -
      obtain l where l: "ap l = Some (phys b)" "bitmap b = replicate 1024 False"
        using pool_init_loop_block [OF mem] by blast
      then have "0 < unat (phys b)" "unat (phys b) mod 4194304 = 0" "unat (phys b) + 4194304 < 2 ^ 32"
        using assms by (auto simp: alloc_pages_ok_def)
      moreover have "unat (phys b) mod 4194304 mod 4096 = unat (phys b) mod 4096"
        by (rule mod_mod_cancel) simp
      ultimately show ?thesis using l(2) by (simp add: block_wf_def)
    qed
    have "blocks_apart \<lparr>phys = a, bitmap = replicate 1024 False\<rparr> b" if mem: "b \<in> set (pool_init_loop ap (Suc i) n)" for b
    proof -
      obtain l where l: "Suc i \<le> l" "ap l = Some (phys b)" using pool_init_loop_block [OF mem] by blast
      then have "i \<noteq> l" by simp
      then have "a \<noteq> phys b" using assms Some l(2) unfolding alloc_pages_ok_def by blast
      moreover have "unat a mod 4194304 = 0" "unat (phys b) mod 4194304 = 0"
        using assms Some l(2) by (auto simp: alloc_pages_ok_def)
      ultimately show ?thesis
        using block_aligned_apart [of "unat a" "unat (phys b)"] by (simp add: blocks_apart_def word_unat_eq_iff)
    qed
    then show ?thesis using Suc.IH [of "Suc i"] Some b [of _ i "Suc n"] by (auto simp: pool_wf_def list_all_iff)
  qed (simp add: pool_wf_def)
qed (simp add: pool_wf_def)

lemma pool_init_unused: "pool_used (pool_init_loop ap i n) = {}"
  using pool_init_loop_block [of _ ap i n] by (fastforce simp: pool_used_def block_used_def)

text \<open>The fields of a driver before any call, as the static initialisers leave them.\<close>

definition static_state :: "vpu_state \<Rightarrow> bool" where
  "static_state d \<longleftrightarrow> head d = [] \<and> open_count d = 0 \<and> vpu_log d = [] \<and> pp_csc d = pp_csc_default"

lemma static_cong:
  "emma_state.more d' = emma_state.more d \<Longrightarrow> pp_csc d' = pp_csc d \<Longrightarrow> static_state d' = static_state d"
  using driver_fields [of d' d] by (simp add: static_state_def)

lemma init_hw_static: "static_state (drv m) \<Longrightarrow> static_state (drv (init_hw e p m))"
  by (simp add: init_hw_def init_sdramc_def init_clocks_def init_iram_def Let_def static_state_def)

lemma init_pp_drv:
  "static_state (drv m) \<Longrightarrow> static_state (drv (init_pp e m))"
  "vpu_pool (drv (init_pp e m)) = vpu_pool (drv m)"
proof -
  let ?d = "emma_force_clk_on ((drv m)\<lparr>pp_base := True\<rparr>)"
  let ?d' = "snd (pp_hw_reset (pp_reg e) ?d)"
  have "emma_state.more ?d' = emma_state.more ?d" by (intro emma_more_of_pp) simp
  moreover have "pp_csc ?d' = pp_csc ?d" using pp_hw_reset_config [of "pp_reg e" ?d] by (simp add: pp_config_def)
  moreover have "static_state ?d = static_state (drv m)" "vpu_pool ?d = vpu_pool (drv m)"
    by (simp_all add: static_state_def emma_force_clk_on_def Let_def)
  ultimately show "static_state (drv m) \<Longrightarrow> static_state (drv (init_pp e m))"
    "vpu_pool (drv (init_pp e m)) = vpu_pool (drv m)"
    using driver_fields [of ?d' ?d] static_cong [of ?d' ?d]
    by (auto simp: init_pp_def static_state_def)
qed

lemma init_prp_drv:
  "static_state (drv m) \<Longrightarrow> static_state (drv (init_prp e m))"
  "vpu_pool (drv (init_prp e m)) = vpu_pool (drv m)"
proof -
  let ?d = "PRPW 0 0x1000 (prp_force_clk_on ((drv m)\<lparr>prp_base := True\<rparr>))"
  let ?d' = "prp_poll_reset (prp_reg e) 1000 ?d"
  have "emma_state.more ?d' = emma_state.more ?d" by (rule prp_poll_more)
  moreover have "pp_csc ?d' = pp_csc ?d" by (rule pp_csc_of_frame) (rule prp_poll_frame)
  moreover have "static_state ?d = static_state (drv m)" "vpu_pool ?d = vpu_pool (drv m)"
    by (simp_all add: static_state_def PRPW_def prp_force_clk_on_def emma_force_clk_on_def Let_def)
  ultimately show "static_state (drv m) \<Longrightarrow> static_state (drv (init_prp e m))"
    "vpu_pool (drv (init_prp e m)) = vpu_pool (drv m)"
    using driver_fields [of ?d' ?d] static_cong [of ?d' ?d]
    by (auto simp: init_prp_def static_state_def simp del: prp_poll_reset.simps)
qed

text \<open>
  C17. A module load that returns 0 leaves a freshly loaded driver: its pool consists of the blocks
  the page allocator handed out, well formed and with no page in use, so that the properties of
  the driver over all sequences of calls apply to it.
\<close>

theorem vpu_init_fresh:
  assumes "bitmap_api_ok B" "alloc_pages_ok (alloc_pages e)" "static_state (drv m)"
    and "class_err e \<noteq> Some 0" "device_err e \<noteq> Some 0" "vpu_irq_err e \<noteq> Some 0"
    and "vpu_init e p m = (0, m')"
  shows "vpu_fresh B (drv m')"
proof -
  define d where "d = init_pool e (acquire VpuIrq (init_clk e (acquire DeviceNode (acquire ClassDev (acquire Chrdev (init_hw e p m))))))"
  have m': "m' = init_prp e (init_pp e d)"
    using assms(4-7) unfolding d_def by (auto simp: vpu_init_def Let_def split: if_splits option.splits)
  have "static_state (drv d)"
    using init_hw_static [OF assms(3), of e p]
    by (simp add: d_def init_pool_def init_clk_def Let_def static_state_def)
  then have "static_state (drv m')" unfolding m' by (intro init_prp_drv(1) init_pp_drv(1))
  moreover have pool: "vpu_pool (drv m') = pool_init_loop (alloc_pages e) 0 3"
    unfolding m' init_prp_drv(2) init_pp_drv(2) by (simp add: d_def init_pool_def vpu_pool_init_def Let_def)
  ultimately show ?thesis
    using pool_init_wf [OF assms(2), of 0 3] pool_init_unused [of "alloc_pages e" 0 3] assms(1)
    by (simp add: vpu_fresh_def static_state_def pool_inv_def)
qed

theorem vpu_init_fresh_witness:
  "\<exists>m'. vpu_init good_env params boot = (0, m') \<and> vpu_fresh bitmap_lib (drv m')"
proof -
  obtain m' where m': "vpu_init good_env params boot = (0, m')"
    by (simp add: vpu_init_def good_env_def Let_def)
  have "alloc_pages_ok (alloc_pages good_env)" by (simp add: alloc_pages_ok_def good_env_def)
  moreover have "static_state (drv boot)" by (simp add: static_state_def boot_def loaded_def)
  ultimately show ?thesis
    using vpu_init_fresh [OF bitmap_lib_ok _ _ _ _ _ m'] m' by (simp add: good_env_def)
qed

section \<open>Clock fields\<close>

lemma field_bits: "drop_bit k w AND mask m = v \<Longrightarrow> j < m \<Longrightarrow> bit (w :: u32) (k + j) = bit v j"
  using bit_imp_le_length [of w "k + j"] by (auto simp: bit_simps)

lemma set_field:
  fixes w v :: u32
  assumes "v AND mask m = v" "k + m \<le> 32"
  shows "bit ((w AND NOT (push_bit k (mask m))) OR push_bit k v) n =
    (if k \<le> n \<and> n < k + m then bit v (n - k) else bit w n)"
proof (cases "n < 32")
  case True
  have "\<not> bit v (n - k)" if "k + m \<le> n"
  proof -
    have "bit (v AND mask m) (n - k) \<longleftrightarrow> False" using that by (auto simp: bit_simps)
    then show ?thesis using assms(1) by simp
  qed
  then show ?thesis using True assms(2) by (auto simp: bit_simps)
next
  case False
  then have "\<not> bit x n" for x :: u32 by (auto dest: bit_imp_le_length)
  then show ?thesis using False assms(2) by auto
qed

lemma masks: "(3 :: u32) = mask 2" "(0x3f :: u32) = mask 6"
  by (simp_all add: mask_eq_exp_minus_1)

lemma ahb_field:
  "bit (program_ahb_pdf hclk c 0) n = (if n = 8 then hclk \<noteq> 0 else if n = 9 then hclk = 0 else bit (c 0) n)"
proof -
  define v :: u32 where "v = (if hclk \<noteq> 0 then 1 else 2)"
  have v: "v AND mask 2 = v" "bit v 0 = (hclk \<noteq> 0)" "bit v 1 = (hclk = 0)"
    by (auto simp: v_def mask_eq_exp_minus_1 bit_numeral_rec)
  have n: "8 \<le> n \<and> n < 8 + 2 \<longleftrightarrow> n = 8 \<or> n = 9" by auto
  show ?thesis
  proof (cases "drop_bit 8 (c 0) AND mask 2 = v")
    case True
    then show ?thesis
      using field_bits [OF True, of 0] field_bits [OF True, of 1] v
      by (simp add: program_ahb_pdf_def Let_def masks(1) flip: v_def)
  next
    case False
    then have "program_ahb_pdf hclk c 0 = (c 0 AND NOT (push_bit 8 (mask 2))) OR push_bit 8 v"
      unfolding program_ahb_pdf_def Let_def masks(1) v_def [symmetric] by simp
    then show ?thesis using set_field [OF v(1), of 8 "c 0" n] v n by auto
  qed
qed

lemma vpu_div_field:
  "bit (program_vpu_div vdiv (c 0x18) c 0x18) n =
     (if 0 \<le> vdiv \<and> 10 \<le> n \<and> n < 16 then bit vdiv (n - 10) else bit (c 0x18) n)"
proof -
  define v :: u32 where "v = word_of_int vdiv AND mask 6"
  have v: "v AND mask 6 = v" "\<And>j. j < 6 \<Longrightarrow> bit v j = bit vdiv j"
    by (auto simp: v_def bit_simps)
  show ?thesis
  proof (cases "0 \<le> vdiv \<and> (word_of_int vdiv :: u32) \<noteq> drop_bit 10 (c 0x18) AND mask 6")
    case True
    then have "program_vpu_div vdiv (c 0x18) c 0x18 = (c 0x18 AND NOT (push_bit 10 (mask 6))) OR push_bit 10 v"
      unfolding program_vpu_div_def Let_def masks(2) v_def by simp
    then show ?thesis using set_field [OF v(1), of 10 "c 0x18" n] v(2) [of "n - 10"] True by auto
  next
    case False
    then have same: "program_vpu_div vdiv (c 0x18) c = c"
      unfolding program_vpu_div_def Let_def masks(2) by auto
    have "bit vdiv (n - 10) = bit (c 0x18) n" if "0 \<le> vdiv" "10 \<le> n" "n < 16"
    proof -
      have w: "drop_bit 10 (c 0x18) AND mask 6 = (word_of_int vdiv :: u32)" using False that(1) by simp
      have "bit (c 0x18) (10 + (n - 10)) = bit (word_of_int vdiv :: u32) (n - 10)"
        by (rule field_bits [OF w]) (use that in simp)
      moreover have "n - 10 < 32" using that by simp
      ultimately show ?thesis using that by (simp add: bit_word_of_int_iff)
    qed
    then show ?thesis unfolding same by auto
  qed
qed

text \<open>
  The clock registers: \<^verbatim>\<open>hclk_max\<close> changes nothing of \<^verbatim>\<open>CSCR\<close> but the AHB divider, which
  becomes 1 or 2; \<^verbatim>\<open>vpu_div\<close> changes nothing of \<^verbatim>\<open>PCDR0\<close> but the VPU divider, which becomes
  its low six bits, and leaves the VPU clock gate open; a negative value changes nothing.
\<close>

theorem clock_fields:
  "bit (program_ahb_pdf hclk c 0) n = (if n = 8 then hclk \<noteq> 0 else if n = 9 then hclk = 0 else bit (c 0) n) \<and>
   bit (program_vpu_div vdiv (c 0x18) c 0x18) n =
     (if 0 \<le> vdiv \<and> 10 \<le> n \<and> n < 16 then bit vdiv (n - 10) else bit (c 0x18) n) \<and>
   (program_vpu_div vdiv (c 0x18) c = c \<or> bit (program_vpu_div vdiv (c 0x18) c 0x24) 6)"
proof (intro conjI)
  have "bit (x OR push_bit 6 1) 6" for x :: u32 by (simp add: bit_or_iff bit_push_bit_iff)
  then show "program_vpu_div vdiv (c 0x18) c = c \<or> bit (program_vpu_div vdiv (c 0x18) c 0x24) 6"
    unfolding program_vpu_div_def Let_def by (auto simp only: if_True if_False fun_upd_same split: if_splits)
qed (rule ahb_field vpu_div_field)+

end
