(* ===== verification/Vpu_Util.thy ===== *)
theory Vpu_Util
  imports Prelude
begin

unbundle bit_operations_syntax

text \<open>
  The pure part of the VPU library's helpers (\<^verbatim>\<open>src/lib/vpu_util.c\<close>, with the types of
  \<^verbatim>\<open>vpu_util.h\<close> and \<^verbatim>\<open>vpu_lib.h\<close>), for the \<^verbatim>\<open>IMX27ADS\<close> build: processor identification,
  firmware loading, the pool of codec instances, the parameter checks and the layout of the
  internal RAM. Enumerations of the C code are integers, since a caller can pass any value;
  \<^verbatim>\<open>system_rev\<close> is a parameter \<open>sr\<close>.
\<close>

section \<open>Return codes and processors\<close>

datatype RetCode =
    RETCODE_SUCCESS | RETCODE_FAILURE | RETCODE_INVALID_HANDLE | RETCODE_INVALID_PARAM
  | RETCODE_INVALID_COMMAND | RETCODE_ROTATOR_OUTPUT_NOT_SET | RETCODE_ROTATOR_STRIDE_NOT_SET
  | RETCODE_FRAME_NOT_COMPLETE | RETCODE_INVALID_FRAME_BUFFER | RETCODE_INSUFFICIENT_FRAME_BUFFERS
  | RETCODE_INVALID_STRIDE | RETCODE_WRONG_CALL_SEQUENCE | RETCODE_CALLED_BEFORE
  | RETCODE_NOT_INITIALIZED | RETCODE_DEBLOCKING_OUTPUT_NOT_SET | RETCODE_NOT_SUPPORTED
  | RETCODE_REPORT_BUF_NOT_SET | RETCODE_FAILURE_TIMEOUT

definition mxc_cpu :: "u32 \<Rightarrow> u32" where
  "mxc_cpu sr = drop_bit 12 sr"

definition mxc_cpu_rev :: "u32 \<Rightarrow> u32" where
  "mxc_cpu_rev sr = sr AND 0xFF"

definition mxc_cpu_is_rev :: "u32 \<Rightarrow> u32 \<Rightarrow> int" where
  "mxc_cpu_is_rev sr r =
     (if mxc_cpu_rev sr = r then 1 else if mxc_cpu_rev sr < r then -1 else 2)"

definition cpu_is_mx27 :: "u32 \<Rightarrow> bool" where "cpu_is_mx27 sr \<longleftrightarrow> mxc_cpu sr = 0x27"
definition cpu_is_mx32 :: "u32 \<Rightarrow> bool" where "cpu_is_mx32 sr \<longleftrightarrow> mxc_cpu sr = 0x32"
definition cpu_is_mx37 :: "u32 \<Rightarrow> bool" where "cpu_is_mx37 sr \<longleftrightarrow> mxc_cpu sr = 0x37"
definition cpu_is_mx53 :: "u32 \<Rightarrow> bool" where "cpu_is_mx53 sr \<longleftrightarrow> mxc_cpu sr = 0x53"
definition cpu_is_mx5x :: "u32 \<Rightarrow> bool" where "cpu_is_mx5x sr \<longleftrightarrow> mxc_cpu sr = 0x51 \<or> mxc_cpu sr = 0x53"

definition cpu_is_mx27_rev :: "u32 \<Rightarrow> u32 \<Rightarrow> int" where
  "cpu_is_mx27_rev sr r = (if cpu_is_mx27 sr then mxc_cpu_is_rev sr r else 0)"

abbreviation (input) STD_MPEG4 :: int where "STD_MPEG4 \<equiv> 0"
abbreviation (input) STD_H263 :: int where "STD_H263 \<equiv> 1"
abbreviation (input) STD_AVC :: int where "STD_AVC \<equiv> 2"
abbreviation (input) STD_VC1 :: int where "STD_VC1 \<equiv> 3"
abbreviation (input) STD_MPEG2 :: int where "STD_MPEG2 \<equiv> 4"
abbreviation (input) STD_DIV3 :: int where "STD_DIV3 \<equiv> 5"
abbreviation (input) STD_RV :: int where "STD_RV \<equiv> 6"
abbreviation (input) STD_MJPG :: int where "STD_MJPG \<equiv> 7"

abbreviation (input) MP4_DEC :: int where "MP4_DEC \<equiv> 0"
abbreviation (input) MP4_ENC :: int where "MP4_ENC \<equiv> 1"
abbreviation (input) AVC_DEC :: int where "AVC_DEC \<equiv> 2"
abbreviation (input) AVC_ENC :: int where "AVC_ENC \<equiv> 3"
abbreviation (input) VC1_DEC :: int where "VC1_DEC \<equiv> 4"
abbreviation (input) MP2_DEC :: int where "MP2_DEC \<equiv> 5"
abbreviation (input) DV3_DEC :: int where "DV3_DEC \<equiv> 6"
abbreviation (input) RV_DEC :: int where "RV_DEC \<equiv> 0x81"
abbreviation (input) MJPG_DEC :: int where "MJPG_DEC \<equiv> 0x82"
abbreviation (input) MJPG_ENC :: int where "MJPG_ENC \<equiv> 0x83"

section \<open>Firmware\<close>

text \<open>
  The firmware file is its bytes; \<open>None\<close> when it cannot be opened. The header is 12 bytes of
  platform name and a little-endian element count. \<open>stack\<close> are the 16 bytes of the
  uninitialised \<^verbatim>\<open>headerInfo\<close>, which a short file leaves in place, and \<open>beyond\<close> the bytes
  after it, which \<^verbatim>\<open>strstr\<close> reads when the name has no terminator.
\<close>

abbreviation (input) MAX_FW_BINARY_LEN :: nat where "MAX_FW_BINARY_LEN \<equiv> 102400"

definition le32 :: "u8 list \<Rightarrow> nat" where
  "le32 bs = unat (bs ! 0) + 256 * unat (bs ! 1) + 65536 * unat (bs ! 2) + 16777216 * unat (bs ! 3)"

fun le16s :: "u8 list \<Rightarrow> u16 list" where
  "le16s (a # b # bs) = (ucast a OR push_bit 8 (ucast b)) # le16s bs"
| "le16s _ = []"

text \<open>\<^verbatim>\<open>sprintf("%2x", ...)\<close>: lower-case hexadecimal, padded with a space to width 2.\<close>

definition hex_digit :: "nat \<Rightarrow> u8" where
  "hex_digit d = of_nat (if d < 10 then 48 + d else 87 + d)"

fun hex_str :: "nat \<Rightarrow> u8 list" where
  "hex_str n = (if n < 16 then [hex_digit n] else hex_str (n div 16) @ [hex_digit (n mod 16)])"

declare hex_str.simps [simp del]

definition hex2 :: "nat \<Rightarrow> u8 list" where
  "hex2 n = (if n < 16 then 32 # hex_str n else hex_str n)"

fun strstr :: "u8 list \<Rightarrow> u8 list \<Rightarrow> bool" where
  "strstr [] needle = (needle = [])"
| "strstr (c # cs) needle = (take (length needle) (c # cs) = needle \<or> strstr cs needle)"

definition fw_name :: "u32 \<Rightarrow> string \<Rightarrow> string" where
  "fw_name sr path =
     path @ ''/'' @
     (if 0 < cpu_is_mx27_rev sr 0x20 then ''vpu_fw_imx27_TO2.bin''
      else if 0 < cpu_is_mx27_rev sr 0x10 then ''vpu_fw_imx27_TO1.bin''
      else ''vpu_fw_imx'' @ map (\<lambda>b. char_of (unat b)) (hex2 (unat (mxc_cpu sr))) @ ''.bin'')"

record fw_load =
  fw_ret :: RetCode
  fw_code :: "u16 list"
  fw_size :: nat
  fw_closes :: nat

text \<open>\<open>code\<close> is the buffer \<^verbatim>\<open>pBitCode\<close> before the call; \<open>fw_closes\<close> counts the calls of \<^verbatim>\<open>fclose\<close>.\<close>

definition LoadBitCodeTable :: "u32 \<Rightarrow> u8 list \<Rightarrow> u8 list \<Rightarrow> u8 list option \<Rightarrow> u16 list \<Rightarrow> fw_load" where
  "LoadBitCodeTable sr stack beyond file code =
     (case file of
        None \<Rightarrow> \<lparr>fw_ret = RETCODE_FAILURE, fw_code = code, fw_size = 0, fw_closes = 0\<rparr>
      | Some bytes \<Rightarrow>
          let info = take 16 bytes @ drop (length (take 16 bytes)) stack;
              sz = le32 (drop 12 info)
          in if MAX_FW_BINARY_LEN < sz
             then \<lparr>fw_ret = RETCODE_FAILURE, fw_code = code, fw_size = 0, fw_closes = 1\<rparr>
             else let elems = take sz (le16s (drop 16 bytes));
                      code' = elems @ drop (length elems) code
                  in if length elems < sz
                     then \<lparr>fw_ret = RETCODE_FAILURE, fw_code = code', fw_size = 0, fw_closes = 1\<rparr>
                     else if \<not> strstr (takeWhile (\<lambda>b. b \<noteq> 0) (info @ beyond)) (hex2 (unat (mxc_cpu sr)))
                     then \<lparr>fw_ret = RETCODE_FAILURE, fw_code = code', fw_size = 0, fw_closes = 2\<rparr>
                     else \<lparr>fw_ret = RETCODE_SUCCESS, fw_code = code', fw_size = sz, fw_closes = 1\<rparr>)"

definition swab32 :: "u32 \<Rightarrow> u32" where
  "swab32 x = push_bit 24 (x AND 0xff) OR push_bit 8 (x AND 0xff00) OR
     drop_bit 8 (x AND 0xff0000) OR drop_bit 24 (x AND 0xff000000)"

definition pair32 :: "u16 \<Rightarrow> u16 \<Rightarrow> u32" where
  "pair32 hi lo = push_bit 16 (ucast hi) OR ucast lo"

text \<open>
  The copy into the code buffer as the list of its stores \<open>(word index, value)\<close>, in order.
\<close>

function dl_loop_mx5x :: "u16 list \<Rightarrow> nat \<Rightarrow> nat \<Rightarrow> (nat \<times> u32) list" where
  "dl_loop_mx5x code sz i =
     (if i < sz
      then (i div 2 + 1, pair32 (code ! i) (code ! (i + 1))) #
           (i div 2, pair32 (code ! (i + 2)) (code ! (i + 3))) # dl_loop_mx5x code sz (i + 4)
      else [])"
  by pat_completeness auto
termination
  by (relation "measure (\<lambda>(code, sz, i). sz - i)") auto

declare dl_loop_mx5x.simps [simp del]

function dl_loop :: "bool \<Rightarrow> u16 list \<Rightarrow> nat \<Rightarrow> nat \<Rightarrow> (nat \<times> u32) list" where
  "dl_loop swap code sz i =
     (if i < sz
      then (let data = pair32 (code ! i) (code ! (i + 1))
            in (i div 2, if swap then swab32 data else data)) # dl_loop swap code sz (i + 2)
      else [])"
  by pat_completeness auto
termination
  by (relation "measure (\<lambda>(swap, code, sz, i). sz - i)") auto

declare dl_loop.simps [simp del]

text \<open>The \<^verbatim>\<open>memset\<close> of \<^verbatim>\<open>bit_code\<close>.\<close>

definition zeroed_code :: "u16 list" where
  "zeroed_code = replicate MAX_FW_BINARY_LEN 0"

lemma zeroed_code_lemmas:
  "length zeroed_code = MAX_FW_BINARY_LEN" "drop n zeroed_code = replicate (MAX_FW_BINARY_LEN - n) 0"
  unfolding zeroed_code_def by (rule length_replicate, rule drop_replicate)

definition DownloadBitCodeTable ::
    "u32 \<Rightarrow> u8 list \<Rightarrow> u8 list \<Rightarrow> u8 list option \<Rightarrow> bool \<Rightarrow> bool \<Rightarrow> RetCode \<times> u16 list \<times> (nat \<times> u32) list" where
  "DownloadBitCodeTable sr stack beyond file codeBuf_ok bit_code_ok =
     (if \<not> codeBuf_ok \<or> \<not> bit_code_ok then (RETCODE_FAILURE, [], [])
      else let r = LoadBitCodeTable sr stack beyond file zeroed_code
           in if fw_ret r \<noteq> RETCODE_SUCCESS then (RETCODE_FAILURE, fw_code r, [])
              else (RETCODE_SUCCESS, fw_code r,
                    if cpu_is_mx5x sr then dl_loop_mx5x (fw_code r) (fw_size r) 0
                    else dl_loop (cpu_is_mx37 sr) (fw_code r) (fw_size r) 0))"

section \<open>Codec instances\<close>

text \<open>
  The instance pool lives in the shared memory; a handle is a pointer, either to a slot of the
  pool or to anything else. The codec-specific part of an instance is a type parameter of the
  record; \<open>blank\<close> is its all-zero value.
\<close>

abbreviation (input) MAX_NUM_INSTANCE :: nat where "MAX_NUM_INSTANCE \<equiv> 4"

record CodecInst =
  instIndex :: int
  inUse :: bool
  codecMode :: int

datatype handle = Slot nat | Wild

fun find_free :: "'a CodecInst_scheme list \<Rightarrow> nat \<Rightarrow> nat option" where
  "find_free [] i = None"
| "find_free (c # cs) i = (if \<not> inUse c then Some i else find_free cs (Suc i))"

definition GetCodecInstance ::
    "'a \<Rightarrow> 'a CodecInst_scheme list \<Rightarrow> (nat \<times> 'a CodecInst_scheme list) option" where
  "GetCodecInstance blank pool =
     (case find_free pool 0 of
        None \<Rightarrow> None
      | Some i \<Rightarrow>
          Some (i, pool[i := \<lparr>instIndex = instIndex (pool ! i), inUse = True, codecMode = 0, \<dots> = blank\<rparr>]))"

definition FreeCodecInstance :: "nat \<Rightarrow> 'a CodecInst_scheme list \<Rightarrow> 'a CodecInst_scheme list" where
  "FreeCodecInstance i pool = pool[i := (pool ! i)\<lparr>inUse := False\<rparr>]"

definition CheckInstanceValidity :: "handle \<Rightarrow> RetCode" where
  "CheckInstanceValidity h =
     (case h of Slot i \<Rightarrow> if i < MAX_NUM_INSTANCE then RETCODE_SUCCESS else RETCODE_INVALID_HANDLE
              | Wild \<Rightarrow> RETCODE_INVALID_HANDLE)"

definition CheckEncInstanceValidity :: "u32 \<Rightarrow> 'a CodecInst_scheme list \<Rightarrow> handle \<Rightarrow> RetCode" where
  "CheckEncInstanceValidity sr pool h =
     (if cpu_is_mx32 sr \<or> cpu_is_mx37 sr then RETCODE_NOT_SUPPORTED
      else if CheckInstanceValidity h \<noteq> RETCODE_SUCCESS then RETCODE_INVALID_HANDLE
      else case h of
             Wild \<Rightarrow> RETCODE_INVALID_HANDLE
           | Slot i \<Rightarrow>
               let c = pool ! i in
               if \<not> inUse c then RETCODE_INVALID_HANDLE
               else if cpu_is_mx27 sr then
                 (if codecMode c \<noteq> MP4_ENC \<and> codecMode c \<noteq> AVC_ENC then RETCODE_INVALID_HANDLE
                  else RETCODE_SUCCESS)
               else if cpu_is_mx5x sr then
                 (if codecMode c \<noteq> MP4_ENC \<and> codecMode c \<noteq> AVC_ENC \<and> codecMode c \<noteq> MJPG_ENC
                  then RETCODE_INVALID_HANDLE else RETCODE_SUCCESS)
               else RETCODE_SUCCESS)"

definition CheckDecInstanceValidity :: "u32 \<Rightarrow> 'a CodecInst_scheme list \<Rightarrow> handle \<Rightarrow> RetCode" where
  "CheckDecInstanceValidity sr pool h =
     (if CheckInstanceValidity h \<noteq> RETCODE_SUCCESS then RETCODE_INVALID_HANDLE
      else case h of
             Wild \<Rightarrow> RETCODE_INVALID_HANDLE
           | Slot i \<Rightarrow>
               let c = pool ! i; m = codecMode c in
               if \<not> inUse c then RETCODE_INVALID_HANDLE
               else if cpu_is_mx27 sr then
                 (if m \<noteq> MP4_DEC \<and> m \<noteq> AVC_DEC then RETCODE_INVALID_HANDLE else RETCODE_SUCCESS)
               else if cpu_is_mx32 sr then
                 (if m \<noteq> MP4_DEC \<and> m \<noteq> AVC_DEC \<and> m \<noteq> VC1_DEC then RETCODE_INVALID_HANDLE
                  else RETCODE_SUCCESS)
               else if cpu_is_mx37 sr then
                 (if m \<noteq> MP4_DEC \<and> m \<noteq> AVC_DEC \<and> m \<noteq> VC1_DEC \<and> m \<noteq> MP2_DEC \<and> m \<noteq> DV3_DEC
                  then RETCODE_INVALID_HANDLE else RETCODE_SUCCESS)
               else if cpu_is_mx5x sr then
                 (if m \<noteq> MP4_DEC \<and> m \<noteq> AVC_DEC \<and> m \<noteq> VC1_DEC \<and> m \<noteq> MP2_DEC \<and> m \<noteq> DV3_DEC \<and>
                     m \<noteq> RV_DEC \<and> m \<noteq> MJPG_DEC
                  then RETCODE_INVALID_PARAM else RETCODE_SUCCESS)
               else RETCODE_SUCCESS)"

text \<open>The pool as \<^verbatim>\<open>vpu_semaphore_open\<close> leaves it: every slot with its index and free.\<close>

definition reset_pool :: "'a CodecInst_scheme list \<Rightarrow> 'a CodecInst_scheme list" where
  "reset_pool pool = map (\<lambda>i. (pool ! i)\<lparr>instIndex := int i, inUse := False\<rparr>) [0 ..< MAX_NUM_INSTANCE]"

section \<open>Parameter checks\<close>

text \<open>
  The open parameters, with the fields the library reads. The union \<^verbatim>\<open>EncStdParam\<close> is its four
  views, with the tables of the last as words; the code reads only the view that \<^verbatim>\<open>bitstreamFormat\<close> selects. \<open>s32\<close> is the value of a
  signed 32-bit expression, with the wrap-around of the compiler.
\<close>

definition s32 :: "int \<Rightarrow> int" where
  "s32 x = signed_take_bit 31 x"

lemma s32_id [simp]: "- (2 ^ 31) \<le> x \<Longrightarrow> x < 2 ^ 31 \<Longrightarrow> s32 x = x"
  unfolding s32_def by (rule signed_take_bit_int_eq_self) simp_all

record EncSliceMode =
  sliceMode :: int
  sliceSizeMode :: int
  sliceSize :: int

record EncMp4Param =
  mp4_dataPartitionEnable :: int
  mp4_reversibleVlcEnable :: int
  mp4_intraDcVlcThr :: int
  mp4_hecEnable :: int
  mp4_verid :: int

record EncH263Param =
  h263_annexJEnable :: int
  h263_annexKEnable :: int
  h263_annexTEnable :: int

record EncAvcParam =
  avc_constrainedIntraPredFlag :: int
  avc_disableDeblk :: int
  avc_deblkFilterOffsetAlpha :: int
  avc_deblkFilterOffsetBeta :: int
  avc_chromaQpOffset :: int
  avc_audEnable :: int
  avc_fmoEnable :: int
  avc_fmoSliceNum :: int
  avc_fmoType :: int
  avc_fmoSliceSaveBufSize :: int

record EncMjpgParam =
  enc_mjpg_sourceFormat :: int
  mjpg_restartInterval :: int
  enc_mjpg_thumbNailEnable :: int
  mjpg_thumbNailWidth :: int
  mjpg_thumbNailHeight :: int
  mjpg_hufTable :: "u32 list"
  mjpg_qMatTable :: "u32 list"

record EncOpenParam =
  enc_bitstreamBuffer :: u32
  enc_bitstreamBufferSize :: u32
  enc_bitstreamFormat :: int
  enc_picWidth :: int
  enc_picHeight :: int
  enc_frameRateInfo :: u32
  bitRate :: int
  initialDelay :: int
  vbvBufferSize :: int
  gopSize :: int
  slicemode :: EncSliceMode
  intraRefresh :: int
  sliceReport :: int
  mbReport :: int
  mbQpReport :: int
  rcIntraQp :: int
  enc_chromaInterleave :: int
  enc_dynamicAllocEnable :: int
  enc_ringBufferEnable :: int
  mp4Param :: EncMp4Param
  h263Param :: EncH263Param
  avcParam :: EncAvcParam
  mjpgParam :: EncMjpgParam
  userQpMin :: int
  userQpMax :: int
  userQpMinEnable :: int
  userQpMaxEnable :: int
  userGamma :: u32
  RcIntervalMode :: int
  MbInterval :: int
  avcIntra16x16OnlyModeEnable :: int

definition check_mp4 :: "EncMp4Param \<Rightarrow> bool" where
  "check_mp4 p \<longleftrightarrow>
     \<not> (mp4_dataPartitionEnable p \<noteq> 0 \<and> mp4_dataPartitionEnable p \<noteq> 1) \<and>
     \<not> (mp4_dataPartitionEnable p = 1 \<and> mp4_reversibleVlcEnable p \<noteq> 0 \<and> mp4_reversibleVlcEnable p \<noteq> 1) \<and>
     \<not> (mp4_intraDcVlcThr p < 0 \<or> mp4_intraDcVlcThr p > 7)"

definition check_h263 :: "int \<Rightarrow> int \<Rightarrow> EncH263Param \<Rightarrow> bool" where
  "check_h263 w h p \<longleftrightarrow>
     \<not> (h263_annexJEnable p \<noteq> 0 \<and> h263_annexJEnable p \<noteq> 1) \<and>
     \<not> (h263_annexKEnable p \<noteq> 0 \<and> h263_annexKEnable p \<noteq> 1) \<and>
     \<not> (h263_annexTEnable p \<noteq> 0 \<and> h263_annexTEnable p \<noteq> 1) \<and>
     \<not> (h263_annexJEnable p = 0 \<and> h263_annexKEnable p = 0 \<and> h263_annexTEnable p = 0 \<and>
        \<not> (w = 128 \<and> h = 96) \<and> \<not> (w = 176 \<and> h = 144) \<and> \<not> (w = 352 \<and> h = 288) \<and> \<not> (w = 704 \<and> h = 576))"

definition check_avc :: "EncAvcParam \<Rightarrow> bool" where
  "check_avc p \<longleftrightarrow>
     \<not> (avc_constrainedIntraPredFlag p \<noteq> 0 \<and> avc_constrainedIntraPredFlag p \<noteq> 1) \<and>
     \<not> (avc_disableDeblk p \<noteq> 0 \<and> avc_disableDeblk p \<noteq> 1 \<and> avc_disableDeblk p \<noteq> 2) \<and>
     \<not> (avc_deblkFilterOffsetAlpha p < -6 \<or> avc_deblkFilterOffsetAlpha p > 6) \<and>
     \<not> (avc_deblkFilterOffsetBeta p < -6 \<or> avc_deblkFilterOffsetBeta p > 6) \<and>
     \<not> (avc_chromaQpOffset p < -12 \<or> avc_chromaQpOffset p > 12) \<and>
     \<not> (avc_audEnable p \<noteq> 0 \<and> avc_audEnable p \<noteq> 1) \<and>
     \<not> (avc_fmoEnable p \<noteq> 0 \<and> avc_fmoEnable p \<noteq> 1) \<and>
     \<not> (avc_fmoEnable p = 1 \<and>
        ((avc_fmoType p \<noteq> 0 \<and> avc_fmoType p \<noteq> 1) \<or> avc_fmoSliceNum p < 2 \<or> 8 < avc_fmoSliceNum p))"

definition stream_buf_ok :: "u32 \<Rightarrow> int \<Rightarrow> bool" where
  "stream_buf_ok buf sz \<longleftrightarrow>
     \<not> (buf mod 4 \<noteq> 0) \<and> \<not> (c_rem sz 1024 \<noteq> 0 \<or> sz < 1024 \<or> sz > 16383 * 1024)"

definition CheckEncOpenParam :: "u32 \<Rightarrow> EncOpenParam option \<Rightarrow> RetCode" where
  "CheckEncOpenParam sr pop' =
     (if cpu_is_mx32 sr \<or> cpu_is_mx37 sr then RETCODE_NOT_SUPPORTED
      else case pop' of None \<Rightarrow> RETCODE_INVALID_PARAM | Some pop \<Rightarrow>
      let w = enc_picWidth pop; h = enc_picHeight pop; fmt = enc_bitstreamFormat pop; sm = slicemode pop in
      if \<not> stream_buf_ok (enc_bitstreamBuffer pop) (uint (enc_bitstreamBufferSize pop)) then RETCODE_INVALID_PARAM
      else if fmt \<noteq> STD_MPEG4 \<and> fmt \<noteq> STD_H263 \<and> fmt \<noteq> STD_AVC \<and> fmt \<noteq> STD_MJPG then RETCODE_INVALID_PARAM
      else if bitRate pop > 32767 \<or> bitRate pop < 0 then RETCODE_INVALID_PARAM
      else if bitRate pop \<noteq> 0 \<and> initialDelay pop > 32767 then RETCODE_INVALID_PARAM
      else if bitRate pop \<noteq> 0 \<and> initialDelay pop \<noteq> 0 \<and> vbvBufferSize pop < 0 then RETCODE_INVALID_PARAM
      else if gopSize pop > 32767 then RETCODE_INVALID_PARAM
      else if sliceMode sm \<noteq> 0 \<and> sliceMode sm \<noteq> 1 then RETCODE_INVALID_PARAM
      else if sliceMode sm = 1 \<and> ((sliceSizeMode sm \<noteq> 0 \<and> sliceSizeMode sm \<noteq> 1) \<or> sliceSize sm = 0)
      then RETCODE_INVALID_PARAM
      else if cpu_is_mx27 sr \<and>
              ((sliceReport pop \<noteq> 0 \<and> sliceReport pop \<noteq> 1) \<or> (mbReport pop \<noteq> 0 \<and> mbReport pop \<noteq> 1))
      then RETCODE_INVALID_PARAM
      else if intraRefresh pop < 0 \<or> intraRefresh pop \<ge> c_div (s32 (w * h)) 256 then RETCODE_INVALID_PARAM
      else if fmt = STD_MPEG4 \<and> \<not> check_mp4 (mp4Param pop) then RETCODE_INVALID_PARAM
      else if fmt = STD_H263 \<and> \<not> check_h263 w h (h263Param pop) then RETCODE_INVALID_PARAM
      else if fmt = STD_AVC \<and> \<not> check_avc (avcParam pop) then RETCODE_INVALID_PARAM
      else if w < 32 \<or> h < 16 then RETCODE_INVALID_PARAM
      else RETCODE_SUCCESS)"

record FrameBuffer =
  strideY :: u32
  strideC :: u32
  bufY :: u32
  bufCb :: u32
  bufCr :: u32
  bufMvCol :: u32

record EncParam =
  sourceFrame :: "FrameBuffer option"
  encTopOffset :: int
  encLeftOffset :: int
  forceIPicture :: int
  skipPicture :: int
  quantParam :: int
  enc_picStreamBufferAddr :: u32
  enc_picStreamBufferSize :: int
  enableAutoSkip :: int

text \<open>\<open>mode\<close> and \<open>rate\<close> are the instance's codec mode and its open parameter \<^verbatim>\<open>bitRate\<close>.\<close>

definition CheckEncParam :: "int \<Rightarrow> int \<Rightarrow> EncParam option \<Rightarrow> RetCode" where
  "CheckEncParam mode rate param' =
     (case param' of None \<Rightarrow> RETCODE_INVALID_PARAM | Some param \<Rightarrow>
      if skipPicture param \<noteq> 0 \<and> skipPicture param \<noteq> 1 then RETCODE_INVALID_PARAM
      else if skipPicture param = 0 \<and> sourceFrame param = None then RETCODE_INVALID_FRAME_BUFFER
      else if skipPicture param = 0 \<and> forceIPicture param \<noteq> 0 \<and> forceIPicture param \<noteq> 1
      then RETCODE_INVALID_PARAM
      else if rate = 0 \<and>
              (if mode = MP4_ENC then quantParam param < 1 \<or> quantParam param > 31
               else quantParam param < 0 \<or> quantParam param > 51)
      then RETCODE_INVALID_PARAM
      else RETCODE_SUCCESS)"

record DecOpenParam =
  bitstreamFormat :: int
  bitstreamBuffer :: u32
  bitstreamBufferSize :: int
  qpReport :: int
  mp4DeblkEnable :: int
  reorderEnable :: int
  dec_chromaInterleave :: int
  dec_filePlayEnable :: int
  dec_picWidth :: int
  dec_picHeight :: int
  dec_dynamicAllocEnable :: int
  streamStartByteOffset :: int
  mjpg_thumbNailDecEnable :: int
  psSaveBuffer :: u32
  psSaveBufferSize :: int
  mp4Class :: int

text \<open>\<^verbatim>\<open>CheckDecOpenParam\<close> also rewrites \<^verbatim>\<open>STD_H263\<close> to \<^verbatim>\<open>STD_MPEG4\<close> in the caller's structure.\<close>

definition CheckDecOpenParam :: "u32 \<Rightarrow> DecOpenParam option \<Rightarrow> RetCode \<times> DecOpenParam option" where
  "CheckDecOpenParam sr pop' =
     (case pop' of None \<Rightarrow> (RETCODE_INVALID_PARAM, None) | Some pop \<Rightarrow>
      if \<not> stream_buf_ok (bitstreamBuffer pop) (bitstreamBufferSize pop) then (RETCODE_INVALID_PARAM, Some pop)
      else let pop = (if bitstreamFormat pop = STD_H263 then pop\<lparr>bitstreamFormat := STD_MPEG4\<rparr> else pop);
               fmt = bitstreamFormat pop in
      if cpu_is_mx27 sr \<and> fmt \<noteq> STD_MPEG4 \<and> fmt \<noteq> STD_AVC then (RETCODE_INVALID_PARAM, Some pop)
      else if cpu_is_mx32 sr \<and> fmt \<notin> {STD_MPEG4, STD_AVC, STD_VC1} then (RETCODE_INVALID_PARAM, Some pop)
      else if cpu_is_mx37 sr \<and> fmt \<notin> {STD_MPEG4, STD_AVC, STD_VC1, STD_MPEG2, STD_DIV3}
      then (RETCODE_INVALID_PARAM, Some pop)
      else if cpu_is_mx5x sr \<and> fmt \<notin> {STD_MPEG4, STD_AVC, STD_VC1, STD_MPEG2, STD_DIV3, STD_RV, STD_MJPG}
      then (RETCODE_INVALID_PARAM, Some pop)
      else if cpu_is_mx27 sr then
        (if fmt = STD_MPEG4 \<and> qpReport pop \<noteq> 0 \<and> qpReport pop \<noteq> 1 then (RETCODE_INVALID_PARAM, Some pop)
         else (RETCODE_SUCCESS, Some pop))
      else if mp4DeblkEnable pop = 1 \<and> fmt \<notin> {STD_MPEG4, STD_MPEG2, STD_DIV3}
      then (RETCODE_INVALID_PARAM, Some pop)
      else (RETCODE_SUCCESS, Some pop))"

text \<open>
  \<^verbatim>\<open>CopyBufferData\<close> on the bytes of the two buffers, which do not overlap. The i.MX5x loop
  exchanges the two words of a pair and reverses the bytes of each; other processors than these
  two copy nothing. The size is not negative.
\<close>

fun swab_pairs :: "u8 list \<Rightarrow> u8 list" where
  "swab_pairs (a0 # a1 # a2 # a3 # b0 # b1 # b2 # b3 # bs) =
     b3 # b2 # b1 # b0 # a3 # a2 # a1 # a0 # swab_pairs bs"
| "swab_pairs _ = []"

definition CopyBufferData :: "u32 \<Rightarrow> u8 list option \<Rightarrow> u8 list option \<Rightarrow> nat \<Rightarrow> RetCode \<times> u8 list option" where
  "CopyBufferData sr dst src size' =
     (case (dst, src) of
        (Some d, Some s) \<Rightarrow>
          if size' = 0 then (RETCODE_FAILURE, dst)
          else if cpu_is_mx37 sr then (RETCODE_SUCCESS, Some (take size' s @ drop size' d))
          else if cpu_is_mx5x sr
          then (let w = swab_pairs (take size' s) in (RETCODE_SUCCESS, Some (w @ drop (length w) d)))
          else (RETCODE_SUCCESS, dst)
      | _ \<Rightarrow> (RETCODE_FAILURE, dst))"

section \<open>Internal RAM\<close>

record SecAxiUse =
  useBitEnable :: bool
  useIpEnable :: bool
  useDbkEnable :: bool
  useOvlEnable :: bool
  useMeEnable :: bool
  useHostBitEnable :: bool
  useHostIpEnable :: bool
  useHostDbkEnable :: bool
  useHostOvlEnable :: bool
  useHostMeEnable :: bool
  bufBitUse :: int
  bufIpAcDcUse :: int
  bufDbkYUse :: int
  bufDbkCUse :: int
  bufOvlUse :: int
  searchRamAddr :: int
  searchRamSize :: int

definition sec_zero :: SecAxiUse where
  "sec_zero = \<lparr>useBitEnable = False, useIpEnable = False, useDbkEnable = False, useOvlEnable = False,
     useMeEnable = False, useHostBitEnable = False, useHostIpEnable = False, useHostDbkEnable = False,
     useHostOvlEnable = False, useHostMeEnable = False, bufBitUse = 0, bufIpAcDcUse = 0, bufDbkYUse = 0,
     bufDbkCUse = 0, bufOvlUse = 0, searchRamAddr = 0, searchRamSize = 0\<rparr>"

text \<open>\<^verbatim>\<open>(f * width / 16 + 1023) & ~1023\<close>\<close>

definition align1k :: "int \<Rightarrow> int" where
  "align1k x = (x + 1023) AND NOT 1023"

definition axi_size :: "int \<Rightarrow> int \<Rightarrow> int" where
  "axi_size f width = align1k (c_div (s32 (f * width)) 16)"

definition dec_axi_host :: "int \<Rightarrow> int \<Rightarrow> int \<Rightarrow> int \<Rightarrow> int \<Rightarrow> SecAxiUse" where
  "dec_axi_host start room width mode profile =
     (let u = sec_zero;
          dbk_size = axi_size (if mode = VC1_DEC \<and> profile = 2 then 512 else 256) width in
      if \<not> dbk_size \<le> room then u
      else let u = u\<lparr>useHostDbkEnable := True, bufDbkYUse := start, bufDbkCUse := start + c_div dbk_size 2\<rparr>;
               room = room - dbk_size;
               bitram_size = axi_size 128 width in
      if \<not> bitram_size \<le> room then u
      else let u = u\<lparr>useHostBitEnable := True, bufBitUse := bufDbkCUse u + c_div dbk_size 2\<rparr>;
               room = room - bitram_size;
               ipacdc_size = axi_size 128 width in
      if \<not> ipacdc_size \<le> room then u
      else let u = u\<lparr>useHostIpEnable := True, bufIpAcDcUse := bufBitUse u + bitram_size\<rparr>;
               room = room - ipacdc_size;
               ovl_size = axi_size 80 width in
      if mode = VC1_DEC \<and> ovl_size \<le> room
      then u\<lparr>useHostOvlEnable := True, bufOvlUse := bufIpAcDcUse u + ipacdc_size\<rparr> else u)"

definition SetDecSecondAXIIRAM :: "u32 \<Rightarrow> int \<Rightarrow> int \<Rightarrow> int \<Rightarrow> int \<Rightarrow> int \<Rightarrow> SecAxiUse \<Rightarrow> SecAxiUse" where
  "SetDecSecondAXIIRAM sr iram_start iram_end width mode profile old =
     (if width = 0 then old
      else let u = dec_axi_host iram_start (iram_end - iram_start + 1) width mode profile
           in if cpu_is_mx53 sr
              then u\<lparr>useBitEnable := useHostDbkEnable u, useIpEnable := useHostBitEnable u,
                     useDbkEnable := useHostIpEnable u, useOvlEnable := useHostOvlEnable u\<rparr>
              else u)"

definition enc_axi_host :: "int \<Rightarrow> int \<Rightarrow> int \<Rightarrow> SecAxiUse" where
  "enc_axi_host start room width =
     (let u = sec_zero\<lparr>searchRamSize := align1k (s32 (width * 36) + 2048)\<rparr> in
      if \<not> searchRamSize u \<le> room then u
      else let u = u\<lparr>useHostMeEnable := True, searchRamAddr := start\<rparr>;
               room = room - searchRamSize u;
               dbk_size = axi_size 128 width in
      if \<not> dbk_size \<le> room then u
      else let y = start + searchRamSize u;
               u = u\<lparr>useHostDbkEnable := True, bufDbkYUse := y, bufDbkCUse := y + c_div dbk_size 2\<rparr>;
               room = room - dbk_size;
               bitram_size = axi_size 128 width in
      if \<not> bitram_size \<le> room then u
      else let u = u\<lparr>useHostBitEnable := True, bufBitUse := bufDbkCUse u + c_div dbk_size 2\<rparr>;
               room = room - bitram_size;
               ipacdc_size = axi_size 128 width in
      if ipacdc_size \<le> room
      then u\<lparr>useHostIpEnable := True, bufIpAcDcUse := bufBitUse u + bitram_size\<rparr> else u)"

definition SetEncSecondAXIIRAM :: "u32 \<Rightarrow> int \<Rightarrow> int \<Rightarrow> int \<Rightarrow> SecAxiUse \<Rightarrow> SecAxiUse" where
  "SetEncSecondAXIIRAM sr iram_start iram_end width old =
     (if width = 0 then old
      else let u = enc_axi_host iram_start (iram_end - iram_start + 1) width
           in if cpu_is_mx53 sr
              then u\<lparr>useBitEnable := useHostBitEnable u, useIpEnable := useHostIpEnable u,
                     useDbkEnable := useHostDbkEnable u, useMeEnable := useHostMeEnable u\<rparr>
              else u)"

section \<open>The contract of the instance pool\<close>

text \<open>
  The interface that the open and close calls rely on: a pool of \<open>cap\<close> slots with an operation
  that hands out a free one and an operation that gives one back. Its client is any sequence of
  opens and closes, where a close releases a handle that is held.
\<close>

datatype session_op = Open | Close nat

fun sessions ::
    "('p \<Rightarrow> (nat \<times> 'p) option) \<Rightarrow> (nat \<Rightarrow> 'p \<Rightarrow> 'p) \<Rightarrow> session_op list \<Rightarrow> 'p \<Rightarrow> nat list \<Rightarrow> 'p \<times> nat list" where
  "sessions get free [] p hs = (p, hs)"
| "sessions get free (Open # ops) p hs =
     (case get p of None \<Rightarrow> sessions get free ops p hs
                  | Some (i, p') \<Rightarrow> sessions get free ops p' (i # hs))"
| "sessions get free (Close i # ops) p hs =
     (if i \<in> set hs then sessions get free ops (free i p) (remove1 i hs) else sessions get free ops p hs)"

locale slot_pool =
  fixes get :: "'p \<Rightarrow> (nat \<times> 'p) option"
    and free :: "nat \<Rightarrow> 'p \<Rightarrow> 'p"
    and busy :: "'p \<Rightarrow> nat set"
    and inv :: "'p \<Rightarrow> bool"
    and cap :: nat
  assumes get_full: "inv p \<Longrightarrow> get p = None \<longleftrightarrow> busy p = {..<cap}"
    and get_busy: "inv p \<Longrightarrow> get p = Some (i, p') \<Longrightarrow> i \<notin> busy p \<and> busy p' = insert i (busy p)"
    and get_inv: "inv p \<Longrightarrow> get p = Some (i, p') \<Longrightarrow> inv p'"
    and free_busy: "inv p \<Longrightarrow> i \<in> busy p \<Longrightarrow> busy (free i p) = busy p - {i}"
    and free_inv: "inv p \<Longrightarrow> i \<in> busy p \<Longrightarrow> inv (free i p)"
    and busy_range: "inv p \<Longrightarrow> busy p \<subseteq> {..<cap}"
begin

lemma sessions_held:
  assumes "inv p" "distinct hs" "set hs = busy p" "sessions get free ops p hs = (p', hs')"
  shows "inv p' \<and> distinct hs' \<and> set hs' = busy p'"
  using assms
proof (induction ops arbitrary: p hs)
  case (Cons op ops)
  show ?case
  proof (cases op)
    case Open
    show ?thesis
    proof (cases "get p")
      case None
      with Cons.prems Open Cons.IH [of p hs] show ?thesis by simp
    next
      case (Some r)
      obtain i q where r: "r = (i, q)" by (cases r)
      have g: "get p = Some (i, q)" using Some r by simp
      from get_busy [OF Cons.prems(1) g] get_inv [OF Cons.prems(1) g] Cons.prems Open g
      show ?thesis by (intro Cons.IH [of q "i # hs"]) auto
    qed
  next
    case (Close i)
    show ?thesis
    proof (cases "i \<in> set hs")
      case True
      then have b: "i \<in> busy p" using Cons.prems(3) by simp
      from free_busy [OF Cons.prems(1) b] free_inv [OF Cons.prems(1) b] Cons.prems Close True
      show ?thesis by (intro Cons.IH [of "free i p" "remove1 i hs"]) auto
    next
      case False
      with Cons.prems Close Cons.IH [of p hs] show ?thesis by simp
    qed
  qed
qed simp

lemma held_bound:
  assumes "inv p" "distinct hs" "set hs = busy p"
  shows "length hs \<le> cap" "get p = None \<longleftrightarrow> length hs = cap"
proof -
  have card: "length hs = card (busy p)" using distinct_card [OF assms(2)] assms(3) by simp
  have sub: "busy p \<subseteq> {..<cap}" by (rule busy_range [OF assms(1)])
  show "length hs \<le> cap" using card card_mono [OF finite_lessThan sub] by simp
  have "busy p = {..<cap} \<longleftrightarrow> card (busy p) = cap"
    using card_subset_eq [OF finite_lessThan sub] by (metis card_lessThan)
  then show "get p = None \<longleftrightarrow> length hs = cap" using get_full [OF assms(1)] card by simp
qed

end

text \<open>The pool of the library meets it, with the slots in use as the busy ones.\<close>

definition pool_busy :: "'a CodecInst_scheme list \<Rightarrow> nat set" where
  "pool_busy pool = {i. i < length pool \<and> inUse (pool ! i)}"

definition inst_inv :: "'a CodecInst_scheme list \<Rightarrow> bool" where
  "inst_inv pool \<longleftrightarrow> length pool = 4 \<and> (\<forall>i < 4. instIndex (pool ! i) = int i)"

lemma find_free_Some:
  "find_free pool k = Some i \<Longrightarrow> \<exists>j < length pool. i = k + j \<and> \<not> inUse (pool ! j)"
proof (induction pool arbitrary: k)
  case (Cons c cs)
  show ?case
  proof (cases "inUse c")
    case True
    then have "find_free cs (Suc k) = Some i" using Cons.prems by simp
    from Cons.IH [OF this] obtain j where "j < length cs" "i = Suc k + j" "\<not> inUse (cs ! j)" by blast
    then show ?thesis by (intro exI [of _ "Suc j"]) simp
  next
    case False
    with Cons.prems show ?thesis by (intro exI [of _ 0]) simp
  qed
qed simp

lemma find_free_None: "find_free pool k = None \<longleftrightarrow> (\<forall>c \<in> set pool. inUse c)"
  by (induction pool arbitrary: k) auto

interpretation inst: slot_pool "GetCodecInstance blank" FreeCodecInstance pool_busy inst_inv 4 for blank
proof (unfold_locales, goal_cases)
  case (1 p)
  have "(\<forall>c \<in> set p. inUse c) \<longleftrightarrow> (\<forall>i < 4. inUse (p ! i))"
    using 1 all_set_conv_all_nth [of p inUse] by (simp add: inst_inv_def)
  then show ?case
    using 1 find_free_None [of p 0] by (auto simp: GetCodecInstance_def pool_busy_def inst_inv_def split: option.splits)
next
  case (2 p i p')
  then have "i < 4" "\<not> inUse (p ! i)" "p' = p[i := \<lparr>instIndex = instIndex (p ! i), inUse = True, codecMode = 0, \<dots> = blank\<rparr>]"
    using find_free_Some [of p 0 i] by (auto simp: GetCodecInstance_def inst_inv_def split: option.splits)
  then show ?case using 2(1) by (auto simp: pool_busy_def inst_inv_def nth_list_update)
next
  case (3 p i p')
  then have "i < length p" "p' = p[i := \<lparr>instIndex = instIndex (p ! i), inUse = True, codecMode = 0, \<dots> = blank\<rparr>]"
    using find_free_Some [of p 0 i] by (auto simp: GetCodecInstance_def split: option.splits)
  then show ?case using 3(1) by (simp add: inst_inv_def nth_list_update)
next
  case (4 p i)
  then show ?case by (auto simp: FreeCodecInstance_def pool_busy_def nth_list_update)
next
  case (5 p i)
  then show ?case by (auto simp: FreeCodecInstance_def inst_inv_def pool_busy_def nth_list_update)
next
  case (6 p)
  then show ?case by (auto simp: pool_busy_def inst_inv_def)
qed

lemma reset_pool_inv: "inst_inv (reset_pool pool)" "pool_busy (reset_pool pool) = {}"
  by (auto simp: inst_inv_def reset_pool_def pool_busy_def)

section \<open>Properties of the library helpers\<close>

text \<open>
  C29. Codec instances are exclusive: after any sequence of opens and closes on the pool that
  \<^verbatim>\<open>vpu_semaphore_open\<close> set up, the handles held are pairwise different and are exactly the slots
  in use, there are at most four of them, every slot keeps its index, and the next open fails
  exactly when four are held.
\<close>

theorem instances_exclusive:
  assumes "sessions (GetCodecInstance blank) FreeCodecInstance ops (reset_pool pool) [] = (p, hs)"
  shows "distinct hs \<and> length hs \<le> 4 \<and> (\<forall>i. i \<in> set hs \<longleftrightarrow> i < 4 \<and> inUse (p ! i)) \<and>
    (\<forall>i < 4. instIndex (p ! i) = int i) \<and> (GetCodecInstance blank p = None \<longleftrightarrow> length hs = 4)"
proof -
  have h: "inst_inv p" "distinct hs" "set hs = pool_busy p"
    using inst.sessions_held [OF reset_pool_inv(1) _ _ assms] reset_pool_inv(2) [of pool] by auto
  have "\<forall>i. i \<in> set hs \<longleftrightarrow> i < 4 \<and> inUse (p ! i)" using h(1,3) by (auto simp: pool_busy_def inst_inv_def)
  moreover have "\<forall>i < 4. instIndex (p ! i) = int i" using h(1) by (simp add: inst_inv_def)
  ultimately show ?thesis using h(2) inst.held_bound [OF h] by blast
qed

definition blank_pool :: "CodecInst list" where
  "blank_pool = replicate 4 \<lparr>instIndex = 0, inUse = True, codecMode = 0\<rparr>"

theorem instances_exclusive_witness:
  "\<exists>p hs. sessions (GetCodecInstance ()) FreeCodecInstance [Open, Open, Close 0, Open] (reset_pool blank_pool) [] = (p, hs) \<and>
     hs = [0, 1] \<and> (\<forall>i. i \<in> set hs \<longleftrightarrow> i < 4 \<and> inUse (p ! i))"
proof -
  obtain p where p: "sessions (GetCodecInstance ()) FreeCodecInstance [Open, Open, Close 0, Open] (reset_pool blank_pool) [] = (p, [0, 1])"
    by (simp add: GetCodecInstance_def FreeCodecInstance_def reset_pool_def blank_pool_def upt_rec numeral_eq_Suc)
  from instances_exclusive [OF p] p show ?thesis by blast
qed

text \<open>
  The image of a firmware: its bytes as the loader expects them, a header that names the
  processor and gives the number of elements, then the elements.
\<close>

definition bytes16 :: "u16 list \<Rightarrow> u8 list" where
  "bytes16 ws = concat (map (\<lambda>w. [ucast w, ucast (drop_bit 8 w)]) ws)"

definition bytes32 :: "nat \<Rightarrow> u8 list" where
  "bytes32 n = [of_nat n, of_nat (n div 256), of_nat (n div 65536), of_nat (n div 16777216)]"

definition fw_image :: "u8 list \<Rightarrow> u16 list \<Rightarrow> u8 list" where
  "fw_image name code = name @ bytes32 (length code) @ bytes16 code"

lemma le16s_bytes16 [simp]: "le16s (bytes16 ws) = ws"
proof (induction ws)
  case (Cons w ws)
  have "ucast (ucast w :: u8) OR push_bit 8 (ucast (ucast (drop_bit 8 w) :: u8)) = w"
    by (rule bit_word_eqI) (auto simp: bit_simps)
  then show ?case using Cons.IH by (simp add: bytes16_def)
qed (simp add: bytes16_def)

lemma le32_bytes32: "n < 2 ^ 32 \<Longrightarrow> le32 (bytes32 n @ bs) = n"
proof -
  assume n: "n < 2 ^ 32"
  have "n div 16777216 < 256" using n by (simp add: less_mult_imp_div_less)
  moreover have d: "n div 65536 = n div 256 div 256" "n div 16777216 = n div 256 div 256 div 256"
    by (simp_all flip: div_mult2_eq)
  have "n mod 256 + 256 * (n div 256 mod 256) + 65536 * (n div 256 div 256 mod 256) +
      16777216 * (n div 256 div 256 div 256) = n"
    using div_mult_mod_eq [of n 256] div_mult_mod_eq [of "n div 256" 256]
      div_mult_mod_eq [of "n div 256 div 256" 256] by linarith
  ultimately show ?thesis
    by (simp add: le32_def bytes32_def unat_of_nat d)
qed

lemma load_image:
  assumes "length name = 12" "length code \<le> MAX_FW_BINARY_LEN" "length code \<le> length buf"
    and "0 \<in> set name" "strstr (takeWhile (\<lambda>b. b \<noteq> 0) name) (hex2 (unat (mxc_cpu sr)))"
  shows "LoadBitCodeTable sr stack beyond (Some (fw_image name code)) buf =
    \<lparr>fw_ret = RETCODE_SUCCESS, fw_code = code @ drop (length code) buf, fw_size = length code, fw_closes = 1\<rparr>"
proof -
  have l: "length (bytes32 (length code)) = 4" by (simp add: bytes32_def)
  have info: "take 16 (fw_image name code) = name @ bytes32 (length code)"
    using assms(1) l by (simp add: fw_image_def)
  have body: "drop 16 (fw_image name code) = bytes16 code" using assms(1) l by (simp add: fw_image_def)
  have tw: "takeWhile (\<lambda>b. b \<noteq> 0) (name @ zs) = takeWhile (\<lambda>b. b \<noteq> 0) name" for zs
    using assms(4) by (metis (mono_tags, lifting) takeWhile_append1)
  show ?thesis
    using assms l by (simp add: LoadBitCodeTable_def Let_def info body tw le32_bytes32)
qed

lemma dl_loop_stores:
  "dl_loop sw code n (2 * k) =
     map (\<lambda>j. (j, (if sw then swab32 else id) (pair32 (code ! (2 * j)) (code ! (2 * j + 1))))) [k ..< (n + 1) div 2]"
proof (induction "n - 2 * k" arbitrary: k rule: less_induct)
  case less
  show ?case
  proof (cases "2 * k < n")
    case True
    then have k: "[k ..< (n + 1) div 2] = k # [Suc k ..< (n + 1) div 2]" by (simp add: upt_conv_Cons)
    have "dl_loop sw code n (2 * k + 2) = map (\<lambda>j. (j, (if sw then swab32 else id)
        (pair32 (code ! (2 * j)) (code ! (2 * j + 1))))) [Suc k ..< (n + 1) div 2]"
      using less [of "Suc k"] True by simp
    then show ?thesis using True by (subst dl_loop.simps) (simp add: k [simplified] Let_def)
  next
    case False
    then show ?thesis by (subst dl_loop.simps) simp
  qed
qed

abbreviation (input) CODE_BUF_WORDS :: nat where "CODE_BUF_WORDS \<equiv> 64 * 1024 div 4"

lemma stores_below: "(\<forall>w \<in> set (map (\<lambda>k. (k, f k)) [0 ..< m]). fst w < b) \<longleftrightarrow> m \<le> (b :: nat)"
proof
  assume *: "\<forall>w \<in> set (map (\<lambda>k. (k, f k)) [0 ..< m]). fst w < b"
  show "m \<le> b"
  proof (rule ccontr)
    assume "\<not> m \<le> b"
    then have "(b, f b) \<in> set (map (\<lambda>k. (k, f k)) [0 ..< m])" by simp
    with * show False by fastforce
  qed
qed auto

lemma download_image_stores:
  assumes "cpu_is_mx27 sr" "length name = 12" "length code \<le> MAX_FW_BINARY_LEN"
    and "0 \<in> set name" "strstr (takeWhile (\<lambda>b. b \<noteq> 0) name) (hex2 0x27)"
  shows "DownloadBitCodeTable sr stack beyond (Some (fw_image name code)) True True =
    (RETCODE_SUCCESS, code @ replicate (MAX_FW_BINARY_LEN - length code) 0,
     map (\<lambda>k. (k, pair32 (code ! (2 * k)) (if 2 * k + 1 < length code then code ! (2 * k + 1) else 0)))
      [0 ..< (length code + 1) div 2])"
proof -
  define buf where "buf = code @ replicate (MAX_FW_BINARY_LEN - length code) 0"
  have mx: "\<not> cpu_is_mx5x sr" "\<not> cpu_is_mx37 sr" "unat (mxc_cpu sr) = 0x27"
    using assms(1) by (auto simp: cpu_is_mx27_def cpu_is_mx5x_def cpu_is_mx37_def)
  have load: "LoadBitCodeTable sr stack beyond (Some (fw_image name code)) zeroed_code =
      \<lparr>fw_ret = RETCODE_SUCCESS, fw_code = buf, fw_size = length code, fw_closes = 1\<rparr>"
    using load_image [of name code zeroed_code sr stack beyond] assms mx(3) by (simp add: buf_def zeroed_code_lemmas)
  have elem: "buf ! (2 * k) = code ! (2 * k)"
      "buf ! (2 * k + 1) = (if 2 * k + 1 < length code then code ! (2 * k + 1) else 0)"
    if k: "k < (length code + 1) div 2" for k
  proof -
    have c: "2 * k < length code" using k by linarith
    then have "k < 51200" using assms(3) by linarith
    then have "2 * k + 1 < MAX_FW_BINARY_LEN" by linarith
    note c this
    then show "buf ! (2 * k) = code ! (2 * k)"
      "buf ! (2 * k + 1) = (if 2 * k + 1 < length code then code ! (2 * k + 1) else 0)"
      using assms(3) by (simp_all add: buf_def nth_append)
  qed
  have "dl_loop False buf (length code) 0 =
      map (\<lambda>k. (k, pair32 (code ! (2 * k)) (if 2 * k + 1 < length code then code ! (2 * k + 1) else 0)))
        [0 ..< (length code + 1) div 2]"
    using dl_loop_stores [of False buf "length code" 0] elem by simp
  then show ?thesis using load mx unfolding buf_def [symmetric] by (simp add: DownloadBitCodeTable_def)
qed

text \<open>
  C30. On the i.MX27, downloading the image of a firmware that names the processor succeeds, and
  what is stored in the code buffer is the firmware: word \<open>k\<close>, in order, receives the elements
  \<open>2k\<close> (high half) and \<open>2k + 1\<close> (low half, zero after an odd last element), and nothing else is
  stored. The stores stay in the 64 KB of the code buffer exactly when the firmware has at most
  32768 elements, although the loader accepts 102400.
\<close>

theorem download_image:
  assumes "cpu_is_mx27 sr" "length name = 12" "length code \<le> MAX_FW_BINARY_LEN"
    and "0 \<in> set name" "strstr (takeWhile (\<lambda>b. b \<noteq> 0) name) (hex2 0x27)"
  shows "\<exists>buf stores.
    DownloadBitCodeTable sr stack beyond (Some (fw_image name code)) True True = (RETCODE_SUCCESS, buf, stores) \<and>
    stores = map (\<lambda>k. (k, pair32 (code ! (2 * k)) (if 2 * k + 1 < length code then code ! (2 * k + 1) else 0)))
      [0 ..< (length code + 1) div 2] \<and>
    ((\<forall>w \<in> set stores. fst w < CODE_BUF_WORDS) \<longleftrightarrow> length code \<le> 32768)"
proof -
  let ?st = "map (\<lambda>k. (k, pair32 (code ! (2 * k)) (if 2 * k + 1 < length code then code ! (2 * k + 1) else 0)))
      [0 ..< (length code + 1) div 2]"
  have "(\<forall>w \<in> set ?st. fst w < CODE_BUF_WORDS) \<longleftrightarrow> length code \<le> 32768"
    unfolding stores_below by (rule iffI; simp; linarith)
  then show ?thesis using download_image_stores [OF assms, of stack beyond] by blast
qed

theorem download_image_witness:
  "\<exists>buf stores. DownloadBitCodeTable 0x27020 [] [] (Some (fw_image [0x32, 0x37, 0,0,0,0,0,0,0,0,0,0] [0x1234, 0x5678, 0x9abc])) True True
     = (RETCODE_SUCCESS, buf, stores) \<and> stores = [(0, 0x12345678), (1, 0x9abc0000)]"
proof -
  have h: "hex2 0x27 = [0x32, 0x37]" by (simp add: hex2_def hex_str.simps hex_digit_def)
  have p: "pair32 0x1234 0x5678 = 0x12345678" "pair32 0x9abc 0 = 0x9abc0000" by (simp_all add: pair32_def)
  show ?thesis
    using download_image [of "0x27020" "[0x32, 0x37, 0,0,0,0,0,0,0,0,0,0]" "[0x1234, 0x5678, 0x9abc]" "[]" "[]"]
    by (simp add: cpu_is_mx27_def mxc_cpu_def h p upt_rec)
qed

text \<open>
  What a unit of the codec uses in the internal RAM, in the order the code lays the units out:
  \<open>laid_out lo hi rs\<close> says that the regions \<open>rs\<close> follow each other without overlap between \<open>lo\<close>
  and \<open>hi\<close>.
\<close>

fun laid_out :: "int \<Rightarrow> int \<Rightarrow> (int \<times> int) list \<Rightarrow> bool" where
  "laid_out lo hi [] = (lo \<le> hi)"
| "laid_out lo hi ((a, n) # rs) = (lo \<le> a \<and> 0 < n \<and> laid_out (a + n) hi rs)"

definition dec_regions :: "SecAxiUse \<Rightarrow> int \<Rightarrow> int \<Rightarrow> int \<Rightarrow> (int \<times> int) list" where
  "dec_regions u width mode profile =
     (let dbk = axi_size (if mode = VC1_DEC \<and> profile = 2 then 512 else 256) width
      in (if useHostDbkEnable u then [(bufDbkYUse u, dbk div 2), (bufDbkCUse u, dbk div 2)] else []) @
         (if useHostBitEnable u then [(bufBitUse u, axi_size 128 width)] else []) @
         (if useHostIpEnable u then [(bufIpAcDcUse u, axi_size 128 width)] else []) @
         (if useHostOvlEnable u then [(bufOvlUse u, axi_size 80 width)] else []))"

definition enc_regions :: "SecAxiUse \<Rightarrow> int \<Rightarrow> (int \<times> int) list" where
  "enc_regions u width =
     (let dbk = axi_size 128 width
      in (if useHostMeEnable u then [(searchRamAddr u, searchRamSize u)] else []) @
         (if useHostDbkEnable u then [(bufDbkYUse u, dbk div 2), (bufDbkCUse u, dbk div 2)] else []) @
         (if useHostBitEnable u then [(bufBitUse u, axi_size 128 width)] else []) @
         (if useHostIpEnable u then [(bufIpAcDcUse u, axi_size 128 width)] else []))"

lemma align1k_div: "align1k x = (x + 1023) div 1024 * 1024"
proof -
  have "(x + 1023) AND NOT (mask 10) = push_bit 10 (drop_bit 10 (x + 1023))"
    by (rule bit_eqI) (auto simp: bit_simps)
  moreover have "mask 10 = (1023 :: int)" by (simp add: mask_eq_exp_minus_1)
  ultimately show ?thesis by (simp add: align1k_def push_bit_eq_mult drop_bit_eq_div)
qed

lemma align1k_pos: "0 < x \<Longrightarrow> 0 < align1k x" "align1k x mod 2 = 0"
  unfolding align1k_div by (auto simp: pos_imp_zdiv_pos_iff mod_mult_eq mult.assoc [of _ 512 2, symmetric] simp del: mult_numeral_left_semiring_numeral)

lemma axi_size_ok:
  assumes "16 \<le> width" "width < 2 ^ 22" "16 \<le> f" "f \<le> 512"
  shows "0 < axi_size f width" "axi_size f width mod 2 = 0"
proof -
  have "f * width \<le> 512 * width" using assms by (intro mult_right_mono) simp_all
  then have "f * width < 2 ^ 31" using assms(2) by simp
  moreover have "16 \<le> f * width" using mult_mono [of 16 f 1 width] assms by simp
  ultimately have "0 < c_div (s32 (f * width)) 16" by (simp add: pos_imp_zdiv_pos_iff)
  then show "0 < axi_size f width" "axi_size f width mod 2 = 0" by (simp_all add: axi_size_def align1k_pos)
qed

lemma even_pos: "x mod 2 = 0 \<Longrightarrow> 0 < x \<Longrightarrow> \<exists>k > 0. x = 2 * (k :: int)"
  by presburger

lemma dec_axi_laid_out:
  assumes "16 \<le> width" "width < 2 ^ 22" "0 \<le> room"
  shows "laid_out start (start + room) (dec_regions (dec_axi_host start room width mode profile) width mode profile)"
proof -
  let ?d = "axi_size (if mode = VC1_DEC \<and> profile = 2 then 512 else 256) width"
  have "0 < ?d" "?d mod 2 = 0" using axi_size_ok [OF assms(1,2)] by (simp_all split: if_splits)
  from even_pos [OF this(2,1)] obtain k where k: "0 < k" and d: "?d = 2 * k" by blast
  have b: "0 < axi_size 128 width" "0 < axi_size 80 width" using axi_size_ok(1) [OF assms(1,2)] by simp_all
  show ?thesis
    using k b assms(3) unfolding dec_axi_host_def dec_regions_def Let_def d by (auto simp: sec_zero_def)
qed

lemma enc_axi_laid_out:
  assumes "16 \<le> width" "width < 2 ^ 22" "0 \<le> room"
  shows "laid_out start (start + room) (enc_regions (enc_axi_host start room width) width)"
proof -
  have "0 < axi_size 128 width" "axi_size 128 width mod 2 = 0" using axi_size_ok [OF assms(1,2)] by simp_all
  from even_pos [OF this(2,1)] obtain k where k: "0 < k" and d: "axi_size 128 width = 2 * k" by blast
  have "0 < s32 (width * 36) + 2048" using assms by simp
  then have b: "0 < align1k (s32 (width * 36) + 2048)" by (rule align1k_pos)
  show ?thesis
    using k b assms(3) unfolding enc_axi_host_def enc_regions_def Let_def d by (auto simp: sec_zero_def)
qed

text \<open>
  The internal RAM that the decoder and the encoder assign to their units is laid out without
  overlap inside \<open>[iram_start, iram_end]\<close>, for every width from one macroblock up to the point
  where the 32-bit products would overflow.
\<close>

theorem iram_laid_out:
  assumes "16 \<le> width" "width < 2 ^ 22" "iram_start \<le> iram_end + 1"
  shows "laid_out iram_start (iram_end + 1)
      (dec_regions (SetDecSecondAXIIRAM sr iram_start iram_end width mode profile old) width mode profile) \<and>
    laid_out iram_start (iram_end + 1)
      (enc_regions (SetEncSecondAXIIRAM sr iram_start iram_end width old) width)"
proof -
  have room: "0 \<le> iram_end - iram_start + 1" and e: "iram_start + (iram_end - iram_start + 1) = iram_end + 1"
    using assms(3) by simp_all
  have "width \<noteq> 0" using assms(1) by simp
  then have "dec_regions (SetDecSecondAXIIRAM sr iram_start iram_end width mode profile old) width mode profile =
      dec_regions (dec_axi_host iram_start (iram_end - iram_start + 1) width mode profile) width mode profile"
    "enc_regions (SetEncSecondAXIIRAM sr iram_start iram_end width old) width =
      enc_regions (enc_axi_host iram_start (iram_end - iram_start + 1) width) width"
    by (cases "cpu_is_mx53 sr"; simp add: SetDecSecondAXIIRAM_def SetEncSecondAXIIRAM_def Let_def dec_regions_def enc_regions_def)+
  with dec_axi_laid_out [OF assms(1,2) room, of iram_start mode profile]
    enc_axi_laid_out [OF assms(1,2) room, of iram_start]
  show ?thesis
    unfolding e by simp
qed

theorem iram_laid_out_witness:
  "laid_out 0x1FFE0000 (0x1FFFFFFF + 1)
     (dec_regions (SetDecSecondAXIIRAM 0x53020 0x1FFE0000 0x1FFFFFFF 640 AVC_DEC 0 sec_zero) 640 AVC_DEC 0) \<and>
   useHostIpEnable (SetDecSecondAXIIRAM 0x53020 0x1FFE0000 0x1FFFFFFF 640 AVC_DEC 0 sec_zero)"
proof
  show "laid_out 0x1FFE0000 (0x1FFFFFFF + 1)
     (dec_regions (SetDecSecondAXIIRAM 0x53020 0x1FFE0000 0x1FFFFFFF 640 AVC_DEC 0 sec_zero) 640 AVC_DEC 0)"
    using iram_laid_out [of 640 "0x1FFE0000" "0x1FFFFFFF" "0x53020" AVC_DEC 0 sec_zero] by simp
  show "useHostIpEnable (SetDecSecondAXIIRAM 0x53020 0x1FFE0000 0x1FFFFFFF 640 AVC_DEC 0 sec_zero)"
    by (simp add: SetDecSecondAXIIRAM_def dec_axi_host_def axi_size_def align1k_div sec_zero_def Let_def)
qed

end
