(* ===== verification/Vpu_IO.thy ===== *)
theory Vpu_IO
  imports Driver Vpu_Util "HOL-Library.Monad_Syntax"
begin

unbundle bit_operations_syntax

text \<open>
  The library's access to the device (\<^verbatim>\<open>src/lib/vpu_io.c\<close>, with the semaphore functions of
  \<^verbatim>\<open>vpu_util.c\<close>). The state \<open>vpu_lib\<close> holds the globals of the process and, as \<open>kernel\<close>, the
  state of the driver, which every \<^verbatim>\<open>ioctl\<close> reaches through \<open>vpu_ioctl\<close>. What the operating
  system decides (the file \<^verbatim>\<open>/proc/cpuinfo\<close>, file descriptors, the addresses of mappings, the
  outcome of a lock, the environment of each \<^verbatim>\<open>ioctl\<close>) is \<open>io_env\<close>. An operation returns \<open>None\<close>
  when the process or the kernel accesses memory that is not its own.
\<close>

section \<open>State\<close>

record 'i semaphore_t =
  is_initialized :: bool
  api_lock :: bool
  reg_lock :: bool
  codecInstPool :: "'i CodecInst_scheme list"
  pendingInst :: "nat option"

text \<open>
  \<open>maps\<close> are the live mappings \<open>(file, address, size)\<close>; \<open>fileno\<close> numbers the opens of the device,
  since a mapping keeps its file open after \<^verbatim>\<open>close\<close>. \<open>sem\<close> is the content of the shared
  memory and \<open>vpu_semap\<close> the pointer to it; \<open>umem\<close> are the 32-bit words of the mapped buffers by
  user address.
\<close>

record 'i vpu_lib =
  vpu_fd :: int
  vpu_reg_base :: u32
  vpu_active_num :: int
  system_rev :: u32
  vpu_semap :: u32
  sem :: "'i semaphore_t"
  bit_work_addr :: vpu_mem_desc
  code_buf :: vpu_mem_desc
  para_buf :: vpu_mem_desc
  pic_para_addr :: vpu_mem_desc
  user_data_addr :: vpu_mem_desc
  lib_share_mem :: vpu_mem_desc
  sz_alloc :: u32
  mutex_timeout :: int
  fileno :: nat
  maps :: "(nat \<times> u32 \<times> u32) list"
  kernel :: vpu_state
  n_ioctl :: nat
  n_mmap :: nat
  n_lock :: nat
  n_clock :: nat
  virt_codeBuf :: u32
  virt_paraBuf :: u32
  virt_paraBuf2 :: u32
  umem :: "u32 \<Rightarrow> u32"
  decoded_pictype :: "int list"

text \<open>
  \<open>mmap_res n\<close> is the result of the \<open>n\<close>th \<^verbatim>\<open>mmap\<close>, \<open>lock_ok n\<close> whether the \<open>n\<close>th attempt to
  take a free mutex succeeds, \<open>timeout_env\<close> the value of \<^verbatim>\<open>VPU_MUTEX_TIMEOUT\<close> \<open>sem_size\<close>
  the size of the shared structure, \<open>clock n\<close> the seconds and microseconds of the \<open>n\<close>th
  \<^verbatim>\<open>gettimeofday\<close> and \<open>firmware\<close> the bytes of the firmware file (\<open>fw_stack\<close> and
  \<open>fw_beyond\<close> are the uninitialised bytes of its header, see \<open>LoadBitCodeTable\<close>). A failing \<^verbatim>\<open>copy_to_user\<close> leaves the descriptor of the caller
  as it was.
\<close>

record io_env =
  bitmaps :: bitmap_ops
  ioctl_env :: "nat \<Rightarrow> vpu_env"
  cpuinfo :: "string option"
  open_fd :: "nat \<Rightarrow> int"
  mmap_res :: "nat \<Rightarrow> u32"
  lock_ok :: "nat \<Rightarrow> bool"
  timeout_env :: "int option"
  sem_size :: u32
  clock :: "nat \<Rightarrow> int \<times> int"
  firmware :: "u8 list option"
  fw_stack :: "u8 list"
  fw_beyond :: "u8 list"
  malloc_ok :: bool

abbreviation (input) MAP_FAILED :: u32 where "MAP_FAILED \<equiv> 0xFFFFFFFF"
abbreviation (input) BIT_REG_MARGIN :: u32 where "BIT_REG_MARGIN \<equiv> 0x1000"
abbreviation (input) WORK_BUF_SIZE :: u32 where "WORK_BUF_SIZE \<equiv> 0x20000"
abbreviation (input) CODE_BUF_SIZE :: u32 where "CODE_BUF_SIZE \<equiv> 0x10000"
abbreviation (input) PARA_BUF2_SIZE :: u32 where "PARA_BUF2_SIZE \<equiv> 1728"
abbreviation (input) PARA_BUF_SIZE :: u32 where "PARA_BUF_SIZE \<equiv> 10240"

section \<open>System calls\<close>

text \<open>\<^verbatim>\<open>ioctl\<close> of the C library: a negative result of the driver becomes \<open>-1\<close>.\<close>

definition lib_ioctl :: "io_env \<Rightarrow> ioctl_cmd \<Rightarrow> 'i vpu_lib \<Rightarrow> (int \<times> reply \<times> 'i vpu_lib) option" where
  "lib_ioctl e cmd s =
     (if vpu_fd s < 0 then Some (-1, NoReply, s)
      else do {
        (r, rep, k) \<leftarrow> vpu_ioctl (bitmaps e) (ioctl_env e (n_ioctl s)) cmd (kernel s);
        Some (if r < 0 then -1 else r, rep, s\<lparr>kernel := k, n_ioctl := Suc (n_ioctl s)\<rparr>)
      })"

definition lib_open :: "io_env \<Rightarrow> 'i vpu_lib \<Rightarrow> 'i vpu_lib" where
  "lib_open e s =
     (let fd = open_fd e (fileno s)
      in if fd < 0 then s\<lparr>vpu_fd := fd\<rparr>
         else s\<lparr>vpu_fd := fd, fileno := Suc (fileno s), kernel := vpu_open (kernel s)\<rparr>)"

definition lib_close :: "io_env \<Rightarrow> 'i vpu_lib \<Rightarrow> 'i vpu_lib option" where
  "lib_close e s =
     (if \<exists>m \<in> set (maps s). fst m = fileno s then Some s
      else do { k \<leftarrow> vpu_release (bitmaps e) (kernel s); Some (s\<lparr>kernel := k\<rparr>) })"

definition lib_mmap :: "io_env \<Rightarrow> u32 \<Rightarrow> 'i vpu_lib \<Rightarrow> u32 \<times> 'i vpu_lib" where
  "lib_mmap e n s =
     (let a = mmap_res e (n_mmap s); s = s\<lparr>n_mmap := Suc (n_mmap s)\<rparr>
      in if a = MAP_FAILED then (a, s) else (a, s\<lparr>maps := (fileno s, a, n) # maps s\<rparr>))"

definition lib_munmap :: "u32 \<Rightarrow> u32 \<Rightarrow> 'i vpu_lib \<Rightarrow> 'i vpu_lib" where
  "lib_munmap a n s = s\<lparr>maps := remove1 (fileno s, a, n) (maps s)\<rparr>"

section \<open>Wrappers of the commands\<close>

definition VpuWriteReg :: "io_env \<Rightarrow> u32 \<Rightarrow> u32 \<Rightarrow> 'i vpu_lib \<Rightarrow> 'i vpu_lib option" where
  "VpuWriteReg e addr data s = do { (_, _, s) \<leftarrow> lib_ioctl e (REG_WRITE addr data) s; Some s }"

definition VpuReadReg :: "io_env \<Rightarrow> u32 \<Rightarrow> 'i vpu_lib \<Rightarrow> (u32 \<times> 'i vpu_lib) option" where
  "VpuReadReg e addr s =
     do { (_, rep, s) \<leftarrow> lib_ioctl e (REG_READ addr) s;
          Some (case rep of RegReply _ v \<Rightarrow> v | _ \<Rightarrow> 0, s) }"

definition mem_reply :: "reply \<Rightarrow> vpu_mem_desc \<Rightarrow> vpu_mem_desc" where
  "mem_reply rep buff = (case rep of MemReply m \<Rightarrow> m | _ \<Rightarrow> buff)"

definition IOGetPhyMem' :: "io_env \<Rightarrow> (vpu_mem_desc \<Rightarrow> ioctl_cmd) \<Rightarrow> vpu_mem_desc \<Rightarrow> 'i vpu_lib \<Rightarrow>
    (int \<times> vpu_mem_desc \<times> 'i vpu_lib) option" where
  "IOGetPhyMem' e which buff s =
     do { (r, rep, s) \<leftarrow> lib_ioctl e (which buff) s;
          if r < 0 then Some (-1, buff\<lparr>phy_addr := 0, cpu_addr := 0\<rparr>, s)
          else let buff = mem_reply rep buff
               in Some (0, buff, s\<lparr>sz_alloc := sz_alloc s + mem_size buff\<rparr>) }"

definition IOGetPhyMem :: "io_env \<Rightarrow> vpu_mem_desc \<Rightarrow> 'i vpu_lib \<Rightarrow> (int \<times> vpu_mem_desc \<times> 'i vpu_lib) option" where
  "IOGetPhyMem e = IOGetPhyMem' e PHYMEM_ALLOC"

definition IOGetPhyShareMem :: "io_env \<Rightarrow> vpu_mem_desc \<Rightarrow> 'i vpu_lib \<Rightarrow> (int \<times> vpu_mem_desc \<times> 'i vpu_lib) option" where
  "IOGetPhyShareMem e = IOGetPhyMem' e GET_SHARE_MEM"

text \<open>
  The numbers 9 and 10 of the picture-parameter and user-data commands are
  \<^verbatim>\<open>VPU_IOC_REQ_VSHARE_MEM\<close> and unused in the driver.
\<close>

definition IOGetPhyPicParaMem :: "io_env \<Rightarrow> vpu_mem_desc \<Rightarrow> 'i vpu_lib \<Rightarrow> (int \<times> vpu_mem_desc \<times> 'i vpu_lib) option" where
  "IOGetPhyPicParaMem e = IOGetPhyMem' e REQ_VSHARE_MEM"

definition IOGetPhyUserDataMem :: "io_env \<Rightarrow> vpu_mem_desc \<Rightarrow> 'i vpu_lib \<Rightarrow> (int \<times> vpu_mem_desc \<times> 'i vpu_lib) option" where
  "IOGetPhyUserDataMem e = IOGetPhyMem' e (\<lambda>_. OTHER 10)"

definition IOFreePhyMem' :: "io_env \<Rightarrow> (vpu_mem_desc \<Rightarrow> ioctl_cmd) \<Rightarrow> vpu_mem_desc \<Rightarrow> 'i vpu_lib \<Rightarrow>
    (vpu_mem_desc \<times> 'i vpu_lib) option" where
  "IOFreePhyMem' e which buff s =
     do { s \<leftarrow> (if phy_addr buff \<noteq> 0 then do { (_, _, s) \<leftarrow> lib_ioctl e (which buff) s; Some s } else Some s);
          Some (zero_mem_desc, s\<lparr>sz_alloc := sz_alloc s - mem_size buff\<rparr>) }"

definition IOFreePhyMem :: "io_env \<Rightarrow> vpu_mem_desc \<Rightarrow> 'i vpu_lib \<Rightarrow> (vpu_mem_desc \<times> 'i vpu_lib) option" where
  "IOFreePhyMem e = IOFreePhyMem' e PHYMEM_FREE"

definition IOFreePhyPicParaMem :: "io_env \<Rightarrow> vpu_mem_desc \<Rightarrow> 'i vpu_lib \<Rightarrow> (vpu_mem_desc \<times> 'i vpu_lib) option" where
  "IOFreePhyPicParaMem e = IOFreePhyMem' e REQ_VSHARE_MEM"

definition IOFreePhyUserDataMem :: "io_env \<Rightarrow> vpu_mem_desc \<Rightarrow> 'i vpu_lib \<Rightarrow> (vpu_mem_desc \<times> 'i vpu_lib) option" where
  "IOFreePhyUserDataMem e = IOFreePhyMem' e (\<lambda>_. OTHER 10)"

text \<open>\<^verbatim>\<open>IOGetVirtMem\<close> returns the address as a signed \<^verbatim>\<open>int\<close>.\<close>

definition IOGetVirtMem :: "io_env \<Rightarrow> vpu_mem_desc \<Rightarrow> 'i vpu_lib \<Rightarrow> int \<times> vpu_mem_desc \<times> 'i vpu_lib" where
  "IOGetVirtMem e buff s =
     (case lib_mmap e (mem_size buff) s of
        (va, s) \<Rightarrow> if va = MAP_FAILED then (-1, buff\<lparr>virt_uaddr := 0\<rparr>, s)
                   else (sint va, buff\<lparr>virt_uaddr := va\<rparr>, s))"

definition IOFreeVirtMem :: "vpu_mem_desc \<Rightarrow> 'i vpu_lib \<Rightarrow> vpu_mem_desc \<times> 'i vpu_lib" where
  "IOFreeVirtMem buff s =
     (buff\<lparr>virt_uaddr := 0\<rparr>,
      if virt_uaddr buff \<noteq> 0 then lib_munmap (virt_uaddr buff) (mem_size buff) s else s)"

definition IOWaitForInt :: "io_env \<Rightarrow> int \<Rightarrow> 'i vpu_lib \<Rightarrow> (int \<times> 'i vpu_lib) option" where
  "IOWaitForInt e timeout_in_ms s =
     (if timeout_in_ms < 0 then Some (-1, s)
      else do { (r, _, s) \<leftarrow> lib_ioctl e WAIT4INT s; Some (r, s) })"

definition IOGetIramBase :: "io_env \<Rightarrow> iram_setting \<Rightarrow> 'i vpu_lib \<Rightarrow> (int \<times> iram_setting \<times> 'i vpu_lib) option" where
  "IOGetIramBase e ir s =
     do { (r, rep, s) \<leftarrow> lib_ioctl e IRAM_SETTING s;
          Some (r, case rep of IramReply i \<Rightarrow> i | _ \<Rightarrow> ir, s) }"

definition vl2cc_flush :: "io_env \<Rightarrow> 'i vpu_lib \<Rightarrow> 'i vpu_lib option" where
  "vl2cc_flush e s = do { (_, _, s) \<leftarrow> lib_ioctl e VL2CC_FLUSH s; Some s }"

definition IOClkGateSet :: "io_env \<Rightarrow> bool \<Rightarrow> 'i vpu_lib \<Rightarrow> 'i vpu_lib option" where
  "IOClkGateSet e on s = do { (_, _, s) \<leftarrow> lib_ioctl e CLKGATE_SETTING s; Some s }"

definition IOSysSWReset :: "io_env \<Rightarrow> 'i vpu_lib \<Rightarrow> (int \<times> 'i vpu_lib) option" where
  "IOSysSWReset e s = do { (r, _, s) \<leftarrow> lib_ioctl e SYS_SW_RESET s; Some (r, s) }"

abbreviation (input) "BIT_CUR_PC \<equiv> 0x018 :: u32"
abbreviation (input) "BIT_AXI_SRAM_USE \<equiv> 0x178 :: u32"

definition ResetVpu :: "io_env \<Rightarrow> 'i vpu_lib \<Rightarrow> 'i vpu_lib option" where
  "ResetVpu e s =
     do { (v, s) \<leftarrow> VpuReadReg e BIT_CODE_RESET s;
          s \<leftarrow> VpuWriteReg e BIT_CODE_RESET (v OR 1) s;
          VpuWriteReg e BIT_CODE_RESET (v AND NOT 1) s }"

definition isVpuInitialized :: "io_env \<Rightarrow> 'i vpu_lib \<Rightarrow> (bool \<times> 'i vpu_lib) option" where
  "isVpuInitialized e s =
     do { s \<leftarrow> IOClkGateSet e True s;
          (v, s) \<leftarrow> VpuReadReg e BIT_CUR_PC s;
          s \<leftarrow> IOClkGateSet e False s;
          Some (v \<noteq> 0, s) }"

section \<open>Internal RAM of the i.MX37\<close>

text \<open>
  Rows \<open>(register, size, used)\<close> of \<^verbatim>\<open>use_iram_table\<close>. The second loop of
  \<^verbatim>\<open>get_iram_setting\<close> reads row \<open>i\<close> before it compares \<open>i\<close> with the size of the table: \<open>None\<close>.
\<close>

type_synonym iram_table = "(u32 \<times> u32 \<times> bool) list"

definition use_iram_table :: iram_table where
  "use_iram_table = [(0x19C, 25600, False), (0x1A0, 8000, False), (0x198, 6400, False), (0x190, 6400, False)]"

definition row_size :: "iram_table \<Rightarrow> nat \<Rightarrow> u32" where
  "row_size t i = fst (snd (t ! i))"

fun iram_back :: "iram_table \<Rightarrow> u32 \<Rightarrow> nat \<Rightarrow> nat" where
  "iram_back t room 0 = 0"
| "iram_back t room (Suc i) = (if room > row_size t (Suc i) then iram_back t room i else Suc i)"

function iram_take :: "iram_table \<Rightarrow> u32 \<Rightarrow> nat \<Rightarrow> iram_table option" where
  "iram_take t room i =
     (if length t \<le> i then None
      else if room > row_size t i
      then iram_take (t[i := (fst (t ! i), row_size t i, True)]) (room - row_size t i) (Suc i)
      else Some t)"
  by pat_completeness auto
termination
  by (relation "measure (\<lambda>(t, room, i). length t - i)") auto

declare iram_take.simps [simp del]

definition get_iram_setting :: "iram_setting \<Rightarrow> iram_table \<Rightarrow> (int \<times> iram_table) option" where
  "get_iram_setting ir t =
     (let room = iram_end ir - iram_start ir + 1;
          t = map (\<lambda>(r, n, _). (r, n, False)) t;
          i = length t - 1
      in if room < row_size t i then Some (-1, t)
         else map_option (Pair 0) (iram_take t room (iram_back t room i)))"

fun iram_writes :: "u32 \<Rightarrow> u32 \<Rightarrow> iram_table \<Rightarrow> (u32 \<times> u32) list" where
  "iram_writes start offset [] = []"
| "iram_writes start offset ((r, n, used) # t) =
     (if used then [(r, start + offset)] else []) @ iram_writes start (offset + n) t"

fun write_regs :: "io_env \<Rightarrow> (u32 \<times> u32) list \<Rightarrow> 'i vpu_lib \<Rightarrow> 'i vpu_lib option" where
  "write_regs e [] s = Some s"
| "write_regs e ((a, v) # ws) s = do { s \<leftarrow> VpuWriteReg e a v s; write_regs e ws s }"

definition used_bit :: "iram_table \<Rightarrow> nat \<Rightarrow> u32" where
  "used_bit t i = (if snd (snd (t ! i)) then 1 else 0)"

definition set_iram :: "io_env \<Rightarrow> iram_setting \<Rightarrow> iram_table \<Rightarrow> 'i vpu_lib \<Rightarrow> 'i vpu_lib option" where
  "set_iram e ir t s =
     do { let use_iram_bits = push_bit 3 (used_bit t 1) OR push_bit 2 (used_bit t 0) OR
                push_bit 1 (used_bit t 2) OR used_bit t 3;
          s \<leftarrow> IOClkGateSet e True s;
          s \<leftarrow> VpuWriteReg e BIT_AXI_SRAM_USE use_iram_bits s;
          s \<leftarrow> write_regs e (iram_writes (iram_start ir) 0 t) s;
          IOClkGateSet e False s }"

text \<open>\<open>ir\<close> is the uninitialised local structure.\<close>

definition vpu_setting_iram :: "io_env \<Rightarrow> iram_setting \<Rightarrow> 'i vpu_lib \<Rightarrow> 'i vpu_lib option" where
  "vpu_setting_iram e ir s =
     (if cpu_is_mx37 (system_rev s)
      then do { (_, ir, s) \<leftarrow> IOGetIramBase e ir s;
                (r, t) \<leftarrow> get_iram_setting ir use_iram_table;
                if r \<noteq> -1 then set_iram e ir t s else Some s }
      else Some s)"

section \<open>Processor revision\<close>

text \<open>The text functions of the C library that \<^verbatim>\<open>get_system_rev\<close> uses.\<close>

fun str_find :: "string \<Rightarrow> string \<Rightarrow> string option" where
  "str_find [] needle = (if needle = [] then Some [] else None)"
| "str_find (c # cs) needle =
     (if take (length needle) (c # cs) = needle then Some (c # cs) else str_find cs needle)"

fun str_index :: "string \<Rightarrow> char \<Rightarrow> string option" where
  "str_index [] ch = None"
| "str_index (c # cs) ch = (if c = ch then Some (c # cs) else str_index cs ch)"

definition hex_val :: "char \<Rightarrow> nat option" where
  "hex_val c =
     (let n = of_char c :: nat
      in if 48 \<le> n \<and> n \<le> 57 then Some (n - 48)
         else if 65 \<le> n \<and> n \<le> 70 then Some (n - 55)
         else if 97 \<le> n \<and> n \<le> 102 then Some (n - 87)
         else None)"

fun hex_digits :: "nat \<Rightarrow> string \<Rightarrow> nat" where
  "hex_digits acc [] = acc"
| "hex_digits acc (c # cs) = (case hex_val c of None \<Rightarrow> acc | Some d \<Rightarrow> hex_digits (16 * acc + d) cs)"

definition is_space :: "char \<Rightarrow> bool" where
  "is_space c \<longleftrightarrow> (let n = of_char c :: nat in n = 32 \<or> 9 \<le> n \<and> n \<le> 13)"

definition hex_prefix :: "string \<Rightarrow> string" where
  "hex_prefix cs =
     (case cs of
        z # x # d # ds \<Rightarrow>
          if z = CHR ''0'' \<and> (x = CHR ''x'' \<or> x = CHR ''X'') \<and> hex_val d \<noteq> None then d # ds else cs
      | _ \<Rightarrow> cs)"

definition strtoul16 :: "string \<Rightarrow> u32" where
  "strtoul16 cs =
     (let cs = dropWhile is_space cs;
          neg = (case cs of c # _ \<Rightarrow> c = CHR ''-'' | [] \<Rightarrow> False);
          cs = (case cs of c # ds \<Rightarrow> if c = CHR ''-'' \<or> c = CHR ''+'' then ds else cs | [] \<Rightarrow> cs);
          n = hex_digits 0 (hex_prefix cs)
      in if n < 2 ^ 32 then (if neg then - of_nat n else of_nat n) else 0xFFFFFFFF)"

definition get_system_rev :: "io_env \<Rightarrow> 'i vpu_lib \<Rightarrow> int \<times> 'i vpu_lib" where
  "get_system_rev e s =
     (case cpuinfo e of
        None \<Rightarrow> (-1, s)
      | Some txt \<Rightarrow>
          if txt = [] \<or> 1024 \<le> length txt then (-1, s)
          else
            let buf = takeWhile (\<lambda>c. of_char c \<noteq> (0 :: nat)) txt;
                (ret, s) =
                  (case str_find buf ''Revision'' of
                     None \<Rightarrow> (-1, s)
                   | Some tmp \<Rightarrow>
                       (case str_index tmp (CHR '':'') of
                          None \<Rightarrow> (-1, s)
                        | Some rev' \<Rightarrow> (0, s\<lparr>system_rev := strtoul16 (tl rev')\<rparr>)))
            in if drop_bit 12 (system_rev s) \<noteq> 0x27 then (0, s\<lparr>system_rev := 0x27020\<rparr>) else (ret, s))"

section \<open>The shared structure and its locks\<close>

text \<open>
  \<^verbatim>\<open>vpu_semaphore_open\<close> returns the pointer, \<open>0\<close> for \<^verbatim>\<open>NULL\<close>. It only tests for
  \<^verbatim>\<open>NULL\<close>, while \<^verbatim>\<open>IOGetVirtMem\<close> reports a failure as \<open>-1\<close>: the initialisation of the locks
  then faults.
\<close>

definition vpu_semaphore_open :: "io_env \<Rightarrow> 'i vpu_lib \<Rightarrow> (u32 \<times> 'i vpu_lib) option" where
  "vpu_semaphore_open e s =
     do { let m = (lib_share_mem s)\<lparr>mem_size := sem_size e\<rparr>;
          (r, m, s) \<leftarrow> IOGetPhyShareMem e m s;
          if r \<noteq> 0 then Some (0, s\<lparr>lib_share_mem := m\<rparr>)
          else case IOGetVirtMem e m s of
            (va, m, s) \<Rightarrow>
              if va = 0 then Some (0, s\<lparr>lib_share_mem := m\<rparr>)
              else if va = -1 then None
              else Some (of_int va, s\<lparr>lib_share_mem := m,
                     sem := (sem s)\<lparr>api_lock := False, reg_lock := False, is_initialized := True,
                       codecInstPool := reset_pool (codecInstPool (sem s))\<rparr>,
                     mutex_timeout := (case timeout_env e of None \<Rightarrow> 10 | Some t \<Rightarrow> t)\<rparr>) }"

datatype vpu_mutex = API_MUTEX | REG_MUTEX

definition semaphore_post :: "vpu_mutex \<Rightarrow> 'i vpu_lib \<Rightarrow> 'i vpu_lib" where
  "semaphore_post m s =
     (case m of API_MUTEX \<Rightarrow> s\<lparr>sem := (sem s)\<lparr>api_lock := False\<rparr>\<rparr>
              | REG_MUTEX \<Rightarrow> s\<lparr>sem := (sem s)\<lparr>reg_lock := False\<rparr>\<rparr>)"

text \<open>A mutex that is held stays so until the timeout: nobody else runs in the process.\<close>

definition semaphore_wait :: "io_env \<Rightarrow> vpu_mutex \<Rightarrow> 'i vpu_lib \<Rightarrow> bool \<times> 'i vpu_lib" where
  "semaphore_wait e m s =
     (let held = (case m of API_MUTEX \<Rightarrow> api_lock (sem s) | REG_MUTEX \<Rightarrow> reg_lock (sem s));
          ok = lock_ok e (n_lock s);
          s = s\<lparr>n_lock := Suc (n_lock s)\<rparr>
      in if held \<or> \<not> ok then (False, s)
         else (True, case m of API_MUTEX \<Rightarrow> s\<lparr>sem := (sem s)\<lparr>api_lock := True\<rparr>\<rparr>
                             | REG_MUTEX \<Rightarrow> s\<lparr>sem := (sem s)\<lparr>reg_lock := True\<rparr>\<rparr>))"

definition vpu_semaphore_close :: "io_env \<Rightarrow> 'i vpu_lib \<Rightarrow> 'i vpu_lib" where
  "vpu_semaphore_close e s = lib_munmap (vpu_semap s) (sem_size e) s"

definition LockVpu :: "io_env \<Rightarrow> 'i vpu_lib \<Rightarrow> (bool \<times> 'i vpu_lib) option" where
  "LockVpu e s =
     (case semaphore_wait e API_MUTEX s of
        (ok, s) \<Rightarrow> if \<not> ok then Some (False, s) else do { s \<leftarrow> IOClkGateSet e True s; Some (True, s) })"

definition UnlockVpu :: "io_env \<Rightarrow> 'i vpu_lib \<Rightarrow> 'i vpu_lib option" where
  "UnlockVpu e s = IOClkGateSet e False (semaphore_post API_MUTEX s)"

definition LockVpuReg :: "io_env \<Rightarrow> 'i vpu_lib \<Rightarrow> (bool \<times> 'i vpu_lib) option" where
  "LockVpuReg e s =
     (case semaphore_wait e REG_MUTEX s of
        (ok, s) \<Rightarrow> if \<not> ok then Some (False, s) else do { s \<leftarrow> IOClkGateSet e True s; Some (True, s) })"

definition UnlockVpuReg :: "io_env \<Rightarrow> 'i vpu_lib \<Rightarrow> 'i vpu_lib option" where
  "UnlockVpuReg e s = IOClkGateSet e False (semaphore_post REG_MUTEX s)"

section \<open>Opening and closing the system\<close>

text \<open>\<open>unmap_all\<close> are the five calls of \<^verbatim>\<open>IOFreeVirtMem\<close> and the \<^verbatim>\<open>munmap\<close> of the registers.\<close>

definition unmap_all :: "'i vpu_lib \<Rightarrow> 'i vpu_lib" where
  "unmap_all s =
     (let (m, s) = IOFreeVirtMem (bit_work_addr s) s; s = s\<lparr>bit_work_addr := m\<rparr>;
          (m, s) = IOFreeVirtMem (code_buf s) s; s = s\<lparr>code_buf := m\<rparr>;
          (m, s) = IOFreeVirtMem (para_buf s) s; s = s\<lparr>para_buf := m\<rparr>;
          (m, s) = IOFreeVirtMem (pic_para_addr s) s; s = s\<lparr>pic_para_addr := m\<rparr>;
          (m, s) = IOFreeVirtMem (user_data_addr s) s; s = s\<lparr>user_data_addr := m\<rparr>
      in lib_munmap (vpu_reg_base s) BIT_REG_MARGIN s)"

definition IOSystemShutdown :: "io_env \<Rightarrow> 'i vpu_lib \<Rightarrow> (int \<times> 'i vpu_lib) option" where
  "IOSystemShutdown e s =
     (if vpu_fd s = -1 then Some (0, s)
      else if vpu_active_num s > 1 then Some (0, s\<lparr>vpu_active_num := vpu_active_num s - 1\<rparr>)
      else if vpu_active_num s = 0 then Some (0, s)
      else case semaphore_wait e API_MUTEX s of
        (ok, s) \<Rightarrow>
          if \<not> ok then Some (-1, s)
          else do {
            let s = unmap_all s;
            let s = s\<lparr>vpu_active_num := vpu_active_num s - 1\<rparr>;
            let s = vpu_semaphore_close e (semaphore_post API_MUTEX s);
            if vpu_fd s \<ge> 0 then do { s \<leftarrow> lib_close e s; Some (0, s\<lparr>vpu_fd := -1\<rparr>) }
            else Some (0, s) })"

definition init_err :: "io_env \<Rightarrow> 'i vpu_lib \<Rightarrow> (int \<times> 'i vpu_lib) option" where
  "init_err e s = do { s \<leftarrow> UnlockVpu e s; (_, s) \<leftarrow> IOSystemShutdown e s; Some (-1, s) }"

definition init_err2 :: "io_env \<Rightarrow> 'i vpu_lib \<Rightarrow> (int \<times> 'i vpu_lib) option" where
  "init_err2 e s =
     (case IOFreeVirtMem (bit_work_addr s) s of
        (m, s) \<Rightarrow> do { (m, s) \<leftarrow> IOFreePhyMem e m s; init_err e (s\<lparr>bit_work_addr := m\<rparr>) })"

definition init_err3 :: "io_env \<Rightarrow> 'i vpu_lib \<Rightarrow> (int \<times> 'i vpu_lib) option" where
  "init_err3 e s =
     (case IOFreeVirtMem (code_buf s) s of
        (m, s) \<Rightarrow> do { (m, s) \<leftarrow> IOFreePhyMem e m s; init_err2 e (s\<lparr>code_buf := m\<rparr>) })"

definition init_para :: "io_env \<Rightarrow> 'i vpu_lib \<Rightarrow> (int \<times> 'i vpu_lib) option" where
  "init_para e s =
     do { (r, m, s) \<leftarrow> IOGetPhyMem e ((para_buf s)\<lparr>mem_size := PARA_BUF2_SIZE + PARA_BUF_SIZE\<rparr>) s;
          let s = s\<lparr>para_buf := m\<rparr>;
          if r < 0 then init_err3 e s
          else case IOGetVirtMem e m s of
            (va, m, s) \<Rightarrow>
              let s = s\<lparr>para_buf := m\<rparr>
              in if va \<le> 0 then init_err3 e s else do { s \<leftarrow> UnlockVpu e s; Some (0, s) } }"

definition init_code :: "io_env \<Rightarrow> 'i vpu_lib \<Rightarrow> (int \<times> 'i vpu_lib) option" where
  "init_code e s =
     do { (r, m, s) \<leftarrow> IOGetPhyMem e ((code_buf s)\<lparr>mem_size := CODE_BUF_SIZE\<rparr>) s;
          let s = s\<lparr>code_buf := m\<rparr>;
          if r < 0 then init_err2 e s
          else case IOGetVirtMem e m s of
            (va, m, s) \<Rightarrow>
              let s = s\<lparr>code_buf := m\<rparr>
              in if va \<le> 0 then init_err2 e s else init_para e s }"

definition init_work :: "io_env \<Rightarrow> 'i vpu_lib \<Rightarrow> (int \<times> 'i vpu_lib) option" where
  "init_work e s =
     do { (r, m, s) \<leftarrow> IOGetPhyMem' e GET_WORK_ADDR ((bit_work_addr s)\<lparr>mem_size := WORK_BUF_SIZE\<rparr>) s;
          let s = s\<lparr>bit_work_addr := m\<rparr>;
          if r < 0 then init_err e s
          else case IOGetVirtMem e m s of
            (va, m, s) \<Rightarrow>
              let s = s\<lparr>bit_work_addr := m\<rparr>
              in if va \<le> 0 then init_err e s else init_code e s }"

definition close_fd :: "io_env \<Rightarrow> 'i vpu_lib \<Rightarrow> 'i vpu_lib option" where
  "close_fd e s = do { s \<leftarrow> lib_close e s; Some (s\<lparr>vpu_fd := -1\<rparr>) }"

definition init_regs :: "io_env \<Rightarrow> 'i vpu_lib \<Rightarrow> (int \<times> 'i vpu_lib) option" where
  "init_regs e s =
     (case semaphore_wait e API_MUTEX s of
        (ok, s) \<Rightarrow>
          if \<not> ok then do { s \<leftarrow> close_fd e s; Some (-1, s) }
          else case lib_mmap e BIT_REG_MARGIN s of
            (a, s) \<Rightarrow>
              let s = s\<lparr>vpu_reg_base := a\<rparr>
              in if a = MAP_FAILED
                 then do { s \<leftarrow> close_fd e s; Some (-1, semaphore_post API_MUTEX s) }
                 else do { s \<leftarrow> IOClkGateSet e True (s\<lparr>vpu_active_num := vpu_active_num s + 1\<rparr>);
                           init_work e s })"

definition IOSystemInit :: "io_env \<Rightarrow> 'i vpu_lib \<Rightarrow> (int \<times> 'i vpu_lib) option" where
  "IOSystemInit e s =
     (if vpu_fd s > 0 then Some (0, s\<lparr>vpu_active_num := vpu_active_num s + 1\<rparr>)
      else case get_system_rev e s of
        (ret, s) \<Rightarrow>
          if ret = -1 then Some (-1, s)
          else let s = lib_open e s
               in if vpu_fd s < 0 then Some (-1, s)
                  else do {
                    (p, s) \<leftarrow> vpu_semaphore_open e s;
                    let s = s\<lparr>vpu_semap := p\<rparr>;
                    if p = 0 then do { s \<leftarrow> close_fd e s; Some (-1, s) }
                    else init_regs e s })"

end
