(* ===== verification/Vpu_IO_Safety.thy ===== *)
theory Vpu_IO_Safety
  imports Driver_Safety Vpu_IO "HOL-Library.Multiset"
begin

unbundle bit_operations_syntax

text \<open>
  The resources of the library's access layer: what \<^verbatim>\<open>IOSystemInit\<close> and \<^verbatim>\<open>IOSystemShutdown\<close>
  open, map and release on every path, over any driver state and any decisions of the operating
  system, and what their error paths do to the buffers of the driver.
\<close>

section \<open>What the calls leave alone\<close>

lemma lib_ioctl_frame:
  assumes "lib_ioctl e cmd s = Some (r, rep, s')"
  shows "\<exists>k n. s' = s\<lparr>kernel := k, n_ioctl := n\<rparr>"
proof (cases "vpu_fd s < 0")
  case True
  then have "s' = s\<lparr>kernel := kernel s, n_ioctl := n_ioctl s\<rparr>" using assms by (simp add: lib_ioctl_def)
  then show ?thesis by blast
next
  case False
  then show ?thesis using assms by (auto simp: lib_ioctl_def bind_eq_Some_conv split: if_splits)
qed

lemma IOClkGateSet_frame:
  assumes "IOClkGateSet e b s = Some s'"
  shows "\<exists>k n. s' = s\<lparr>kernel := k, n_ioctl := n\<rparr>"
  using assms lib_ioctl_frame by (fastforce simp: IOClkGateSet_def bind_eq_Some_conv)

lemma UnlockVpu_frame:
  assumes "UnlockVpu e s = Some s'"
  shows "\<exists>k n. s' = s\<lparr>sem := (sem s)\<lparr>api_lock := False\<rparr>, kernel := k, n_ioctl := n\<rparr>"
  using IOClkGateSet_frame [of e False "semaphore_post API_MUTEX s" s'] assms
  by (simp add: UnlockVpu_def semaphore_post_def)

lemma IOGetPhyMem'_frame:
  assumes "IOGetPhyMem' e which buff s = Some (r, m, s')"
  shows "(\<exists>k n z. s' = s\<lparr>kernel := k, n_ioctl := n, sz_alloc := z\<rparr>) \<and> (r = 0 \<or> r = -1)"
proof -
  obtain r' rep t where t: "lib_ioctl e (which buff) s = Some (r', rep, t)"
    and rest: "(if r' < 0 then Some (-1, buff\<lparr>phy_addr := 0, cpu_addr := 0\<rparr>, t)
          else let buff = mem_reply rep buff in Some (0, buff, t\<lparr>sz_alloc := sz_alloc t + mem_size buff\<rparr>)) = Some (r, m, s')"
    using assms unfolding IOGetPhyMem'_def bind_eq_Some_conv by auto
  from lib_ioctl_frame [OF t] obtain k n where k: "t = s\<lparr>kernel := k, n_ioctl := n\<rparr>" by blast
  show ?thesis
  proof (cases "r' < 0")
    case True
    then have "r = -1" "s' = s\<lparr>kernel := k, n_ioctl := n\<rparr>" using rest k by simp_all
    moreover have "s\<lparr>kernel := k, n_ioctl := n\<rparr> = s\<lparr>kernel := k, n_ioctl := n, sz_alloc := sz_alloc s\<rparr>" by simp
    ultimately show ?thesis by metis
  next
    case False
    then show ?thesis using rest k by (auto simp: Let_def)
  qed
qed

lemma IOFreePhyMem'_frame:
  assumes "IOFreePhyMem' e which buff s = Some (m, s')"
  shows "(\<exists>k n z. s' = s\<lparr>kernel := k, n_ioctl := n, sz_alloc := z\<rparr>) \<and> m = zero_mem_desc"
proof (cases "phy_addr buff = 0")
  case True
  then have "s' = s\<lparr>kernel := kernel s, n_ioctl := n_ioctl s, sz_alloc := sz_alloc s - mem_size buff\<rparr>"
    "m = zero_mem_desc" using assms by (simp_all add: IOFreePhyMem'_def)
  then show ?thesis by blast
next
  case False
  then obtain r' rep t where t: "lib_ioctl e (which buff) s = Some (r', rep, t)"
    and s': "m = zero_mem_desc" "s' = t\<lparr>sz_alloc := sz_alloc t - mem_size buff\<rparr>"
    using assms by (auto simp: IOFreePhyMem'_def bind_eq_Some_conv)
  from lib_ioctl_frame [OF t] s' show ?thesis by auto
qed

lemma lib_close_frame:
  assumes "lib_close e s = Some s'"
  shows "\<exists>k. s' = s\<lparr>kernel := k\<rparr>"
proof (cases "\<exists>m \<in> set (maps s). fst m = fileno s")
  case True
  then have "s' = s\<lparr>kernel := kernel s\<rparr>" using assms by (simp add: lib_close_def)
  then show ?thesis by blast
next
  case False
  then show ?thesis using assms by (auto simp: lib_close_def bind_eq_Some_conv split: if_splits)
qed

section \<open>Open and closed states\<close>

text \<open>
  \<open>io_closed\<close>: the process has nothing open. \<open>io_open\<close>: the device is open for one user, and the
  mappings are exactly the shared structure, the registers and the buffers that have an address.
\<close>

definition mapped :: "nat \<Rightarrow> vpu_mem_desc \<Rightarrow> (nat \<times> u32 \<times> u32) multiset" where
  "mapped f m = (if virt_uaddr m = 0 then {#} else {#(f, virt_uaddr m, mem_size m)#})"

definition unmapped_bufs :: "'i vpu_lib \<Rightarrow> bool" where
  "unmapped_bufs s \<longleftrightarrow> virt_uaddr (bit_work_addr s) = 0 \<and> virt_uaddr (code_buf s) = 0 \<and>
     virt_uaddr (para_buf s) = 0 \<and> virt_uaddr (pic_para_addr s) = 0 \<and> virt_uaddr (user_data_addr s) = 0"

definition io_closed :: "'i vpu_lib \<Rightarrow> bool" where
  "io_closed s \<longleftrightarrow> vpu_fd s = -1 \<and> vpu_active_num s = 0 \<and> maps s = [] \<and> unmapped_bufs s"

definition io_open :: "io_env \<Rightarrow> 'i vpu_lib \<Rightarrow> bool" where
  "io_open e s \<longleftrightarrow> 0 \<le> vpu_fd s \<and> vpu_active_num s = 1 \<and>
     virt_uaddr (pic_para_addr s) = 0 \<and> virt_uaddr (user_data_addr s) = 0 \<and>
     mset (maps s) = {#(fileno s, vpu_semap s, sem_size e), (fileno s, vpu_reg_base s, BIT_REG_MARGIN)#} +
       mapped (fileno s) (bit_work_addr s) + mapped (fileno s) (code_buf s) + mapped (fileno s) (para_buf s)"

definition unmap1 :: "nat \<Rightarrow> vpu_mem_desc \<Rightarrow> (nat \<times> u32 \<times> u32) list \<Rightarrow> (nat \<times> u32 \<times> u32) list" where
  "unmap1 f m ms = (if virt_uaddr m = 0 then ms else remove1 (f, virt_uaddr m, mem_size m) ms)"

lemma mset_unmap1 [simp]: "mset (unmap1 f m ms) = mset ms - mapped f m"
  by (simp add: unmap1_def mapped_def)

lemma IOFreeVirtMem_maps:
  "IOFreeVirtMem m s = (m\<lparr>virt_uaddr := 0\<rparr>, s\<lparr>maps := unmap1 (fileno s) m (maps s)\<rparr>)"
  by (simp add: IOFreeVirtMem_def lib_munmap_def unmap1_def)

lemma unmap_all_maps:
  "\<exists>ms. unmap_all s = s\<lparr>bit_work_addr := (bit_work_addr s)\<lparr>virt_uaddr := 0\<rparr>, code_buf := (code_buf s)\<lparr>virt_uaddr := 0\<rparr>,
      para_buf := (para_buf s)\<lparr>virt_uaddr := 0\<rparr>, pic_para_addr := (pic_para_addr s)\<lparr>virt_uaddr := 0\<rparr>,
      user_data_addr := (user_data_addr s)\<lparr>virt_uaddr := 0\<rparr>, maps := ms\<rparr> \<and>
    mset ms = mset (maps s) - mapped (fileno s) (bit_work_addr s) - mapped (fileno s) (code_buf s) -
      mapped (fileno s) (para_buf s) - mapped (fileno s) (pic_para_addr s) - mapped (fileno s) (user_data_addr s) -
      {#(fileno s, vpu_reg_base s, BIT_REG_MARGIN)#}"
  by (rule exI, rule conjI, simp add: unmap_all_def IOFreeVirtMem_maps lib_munmap_def) simp

lemma shutdown_open:
  assumes "io_open e s" "\<not> api_lock (sem s)" "lock_ok e (n_lock s)" "IOSystemShutdown e s = Some (r, s')"
  shows "r = 0 \<and> io_closed s' \<and> \<not> api_lock (sem s')"
proof -
  have o: "vpu_fd s \<noteq> -1" "vpu_active_num s = 1" "0 \<le> vpu_fd s" "mapped (fileno s) (pic_para_addr s) = {#}"
    "mapped (fileno s) (user_data_addr s) = {#}"
    using assms(1) by (simp_all add: io_open_def mapped_def)
  let ?l = "s\<lparr>n_lock := Suc (n_lock s), sem := (sem s)\<lparr>api_lock := True\<rparr>\<rparr>"
  obtain ms where u: "unmap_all ?l = ?l\<lparr>bit_work_addr := (bit_work_addr s)\<lparr>virt_uaddr := 0\<rparr>, code_buf := (code_buf s)\<lparr>virt_uaddr := 0\<rparr>,
      para_buf := (para_buf s)\<lparr>virt_uaddr := 0\<rparr>, pic_para_addr := (pic_para_addr s)\<lparr>virt_uaddr := 0\<rparr>,
      user_data_addr := (user_data_addr s)\<lparr>virt_uaddr := 0\<rparr>, maps := ms\<rparr>"
    and ms: "mset ms = {#(fileno s, vpu_semap s, sem_size e)#}"
    using unmap_all_maps [of ?l] assms(1) o(4,5) by (auto simp: io_open_def)
  have "remove1 (fileno s, vpu_semap s, sem_size e) ms = []"
    using arg_cong [OF ms, of "\<lambda>m. m - {#(fileno s, vpu_semap s, sem_size e)#}"] by (simp flip: mset_remove1)
  moreover obtain t where t: "lib_close e ((unmap_all ?l)\<lparr>vpu_active_num := 0, sem := (sem s)\<lparr>api_lock := False\<rparr>,
      maps := remove1 (fileno s, vpu_semap s, sem_size e) ms\<rparr>) = Some t" "r = 0" "s' = t\<lparr>vpu_fd := -1\<rparr>"
    using assms(2,3,4) o by (auto simp: IOSystemShutdown_def semaphore_wait_def semaphore_post_def vpu_semaphore_close_def
        lib_munmap_def u Let_def bind_eq_Some_conv)
  ultimately show ?thesis
    using lib_close_frame [OF t(1)] by (auto simp: u io_closed_def unmapped_bufs_def)
qed

lemma shutdown_returns:
  assumes "io_open e s" "\<not> api_lock (sem s)" "lock_ok e (n_lock s)" "driver_inv (bitmaps e) (kernel s)"
  shows "\<exists>s'. IOSystemShutdown e s = Some (0, s')"
proof -
  obtain k where "vpu_release (bitmaps e) (kernel s) = Some k" using assms(4) release_returns unfolding driver_inv_def by blast
  then show ?thesis
    using assms(1-3)
    by (simp add: IOSystemShutdown_def io_open_def semaphore_wait_def semaphore_post_def vpu_semaphore_close_def
        lib_munmap_def unmap_all_def IOFreeVirtMem_maps lib_close_def Let_def)
qed

lemma init_err_closes:
  assumes "io_open e s" "\<forall>n. lock_ok e n" "init_err e s = Some (r, s')"
  shows "r = -1 \<and> io_closed s' \<and> \<not> api_lock (sem s')"
proof -
  obtain t r' where t: "UnlockVpu e s = Some t" "IOSystemShutdown e t = Some (r', s')" "r = -1"
    using assms(3) by (auto simp: init_err_def bind_eq_Some_conv)
  obtain k n where "t = s\<lparr>sem := (sem s)\<lparr>api_lock := False\<rparr>, kernel := k, n_ioctl := n\<rparr>"
    using UnlockVpu_frame [OF t(1)] by blast
  then have "io_open e t" "\<not> api_lock (sem t)" using assms(1) by (simp_all add: io_open_def)
  then show ?thesis using shutdown_open [OF _ _ _ t(2)] assms(2) t(3) by blast
qed

lemma drop_mapping: "(a + m + b + c :: 'a multiset) - m = a + {#} + b + c" "(a + b + m + c :: 'a multiset) - m = a + b + {#} + c"
  by (simp_all add: add.assoc add.left_commute [of m])

lemma mapped_zero [simp]: "mapped f zero_mem_desc = {#}"
  by (simp add: mapped_def zero_mem_desc_def)

lemma init_err2_closes:
  assumes "io_open e s" "\<forall>n. lock_ok e n" "init_err2 e s = Some (r, s')"
  shows "r = -1 \<and> io_closed s' \<and> \<not> api_lock (sem s')"
proof -
  let ?t = "s\<lparr>maps := unmap1 (fileno s) (bit_work_addr s) (maps s)\<rparr>"
  obtain m t where t: "IOFreePhyMem e ((bit_work_addr s)\<lparr>virt_uaddr := 0\<rparr>) ?t = Some (m, t)"
    "init_err e (t\<lparr>bit_work_addr := m\<rparr>) = Some (r, s')"
    using assms(3) by (auto simp: init_err2_def IOFreeVirtMem_maps bind_eq_Some_conv)
  obtain k n z where "t = ?t\<lparr>kernel := k, n_ioctl := n, sz_alloc := z\<rparr>" "m = zero_mem_desc"
    using IOFreePhyMem'_frame [OF t(1) [unfolded IOFreePhyMem_def]] by blast
  then have "io_open e (t\<lparr>bit_work_addr := m\<rparr>)" using assms(1) by (simp add: io_open_def drop_mapping)
  then show ?thesis by (rule init_err_closes [OF _ assms(2) t(2)])
qed

lemma init_err3_closes:
  assumes "io_open e s" "\<forall>n. lock_ok e n" "init_err3 e s = Some (r, s')"
  shows "r = -1 \<and> io_closed s' \<and> \<not> api_lock (sem s')"
proof -
  let ?t = "s\<lparr>maps := unmap1 (fileno s) (code_buf s) (maps s)\<rparr>"
  obtain m t where t: "IOFreePhyMem e ((code_buf s)\<lparr>virt_uaddr := 0\<rparr>) ?t = Some (m, t)"
    "init_err2 e (t\<lparr>code_buf := m\<rparr>) = Some (r, s')"
    using assms(3) by (auto simp: init_err3_def IOFreeVirtMem_maps bind_eq_Some_conv)
  obtain k n z where "t = ?t\<lparr>kernel := k, n_ioctl := n, sz_alloc := z\<rparr>" "m = zero_mem_desc"
    using IOFreePhyMem'_frame [OF t(1) [unfolded IOFreePhyMem_def]] by blast
  then have "io_open e (t\<lparr>code_buf := m\<rparr>)" using assms(1) by (simp add: io_open_def drop_mapping)
  then show ?thesis by (rule init_err2_closes [OF _ assms(2) t(2)])
qed

lemma IOGetVirtMem_maps:
  assumes "mmap_res e (n_mmap s) \<noteq> 0" "IOGetVirtMem e m s = (va, m', s')"
  shows "\<exists>ms. s' = s\<lparr>n_mmap := Suc (n_mmap s), maps := ms\<rparr> \<and> mset ms = mset (maps s) + mapped (fileno s) m' \<and>
    (0 < va \<longrightarrow> virt_uaddr m' \<noteq> 0)"
proof (cases "mmap_res e (n_mmap s) = MAP_FAILED")
  case True
  then have "s' = s\<lparr>n_mmap := Suc (n_mmap s), maps := maps s\<rparr>" "virt_uaddr m' = 0" "va = -1"
    using assms(2) by (auto simp: IOGetVirtMem_def lib_mmap_def Let_def)
  then show ?thesis by (intro exI [of _ "maps s"]) (simp add: mapped_def)
next
  case False
  let ?a = "mmap_res e (n_mmap s)"
  have "s' = s\<lparr>n_mmap := Suc (n_mmap s), maps := (fileno s, ?a, mem_size m) # maps s\<rparr>" "m' = m\<lparr>virt_uaddr := ?a\<rparr>"
    using False assms(2) by (auto simp: IOGetVirtMem_def lib_mmap_def Let_def)
  then show ?thesis
    using assms(1) by (intro exI [of _ "(fileno s, ?a, mem_size m) # maps s"]) (simp add: mapped_def)
qed

lemma get_phy_err:
  assumes "IOGetPhyMem' e which buff s = Some (r, m, s')" "r < 0"
  shows "virt_uaddr m = virt_uaddr buff"
  using assms by (auto simp: IOGetPhyMem'_def bind_eq_Some_conv Let_def split: if_splits)

text \<open>The outcome of the last steps of \<^verbatim>\<open>IOSystemInit\<close>: everything is there, or nothing.\<close>

definition all_or_nothing :: "io_env \<Rightarrow> u32 \<Rightarrow> int \<Rightarrow> 'i vpu_lib \<Rightarrow> bool" where
  "all_or_nothing e sr r s \<longleftrightarrow> \<not> api_lock (sem s) \<and>
     (r = 0 \<and> io_open e s \<and> system_rev s = sr \<and> virt_uaddr (bit_work_addr s) \<noteq> 0 \<and>
        virt_uaddr (code_buf s) \<noteq> 0 \<and> virt_uaddr (para_buf s) \<noteq> 0 \<or>
      r = -1 \<and> io_closed s)"

lemmas failed_init =
  init_err_closes init_err2_closes init_err3_closes

lemma init_para_outcome:
  assumes "io_open e s" "\<forall>n. lock_ok e n" "\<forall>n. mmap_res e n \<noteq> 0" "virt_uaddr (para_buf s) = 0"
    and "virt_uaddr (bit_work_addr s) \<noteq> 0" "virt_uaddr (code_buf s) \<noteq> 0" "init_para e s = Some (r, s')"
  shows "all_or_nothing e (system_rev s) r s'"
proof -
  obtain q m t where t: "IOGetPhyMem' e PHYMEM_ALLOC ((para_buf s)\<lparr>mem_size := PARA_BUF2_SIZE + PARA_BUF_SIZE\<rparr>) s = Some (q, m, t)"
    and rest: "(if q < 0 then init_err3 e (t\<lparr>para_buf := m\<rparr>)
      else case IOGetVirtMem e m (t\<lparr>para_buf := m\<rparr>) of (va, m, s) \<Rightarrow>
        let s = s\<lparr>para_buf := m\<rparr> in if va \<le> 0 then init_err3 e s else do { s \<leftarrow> UnlockVpu e s; Some (0, s) }) = Some (r, s')"
    using assms(7) unfolding init_para_def IOGetPhyMem_def bind_eq_Some_conv by (auto simp: Let_def)
  obtain k n z where k: "t = s\<lparr>kernel := k, n_ioctl := n, sz_alloc := z\<rparr>" using IOGetPhyMem'_frame [OF t] by blast
  show ?thesis
  proof (cases "q < 0")
    case True
    then have "io_open e (t\<lparr>para_buf := m\<rparr>)"
      using get_phy_err [OF t] assms(1,4) k by (simp add: io_open_def mapped_def)
    then show ?thesis using failed_init(3) [OF _ assms(2)] rest True by (auto simp: all_or_nothing_def)
  next
    case False
    obtain va m' u where v: "IOGetVirtMem e m (t\<lparr>para_buf := m\<rparr>) = (va, m', u)" by (cases "IOGetVirtMem e m (t\<lparr>para_buf := m\<rparr>)")
    from IOGetVirtMem_maps [OF _ v] assms(3) obtain ms where ms: "u = t\<lparr>para_buf := m, n_mmap := Suc (n_mmap t), maps := ms\<rparr>"
      "mset ms = mset (maps s) + mapped (fileno s) m'" "0 < va \<longrightarrow> virt_uaddr m' \<noteq> 0" by (auto simp: k)
    have o: "io_open e (u\<lparr>para_buf := m'\<rparr>)" using assms(1,4) ms k by (simp add: io_open_def mapped_def)
    show ?thesis
    proof (cases "va \<le> 0")
      case True
      then show ?thesis using failed_init(3) [OF o assms(2)] rest False v by (auto simp: all_or_nothing_def Let_def)
    next
      case va: False
      then obtain w where w: "UnlockVpu e (u\<lparr>para_buf := m'\<rparr>) = Some w" "r = 0" "s' = w"
        using rest False v by (auto simp: Let_def bind_eq_Some_conv)
      from UnlockVpu_frame [OF w(1)] o w ms va assms(5,6) k show ?thesis by (auto simp: all_or_nothing_def io_open_def)
    qed
  qed
qed

lemma init_code_outcome:
  assumes "io_open e s" "\<forall>n. lock_ok e n" "\<forall>n. mmap_res e n \<noteq> 0" "virt_uaddr (para_buf s) = 0"
    and "virt_uaddr (code_buf s) = 0" "virt_uaddr (bit_work_addr s) \<noteq> 0" "init_code e s = Some (r, s')"
  shows "all_or_nothing e (system_rev s) r s'"
proof -
  obtain q m t where t: "IOGetPhyMem' e PHYMEM_ALLOC ((code_buf s)\<lparr>mem_size := CODE_BUF_SIZE\<rparr>) s = Some (q, m, t)"
    and rest: "(if q < 0 then init_err2 e (t\<lparr>code_buf := m\<rparr>)
      else case IOGetVirtMem e m (t\<lparr>code_buf := m\<rparr>) of (va, m, s) \<Rightarrow>
        let s = s\<lparr>code_buf := m\<rparr> in if va \<le> 0 then init_err2 e s else init_para e s) = Some (r, s')"
    using assms(7) unfolding init_code_def IOGetPhyMem_def bind_eq_Some_conv by (auto simp: Let_def)
  obtain k n z where k: "t = s\<lparr>kernel := k, n_ioctl := n, sz_alloc := z\<rparr>" using IOGetPhyMem'_frame [OF t] by blast
  show ?thesis
  proof (cases "q < 0")
    case True
    then have "io_open e (t\<lparr>code_buf := m\<rparr>)"
      using get_phy_err [OF t] assms(1,5) k by (simp add: io_open_def mapped_def)
    then show ?thesis using failed_init(2) [OF _ assms(2)] rest True by (auto simp: all_or_nothing_def)
  next
    case False
    obtain va m' u where v: "IOGetVirtMem e m (t\<lparr>code_buf := m\<rparr>) = (va, m', u)" by (cases "IOGetVirtMem e m (t\<lparr>code_buf := m\<rparr>)")
    from IOGetVirtMem_maps [OF _ v] assms(3) obtain ms where ms: "u = t\<lparr>code_buf := m, n_mmap := Suc (n_mmap t), maps := ms\<rparr>"
      "mset ms = mset (maps s) + mapped (fileno s) m'" "0 < va \<longrightarrow> virt_uaddr m' \<noteq> 0" by (auto simp: k)
    have o: "io_open e (u\<lparr>code_buf := m'\<rparr>)" using assms(1,4,5) ms k by (simp add: io_open_def mapped_def)
    show ?thesis
    proof (cases "va \<le> 0")
      case True
      then show ?thesis using failed_init(2) [OF o assms(2)] rest False v by (auto simp: all_or_nothing_def Let_def)
    next
      case va: False
      then have "init_para e (u\<lparr>code_buf := m'\<rparr>) = Some (r, s')" using rest False v by (simp add: Let_def)
      from init_para_outcome [OF o assms(2,3) _ _ _ this] assms(4,6) ms va k show ?thesis by simp
    qed
  qed
qed

lemma init_work_outcome:
  assumes "io_open e s" "\<forall>n. lock_ok e n" "\<forall>n. mmap_res e n \<noteq> 0" "unmapped_bufs s" "init_work e s = Some (r, s')"
  shows "all_or_nothing e (system_rev s) r s'"
proof -
  have b: "virt_uaddr (bit_work_addr s) = 0" "virt_uaddr (code_buf s) = 0" "virt_uaddr (para_buf s) = 0"
    using assms(4) by (simp_all add: unmapped_bufs_def)
  obtain q m t where t: "IOGetPhyMem' e GET_WORK_ADDR ((bit_work_addr s)\<lparr>mem_size := WORK_BUF_SIZE\<rparr>) s = Some (q, m, t)"
    and rest: "(if q < 0 then init_err e (t\<lparr>bit_work_addr := m\<rparr>)
      else case IOGetVirtMem e m (t\<lparr>bit_work_addr := m\<rparr>) of (va, m, s) \<Rightarrow>
        let s = s\<lparr>bit_work_addr := m\<rparr> in if va \<le> 0 then init_err e s else init_code e s) = Some (r, s')"
    using assms(5) unfolding init_work_def bind_eq_Some_conv by (auto simp: Let_def)
  obtain k n z where k: "t = s\<lparr>kernel := k, n_ioctl := n, sz_alloc := z\<rparr>" using IOGetPhyMem'_frame [OF t] by blast
  show ?thesis
  proof (cases "q < 0")
    case True
    then have "io_open e (t\<lparr>bit_work_addr := m\<rparr>)"
      using get_phy_err [OF t] assms(1) b k by (simp add: io_open_def mapped_def)
    then show ?thesis using failed_init(1) [OF _ assms(2)] rest True by (auto simp: all_or_nothing_def)
  next
    case False
    obtain va m' u where v: "IOGetVirtMem e m (t\<lparr>bit_work_addr := m\<rparr>) = (va, m', u)"
      by (cases "IOGetVirtMem e m (t\<lparr>bit_work_addr := m\<rparr>)")
    from IOGetVirtMem_maps [OF _ v] assms(3) obtain ms where ms: "u = t\<lparr>bit_work_addr := m, n_mmap := Suc (n_mmap t), maps := ms\<rparr>"
      "mset ms = mset (maps s) + mapped (fileno s) m'" "0 < va \<longrightarrow> virt_uaddr m' \<noteq> 0" by (auto simp: k)
    have o: "io_open e (u\<lparr>bit_work_addr := m'\<rparr>)" using assms(1) b ms k by (simp add: io_open_def mapped_def)
    show ?thesis
    proof (cases "va \<le> 0")
      case True
      then show ?thesis using failed_init(1) [OF o assms(2)] rest False v by (auto simp: all_or_nothing_def Let_def)
    next
      case va: False
      then have "init_code e (u\<lparr>bit_work_addr := m'\<rparr>) = Some (r, s')" using rest False v by (simp add: Let_def)
      from init_code_outcome [OF o assms(2,3) _ _ _ this] b ms va k show ?thesis by simp
    qed
  qed
qed

lemma get_system_rev_frame:
  assumes "get_system_rev e s = (ret, t)"
  shows "\<exists>v. t = s\<lparr>system_rev := v\<rparr> \<and> (ret = -1 \<or> ret = 0 \<and> cpu_is_mx27 v)"
proof -
  have top: "cpu_is_mx27 0x27020" by (simp add: cpu_is_mx27_def mxc_cpu_def)
  show ?thesis
    using assms top unfolding get_system_rev_def
    by (auto simp: Let_def cpu_is_mx27_def mxc_cpu_def split: option.splits if_splits)
      (rule exI [of _ "system_rev t"], simp)+
qed

lemma share_mem_size:
  assumes "IOGetPhyShareMem e buff s = Some (r, m, s')" "r = 0"
    and "cpu_addr (share_mem (kernel s)) \<noteq> 0 \<longrightarrow> mem_size (share_mem (kernel s)) = mem_size buff"
  shows "mem_size m = mem_size buff"
proof -
  obtain r' rep t where t: "lib_ioctl e (GET_SHARE_MEM buff) s = Some (r', rep, t)" "m = mem_reply rep buff"
    using assms(1,2) by (auto simp: IOGetPhyShareMem_def IOGetPhyMem'_def bind_eq_Some_conv Let_def split: if_splits)
  show ?thesis
    using t assms(3)
    by (auto simp: lib_ioctl_def bind_eq_Some_conv ioctl_get_share_mem_def copy_out_def copy_out_efault_def mem_reply_def
        Let_def split: if_splits)
qed

lemma semaphore_open_frame:
  assumes "vpu_semaphore_open e s = Some (p, s')" "\<forall>n. mmap_res e n \<noteq> 0"
    and "cpu_addr (share_mem (kernel s)) \<noteq> 0 \<longrightarrow> mem_size (share_mem (kernel s)) = sem_size e"
  shows "(\<exists>k n z m. p = 0 \<and> s' = s\<lparr>kernel := k, n_ioctl := n, sz_alloc := z, lib_share_mem := m\<rparr>) \<or>
    (\<exists>k n z m x y. p \<noteq> 0 \<and> \<not> api_lock x \<and>
       s' = s\<lparr>kernel := k, n_ioctl := n, sz_alloc := z, n_mmap := Suc (n_mmap s),
         maps := (fileno s, p, sem_size e) # maps s, lib_share_mem := m, sem := x, mutex_timeout := y\<rparr>)"
proof -
  let ?b = "(lib_share_mem s)\<lparr>mem_size := sem_size e\<rparr>"
  obtain r m t where t: "IOGetPhyShareMem e ?b s = Some (r, m, t)"
    and rest: "(if r \<noteq> 0 then Some (0, t\<lparr>lib_share_mem := m\<rparr>)
      else case IOGetVirtMem e m t of
        (va, m, s) \<Rightarrow>
          if va = 0 then Some (0, s\<lparr>lib_share_mem := m\<rparr>)
          else if va = -1 then None
          else Some (of_int va, s\<lparr>lib_share_mem := m,
                 sem := (sem s)\<lparr>api_lock := False, reg_lock := False, is_initialized := True,
                   codecInstPool := reset_pool (codecInstPool (sem s))\<rparr>,
                 mutex_timeout := (case timeout_env e of None \<Rightarrow> 10 | Some t \<Rightarrow> t)\<rparr>)) = Some (p, s')"
    using assms(1) by (auto simp: vpu_semaphore_open_def bind_eq_Some_conv)
  obtain k n z where k: "t = s\<lparr>kernel := k, n_ioctl := n, sz_alloc := z\<rparr>"
    using IOGetPhyMem'_frame [OF t [unfolded IOGetPhyShareMem_def]] by blast
  show ?thesis
  proof (cases "r = 0")
    case False
    then have "p = 0" "s' = s\<lparr>kernel := k, n_ioctl := n, sz_alloc := z, lib_share_mem := m\<rparr>" using rest k by auto
    then show ?thesis by blast
  next
    case True
    let ?a = "mmap_res e (n_mmap s)"
    have sz: "mem_size m = sem_size e" using share_mem_size [OF t True] assms(3) by simp
    have "sint ?a \<noteq> 0"
    proof
      assume z: "sint ?a = 0"
      have "of_int (sint ?a) = (0 :: u32)" unfolding z by simp
      then show False using assms(2) by simp
    qed
    then have a: "?a \<noteq> MAP_FAILED" "sint ?a \<noteq> 0"
      using rest True k by (auto simp: IOGetVirtMem_def lib_mmap_def Let_def split: if_splits)
    have "IOGetVirtMem e m t = (sint ?a, m\<lparr>virt_uaddr := ?a\<rparr>,
        t\<lparr>n_mmap := Suc (n_mmap s), maps := (fileno s, ?a, sem_size e) # maps s\<rparr>)"
      using a(1) k sz by (simp add: IOGetVirtMem_def lib_mmap_def Let_def)
    then have "p = ?a" "s' = s\<lparr>kernel := k, n_ioctl := n, sz_alloc := z, n_mmap := Suc (n_mmap s),
        maps := (fileno s, ?a, sem_size e) # maps s, lib_share_mem := m\<lparr>virt_uaddr := ?a\<rparr>,
        sem := (sem s)\<lparr>api_lock := False, reg_lock := False, is_initialized := True,
          codecInstPool := reset_pool (codecInstPool (sem s))\<rparr>,
        mutex_timeout := (case timeout_env e of None \<Rightarrow> 10 | Some t \<Rightarrow> t)\<rparr>"
      using rest True a(2) k by (auto split: if_splits)
    moreover have "\<not> api_lock ((sem s)\<lparr>api_lock := False, reg_lock := False, is_initialized := True,
          codecInstPool := reset_pool (codecInstPool (sem s))\<rparr>)" by simp
    ultimately show ?thesis using assms(2) by blast
  qed
qed

text \<open>
  What is left when only the mapping of the registers fails: the shared structure stays mapped,
  and with it the file of the closed descriptor stays open.
\<close>

definition leaks_semaphore :: "io_env \<Rightarrow> 'i vpu_lib \<Rightarrow> bool" where
  "leaks_semaphore e s \<longleftrightarrow> vpu_fd s = -1 \<and> vpu_active_num s = 0 \<and> unmapped_bufs s \<and>
     maps s = [(fileno s, vpu_semap s, sem_size e)]"

lemma init_regs_outcome:
  assumes "0 \<le> vpu_fd s" "vpu_active_num s = 0" "maps s = [(fileno s, vpu_semap s, sem_size e)]" "unmapped_bufs s"
    and "\<not> api_lock (sem s)" "\<forall>n. lock_ok e n" "\<forall>n. mmap_res e n \<noteq> 0" "init_regs e s = Some (r, s')"
  shows "all_or_nothing e (system_rev s) r s' \<or>
    r = -1 \<and> mmap_res e (n_mmap s) = MAP_FAILED \<and> leaks_semaphore e s' \<and> \<not> api_lock (sem s')"
proof -
  let ?a = "mmap_res e (n_mmap s)"
  let ?l = "s\<lparr>n_lock := Suc (n_lock s), sem := (sem s)\<lparr>api_lock := True\<rparr>, n_mmap := Suc (n_mmap s)\<rparr>"
  show ?thesis
  proof (cases "?a = MAP_FAILED")
    case True
    then obtain t where t: "lib_close e (?l\<lparr>vpu_reg_base := ?a\<rparr>) = Some t" "r = -1"
      "s' = semaphore_post API_MUTEX (t\<lparr>vpu_fd := -1\<rparr>)"
      using assms(5,6,8) by (auto simp: init_regs_def semaphore_wait_def lib_mmap_def close_fd_def Let_def bind_eq_Some_conv)
    then show ?thesis
      using lib_close_frame [OF t(1)] assms(2,3,4) True
      by (auto simp: leaks_semaphore_def semaphore_post_def unmapped_bufs_def)
  next
    case False
    let ?m = "?l\<lparr>maps := (fileno s, ?a, BIT_REG_MARGIN) # maps s, vpu_reg_base := ?a, vpu_active_num := vpu_active_num s + 1\<rparr>"
    obtain t where t: "IOClkGateSet e True ?m = Some t" "init_work e t = Some (r, s')"
      using False assms(5,6,8) by (auto simp: init_regs_def semaphore_wait_def lib_mmap_def Let_def bind_eq_Some_conv)
    obtain k n where k: "t = ?m\<lparr>kernel := k, n_ioctl := n\<rparr>" using IOClkGateSet_frame [OF t(1)] by blast
    have "io_open e t" "unmapped_bufs t"
      using k assms(1-4) by (simp_all add: io_open_def mapped_def unmapped_bufs_def)
    from init_work_outcome [OF this(1) assms(6,7) this(2) t(2)] k show ?thesis by simp
  qed
qed

lemma init_opened_outcome:
  assumes "0 \<le> vpu_fd s" "vpu_active_num s = 0" "maps s = []" "unmapped_bufs s" "\<forall>n. lock_ok e n"
    and "\<forall>n. mmap_res e n \<noteq> 0" "cpu_addr (share_mem (kernel s)) \<noteq> 0 \<longrightarrow> mem_size (share_mem (kernel s)) = sem_size e"
    and "do { (p, s) \<leftarrow> vpu_semaphore_open e s;
              let s = s\<lparr>vpu_semap := p\<rparr>;
              if p = 0 then do { s \<leftarrow> close_fd e s; Some (-1, s) } else init_regs e s } = Some (r, s')"
  shows "r = 0 \<and> all_or_nothing e (system_rev s) r s' \<or>
    r = -1 \<and> (io_closed s' \<or> leaks_semaphore e s' \<and> (\<exists>n. mmap_res e n = MAP_FAILED))"
proof -
  obtain p u where u: "vpu_semaphore_open e s = Some (p, u)"
    and rest: "(if p = 0 then do { s \<leftarrow> close_fd e (u\<lparr>vpu_semap := p\<rparr>); Some (-1, s) }
        else init_regs e (u\<lparr>vpu_semap := p\<rparr>)) = Some (r, s')"
    using assms(8) by (auto simp: bind_eq_Some_conv Let_def)
  show ?thesis
  proof (cases "p = 0")
    case True
    then obtain t where t: "lib_close e (u\<lparr>vpu_semap := p\<rparr>) = Some t" "s' = t\<lparr>vpu_fd := -1\<rparr>" "r = -1"
      using rest by (auto simp: close_fd_def bind_eq_Some_conv)
    obtain k where k: "t = u\<lparr>vpu_semap := p, kernel := k\<rparr>" using lib_close_frame [OF t(1)] by blast
    obtain k' n z m where "u = s\<lparr>kernel := k', n_ioctl := n, sz_alloc := z, lib_share_mem := m\<rparr>"
      using semaphore_open_frame [OF u assms(6,7)] True by blast
    then have "io_closed s'" using assms(2-4) unfolding t(2) k by (simp add: io_closed_def unmapped_bufs_def)
    then show ?thesis using t(3) by simp
  next
    case False
    then obtain k n z m x y where x: "\<not> api_lock x" and u': "u = s\<lparr>kernel := k, n_ioctl := n, sz_alloc := z,
        n_mmap := Suc (n_mmap s), maps := (fileno s, p, sem_size e) # maps s, lib_share_mem := m, sem := x, mutex_timeout := y\<rparr>"
      using semaphore_open_frame [OF u assms(6,7)] by blast
    have "init_regs e (u\<lparr>vpu_semap := p\<rparr>) = Some (r, s')" using rest False by simp
    from init_regs_outcome [OF _ _ _ _ _ assms(5,6) this] assms(1-4) x u'
    have "all_or_nothing e (system_rev s) r s' \<or> r = -1 \<and> mmap_res e (Suc (n_mmap s)) = MAP_FAILED \<and> leaks_semaphore e s'"
      by (simp add: unmapped_bufs_def) blast
    then show ?thesis unfolding all_or_nothing_def by blast
  qed
qed

section \<open>A sample system\<close>

definition sample_io :: io_env where
  "sample_io = \<lparr>bitmaps = bitmap_lib, ioctl_env = \<lambda>_. idle_env, cpuinfo = Some ''Revision : 0000'',
     open_fd = \<lambda>_. 3, mmap_res = \<lambda>n. push_bit 20 (of_nat n) OR 0x40000000, lock_ok = \<lambda>_. True, timeout_env = None,
     sem_size = 0x1000, clock = \<lambda>n. (int n, 0), firmware = None, fw_stack = [], fw_beyond = [],
     malloc_ok = True\<rparr>"

definition closed_lib :: "vpu_state \<Rightarrow> unit vpu_lib" where
  "closed_lib k = \<lparr>vpu_fd = -1, vpu_reg_base = 0, vpu_active_num = 0, system_rev = 0, vpu_semap = 0,
     sem = \<lparr>is_initialized = False, api_lock = False, reg_lock = False,
       codecInstPool = replicate 4 \<lparr>instIndex = 0, inUse = True, codecMode = 0\<rparr>, pendingInst = None\<rparr>,
     bit_work_addr = zero_mem_desc, code_buf = zero_mem_desc, para_buf = zero_mem_desc, pic_para_addr = zero_mem_desc,
     user_data_addr = zero_mem_desc, lib_share_mem = zero_mem_desc, sz_alloc = 0, mutex_timeout = 10, fileno = 0,
     maps = [], kernel = k, n_ioctl = 0, n_mmap = 0, n_lock = 0, n_clock = 0, virt_codeBuf = 0,
     virt_paraBuf = 0, virt_paraBuf2 = 0, umem = \<lambda>_. 0, decoded_pictype = replicate 32 0\<rparr>"

text \<open>With an empty pool the work buffer cannot be allocated.\<close>

lemma sample_rev:
  "get_system_rev sample_io (closed_lib k) = (0, (closed_lib k)\<lparr>system_rev := 0x27020\<rparr>)"
proof -
  have f: "str_find ''Revision : 0000'' ''Revision'' = Some ''Revision : 0000''" by simp
  have i: "str_index ''Revision : 0000'' (CHR '':'') = Some '': 0000''" by simp
  have "strtoul16 '' 0000'' = 0"
    by (simp add: strtoul16_def is_space_def hex_prefix_def hex_val_def)
  then show ?thesis by (simp add: get_system_rev_def sample_io_def f i closed_lib_def)
qed

lemma sample_io_simps [simp]:
  "bitmaps sample_io = bitmap_lib" "ioctl_env sample_io = (\<lambda>_. idle_env)" "open_fd sample_io = (\<lambda>_. 3)"
  "mmap_res sample_io n = push_bit 20 (of_nat n) OR 0x40000000" "lock_ok sample_io = (\<lambda>_. True)"
  "timeout_env sample_io = None" "sem_size sample_io = 0x1000"
  by (simp_all add: sample_io_def)

lemma idle_env_simps [simp]:
  "kzalloc_ok idle_env" "copy_from_ok idle_env" "copy_to_left idle_env = 0" "vmalloc_user idle_env = (\<lambda>_. 0xC8000000)"
  by (simp_all add: idle_env_def)

definition sample_share :: vpu_mem_desc where
  "sample_share = \<lparr>mem_size = 0x1000, phy_addr = 0xC8000000, cpu_addr = 0xC8000000, virt_uaddr = 0\<rparr>"

lemma sample_sem:
  assumes "vpu_fd s = 3" "share_mem (kernel s) = zero_mem_desc" "n_mmap s = 0" "lib_share_mem s = zero_mem_desc"
  shows "\<exists>x z. \<not> api_lock x \<and> vpu_semaphore_open sample_io s = Some (0x40000000,
      s\<lparr>kernel := (kernel s)\<lparr>share_mem := sample_share\<rparr>, n_ioctl := Suc (n_ioctl s), sz_alloc := z, n_mmap := 1,
        maps := (fileno s, 0x40000000, 0x1000) # maps s, lib_share_mem := sample_share\<lparr>virt_uaddr := 0x40000000\<rparr>,
        sem := x, mutex_timeout := 10\<rparr>)"
proof -
  have "IOGetPhyShareMem sample_io \<lparr>mem_size = 0x1000, phy_addr = 0, cpu_addr = 0, virt_uaddr = 0\<rparr> s =
      Some (0, sample_share, s\<lparr>kernel := (kernel s)\<lparr>share_mem := sample_share\<rparr>, n_ioctl := Suc (n_ioctl s),
        sz_alloc := sz_alloc s + 0x1000\<rparr>)"
    using assms(1,2) by (simp add: IOGetPhyShareMem_def IOGetPhyMem'_def lib_ioctl_def ioctl_get_share_mem_def
        copy_out_efault_def mem_reply_def Let_def zero_mem_desc_def sample_share_def)
  moreover have "sint (0x40000000 :: u32) = 0x40000000" by (simp add: sint_uint)
  moreover have "\<not> api_lock ((sem s)\<lparr>api_lock := False, reg_lock := False, is_initialized := True,
      codecInstPool := reset_pool (codecInstPool (sem s))\<rparr>)" by simp
  ultimately show ?thesis
    using assms(3,4)
    by (intro exI [of _ "(sem s)\<lparr>api_lock := False, reg_lock := False, is_initialized := True,
          codecInstPool := reset_pool (codecInstPool (sem s))\<rparr>"] exI [of _ "sz_alloc s + 0x1000"])
      (simp add: vpu_semaphore_open_def IOGetVirtMem_def lib_mmap_def zero_mem_desc_def sample_share_def)
qed

lemma empty_pool_alloc: "\<exists>err. vpu_alloc_dma_buffer B [] m = Inl err"
  by (simp add: vpu_alloc_dma_buffer_def vpu_pool_alloc_def Let_def)

lemma sample_work:
  assumes "vpu_fd s = 3" "vpu_pool (kernel s) = []" "bitwork_mem (kernel s) = zero_mem_desc"
  shows "\<exists>m k. init_work sample_io s = init_err sample_io (s\<lparr>kernel := (kernel s)\<lparr>bitwork_mem := k\<rparr>,
      n_ioctl := Suc (n_ioctl s), bit_work_addr := m\<rparr>)"
proof -
  let ?b = "(bit_work_addr s)\<lparr>mem_size := WORK_BUF_SIZE\<rparr>"
  obtain err where "vpu_alloc_dma_buffer bitmap_lib [] ?b = Inl err" using empty_pool_alloc by blast
  then have "IOGetPhyMem' sample_io GET_WORK_ADDR ?b s = Some (-1, ?b\<lparr>phy_addr := 0, cpu_addr := 0\<rparr>,
      s\<lparr>kernel := (kernel s)\<lparr>bitwork_mem := ?b\<rparr>, n_ioctl := Suc (n_ioctl s)\<rparr>)"
    using assms by (simp add: IOGetPhyMem'_def lib_ioctl_def ioctl_get_work_addr_def zero_mem_desc_def)
  then have "init_work sample_io s = init_err sample_io (s\<lparr>kernel := (kernel s)\<lparr>bitwork_mem := ?b\<rparr>,
      n_ioctl := Suc (n_ioctl s), bit_work_addr := ?b\<lparr>phy_addr := 0, cpu_addr := 0\<rparr>\<rparr>)"
    by (simp add: init_work_def)
  then show ?thesis by blast
qed

lemma sample_exit:
  assumes "vpu_fd s = 3" "head (kernel s) = []" "vpu_active_num s = 1"
  shows "\<exists>s'. init_err sample_io s = Some (-1, s')"
  using assms
  by (simp add: init_err_def UnlockVpu_def IOClkGateSet_def lib_ioctl_def semaphore_post_def IOSystemShutdown_def
      semaphore_wait_def lib_close_def bind_eq_Some_conv unmap_all_def IOFreeVirtMem_maps
      lib_munmap_def vpu_semaphore_close_def vpu_release_def vpu_free_buffers_def hw_reset_pulse_def vpu_clk_force_on_def
      WRITE_REG_def Let_def)

lemma sample_init_fails:
  "\<exists>s. IOSystemInit sample_io (closed_lib (loaded\<lparr>vpu_pool := []\<rparr>)) = Some (-1, s)"
proof -
  let ?c = "closed_lib (loaded\<lparr>vpu_pool := []\<rparr>)"
  let ?o = "?c\<lparr>system_rev := 0x27020, vpu_fd := 3, fileno := 1, kernel := vpu_open (loaded\<lparr>vpu_pool := []\<rparr>)\<rparr>"
  obtain x z where x: "\<not> api_lock x" "vpu_semaphore_open sample_io ?o = Some (0x40000000,
      ?o\<lparr>kernel := (kernel ?o)\<lparr>share_mem := sample_share\<rparr>, n_ioctl := Suc (n_ioctl ?o), sz_alloc := z, n_mmap := 1,
        maps := (fileno ?o, 0x40000000, 0x1000) # maps ?o, lib_share_mem := sample_share\<lparr>virt_uaddr := 0x40000000\<rparr>,
        sem := x, mutex_timeout := 10\<rparr>)"
    using sample_sem [of ?o] by (auto simp: vpu_open_def loaded_def closed_lib_def)
  have "IOSystemInit sample_io ?c = init_regs sample_io (?o\<lparr>kernel := (kernel ?o)\<lparr>share_mem := sample_share\<rparr>,
      n_ioctl := Suc (n_ioctl ?o), sz_alloc := z, n_mmap := 1,
      maps := (fileno ?o, 0x40000000, 0x1000) # maps ?o, lib_share_mem := sample_share\<lparr>virt_uaddr := 0x40000000\<rparr>,
      sem := x, mutex_timeout := 10, vpu_semap := 0x40000000\<rparr>)"
    using x(2) sample_rev [of "loaded\<lparr>vpu_pool := []\<rparr>"] by (simp add: IOSystemInit_def lib_open_def closed_lib_def)
  moreover have "\<exists>t. init_regs sample_io (?o\<lparr>kernel := (kernel ?o)\<lparr>share_mem := sample_share\<rparr>,
      n_ioctl := Suc (n_ioctl ?o), sz_alloc := z, n_mmap := 1,
      maps := (fileno ?o, 0x40000000, 0x1000) # maps ?o, lib_share_mem := sample_share\<lparr>virt_uaddr := 0x40000000\<rparr>,
      sem := x, mutex_timeout := 10, vpu_semap := 0x40000000\<rparr>) = init_work sample_io t \<and> vpu_fd t = 3 \<and> vpu_active_num t = 1 \<and>
      vpu_pool (kernel t) = [] \<and> bitwork_mem (kernel t) = zero_mem_desc \<and> head (kernel t) = []"
    using x(1) by (simp add: init_regs_def semaphore_wait_def lib_mmap_def IOClkGateSet_def lib_ioctl_def Let_def vpu_open_def
        loaded_def closed_lib_def) (rule exI, rule conjI, rule refl, simp)
  ultimately obtain t where t: "IOSystemInit sample_io ?c = init_work sample_io t" "vpu_fd t = 3" "vpu_active_num t = 1"
      "vpu_pool (kernel t) = []" "bitwork_mem (kernel t) = zero_mem_desc" "head (kernel t) = []" by auto
  obtain m k where "init_work sample_io t = init_err sample_io (t\<lparr>kernel := (kernel t)\<lparr>bitwork_mem := k\<rparr>,
      n_ioctl := Suc (n_ioctl t), bit_work_addr := m\<rparr>)" using sample_work [OF t(2,4,5)] by blast
  with sample_exit [of "t\<lparr>kernel := (kernel t)\<lparr>bitwork_mem := k\<rparr>, n_ioctl := Suc (n_ioctl t), bit_work_addr := m\<rparr>"] t
  show ?thesis by simp
qed

section \<open>Properties of the access layer\<close>

text \<open>
  C31. \<^verbatim>\<open>IOSystemInit\<close> is all or nothing, under the conditions that it relies on: it starts from a
  closed state, every lock is granted (a refused one leaves more behind, lines 259 and 326),
  \<^verbatim>\<open>open\<close> returns a descriptor or -1, \<^verbatim>\<open>mmap\<close> never returns the null address, an existing shared
  structure has the size of this library's, and the call returns (a failed mapping of the shared
  structure crashes it). Then a return value 0 means that the device is open for one user, the
  mappings are exactly the shared structure, the registers and the work, code and parameter
  buffers, the processor is identified as an i.MX27 and the API lock is free; any other return is
  -1, and then everything is closed and unmapped again, except that after a failed mapping of the
  registers the shared structure stays mapped.
\<close>

theorem IOSystemInit_outcome:
  assumes "io_closed s" "\<forall>n. lock_ok e n" "\<forall>n. mmap_res e n \<noteq> 0" "\<forall>n. -1 \<le> open_fd e n"
    and "cpu_addr (share_mem (kernel s)) \<noteq> 0 \<longrightarrow> mem_size (share_mem (kernel s)) = sem_size e"
    and "IOSystemInit e s = Some (r, s')"
  shows "r = 0 \<and> io_open e s' \<and> cpu_is_mx27 (system_rev s') \<and> \<not> api_lock (sem s') \<and>
      virt_uaddr (bit_work_addr s') \<noteq> 0 \<and> virt_uaddr (code_buf s') \<noteq> 0 \<and> virt_uaddr (para_buf s') \<noteq> 0 \<or>
    r = -1 \<and> (io_closed s' \<or> leaks_semaphore e s' \<and> (\<exists>n. mmap_res e n = MAP_FAILED))"
proof -
  have c: "vpu_fd s = -1" "vpu_active_num s = 0" "maps s = []" "unmapped_bufs s" using assms(1) by (simp_all add: io_closed_def)
  obtain ret t where rev: "get_system_rev e s = (ret, t)" by (cases "get_system_rev e s")
  then obtain v where v: "t = s\<lparr>system_rev := v\<rparr>" "ret = -1 \<or> ret = 0 \<and> cpu_is_mx27 v" using get_system_rev_frame by blast
  let ?fd = "open_fd e (fileno s)"
  let ?o = "t\<lparr>vpu_fd := ?fd, fileno := Suc (fileno s), kernel := vpu_open (kernel s)\<rparr>"
  consider "ret = -1" | "ret = 0" "?fd < 0" | "ret = 0" "0 \<le> ?fd" using v(2) by fastforce
  then show ?thesis
  proof cases
    case 1
    then have "r = -1" "s' = t" using assms(6) rev c by (simp_all add: IOSystemInit_def)
    then show ?thesis using v c by (simp add: io_closed_def unmapped_bufs_def)
  next
    case 2
    then have "?fd = -1" using assms(4) by (simp add: order_antisym)
    then have "r = -1" "s' = t\<lparr>vpu_fd := -1\<rparr>" using 2 assms(6) rev c v by (auto simp: IOSystemInit_def lib_open_def)
    then show ?thesis using v c by (simp add: io_closed_def unmapped_bufs_def)
  next
    case 3
    have o: "lib_open e t = ?o" using 3 v by (simp add: lib_open_def)
    have "do { (p, s) \<leftarrow> vpu_semaphore_open e ?o;
               let s = s\<lparr>vpu_semap := p\<rparr>;
               if p = 0 then do { s \<leftarrow> close_fd e s; Some (-1, s) } else init_regs e s } = Some (r, s')"
      using assms(6) rev c 3 by (simp add: IOSystemInit_def o)
    from init_opened_outcome [OF _ _ _ _ assms(2,3) _ this] 3 v c assms(5)
    have "r = 0 \<and> all_or_nothing e v r s' \<or>
        r = -1 \<and> (io_closed s' \<or> leaks_semaphore e s' \<and> (\<exists>n. mmap_res e n = MAP_FAILED))"
      by (simp add: vpu_open_def unmapped_bufs_def)
    then show ?thesis using v(2) 3 unfolding all_or_nothing_def by auto
  qed
qed

text \<open>No memory for the code buffer: everything is closed again.\<close>

theorem IOSystemInit_outcome_witness:
  "\<exists>s. IOSystemInit sample_io (closed_lib (loaded\<lparr>vpu_pool := []\<rparr>)) = Some (-1, s) \<and> io_closed s"
proof -
  let ?c = "closed_lib (loaded\<lparr>vpu_pool := []\<rparr>)"
  obtain s where s: "IOSystemInit sample_io ?c = Some (-1, s)" using sample_init_fails by blast
  have c: "io_closed ?c" by (simp add: io_closed_def closed_lib_def unmapped_bufs_def zero_mem_desc_def)
  have "bit (mmap_res sample_io n) 30" "\<not> bit (mmap_res sample_io n) 0" for n by (simp_all add: bit_simps)
  then have m: "\<forall>n. mmap_res sample_io n \<noteq> 0" "\<not> (\<exists>n. mmap_res sample_io n = MAP_FAILED)"
    by (metis bit_0_eq bot_apply bot_bool_def, metis bit_numeral_simps(2) bit_0 odd_numeral)
  show ?thesis
    using IOSystemInit_outcome [OF c _ m(1) _ _ s] s m(2) by (auto simp: closed_lib_def loaded_def zero_mem_desc_def)
qed

text \<open>Several users of one process: \<open>True\<close> opens, \<open>False\<close> closes, and every call must succeed.\<close>

fun users :: "io_env \<Rightarrow> bool list \<Rightarrow> 'i vpu_lib \<Rightarrow> 'i vpu_lib option" where
  "users e [] s = Some s"
| "users e (b # ops) s =
     (case (if b then IOSystemInit e s else IOSystemShutdown e s) of
        Some (r, s') \<Rightarrow> if r = 0 then users e ops s' else None
      | None \<Rightarrow> None)"

fun nested :: "nat \<Rightarrow> bool list \<Rightarrow> bool" where
  "nested d [] = (d = 0)"
| "nested d (b # ops) = (if b then nested (Suc d) ops else 0 < d \<and> nested (d - 1) ops)"

lemma users_nested:
  assumes "0 < vpu_fd s" "vpu_active_num s = 1 + int d" "nested d ops"
  shows "users e ops s = Some (s\<lparr>vpu_active_num := 1\<rparr>)"
  using assms
proof (induction ops arbitrary: s d)
  case Nil
  then show ?case by simp
next
  case (Cons b ops)
  let ?s = "s\<lparr>vpu_active_num := vpu_active_num s + (if b then 1 else -1)\<rparr>"
  have "(if b then IOSystemInit e s else IOSystemShutdown e s) = Some (0, ?s)"
    using Cons.prems by (auto simp: IOSystemInit_def IOSystemShutdown_def)
  moreover have "users e ops ?s = Some (?s\<lparr>vpu_active_num := 1\<rparr>)"
    using Cons.prems by (intro Cons.IH [of _ "if b then Suc d else d - 1"]) (auto simp: of_nat_diff)
  ultimately show ?case by simp
qed

text \<open>
  C32. The last user closes. While the device is open, any sequence of further \<^verbatim>\<open>IOSystemInit\<close>
  and \<^verbatim>\<open>IOSystemShutdown\<close> calls that are properly nested succeeds and leaves the state of the
  process and of the driver as it was; the shutdown of the first user then returns 0 and leaves
  nothing open or mapped.
\<close>

theorem last_user_closes:
  assumes "io_open e s" "0 < vpu_fd s" "\<not> api_lock (sem s)" "lock_ok e (n_lock s)"
    and "driver_inv (bitmaps e) (kernel s)" "nested 0 ops"
  shows "users e ops s = Some s \<and> (\<exists>s'. IOSystemShutdown e s = Some (0, s') \<and> io_closed s')"
proof -
  have "vpu_active_num s = 1" using assms(1) by (simp add: io_open_def)
  then have "users e ops s = Some s" using users_nested [OF assms(2) _ assms(6), of e] by simp
  then show ?thesis using shutdown_returns [OF assms(1,3-5)] shutdown_open [OF assms(1,3,4)] by blast
qed

definition open_lib :: "unit vpu_lib" where
  "open_lib = (closed_lib loaded)\<lparr>vpu_fd := 3, vpu_active_num := 1, vpu_semap := 0x40000000, vpu_reg_base := 0x40100000,
     maps := [(0, 0x40100000, 0x1000), (0, 0x40000000, 0x1000)]\<rparr>"

theorem last_user_closes_witness:
  "users sample_io [True, True, False, True, False, False] open_lib = Some open_lib \<and>
   (\<exists>s'. IOSystemShutdown sample_io open_lib = Some (0, s') \<and> io_closed s')"
proof (rule last_user_closes)
  show "io_open sample_io open_lib"
    by (simp add: io_open_def open_lib_def closed_lib_def mapped_def zero_mem_desc_def)
  show "driver_inv (bitmaps sample_io) (kernel open_lib)"
    using fresh_inv [OF loaded_fresh] by (simp add: open_lib_def closed_lib_def)
qed (simp_all add: open_lib_def closed_lib_def)

text \<open>
  The error path frees memory of the driver. When \<^verbatim>\<open>IOSystemInit\<close> cannot get its code or
  parameter buffer it frees the work buffer (\<^verbatim>\<open>err2\<close>) with \<^verbatim>\<open>VPU_IOC_PHYMEM_FREE\<close>; the driver
  then has the pages of the work buffer free for other allocations while it still holds the
  buffer itself, and hands it out again to the next caller of \<^verbatim>\<open>VPU_IOC_GET_WORK_ADDR\<close>.
\<close>

theorem failed_init_frees_work_buffer:
  assumes "0 \<le> vpu_fd s" "copy_from_ok (ioctl_env e (n_ioctl s))" "pool_inv (bitmaps e) (vpu_pool (kernel s))"
    and "region (vpu_pool (kernel s)) (phy_addr w) (mem_size w)" "cpu_addr w = phy_addr w"
    and "bitwork_mem (kernel s) = w" "bit_work_addr s = w\<lparr>virt_uaddr := a\<rparr>"
    and "copy_to_left e' = 0"
  shows "\<exists>m s'. IOFreePhyMem e (bit_work_addr s) s = Some (m, s') \<and>
    pages (phy_addr w) (mem_size w) \<inter> pool_used (vpu_pool (kernel s')) = {} \<and>
    vpu_ioctl (bitmaps e) e' (GET_WORK_ADDR arg) (kernel s') = Some (0, MemReply w, kernel s')"
proof -
  have nz: "phy_addr w \<noteq> 0" by (rule vpool.region_nonzero [OF assms(3,4)])
  obtain pool' where p: "vpu_pool_free (bitmaps e) (vpu_pool (kernel s)) (phy_addr w) (mem_size w) = Some pool'"
    "pool_used pool' = pool_used (vpu_pool (kernel s)) - pages (phy_addr w) (mem_size w)"
    using vpu_pool_free_region [OF assms(3,4)] by blast
  then show ?thesis
    using assms(1,2,5-8) nz
    by (auto simp: IOFreePhyMem_def IOFreePhyMem'_def lib_ioctl_def ioctl_phymem_free_def vpu_free_dma_buffer_def
        ioctl_get_work_addr_def copy_out_def)
qed

theorem failed_init_frees_work_buffer_witness:
  "\<exists>m s'. IOFreePhyMem sample_io got (open_lib\<lparr>kernel := loaded\<lparr>bitwork_mem := got\<rparr>, bit_work_addr := got\<rparr>) = Some (m, s') \<and>
     pages 0xA0000000 5000 \<inter> pool_used (vpu_pool (kernel s')) = {} \<and>
     vpu_ioctl bitmap_lib idle_env (GET_WORK_ADDR req) (kernel s') = Some (0, MemReply got, kernel s')"
proof -
  have "npages 5000 = 2" unfolding npages_def drop_bit_mask_out by simp
  then have "region sdram_pool 0xA0000000 5000"
    by (simp add: region_def region_in_def sdram_pool_def word_le_nat_alt)
  then show ?thesis
    using failed_init_frees_work_buffer [of "open_lib\<lparr>kernel := loaded\<lparr>bitwork_mem := got\<rparr>, bit_work_addr := got\<rparr>"
        sample_io got 0 idle_env req] sdram_pool_inv
    by (simp add: open_lib_def closed_lib_def loaded_def got_def)
qed

section \<open>The table of the i.MX37\<close>

lemma clear_table: "map (\<lambda>(r, n, _). (r, n, False)) use_iram_table = use_iram_table"
  by (simp add: use_iram_table_def)

lemma rows: "length use_iram_table = 4" "row_size use_iram_table 0 = 25600" "row_size use_iram_table (Suc 0) = 8000"
  "row_size use_iram_table 2 = 6400" "row_size use_iram_table 3 = 6400"
  by (simp_all add: use_iram_table_def row_size_def)

text \<open>
  The internal RAM of the i.MX37 is all or too much. With 6400 to 25600 bytes
  \<^verbatim>\<open>get_iram_setting\<close> reports success and uses no RAM at all, although its smaller entries would
  fit; with more than 46400 bytes it reads the table past its end.
\<close>

theorem iram_table_limits:
  assumes "room = iram_end ir - iram_start ir + 1"
  shows "(6400 \<le> room \<and> room \<le> 25600 \<longrightarrow> get_iram_setting ir use_iram_table = Some (0, use_iram_table)) \<and>
    (46400 < room \<longrightarrow> get_iram_setting ir use_iram_table = None)"
proof (intro conjI impI)
  assume r: "6400 \<le> room \<and> room \<le> 25600"
  define i where "i = iram_back use_iram_table room 3"
  have "i = 0 \<or> i = 1 \<and> room \<le> 8000 \<or> i = 3 \<and> room \<le> 6400"
    by (auto simp: i_def numeral_3_eq_3 rows [unfolded numeral_3_eq_3 numeral_2_eq_2] not_less)
  then have "iram_take use_iram_table room i = Some use_iram_table"
    using r by (subst iram_take.simps) (auto simp: rows not_less)
  then show "get_iram_setting ir use_iram_table = Some (0, use_iram_table)"
    using r unfolding get_iram_setting_def Let_def clear_table assms [symmetric] i_def by (simp add: rows not_less)
next
  assume r: "46400 < room"
  have big: "\<not> room < 6400" "6400 < room" "8000 < room" "25600 < room"
    using r by unat_arith+
  have bk: "iram_back use_iram_table room 3 = 0"
    by (simp add: numeral_3_eq_3 rows [unfolded numeral_3_eq_3 numeral_2_eq_2] big)
  have d: "8000 < room - 25600" "6400 < room - 33600" "6400 < room - 40000" using r by unat_arith+
  have "iram_take use_iram_table room 0 = None"
    using big d by (simp add: iram_take.simps use_iram_table_def row_size_def)
  then show "get_iram_setting ir use_iram_table = None"
    using big unfolding get_iram_setting_def Let_def clear_table assms [symmetric] by (simp add: rows bk)
qed

theorem iram_table_limits_witness:
  "get_iram_setting \<lparr>iram_start = 0, iram_end = 9999\<rparr> use_iram_table = Some (0, use_iram_table) \<and>
   get_iram_setting \<lparr>iram_start = 0, iram_end = 0x1FFFF\<rparr> use_iram_table = None"
  using iram_table_limits [of 10000 "\<lparr>iram_start = 0, iram_end = 9999\<rparr>"]
    iram_table_limits [of "0x20000" "\<lparr>iram_start = 0, iram_end = 0x1FFFF\<rparr>"] by simp

end
