(* ===== verification/Vpu_Types.thy ===== *)
theory Vpu_Types
  imports Pool Vpu_Util
begin

text \<open>
  The structures of the codec instances (\<^verbatim>\<open>src/lib/vpu_lib.h\<close> and \<^verbatim>\<open>vpu_util.h\<close>), field by
  field. The unions \<^verbatim>\<open>CodecInfo\<close> and \<^verbatim>\<open>CodecParam\<close> are one field per member: the mode of an
  instance decides which member the code uses. Pointers to arrays of the caller are the arrays,
  \<open>None\<close> for a null pointer; flags of C type \<^verbatim>\<open>int\<close> are integers.
\<close>

section \<open>Frames and parameters\<close>

record Rect =
  rect_left :: u32
  rect_top :: u32
  rect_right :: u32
  rect_bottom :: u32

record DbkOffset =
  DbkOffsetA :: int
  DbkOffsetB :: int
  DbkOffsetEnable :: int

record DecReportInfo =
  rep_enable :: int
  rep_size :: int
  rep_num :: int
  rep_full :: int
  rep_addr :: u32

record DecReportBufSize =
  frameBufStatBufSize :: int
  mbInfoBufSize :: int
  mvInfoBufSize :: int

record DecInitialInfo =
  picWidth :: int
  picHeight :: int
  frameRateInfo :: u32
  picCropRect :: Rect
  info_dataPartitionEnable :: int
  info_reversibleVlcEnable :: int
  info_shortVideoHeader :: int
  info_annexJEnable :: int
  minFrameBufferCount :: int
  frameBufDelay :: int
  nextDecodedIdxNum :: int
  normalSliceSize :: int
  worstSliceSize :: int
  mjpg_thumbNailEnable :: int
  mjpg_sourceFormat :: int
  streamInfoObtained :: int
  profile :: int
  level :: int
  interlace :: int
  constraint_set_flag :: "int list"
  direct8x8Flag :: int
  vc1_psf :: int
  aspectRateInfo :: int
  errorcode :: u32
  reportBufSize :: DecReportBufSize

record DecParam =
  prescanEnable :: int
  prescanMode :: int
  dispReorderBuf :: int
  iframeSearchEnable :: int
  skipframeMode :: int
  skipframeNum :: int
  chunkSize :: int
  picStartByteOffset :: int
  picStreamBufferAddr :: u32

record DecBufInfo =
  sliceSaveBuffer :: u32
  sliceSaveBufferSize :: int
  maxMbX :: int
  maxMbY :: int
  maxMbNum :: int

record DecOutputInfo =
  indexFrameDisplay :: int
  indexFrameDecoded :: int
  NumDecFrameBuf :: int
  picType :: int
  numOfErrMBs :: int
  qpInfo :: u32
  hScaleFlag :: int
  vScaleFlag :: int
  indexFrameRangemap :: int
  prescanresult :: int
  notSufficientPsBuffer :: int
  notSufficientSliceBuffer :: int
  decodingSuccess :: int
  interlacedFrame :: int
  mp4PackedPBframe :: int
  h264Npf :: int
  pictureStructure :: int
  topFieldFirst :: int
  repeatFirstField :: int
  progressiveFrame :: int
  fieldSequence :: int
  decPicHeight :: int
  decPicWidth :: int
  decPicCrop :: Rect
  out_mbInfo :: DecReportInfo
  out_mvInfo :: DecReportInfo
  out_frameBufStat :: DecReportInfo
  out_userData :: DecReportInfo

record DecParamSet =
  paraSet :: "u32 list"
  para_size :: int

record EncHeaderParam =
  hdr_buf :: u32
  hdr_size :: u32
  headerType :: int
  userProfileLevelEnable :: int
  userProfileLevelIndication :: int

section \<open>Instances\<close>

record EncReportInfo =
  erep_enable :: int
  erep_type :: int
  erep_size :: int
  erep_addr :: u32

record EncInitialInfo =
  enc_minFrameBufferCount :: int
  sliceInfoBufSize :: int
  enc_mbInfoBufSize :: int
  enc_mvInfoBufSize :: int

record EncInfo =
  enc_openParam :: EncOpenParam
  enc_initialInfo :: EncInitialInfo
  streamRdPtr :: u32
  enc_streamRdPtrRegAddr :: u32
  enc_streamWrPtrRegAddr :: u32
  enc_streamBufStartAddr :: u32
  enc_streamBufEndAddr :: u32
  enc_streamBufSize :: int
  enc_frameBufPool :: "FrameBuffer list option"
  enc_numFrameBuffers :: int
  enc_stride :: int
  enc_rotationEnable :: int
  enc_mirrorEnable :: int
  enc_mirrorDirection :: int
  enc_rotationAngle :: int
  enc_initialInfoObtained :: int
  enc_dynAlloc :: int
  ringBufferEnable :: int
  enc_secAxiUse :: SecAxiUse
  encReportMBInfo :: EncReportInfo
  encReportMVInfo :: EncReportInfo
  encReportSliceInfo :: EncReportInfo
  enc_picParaBaseMem :: vpu_mem_desc
  searchRamMem :: vpu_mem_desc

record DecInfo =
  openParam :: DecOpenParam
  initialInfo :: DecInitialInfo
  streamWrPtr :: u32
  streamRdPtrRegAddr :: u32
  streamWrPtrRegAddr :: u32
  streamBufStartAddr :: u32
  streamBufEndAddr :: u32
  frameDisplayFlagRegAddr :: u32
  streamBufSize :: int
  frameBufPool :: "FrameBuffer list option"
  numFrameBuffers :: int
  stride :: int
  rotationEnable :: int
  deringEnable :: int
  mirrorEnable :: int
  mirrorDirection :: int
  rotationAngle :: int
  rotatorOutput :: FrameBuffer
  rotatorStride :: int
  rotatorOutputValid :: int
  initialInfoObtained :: int
  deBlockingFilterOutput :: FrameBuffer
  deBlockingFilterOutputValid :: int
  filePlayEnable :: int
  picSrcSize :: int
  dynamicAllocEnable :: int
  vc1BframeDisplayValid :: int
  dbkOffset :: DbkOffset
  secAxiUse :: SecAxiUse
  picParaBaseMem :: vpu_mem_desc
  userDataBufMem :: vpu_mem_desc
  decReportFrameBufStat :: DecReportInfo
  decReportMBInfo :: DecReportInfo
  decReportMVInfo :: DecReportInfo
  decReportUserData :: DecReportInfo

record codec_inst = CodecInst +
  encInfo :: EncInfo
  decInfo :: DecInfo
  decParam :: DecParam

type_synonym codec_ext = "unit codec_inst_ext"

section \<open>Zeroed structures\<close>

definition zero_frame :: FrameBuffer where
  "zero_frame = \<lparr>strideY = 0, strideC = 0, bufY = 0, bufCb = 0, bufCr = 0, bufMvCol = 0\<rparr>"

definition zero_rect :: Rect where
  "zero_rect = \<lparr>rect_left = 0, rect_top = 0, rect_right = 0, rect_bottom = 0\<rparr>"

definition zero_report :: DecReportInfo where
  "zero_report = \<lparr>rep_enable = 0, rep_size = 0, rep_num = 0, rep_full = 0, rep_addr = 0\<rparr>"

definition zero_initial :: DecInitialInfo where
  "zero_initial = \<lparr>picWidth = 0, picHeight = 0, frameRateInfo = 0, picCropRect = zero_rect,
     info_dataPartitionEnable = 0, info_reversibleVlcEnable = 0, info_shortVideoHeader = 0, info_annexJEnable = 0,
     minFrameBufferCount = 0, frameBufDelay = 0, nextDecodedIdxNum = 0, normalSliceSize = 0, worstSliceSize = 0,
     mjpg_thumbNailEnable = 0, mjpg_sourceFormat = 0, streamInfoObtained = 0, profile = 0, level = 0, interlace = 0,
     constraint_set_flag = [0, 0, 0, 0], direct8x8Flag = 0, vc1_psf = 0, aspectRateInfo = 0, errorcode = 0,
     reportBufSize = \<lparr>frameBufStatBufSize = 0, mbInfoBufSize = 0, mvInfoBufSize = 0\<rparr>\<rparr>"

definition zero_output :: DecOutputInfo where
  "zero_output = \<lparr>indexFrameDisplay = 0, indexFrameDecoded = 0, NumDecFrameBuf = 0, picType = 0, numOfErrMBs = 0,
     qpInfo = 0, hScaleFlag = 0, vScaleFlag = 0, indexFrameRangemap = 0, prescanresult = 0, notSufficientPsBuffer = 0,
     notSufficientSliceBuffer = 0, decodingSuccess = 0, interlacedFrame = 0, mp4PackedPBframe = 0, h264Npf = 0,
     pictureStructure = 0, topFieldFirst = 0, repeatFirstField = 0, progressiveFrame = 0, fieldSequence = 0,
     decPicHeight = 0, decPicWidth = 0, decPicCrop = zero_rect, out_mbInfo = zero_report, out_mvInfo = zero_report,
     out_frameBufStat = zero_report, out_userData = zero_report\<rparr>"

definition zero_dec_open :: DecOpenParam where
  "zero_dec_open = \<lparr>bitstreamFormat = 0, bitstreamBuffer = 0, bitstreamBufferSize = 0, qpReport = 0, mp4DeblkEnable = 0,
     reorderEnable = 0, dec_chromaInterleave = 0, dec_filePlayEnable = 0, dec_picWidth = 0, dec_picHeight = 0,
     dec_dynamicAllocEnable = 0, streamStartByteOffset = 0, mjpg_thumbNailDecEnable = 0, psSaveBuffer = 0,
     psSaveBufferSize = 0, mp4Class = 0\<rparr>"

definition zero_dec_info :: DecInfo where
  "zero_dec_info = \<lparr>openParam = zero_dec_open, initialInfo = zero_initial, streamWrPtr = 0, streamRdPtrRegAddr = 0,
     streamWrPtrRegAddr = 0, streamBufStartAddr = 0, streamBufEndAddr = 0, frameDisplayFlagRegAddr = 0, streamBufSize = 0,
     frameBufPool = None, numFrameBuffers = 0, stride = 0, rotationEnable = 0, deringEnable = 0, mirrorEnable = 0,
     mirrorDirection = 0, rotationAngle = 0, rotatorOutput = zero_frame, rotatorStride = 0, rotatorOutputValid = 0,
     initialInfoObtained = 0, deBlockingFilterOutput = zero_frame, deBlockingFilterOutputValid = 0, filePlayEnable = 0,
     picSrcSize = 0, dynamicAllocEnable = 0, vc1BframeDisplayValid = 0,
     dbkOffset = \<lparr>DbkOffsetA = 0, DbkOffsetB = 0, DbkOffsetEnable = 0\<rparr>, secAxiUse = sec_zero,
     picParaBaseMem = zero_mem_desc, userDataBufMem = zero_mem_desc, decReportFrameBufStat = zero_report,
     decReportMBInfo = zero_report, decReportMVInfo = zero_report, decReportUserData = zero_report\<rparr>"

definition zero_dec_param :: DecParam where
  "zero_dec_param = \<lparr>prescanEnable = 0, prescanMode = 0, dispReorderBuf = 0, iframeSearchEnable = 0, skipframeMode = 0,
     skipframeNum = 0, chunkSize = 0, picStartByteOffset = 0, picStreamBufferAddr = 0\<rparr>"

definition zero_enc_open :: EncOpenParam where
  "zero_enc_open = \<lparr>enc_bitstreamBuffer = 0, enc_bitstreamBufferSize = 0, enc_bitstreamFormat = 0, enc_picWidth = 0,
     enc_picHeight = 0, enc_frameRateInfo = 0, bitRate = 0, initialDelay = 0, vbvBufferSize = 0, gopSize = 0,
     slicemode = \<lparr>sliceMode = 0, sliceSizeMode = 0, sliceSize = 0\<rparr>, intraRefresh = 0, sliceReport = 0, mbReport = 0,
     mbQpReport = 0, rcIntraQp = 0, enc_chromaInterleave = 0, enc_dynamicAllocEnable = 0, enc_ringBufferEnable = 0,
     mp4Param = \<lparr>mp4_dataPartitionEnable = 0, mp4_reversibleVlcEnable = 0, mp4_intraDcVlcThr = 0, mp4_hecEnable = 0, mp4_verid = 0\<rparr>,
     h263Param = \<lparr>h263_annexJEnable = 0, h263_annexKEnable = 0, h263_annexTEnable = 0\<rparr>,
     avcParam = \<lparr>avc_constrainedIntraPredFlag = 0, avc_disableDeblk = 0, avc_deblkFilterOffsetAlpha = 0,
       avc_deblkFilterOffsetBeta = 0, avc_chromaQpOffset = 0, avc_audEnable = 0, avc_fmoEnable = 0, avc_fmoSliceNum = 0,
       avc_fmoType = 0, avc_fmoSliceSaveBufSize = 0\<rparr>,
     mjpgParam = \<lparr>enc_mjpg_sourceFormat = 0, mjpg_restartInterval = 0, enc_mjpg_thumbNailEnable = 0,
       mjpg_thumbNailWidth = 0, mjpg_thumbNailHeight = 0, mjpg_hufTable = [], mjpg_qMatTable = []\<rparr>,
     userQpMin = 0, userQpMax = 0, userQpMinEnable = 0, userQpMaxEnable = 0, userGamma = 0, RcIntervalMode = 0,
     MbInterval = 0, avcIntra16x16OnlyModeEnable = 0\<rparr>"

definition zero_enc_report :: EncReportInfo where
  "zero_enc_report = \<lparr>erep_enable = 0, erep_type = 0, erep_size = 0, erep_addr = 0\<rparr>"

definition zero_enc_info :: EncInfo where
  "zero_enc_info = \<lparr>enc_openParam = zero_enc_open,
     enc_initialInfo = \<lparr>enc_minFrameBufferCount = 0, sliceInfoBufSize = 0, enc_mbInfoBufSize = 0, enc_mvInfoBufSize = 0\<rparr>,
     streamRdPtr = 0, enc_streamRdPtrRegAddr = 0, enc_streamWrPtrRegAddr = 0, enc_streamBufStartAddr = 0,
     enc_streamBufEndAddr = 0, enc_streamBufSize = 0, enc_frameBufPool = None, enc_numFrameBuffers = 0, enc_stride = 0,
     enc_rotationEnable = 0, enc_mirrorEnable = 0, enc_mirrorDirection = 0, enc_rotationAngle = 0,
     enc_initialInfoObtained = 0, enc_dynAlloc = 0, ringBufferEnable = 0, enc_secAxiUse = sec_zero,
     encReportMBInfo = zero_enc_report, encReportMVInfo = zero_enc_report, encReportSliceInfo = zero_enc_report,
     enc_picParaBaseMem = zero_mem_desc, searchRamMem = zero_mem_desc\<rparr>"

text \<open>The codec-specific part of an instance after the \<^verbatim>\<open>memset\<close> of \<^verbatim>\<open>GetCodecInstance\<close>.\<close>

definition zero_codec :: codec_ext where
  "zero_codec = codec_inst.fields zero_enc_info
     zero_dec_info zero_dec_param"

end
