(* ===== verification/Vpu_Cmd.thy ===== *)
theory Vpu_Cmd
  imports Vpu_IO Vpu_Types
begin

unbundle bit_operations_syntax

text \<open>
  Starting, resetting and commanding the BIT processor: the hardware part of
  \<^verbatim>\<open>src/lib/vpu_util.c\<close> and the first functions of \<^verbatim>\<open>src/lib/vpu_lib.c\<close> (\<^verbatim>\<open>vpu_Init\<close>,
  \<^verbatim>\<open>vpu_SWReset\<close>, \<^verbatim>\<open>vpu_GetVersionInfo\<close>). Every register access is an \<^verbatim>\<open>ioctl\<close> of the
  access layer. The busy-waiting loops are partial functions: \<open>None\<close> also stands for a loop
  that never ends.
\<close>

section \<open>Registers and commands\<close>

abbreviation (input) "BIT_CODE_DOWN \<equiv> 0x004 :: u32"
abbreviation (input) "BIT_CODE_BUF_ADDR \<equiv> 0x100 :: u32"
abbreviation (input) "BIT_WORK_BUF_ADDR \<equiv> 0x104 :: u32"
abbreviation (input) "BIT_PARA_BUF_ADDR \<equiv> 0x108 :: u32"
abbreviation (input) "BIT_BIT_STREAM_CTRL \<equiv> 0x10C :: u32"
abbreviation (input) "BIT_FRAME_MEM_CTRL \<equiv> 0x110 :: u32"
abbreviation (input) "BIT_BIT_STREAM_PARAM \<equiv> 0x114 :: u32"
abbreviation (input) "BIT_RESET_CTRL \<equiv> 0x11C :: u32"
abbreviation (input) "BIT_BUSY_FLAG \<equiv> 0x160 :: u32"
abbreviation (input) "BIT_RUN_COMMAND \<equiv> 0x164 :: u32"
abbreviation (input) "BIT_RUN_INDEX \<equiv> 0x168 :: u32"
abbreviation (input) "BIT_RUN_COD_STD \<equiv> 0x16C :: u32"
abbreviation (input) "BIT_INT_ENABLE \<equiv> 0x170 :: u32"
abbreviation (input) "BIT_RUN_AUX_STD \<equiv> 0x178 :: u32"
abbreviation (input) "RET_VER_NUM \<equiv> 0x1C0 :: u32"

abbreviation (input) SEQ_INIT :: int where "SEQ_INIT \<equiv> 1"
abbreviation (input) SEQ_END :: int where "SEQ_END \<equiv> 2"
abbreviation (input) PIC_RUN :: int where "PIC_RUN \<equiv> 3"
abbreviation (input) SET_FRAME_BUF :: int where "SET_FRAME_BUF \<equiv> 4"
abbreviation (input) ENCODE_HEADER :: int where "ENCODE_HEADER \<equiv> 5"
abbreviation (input) ENC_PARA_SET :: int where "ENC_PARA_SET \<equiv> 6"
abbreviation (input) DEC_PARA_SET :: int where "DEC_PARA_SET \<equiv> 7"
abbreviation (input) DEC_BUF_FLUSH :: int where "DEC_BUF_FLUSH \<equiv> 8"
abbreviation (input) RC_CHANGE_PARAMETER :: int where "RC_CHANGE_PARAMETER \<equiv> 9"
abbreviation (input) VPU_WAKE :: int where "VPU_WAKE \<equiv> 11"
abbreviation (input) FIRMWARE_GET :: int where "FIRMWARE_GET \<equiv> 15"

definition BitIssueCommand :: "io_env \<Rightarrow> int \<Rightarrow> int \<Rightarrow> int \<Rightarrow> 'i vpu_lib \<Rightarrow> 'i vpu_lib option" where
  "BitIssueCommand e instIdx cdcMode cmd s =
     do { s \<leftarrow> IOClkGateSet e True s;
          s \<leftarrow> write_regs e [(BIT_BUSY_FLAG, 1), (BIT_RUN_INDEX, of_int instIdx),
                 (BIT_RUN_COD_STD, of_int cdcMode), (BIT_RUN_COMMAND, of_int cmd)] s;
          IOClkGateSet e False s }"

section \<open>Waiting\<close>

text \<open>\<^verbatim>\<open>while (VpuReadReg(BIT_BUSY_FLAG));\<close>\<close>

partial_function (option) wait_idle :: "io_env \<Rightarrow> 'i vpu_lib \<Rightarrow> 'i vpu_lib option" where
  "wait_idle e s =
     do { (v, s) \<leftarrow> VpuReadReg e BIT_BUSY_FLAG s;
          if v \<noteq> 0 then wait_idle e s else Some s }"

definition vpu_IsBusy :: "io_env \<Rightarrow> 'i vpu_lib \<Rightarrow> (bool \<times> 'i vpu_lib) option" where
  "vpu_IsBusy e s =
     do { s \<leftarrow> IOClkGateSet e True s;
          (v, s) \<leftarrow> VpuReadReg e BIT_BUSY_FLAG s;
          s \<leftarrow> IOClkGateSet e False s;
          Some (v \<noteq> 0, s) }"

partial_function (option) wait_not_busy :: "io_env \<Rightarrow> 'i vpu_lib \<Rightarrow> 'i vpu_lib option" where
  "wait_not_busy e s =
     do { (b, s) \<leftarrow> vpu_IsBusy e s;
          if b then wait_not_busy e s else Some s }"

definition vpu_WaitForInt :: "io_env \<Rightarrow> int \<Rightarrow> 'i vpu_lib \<Rightarrow> (int \<times> 'i vpu_lib) option" where
  "vpu_WaitForInt e timeout_in_ms s = IOWaitForInt e timeout_in_ms s"

text \<open>\<^verbatim>\<open>WaitBitBusyClear\<close>: a poll, then polls until a second of the wall clock has passed.\<close>

definition gettimeofday :: "io_env \<Rightarrow> 'i vpu_lib \<Rightarrow> (int \<times> int) \<times> 'i vpu_lib" where
  "gettimeofday e s = (clock e (n_clock s), s\<lparr>n_clock := Suc (n_clock s)\<rparr>)"

definition elapsed_ms :: "int \<times> int \<Rightarrow> int \<times> int \<Rightarrow> int" where
  "elapsed_ms t0 now = (fst now - fst t0) * 1000 + c_div (snd now - snd t0) 1000"

partial_function (option) busy_loop :: "io_env \<Rightarrow> int \<times> int \<Rightarrow> 'i vpu_lib \<Rightarrow> 'i vpu_lib option" where
  "busy_loop e t0 s =
     do { (v, s) \<leftarrow> VpuReadReg e BIT_BUSY_FLAG s;
          if v = 0 then Some s
          else case gettimeofday e s of
                 (now, s) \<Rightarrow> if elapsed_ms t0 now < 1000 then busy_loop e t0 s else Some s }"

definition WaitBitBusyClear :: "io_env \<Rightarrow> 'i vpu_lib \<Rightarrow> 'i vpu_lib option" where
  "WaitBitBusyClear e s =
     do { (v, s) \<leftarrow> VpuReadReg e BIT_BUSY_FLAG s;
          if v = 0 then Some s
          else case gettimeofday e s of (t0, s) \<Rightarrow> busy_loop e t0 s }"

section \<open>Initialisation\<close>

text \<open>
  The stores of the firmware into the code buffer at \<open>base\<close>; a store past its 64 KB is an
  access outside the mapping.
\<close>

definition store_code :: "u32 \<Rightarrow> (nat \<times> u32) list \<Rightarrow> (u32 \<Rightarrow> u32) \<Rightarrow> (u32 \<Rightarrow> u32) option" where
  "store_code base ws m =
     (if list_all (\<lambda>w. fst w < 0x4000) ws
      then Some (foldl (\<lambda>m w. m(base + 4 * of_nat (fst w) := snd w)) m ws) else None)"

text \<open>The 2048 elements of the boot code, as \<^verbatim>\<open>vpu_Init\<close> writes them.\<close>

definition boot_words :: "u16 list \<Rightarrow> (u32 \<times> u32) list" where
  "boot_words code = map (\<lambda>i. (BIT_CODE_DOWN, push_bit 16 (of_nat i) OR ucast (code ! i))) [0 ..< 2048]"

text \<open>\<^verbatim>\<open>STREAM_ENDIAN\<close>, the disabled checks and \<^verbatim>\<open>BUF_PIC_FLUSH << BIT_BUF_PIC_FLUSH\<close> of this build.\<close>

definition stream_ctrl :: u32 where
  "stream_ctrl = (0 OR push_bit 1 0) OR (push_bit 2 1 OR push_bit 3 0)"

definition vpu_boot :: "io_env \<Rightarrow> 'i vpu_lib \<Rightarrow> (RetCode \<times> 'i vpu_lib) option" where
  "vpu_boot e s =
     (let codeBuffer = phy_addr (code_buf s); workBuffer = phy_addr (bit_work_addr s);
          paraBuffer = phy_addr (para_buf s) + PARA_BUF2_SIZE; sr = system_rev s
      in case DownloadBitCodeTable sr (fw_stack e) (fw_beyond e) (firmware e) (virt_codeBuf s \<noteq> 0) (malloc_ok e) of
           (ret, bit_code, stores) \<Rightarrow>
             if ret \<noteq> RETCODE_SUCCESS then do { s \<leftarrow> UnlockVpu e s; Some (RETCODE_FAILURE, s) }
             else do {
               m \<leftarrow> store_code (virt_codeBuf s) stores (umem s);
               s \<leftarrow> IOClkGateSet e True (s\<lparr>umem := m\<rparr>);
               s \<leftarrow> write_regs e [(BIT_WORK_BUF_ADDR, workBuffer), (BIT_PARA_BUF_ADDR, paraBuffer),
                      (BIT_CODE_BUF_ADDR, codeBuffer)] s;
               s \<leftarrow> write_regs e (if \<not> cpu_is_mx5x sr then [(BIT_RESET_CTRL, 0)] else []) s;
               s \<leftarrow> VpuWriteReg e BIT_BIT_STREAM_PARAM 0 s;
               (pc, s) \<leftarrow> (if \<not> cpu_is_mx27 sr then VpuReadReg e BIT_CUR_PC s else Some (0, s));
               if pc \<noteq> 0 then do {
                 s \<leftarrow> VpuWriteReg e BIT_INT_ENABLE 8 s;
                 s \<leftarrow> IOClkGateSet e False s;
                 s \<leftarrow> UnlockVpu e s;
                 Some (RETCODE_SUCCESS, s)
               } else do {
                 s \<leftarrow> VpuWriteReg e BIT_CODE_RUN 0 s;
                 s \<leftarrow> write_regs e (boot_words bit_code) s;
                 s \<leftarrow> write_regs e [(BIT_BIT_STREAM_CTRL, stream_ctrl), (BIT_FRAME_MEM_CTRL, 0), (BIT_INT_ENABLE, 8)] s;
                 s \<leftarrow> write_regs e (if cpu_is_mx5x sr then [(BIT_AXI_SRAM_USE, 0)] else []) s;
                 s \<leftarrow> (if cpu_is_mx27 sr then ResetVpu e s else Some s);
                 s \<leftarrow> write_regs e (if cpu_is_mx37 sr then [(BIT_AXI_SRAM_USE, 0)] else []) s;
                 s \<leftarrow> write_regs e [(BIT_BUSY_FLAG, 1), (BIT_CODE_RUN, 1)] s;
                 s \<leftarrow> WaitBitBusyClear e s;
                 s \<leftarrow> IOClkGateSet e False s;
                 s \<leftarrow> UnlockVpu e s;
                 Some (RETCODE_SUCCESS, s) } })"

definition vpu_Init :: "io_env \<Rightarrow> 'i vpu_lib \<Rightarrow> (RetCode \<times> 'i vpu_lib) option" where
  "vpu_Init e s =
     do { (err, s) \<leftarrow> IOSystemInit e s;
          if err \<noteq> 0 then Some (RETCODE_FAILURE, s)
          else do {
            (ok, s) \<leftarrow> LockVpu e s;
            if \<not> ok then do { (_, s) \<leftarrow> IOSystemShutdown e s; Some (RETCODE_FAILURE_TIMEOUT, s) }
            else do {
              let s = s\<lparr>virt_codeBuf := virt_uaddr (code_buf s), virt_paraBuf := virt_uaddr (para_buf s) + PARA_BUF2_SIZE,
                        virt_paraBuf2 := virt_uaddr (para_buf s)\<rparr>;
              (running, s) \<leftarrow> isVpuInitialized e s;
              if running then do { s \<leftarrow> UnlockVpu e s; Some (RETCODE_SUCCESS, s) }
              else vpu_boot e s } } }"

definition vpu_UnInit :: "io_env \<Rightarrow> 'i vpu_lib \<Rightarrow> 'i vpu_lib option" where
  "vpu_UnInit e s = do { (_, s) \<leftarrow> IOSystemShutdown e s; Some s }"

section \<open>Reset and version\<close>

fun read_all :: "io_env \<Rightarrow> u32 list \<Rightarrow> 'i vpu_lib \<Rightarrow> (u32 list \<times> 'i vpu_lib) option" where
  "read_all e [] s = Some ([], s)"
| "read_all e (a # as) s =
     do { (v, s) \<leftarrow> VpuReadReg e a s; (vs, s) \<leftarrow> read_all e as s; Some (v # vs, s) }"

definition saved_regs :: "u32 list" where
  "saved_regs = map (\<lambda>i. BIT_CODE_BUF_ADDR + 4 * of_nat i) [0 ..< 64]"

text \<open>The boot code as \<^verbatim>\<open>vpu_SWReset\<close> takes it back from the code buffer.\<close>

definition half_words :: "nat \<Rightarrow> u32 \<Rightarrow> (u32 \<times> u32) list" where
  "half_words i data =
     [(BIT_CODE_DOWN, push_bit 16 (of_nat i) OR (drop_bit 16 data AND 0xFFFF)),
      (BIT_CODE_DOWN, push_bit 16 (of_nat (i + 1)) OR (data AND 0xFFFF))]"

definition reload_words :: "u32 \<Rightarrow> (nat \<Rightarrow> u32) \<Rightarrow> (u32 \<times> u32) list" where
  "reload_words sr p =
     (if cpu_is_mx5x sr
      then concat (map (\<lambda>j. half_words (4 * j) (p (2 * j + 1)) @ half_words (4 * j + 2) (p (2 * j))) [0 ..< 512])
      else concat (map (\<lambda>j. half_words (2 * j) (if cpu_is_mx37 sr then swab32 (p j) else p j)) [0 ..< 1024]))"

definition FreeInstance :: "nat \<Rightarrow> 'i vpu_lib \<Rightarrow> 'i vpu_lib" where
  "FreeInstance i s = s\<lparr>sem := (sem s)\<lparr>codecInstPool := FreeCodecInstance i (codecInstPool (sem s))\<rparr>\<rparr>"

definition code_word :: "'i vpu_lib \<Rightarrow> nat \<Rightarrow> u32" where
  "code_word s k = umem s (virt_codeBuf s + 4 * of_nat k)"

definition reset_core :: "io_env \<Rightarrow> 'i vpu_lib \<Rightarrow> 'i vpu_lib option" where
  "reset_core e s =
     do { (regBk, s) \<leftarrow> read_all e saved_regs s;
          (_, s) \<leftarrow> IOSysSWReset e s;
          s \<leftarrow> write_regs e (zip saved_regs regBk) s;
          s \<leftarrow> VpuWriteReg e BIT_CODE_RUN 0 s;
          s \<leftarrow> write_regs e (reload_words (system_rev s) (code_word s)) s;
          s \<leftarrow> write_regs e [(BIT_BUSY_FLAG, 1), (BIT_CODE_RUN, 1)] s;
          s \<leftarrow> wait_not_busy e s;
          s \<leftarrow> BitIssueCommand e 0 0 VPU_WAKE s;
          wait_not_busy e s }"

text \<open>\<open>h\<close> is \<open>None\<close> for a null handle.\<close>

definition vpu_SWReset :: "io_env \<Rightarrow> handle option \<Rightarrow> int \<Rightarrow> 'i vpu_lib \<Rightarrow> (RetCode \<times> 'i vpu_lib) option" where
  "vpu_SWReset e h index s =
     (case h of
        None \<Rightarrow>
          if index < 0 \<or> index \<ge> int MAX_NUM_INSTANCE then Some (RETCODE_FAILURE, s)
          else do {
            (ok, s) \<leftarrow> LockVpu e s;
            if \<not> ok then Some (RETCODE_FAILURE_TIMEOUT, s)
            else do { s \<leftarrow> UnlockVpu e (FreeInstance (nat index) s); Some (RETCODE_SUCCESS, s) } }
      | Some h \<Rightarrow>
          let pool = codecInstPool (sem s);
              ret = (if CheckDecInstanceValidity (system_rev s) pool h \<noteq> RETCODE_SUCCESS
                     then CheckEncInstanceValidity (system_rev s) pool h else RETCODE_SUCCESS)
          in if ret \<noteq> RETCODE_SUCCESS then Some (ret, s)
             else if pendingInst (sem s) \<noteq> None \<and> map_option Slot (pendingInst (sem s)) \<noteq> Some h
             then Some (RETCODE_FAILURE, s)
             else do {
               s \<leftarrow> UnlockVpu e s;
               (ok, s) \<leftarrow> LockVpu e s;
               if \<not> ok then Some (RETCODE_FAILURE_TIMEOUT, s)
               else do {
                 s \<leftarrow> reset_core e s;
                 s \<leftarrow> UnlockVpu e s;
                 Some (RETCODE_SUCCESS, s) } })"

record vpu_versioninfo =
  fw_major :: int
  fw_minor :: int
  fw_release :: int
  lib_major :: int
  lib_minor :: int
  lib_release :: int

abbreviation (input) VPU_LIB_VERSION_CODE :: int where "VPU_LIB_VERSION_CODE \<equiv> 5 * 4096 + 1 * 256 + 4"

definition version_info :: "u32 \<Rightarrow> RetCode \<times> vpu_versioninfo" where
  "version_info ver =
     (let pn = ucast (drop_bit 16 ver) :: u16; version = uint (ucast ver :: u16)
      in (if pn \<in> {0xF000, 0xF001, 0xF002, 0xF004, 0xF005, 0xF405, 0xF009, 0xF00A, 0xF012}
          then RETCODE_SUCCESS else RETCODE_FAILURE,
          \<lparr>fw_major = drop_bit 12 version AND 0x0f, fw_minor = drop_bit 8 version AND 0x0f, fw_release = version AND 0xff,
           lib_major = drop_bit 12 VPU_LIB_VERSION_CODE AND 0x0f, lib_minor = drop_bit 8 VPU_LIB_VERSION_CODE AND 0x0f,
           lib_release = VPU_LIB_VERSION_CODE AND 0xff\<rparr>))"

text \<open>The structure of the caller is filled only after a successful read of the version.\<close>

definition vpu_GetVersionInfo ::
    "io_env \<Rightarrow> 'i vpu_lib \<Rightarrow> (RetCode \<times> vpu_versioninfo option \<times> 'i vpu_lib) option" where
  "vpu_GetVersionInfo e s =
     do { (running, s) \<leftarrow> isVpuInitialized e s;
          if \<not> running then Some (RETCODE_NOT_INITIALIZED, None, s)
          else do {
            (ok, s) \<leftarrow> LockVpu e s;
            if \<not> ok then Some (RETCODE_FAILURE_TIMEOUT, None, s)
            else do {
              s \<leftarrow> VpuWriteReg e RET_VER_NUM 0 s;
              s \<leftarrow> BitIssueCommand e 0 0 FIRMWARE_GET s;
              s \<leftarrow> WaitBitBusyClear e s;
              (ver, s) \<leftarrow> VpuReadReg e RET_VER_NUM s;
              s \<leftarrow> UnlockVpu e s;
              if ver = 0 then Some (RETCODE_FAILURE, None, s)
              else case version_info ver of (ret, info) \<Rightarrow> Some (ret, Some info, s) } } }"

section \<open>Encoder and decoder commands\<close>

abbreviation (input) "CMD_ENC_HEADER_CODE \<equiv> 0x180 :: u32"
abbreviation (input) "CMD_ENC_HEADER_BB_START \<equiv> 0x184 :: u32"
abbreviation (input) "CMD_ENC_HEADER_BB_SIZE \<equiv> 0x188 :: u32"

text \<open>\<open>c\<close> is the instance of the handle.\<close>

definition header_code :: "EncHeaderParam \<Rightarrow> u32" where
  "header_code p =
     (if headerType p = 1 \<or> headerType p = 0
      then push_bit 8 (of_int (userProfileLevelIndication p) AND 0xFF) OR
           push_bit 4 (of_int (userProfileLevelEnable p) AND 0x01) OR (of_int (headerType p) AND 0x0F)
      else of_int (headerType p))"

definition EncodeHeader ::
    "io_env \<Rightarrow> codec_inst \<Rightarrow> EncHeaderParam \<Rightarrow> 'i vpu_lib \<Rightarrow> (EncHeaderParam \<times> 'i vpu_lib) option" where
  "EncodeHeader e c p s =
     do { s \<leftarrow> IOClkGateSet e True s;
          s \<leftarrow> write_regs e (if enc_dynAlloc (encInfo c) = 1
                 then [(CMD_ENC_HEADER_BB_START, hdr_buf p), (CMD_ENC_HEADER_BB_SIZE, hdr_size p)] else []) s;
          s \<leftarrow> VpuWriteReg e CMD_ENC_HEADER_CODE (header_code p) s;
          s \<leftarrow> BitIssueCommand e (instIndex c) (codecMode c) ENCODE_HEADER s;
          s \<leftarrow> wait_idle e s;
          (rdPtr, s) \<leftarrow> VpuReadReg e (if enc_dynAlloc (encInfo c) = 1 then CMD_ENC_HEADER_BB_START
                 else enc_streamRdPtrRegAddr (encInfo c)) s;
          (wrPtr, s) \<leftarrow> VpuReadReg e (enc_streamWrPtrRegAddr (encInfo c)) s;
          s \<leftarrow> IOClkGateSet e False s;
          Some (p\<lparr>hdr_buf := rdPtr, hdr_size := wrPtr - rdPtr\<rparr>, s) }"

definition DecBitstreamBufEmpty :: "io_env \<Rightarrow> DecInfo \<Rightarrow> 'i vpu_lib \<Rightarrow> (bool \<times> 'i vpu_lib) option" where
  "DecBitstreamBufEmpty e d s =
     do { s \<leftarrow> IOClkGateSet e True s;
          (rdPtr, s) \<leftarrow> VpuReadReg e (streamRdPtrRegAddr d) s;
          (wrPtr, s) \<leftarrow> VpuReadReg e (streamWrPtrRegAddr d) s;
          s \<leftarrow> IOClkGateSet e False s;
          Some (rdPtr = wrPtr, s) }"

text \<open>\<^verbatim>\<open>GetParaSet\<close> returns the address and the size of the parameter set.\<close>

definition GetParaSet :: "io_env \<Rightarrow> codec_inst \<Rightarrow> int \<Rightarrow> 'i vpu_lib \<Rightarrow> ((u32 \<times> u32) \<times> 'i vpu_lib) option" where
  "GetParaSet e c paraSetType s =
     do { s \<leftarrow> IOClkGateSet e True s;
          s \<leftarrow> VpuWriteReg e 0x180 (of_int paraSetType) s;
          s \<leftarrow> BitIssueCommand e (instIndex c) (codecMode c) ENC_PARA_SET s;
          s \<leftarrow> wait_idle e s;
          (n, s) \<leftarrow> VpuReadReg e 0x1C0 s;
          s \<leftarrow> IOClkGateSet e False s;
          Some ((virt_paraBuf s, n), s) }"

definition store_words :: "u32 \<Rightarrow> u32 list \<Rightarrow> (u32 \<Rightarrow> u32) \<Rightarrow> u32 \<Rightarrow> u32" where
  "store_words base ws m = foldl (\<lambda>m i. m(base + 4 * of_nat i := ws ! i)) m [0 ..< length ws]"

text \<open>
  \<^verbatim>\<open>SetParaSet\<close> copies as many words as the caller says; reading past the array of the caller or
  storing past the parameter buffer is an access outside the objects.
\<close>

definition para_words :: "DecParamSet \<Rightarrow> nat" where
  "para_words para = nat (c_div (para_size para) 4)"

definition SetParaSet :: "io_env \<Rightarrow> codec_inst \<Rightarrow> int \<Rightarrow> DecParamSet \<Rightarrow> 'i vpu_lib \<Rightarrow> 'i vpu_lib option" where
  "SetParaSet e c paraSetType para s =
     (if para_words para > length (paraSet para) \<or> 4 * para_words para > unat PARA_BUF_SIZE then None
      else do {
          let s = s\<lparr>umem := store_words (virt_paraBuf s) (take (para_words para) (paraSet para)) (umem s)\<rparr>;
          s \<leftarrow> IOClkGateSet e True s;
          s \<leftarrow> write_regs e [(0x180, of_int paraSetType), (0x184, of_int (para_size para))] s;
          s \<leftarrow> write_regs e (if cpu_is_mx5x (system_rev s)
                 then [(BIT_RUN_AUX_STD, if bitstreamFormat (openParam (decInfo c)) = STD_DIV3 then 1 else 0)] else []) s;
          s \<leftarrow> BitIssueCommand e (instIndex c) (codecMode c) DEC_PARA_SET s;
          s \<leftarrow> wait_idle e s;
          IOClkGateSet e False s })"

text \<open>The seven changes of a running encoder share their steps: an enable bit and one register.\<close>

definition change_param :: "io_env \<Rightarrow> codec_inst \<Rightarrow> u32 \<Rightarrow> u32 \<Rightarrow> u32 \<Rightarrow> 'i vpu_lib \<Rightarrow> (RetCode \<times> 'i vpu_lib) option" where
  "change_param e c enable reg v s =
     do { s \<leftarrow> IOClkGateSet e True s;
          s \<leftarrow> write_regs e [(0x180, enable), (reg, v)] s;
          s \<leftarrow> BitIssueCommand e (instIndex c) (codecMode c) RC_CHANGE_PARAMETER s;
          s \<leftarrow> wait_idle e s;
          s \<leftarrow> IOClkGateSet e False s;
          Some (RETCODE_SUCCESS, s) }"

definition SetGopNumber :: "io_env \<Rightarrow> codec_inst \<Rightarrow> u32 \<Rightarrow> 'i vpu_lib \<Rightarrow> (RetCode \<times> 'i vpu_lib) option" where
  "SetGopNumber e c gopNumber = change_param e c 1 0x184 gopNumber"

definition SetIntraQp :: "io_env \<Rightarrow> codec_inst \<Rightarrow> u32 \<Rightarrow> 'i vpu_lib \<Rightarrow> (RetCode \<times> 'i vpu_lib) option" where
  "SetIntraQp e c intraQp = change_param e c (push_bit 1 1) 0x188 intraQp"

definition SetBitrate :: "io_env \<Rightarrow> codec_inst \<Rightarrow> u32 \<Rightarrow> 'i vpu_lib \<Rightarrow> (RetCode \<times> 'i vpu_lib) option" where
  "SetBitrate e c bitrate = change_param e c (push_bit 2 1) 0x18C bitrate"

definition SetFramerate :: "io_env \<Rightarrow> codec_inst \<Rightarrow> u32 \<Rightarrow> 'i vpu_lib \<Rightarrow> (RetCode \<times> 'i vpu_lib) option" where
  "SetFramerate e c framerate = change_param e c (push_bit 3 1) 0x190 framerate"

definition SetIntraRefreshNum :: "io_env \<Rightarrow> codec_inst \<Rightarrow> u32 \<Rightarrow> 'i vpu_lib \<Rightarrow> (RetCode \<times> 'i vpu_lib) option" where
  "SetIntraRefreshNum e c num = change_param e c (push_bit 4 1) 0x194 num"

definition SetSliceMode :: "io_env \<Rightarrow> codec_inst \<Rightarrow> EncSliceMode \<Rightarrow> 'i vpu_lib \<Rightarrow> (RetCode \<times> 'i vpu_lib) option" where
  "SetSliceMode e c m =
     change_param e c (push_bit 5 1) 0x198
       (push_bit 2 (of_int (sliceSize m)) OR push_bit 1 (of_int (sliceSizeMode m)) OR of_int (sliceMode m))"

definition SetHecMode :: "io_env \<Rightarrow> codec_inst \<Rightarrow> int \<Rightarrow> 'i vpu_lib \<Rightarrow> (RetCode \<times> 'i vpu_lib) option" where
  "SetHecMode e c mode = change_param e c (push_bit 6 1) 0x19C (of_int mode)"

end
