(* ===== verification/Vpu_Cmd_Safety.thy ===== *)
theory Vpu_Cmd_Safety
  imports Vpu_IO_Safety Vpu_Cmd
begin

text \<open>
  What the commands of the BIT processor guarantee: which waits end, and that a reset loads the
  boot code that the initialisation loaded.
\<close>

section \<open>Polling\<close>

text \<open>What the \<open>n\<close>th of a row of polls of the busy flag reads; a failing \<^verbatim>\<open>ioctl\<close> reads as 0.\<close>

definition poll :: "io_env \<Rightarrow> 'i vpu_lib \<Rightarrow> nat \<Rightarrow> u32" where
  "poll e s n =
     (let E = ioctl_env e (n_ioctl s + n)
      in if copy_from_ok E \<and> copy_to_left E = 0 then vpu_read E (vpu_reads (kernel s) + n) BIT_BUSY_FLAG else 0)"

lemma read_busy:
  assumes "0 \<le> vpu_fd s"
  shows "\<exists>s'. VpuReadReg e BIT_BUSY_FLAG s = Some (poll e s 0, s') \<and> vpu_fd s' = vpu_fd s \<and> n_clock s' = n_clock s \<and>
    (poll e s 0 \<noteq> 0 \<longrightarrow> (\<forall>n. poll e s' n = poll e s (Suc n)))"
proof -
  have ok: "reg_offset_ok BIT_BUSY_FLAG" by (simp add: reg_offset_ok_def)
  let ?E = "ioctl_env e (n_ioctl s)"
  show ?thesis
    using assms ok
    by (cases "copy_from_ok ?E"; cases "copy_to_left ?E = 0")
      (auto simp: VpuReadReg_def lib_ioctl_def ioctl_reg_read_def READ_REG_def vpu_clk_force_on_def poll_def Let_def)
qed

lemma wait_idle_returns:
  assumes "0 \<le> vpu_fd s" "poll e s n = 0"
  shows "\<exists>s'. wait_idle e s = Some s'"
  using assms
proof (induction n arbitrary: s)
  case 0
  then show ?case using read_busy [OF 0(1), of e] by (subst wait_idle.simps) auto
next
  case (Suc n)
  obtain t where t: "VpuReadReg e BIT_BUSY_FLAG s = Some (poll e s 0, t)" "vpu_fd t = vpu_fd s"
    "poll e s 0 \<noteq> 0 \<longrightarrow> (\<forall>n. poll e t n = poll e s (Suc n))"
    using read_busy [OF Suc.prems(1), of e] by blast
  show ?case
  proof (cases "poll e s 0 = 0")
    case True
    then show ?thesis using t by (subst wait_idle.simps) simp
  next
    case False
    then obtain s' where "wait_idle e t = Some s'" using Suc.IH [of t] Suc.prems t by auto
    then show ?thesis using False t by (subst wait_idle.simps) simp
  qed
qed

lemma wait_idle_polls_zero:
  assumes "wait_idle e s = Some s'" "0 \<le> vpu_fd s"
  shows "\<exists>n. poll e s n = 0"
proof -
  have "0 \<le> vpu_fd s \<longrightarrow> (\<exists>n. poll e s n = 0)"
  proof (rule wait_idle.raw_induct [where P = "\<lambda>e s s'. 0 \<le> vpu_fd s \<longrightarrow> (\<exists>n. poll e s n = 0)", OF _ assms(1)], rule impI)
    fix f e s s'
    assume IH: "\<And>e s s'. f e s = Some s' \<Longrightarrow> 0 \<le> vpu_fd s \<longrightarrow> (\<exists>n. poll e s n = 0)"
      and eq: "do { (v, s) \<leftarrow> VpuReadReg e BIT_BUSY_FLAG s; if v \<noteq> 0 then f e s else Some s } = Some s'"
      and fd: "0 \<le> vpu_fd s"
    obtain t where t: "VpuReadReg e BIT_BUSY_FLAG s = Some (poll e s 0, t)" "vpu_fd t = vpu_fd s"
      "poll e s 0 \<noteq> 0 \<longrightarrow> (\<forall>n. poll e t n = poll e s (Suc n))" using read_busy [OF fd, of e] by blast
    show "\<exists>n. poll e s n = 0"
    proof (cases "poll e s 0 = 0")
      case False
      then have "f e t = Some s'" using eq t(1) by simp
      from IH [OF this] obtain n where "poll e t n = 0" using fd t(2) by auto
      then show ?thesis using t(3) False by auto
    qed blast
  qed
  then show ?thesis using assms(2) by simp
qed

lemma busy_loop_returns:
  assumes "0 \<le> vpu_fd s" "1000 \<le> elapsed_ms t0 (clock e (n_clock s + n))"
  shows "\<exists>s'. busy_loop e t0 s = Some s'"
  using assms
proof (induction n arbitrary: s)
  case 0
  then show ?case using read_busy [OF 0(1), of e] by (subst busy_loop.simps) (auto simp: gettimeofday_def)
next
  case (Suc n)
  obtain t where t: "VpuReadReg e BIT_BUSY_FLAG s = Some (poll e s 0, t)" "vpu_fd t = vpu_fd s" "n_clock t = n_clock s"
    using read_busy [OF Suc.prems(1), of e] by blast
  have "\<exists>s'. busy_loop e t0 (t\<lparr>n_clock := Suc (n_clock t)\<rparr>) = Some s'"
    using Suc.IH [of "t\<lparr>n_clock := Suc (n_clock t)\<rparr>"] Suc.prems t by simp
  then show ?case using t by (subst busy_loop.simps) (auto simp: gettimeofday_def)
qed

text \<open>
  C33. Waiting for the BIT processor. The raw loop \<^verbatim>\<open>while (VpuReadReg(BIT_BUSY_FLAG));\<close>, which
  \<^verbatim>\<open>EncodeHeader\<close>, \<^verbatim>\<open>GetParaSet\<close>, \<^verbatim>\<open>SetParaSet\<close> and the rate control functions use, returns
  exactly when some poll reads 0: a wedged processor keeps it spinning for ever.
  \<^verbatim>\<open>WaitBitBusyClear\<close> returns whatever the processor does, as soon as the wall clock advances by
  a second.
\<close>

theorem busy_waits:
  assumes "0 \<le> vpu_fd s"
  shows "((\<exists>s'. wait_idle e s = Some s') \<longleftrightarrow> (\<exists>n. poll e s n = 0)) \<and>
    ((\<forall>j. \<exists>n. 1000 \<le> elapsed_ms (clock e j) (clock e (Suc j + n))) \<longrightarrow> (\<exists>s'. WaitBitBusyClear e s = Some s'))"
proof (intro conjI impI)
  show "(\<exists>s'. wait_idle e s = Some s') \<longleftrightarrow> (\<exists>n. poll e s n = 0)"
    using wait_idle_returns [OF assms] wait_idle_polls_zero [OF _ assms] by blast
  assume c: "\<forall>j. \<exists>n. 1000 \<le> elapsed_ms (clock e j) (clock e (Suc j + n))"
  obtain t where t: "VpuReadReg e BIT_BUSY_FLAG s = Some (poll e s 0, t)" "vpu_fd t = vpu_fd s" "n_clock t = n_clock s"
    using read_busy [OF assms, of e] by blast
  obtain n where n: "1000 \<le> elapsed_ms (clock e (n_clock s)) (clock e (Suc (n_clock s) + n))" using c by blast
  have "\<exists>s'. busy_loop e (clock e (n_clock s)) (t\<lparr>n_clock := Suc (n_clock s)\<rparr>) = Some s'"
    using busy_loop_returns [of "t\<lparr>n_clock := Suc (n_clock s)\<rparr>" "clock e (n_clock s)" e n] n t assms by simp
  then show "\<exists>s'. WaitBitBusyClear e s = Some s'"
    using t by (auto simp: WaitBitBusyClear_def gettimeofday_def)
qed

definition wedged_io :: io_env where
  "wedged_io = sample_io\<lparr>ioctl_env := \<lambda>_. idle_env\<lparr>vpu_read := \<lambda>_ _. 1\<rparr>\<rparr>"

theorem busy_waits_witness:
  "wait_idle wedged_io open_lib = None \<and> (\<exists>s'. WaitBitBusyClear wedged_io open_lib = Some s')"
proof -
  have "poll wedged_io open_lib n = 1" for n
    by (simp add: poll_def wedged_io_def Let_def)
  moreover have "1000 \<le> elapsed_ms (clock wedged_io j) (clock wedged_io (Suc j + 0))" for j
    by (simp add: elapsed_ms_def wedged_io_def sample_io_def)
  moreover have "0 \<le> vpu_fd open_lib" by (simp add: open_lib_def)
  ultimately show ?thesis using busy_waits [of open_lib wedged_io] by (metis option.exhaust zero_neq_one)
qed

section \<open>The boot code\<close>

lemma store_code_get:
  assumes "store_code base (map (\<lambda>k. (k, f k)) [0 ..< n]) m = Some m'" "k < n"
  shows "m' (base + 4 * of_nat k) = f k"
proof -
  have n: "n \<le> 0x4000"
    using assms(1) stores_below [of f n "0x4000"] by (simp add: store_code_def list_all_iff split: if_splits)
  have m': "m' = foldl (\<lambda>m w. m(base + 4 * of_nat (fst w) := snd w)) m (map (\<lambda>k. (k, f k)) [0 ..< n])"
    using assms(1) by (simp add: store_code_def split: if_splits)
  have "foldl (\<lambda>m w. m(base + 4 * of_nat (fst w) := snd w)) m (map (\<lambda>k. (k, f k)) [0 ..< j]) (base + 4 * of_nat k) = f k"
    if "k < j" "j \<le> n" for j
    using that
  proof (induction j)
    case (Suc j)
    have "4 * k < 2 ^ 32" "4 * j < 2 ^ 32" using Suc.prems assms(2) n by simp_all
    then have "of_nat (4 * k) = (of_nat (4 * j) :: u32) \<longleftrightarrow> 4 * k = 4 * j"
      by (simp add: word_of_nat_eq_iff take_bit_nat_eq_self del: of_nat_mult)
    then have "k = j \<longleftrightarrow> (4 * of_nat k :: u32) = 4 * of_nat j" by simp
    then show ?case using Suc by (cases "k = j") (auto simp: less_Suc_eq)
  qed simp
  then show ?thesis using m' assms(2) by simp
qed

lemma mask_16: "(0xFFFF :: u32) = mask 16"
  by (simp add: mask_eq_exp_minus_1)

lemma pair32_high: "drop_bit 16 (pair32 h l) AND 0xFFFF = ucast h"
  by (rule bit_word_eqI) (auto simp: pair32_def mask_16 bit_simps dest: bit_imp_le_length)

lemma pair32_low: "pair32 h l AND 0xFFFF = ucast l"
  by (rule bit_word_eqI) (auto simp: pair32_def mask_16 bit_simps dest: bit_imp_le_length)

lemma upt_pairs: "map g [0 ..< 2 * n] = concat (map (\<lambda>j. [g (2 * j), g (2 * j + 1)]) [0 ..< n])"
  by (induction n) simp_all

text \<open>
  A software reset reloads what the initialisation loaded: after \<^verbatim>\<open>vpu_Init\<close> has stored the
  image of a firmware of at least 2048 elements in the code buffer, the 2048 words that
  \<^verbatim>\<open>vpu_SWReset\<close> takes from the code buffer and writes to the BIT processor are those that
  \<^verbatim>\<open>vpu_Init\<close> wrote.
\<close>

theorem reset_reloads_boot_code:
  assumes "cpu_is_mx27 sr" "length name = 12" "2048 \<le> length code" "length code \<le> MAX_FW_BINARY_LEN"
    and "0 \<in> set name" "strstr (takeWhile (\<lambda>b. b \<noteq> 0) name) (hex2 0x27)"
    and "DownloadBitCodeTable sr stack beyond (Some (fw_image name code)) True True = (ret, bit_code, stores)"
    and "store_code base stores m = Some m'"
  shows "ret = RETCODE_SUCCESS \<and> reload_words sr (\<lambda>k. m' (base + 4 * of_nat k)) = boot_words bit_code"
proof -
  have mx: "\<not> cpu_is_mx5x sr" "\<not> cpu_is_mx37 sr"
    using assms(1) by (auto simp: cpu_is_mx27_def cpu_is_mx5x_def cpu_is_mx37_def)
  have d: "ret = RETCODE_SUCCESS" "bit_code = code @ replicate (MAX_FW_BINARY_LEN - length code) 0"
    "stores = map (\<lambda>k. (k, pair32 (code ! (2 * k)) (if 2 * k + 1 < length code then code ! (2 * k + 1) else 0)))
      [0 ..< (length code + 1) div 2]"
    using download_image_stores [OF assms(1,2,4,5,6), of stack beyond] assms(7) by simp_all
  have word: "half_words (2 * j) (m' (base + 4 * of_nat j)) =
      [(BIT_CODE_DOWN, push_bit 16 (of_nat (2 * j)) OR ucast (bit_code ! (2 * j))),
       (BIT_CODE_DOWN, push_bit 16 (of_nat (2 * j + 1)) OR ucast (bit_code ! (2 * j + 1)))]" if j: "j < 1024" for j
  proof -
    have l: "j < (length code + 1) div 2" "2 * j + 1 < length code" using j assms(3) by linarith+
    have "m' (base + 4 * of_nat j) = pair32 (code ! (2 * j)) (code ! (2 * j + 1))"
      using store_code_get [OF assms(8) [unfolded d(3)] l(1)] l(2) by simp
    then show ?thesis using l(2) by (simp add: half_words_def pair32_high pair32_low d(2) nth_append)
  qed
  let ?g = "\<lambda>i. (BIT_CODE_DOWN, push_bit 16 (of_nat i) OR ucast (bit_code ! i))"
  have "concat (map (\<lambda>j. half_words (2 * j) (m' (base + 4 * of_nat j))) [0 ..< 1024]) =
      concat (map (\<lambda>j. [?g (2 * j), ?g (2 * j + 1)]) [0 ..< 1024])"
    by (rule arg_cong [where f = concat], rule map_cong [OF refl]) (rule word, simp)
  also have "\<dots> = boot_words bit_code"
    unfolding boot_words_def using upt_pairs [of ?g 1024, symmetric] by simp
  finally have "concat (map (\<lambda>j. half_words (2 * j) (m' (base + 4 * of_nat j))) [0 ..< 1024]) = boot_words bit_code" .
  then show ?thesis using d(1) mx by (simp add: reload_words_def)
qed

theorem reset_reloads_boot_code_witness:
  "\<exists>bit_code stores m'.
     DownloadBitCodeTable 0x27020 [] []
       (Some (fw_image [0x32, 0x37, 0,0,0,0,0,0,0,0,0,0] (replicate 2048 0x1234))) True True =
     (RETCODE_SUCCESS, bit_code, stores) \<and> store_code 0 stores (\<lambda>_. 0) = Some m' \<and>
     reload_words 0x27020 (\<lambda>k. m' (4 * of_nat k)) = boot_words bit_code"
proof -
  let ?name = "[0x32, 0x37, 0,0,0,0,0,0,0,0,0,0] :: u8 list"
  define code :: "u16 list" where "code = replicate 2048 0x1234"
  have l: "length code = 2048" by (simp add: code_def)
  have mx: "cpu_is_mx27 0x27020" by (simp add: cpu_is_mx27_def mxc_cpu_def)
  have n: "strstr (takeWhile (\<lambda>b. b \<noteq> 0) ?name) (hex2 0x27)" by code_simp
  let ?st = "map (\<lambda>k. (k, pair32 (code ! (2 * k)) (if 2 * k + 1 < length code then code ! (2 * k + 1) else 0)))
    [0 ..< (length code + 1) div 2]"
  have d: "DownloadBitCodeTable 0x27020 [] [] (Some (fw_image ?name code)) True True =
      (RETCODE_SUCCESS, code @ replicate (MAX_FW_BINARY_LEN - length code) 0, ?st)"
    by (rule download_image_stores [OF mx _ _ _ n]) (simp_all add: l)
  have "list_all (\<lambda>w. fst w < 0x4000) ?st" by (simp add: l list_all_iff del: upt_Suc)
  then obtain m' where m: "store_code 0 ?st (\<lambda>_. 0) = Some m'" by (simp add: store_code_def)
  show ?thesis
    using reset_reloads_boot_code [OF mx _ _ _ _ n d m] d m l unfolding code_def [symmetric] by force
qed

end
