(* ===== verification/Vpu_Dec.thy ===== *)
theory Vpu_Dec
  imports Vpu_Cmd
begin

unbundle bit_operations_syntax

text \<open>
  The decoder interface of \<^verbatim>\<open>src/lib/vpu_lib.c\<close>. A call takes the state of the library with the
  pool of codec instances and returns the code together with what it writes to the caller's
  structures; \<open>None\<close> stands for an access outside the objects of the process or of the kernel and
  for a wait that never ends. Registers have the offsets of the IMX27ADS build; the branches for
  the other processors, which \<^verbatim>\<open>cpu_is_mx37\<close> and its relatives select at run time, are kept.
\<close>

type_synonym dec_lib = "codec_ext vpu_lib"

section \<open>Steps that the calls share\<close>

definition the_inst :: "dec_lib \<Rightarrow> nat \<Rightarrow> codec_inst" where
  "the_inst s i = codecInstPool (sem s) ! i"

definition upd_inst :: "nat \<Rightarrow> (codec_inst \<Rightarrow> codec_inst) \<Rightarrow> dec_lib \<Rightarrow> dec_lib" where
  "upd_inst i f s = s\<lparr>sem := (sem s)\<lparr>codecInstPool := (codecInstPool (sem s))[i := f (the_inst s i)]\<rparr>\<rparr>"

definition upd_dec :: "nat \<Rightarrow> (DecInfo \<Rightarrow> DecInfo) \<Rightarrow> dec_lib \<Rightarrow> dec_lib" where
  "upd_dec i f s = upd_inst i (\<lambda>c. c\<lparr>decInfo := f (decInfo c)\<rparr>) s"

definition set_pending :: "nat option \<Rightarrow> dec_lib \<Rightarrow> dec_lib" where
  "set_pending p s = s\<lparr>sem := (sem s)\<lparr>pendingInst := p\<rparr>\<rparr>"

text \<open>The check of the handle, and the lock with its timeout; \<open>out\<close> builds the result from the code.\<close>

definition dec_call ::
    "handle \<Rightarrow> (RetCode \<Rightarrow> 'r) \<Rightarrow> (nat \<Rightarrow> dec_lib \<Rightarrow> ('r \<times> dec_lib) option) \<Rightarrow> dec_lib \<Rightarrow> ('r \<times> dec_lib) option" where
  "dec_call h out body s =
     (let ret = CheckDecInstanceValidity (system_rev s) (codecInstPool (sem s)) h
      in if ret \<noteq> RETCODE_SUCCESS then Some (out ret, s)
         else case h of Slot i \<Rightarrow> body i s | Wild \<Rightarrow> Some (out RETCODE_INVALID_HANDLE, s))"

definition locked ::
    "io_env \<Rightarrow> (RetCode \<Rightarrow> 'r) \<Rightarrow> (dec_lib \<Rightarrow> ('r \<times> dec_lib) option) \<Rightarrow> dec_lib \<Rightarrow> ('r \<times> dec_lib) option" where
  "locked e out body s =
     do { (ok, s) \<leftarrow> LockVpu e s;
          if \<not> ok then Some (out RETCODE_FAILURE_TIMEOUT, s) else body s }"

definition unlock :: "io_env \<Rightarrow> 'r \<Rightarrow> dec_lib \<Rightarrow> ('r \<times> dec_lib) option" where
  "unlock e r s = do { s \<leftarrow> UnlockVpu e s; Some (r, s) }"

definition aux_std :: "u32 \<Rightarrow> DecInfo \<Rightarrow> (u32 \<times> u32) list" where
  "aux_std sr d =
     (if cpu_is_mx5x sr then [(BIT_RUN_AUX_STD, if bitstreamFormat (openParam d) = STD_DIV3 then 1 else 0)] else [])"

text \<open>A command to the BIT processor on behalf of instance \<open>i\<close>, and the bounded wait for it.\<close>

definition run_cmd :: "io_env \<Rightarrow> nat \<Rightarrow> int \<Rightarrow> dec_lib \<Rightarrow> dec_lib option" where
  "run_cmd e i cmd s = BitIssueCommand e (instIndex (the_inst s i)) (codecMode (the_inst s i)) cmd s"

text \<open>Memory for the reports of the decoder: \<open>n\<close> bytes for the descriptor \<open>m\<close>.\<close>

definition alloc_report ::
    "io_env \<Rightarrow> u32 \<Rightarrow> vpu_mem_desc \<Rightarrow> dec_lib \<Rightarrow> (bool \<times> vpu_mem_desc \<times> dec_lib) option" where
  "alloc_report e n m s =
     do { (r, m, s) \<leftarrow> IOGetPhyMem e (m\<lparr>mem_size := n\<rparr>) s;
          if r \<noteq> 0 then Some (False, m, s)
          else case IOGetVirtMem e m s of
            (va, m, s) \<Rightarrow>
              if va \<le> 0 then do { (m, s) \<leftarrow> IOFreePhyMem e m s; Some (False, m\<lparr>phy_addr := 0\<rparr>, s) }
              else Some (True, m, s) }"

definition user_data_mem :: "io_env \<Rightarrow> nat \<Rightarrow> dec_lib \<Rightarrow> (bool \<times> dec_lib) option" where
  "user_data_mem e i s =
     (let d = decInfo (the_inst s i); n = of_int (rep_size (decReportUserData d))
      in if rep_enable (decReportUserData d) \<noteq> 0 \<and> phy_addr (userDataBufMem d) = 0
         then do {
           (ok, m, s) \<leftarrow> alloc_report e n (userDataBufMem d) s;
           let s = upd_dec i (\<lambda>d. d\<lparr>userDataBufMem := m\<rparr>) s;
           s \<leftarrow> write_regs e (if ok then [(0x1AC, phy_addr m), (0x1B0, n)] else []) s;
           Some (ok, s) }
         else Some (True, s))"

section \<open>Opening and closing\<close>

definition dec_mode :: "u32 \<Rightarrow> int \<Rightarrow> int \<Rightarrow> int" where
  "dec_mode sr fmt old =
     (if cpu_is_mx27 sr then (if fmt = STD_AVC then AVC_DEC else MP4_DEC)
      else if fmt = STD_MPEG4 then MP4_DEC
      else if fmt = STD_AVC then AVC_DEC
      else if fmt = STD_VC1 then VC1_DEC
      else if fmt = STD_MPEG2 then MP2_DEC
      else if fmt = STD_DIV3 then DV3_DEC
      else if fmt = STD_RV then RV_DEC
      else if fmt = STD_MJPG then MJPG_DEC
      else old)"

text \<open>The three tables of registers of the instances; an index past their ends is \<open>None\<close>.\<close>

definition ptr_regs :: "int \<Rightarrow> (u32 \<times> u32 \<times> u32) option" where
  "ptr_regs idx =
     (if 0 \<le> idx \<and> idx < 4
      then Some ([0x120, 0x128, 0x130, 0x138] ! nat idx, [0x124, 0x12C, 0x134, 0x13C] ! nat idx,
             [0x140, 0x144, 0x148, 0x14C] ! nat idx)
      else None)"

definition open_info :: "u32 \<Rightarrow> DecOpenParam \<Rightarrow> u32 \<times> u32 \<times> u32 \<Rightarrow> DecInfo \<Rightarrow> DecInfo" where
  "open_info sr pop regs d =
     (case regs of (rd, wr, dis) \<Rightarrow>
        d\<lparr>openParam := pop, streamWrPtr := bitstreamBuffer pop, streamRdPtrRegAddr := rd, streamWrPtrRegAddr := wr,
          frameDisplayFlagRegAddr := dis, streamBufStartAddr := bitstreamBuffer pop,
          streamBufSize := bitstreamBufferSize pop,
          streamBufEndAddr := bitstreamBuffer pop + of_int (bitstreamBufferSize pop), frameBufPool := None,
          rotationEnable := 0, mirrorEnable := 0, mirrorDirection := 0, rotationAngle := 0, rotatorOutputValid := 0,
          rotatorStride := 0, deringEnable := 0,
          dbkOffset := (if cpu_is_mx37 sr then \<lparr>DbkOffsetA = 0, DbkOffsetB = 0, DbkOffsetEnable = 0\<rparr> else dbkOffset d),
          filePlayEnable := dec_filePlayEnable pop,
          picSrcSize := (if dec_filePlayEnable pop = 1
                         then s32 (push_bit 10 (dec_picWidth pop) OR dec_picHeight pop) else picSrcSize d),
          dynamicAllocEnable := dec_dynamicAllocEnable pop, initialInfoObtained := 0, vc1BframeDisplayValid := 0,
          decReportFrameBufStat := (decReportFrameBufStat d)\<lparr>rep_enable := 0\<rparr>,
          decReportMBInfo := (decReportMBInfo d)\<lparr>rep_enable := 0\<rparr>,
          decReportMVInfo := (decReportMVInfo d)\<lparr>rep_enable := 0\<rparr>,
          decReportUserData := (decReportUserData d)\<lparr>rep_enable := 0, rep_size := 0\<rparr>\<rparr>)"

text \<open>
  The registers of a new instance. \<^verbatim>\<open>LockVpuReg\<close> is called for its effect: a timeout of the
  register lock is not noticed.
\<close>

definition stream_end_flag :: "io_env \<Rightarrow> nat \<Rightarrow> bool \<Rightarrow> dec_lib \<Rightarrow> dec_lib option" where
  "stream_end_flag e i on s =
     do { let b = push_bit (nat (instIndex (the_inst s i) + 2)) 1;
          (_, s) \<leftarrow> LockVpuReg e s;
          (v, s) \<leftarrow> VpuReadReg e BIT_BIT_STREAM_PARAM s;
          s \<leftarrow> VpuWriteReg e BIT_BIT_STREAM_PARAM (if on then v OR b else v AND NOT b) s;
          UnlockVpuReg e s }"

definition open_regs :: "io_env \<Rightarrow> nat \<Rightarrow> dec_lib \<Rightarrow> dec_lib option" where
  "open_regs e i s =
     do { let d = decInfo (the_inst s i);
          let bit_offset = nat (instIndex (the_inst s i) + (if cpu_is_mx37 (system_rev s) then 1 else 2));
          s \<leftarrow> write_regs e [(streamRdPtrRegAddr d, streamBufStartAddr d), (streamWrPtrRegAddr d, streamWrPtr d),
                 (frameDisplayFlagRegAddr d, 0)] s;
          s \<leftarrow> stream_end_flag e i False s;
          (v, s) \<leftarrow> VpuReadReg e BIT_FRAME_MEM_CTRL s;
          VpuWriteReg e BIT_FRAME_MEM_CTRL
            ((v AND NOT (push_bit bit_offset 1)) OR push_bit bit_offset (of_int (dec_chromaInterleave (openParam d)))) s }"

text \<open>
  The result has the code, the structure of the caller and \<^verbatim>\<open>*pHandle\<close> (\<open>None\<close> for 0).
  \<open>open_inst\<close> is the part after the instance was taken.
\<close>

type_synonym open_result = "RetCode \<times> DecOpenParam option \<times> handle option"

definition open_inst :: "io_env \<Rightarrow> DecOpenParam \<Rightarrow> nat \<Rightarrow> dec_lib \<Rightarrow> (open_result \<times> dec_lib) option" where
  "open_inst e p i s =
     do { regs \<leftarrow> ptr_regs (instIndex (the_inst s i));
          let s = upd_inst i (\<lambda>c. c\<lparr>codecMode := dec_mode (system_rev s) (bitstreamFormat p) (codecMode c),
                    decInfo := open_info (system_rev s) p regs (decInfo c)\<rparr>) s;
          locked e (\<lambda>r. (r, Some p, Some (Slot i))) (\<lambda>s.
            do { s \<leftarrow> open_regs e i s; unlock e (RETCODE_SUCCESS, Some p, Some (Slot i)) s }) s }"

definition open_body :: "io_env \<Rightarrow> DecOpenParam option \<Rightarrow> dec_lib \<Rightarrow> (open_result \<times> dec_lib) option" where
  "open_body e pop s =
     (case GetCodecInstance zero_codec (codecInstPool (sem s)) of
        None \<Rightarrow> unlock e (RETCODE_FAILURE, pop, None) s
      | Some (i, pool) \<Rightarrow> do {
          s \<leftarrow> UnlockVpu e (s\<lparr>sem := (sem s)\<lparr>codecInstPool := pool\<rparr>\<rparr>);
          p \<leftarrow> pop;
          open_inst e p i s })"

definition vpu_DecOpen :: "io_env \<Rightarrow> DecOpenParam option \<Rightarrow> handle option \<Rightarrow> dec_lib \<Rightarrow> (open_result \<times> dec_lib) option" where
  "vpu_DecOpen e pop h s =
     do { (running, s) \<leftarrow> isVpuInitialized e s;
          if \<not> running then Some ((RETCODE_NOT_INITIALIZED, pop, h), s)
          else case CheckDecOpenParam (system_rev s) pop of
            (ret, pop) \<Rightarrow>
              if ret \<noteq> RETCODE_SUCCESS then Some ((ret, pop, h), s)
              else locked e (\<lambda>r. (r, pop, h)) (open_body e pop) s }"

definition free_report :: "io_env \<Rightarrow> vpu_mem_desc \<Rightarrow> dec_lib \<Rightarrow> (vpu_mem_desc \<times> dec_lib) option" where
  "free_report e m s = (case IOFreeVirtMem m s of (m, s) \<Rightarrow> IOFreePhyMem e m s)"

definition close_body :: "io_env \<Rightarrow> nat \<Rightarrow> dec_lib \<Rightarrow> (RetCode \<times> dec_lib) option" where
  "close_body e i s =
     do { s \<leftarrow> (if initialInfoObtained (decInfo (the_inst s i)) \<noteq> 0
               then do { s \<leftarrow> write_regs e (aux_std (system_rev s) (decInfo (the_inst s i))) s;
                         s \<leftarrow> run_cmd e i SEQ_END s;
                         WaitBitBusyClear e s }
               else Some s);
          (m, s) \<leftarrow> free_report e (picParaBaseMem (decInfo (the_inst s i))) s;
          let s = upd_dec i (\<lambda>d. d\<lparr>picParaBaseMem := m\<rparr>) s;
          (m, s) \<leftarrow> free_report e (userDataBufMem (decInfo (the_inst s i))) s;
          let s = upd_dec i (\<lambda>d. d\<lparr>userDataBufMem := m\<rparr>) s;
          unlock e RETCODE_SUCCESS (FreeInstance i s) }"

definition vpu_DecClose :: "io_env \<Rightarrow> handle \<Rightarrow> dec_lib \<Rightarrow> (RetCode \<times> dec_lib) option" where
  "vpu_DecClose e h s =
     dec_call h id (\<lambda>i s.
       do { s \<leftarrow> (if pendingInst (sem s) = Some i then UnlockVpu e (set_pending None s)
                 else Some s);
            locked e id (close_body e i) s }) s"

definition vpu_DecSetEscSeqInit :: "io_env \<Rightarrow> handle \<Rightarrow> int \<Rightarrow> dec_lib \<Rightarrow> (RetCode \<times> dec_lib) option" where
  "vpu_DecSetEscSeqInit e h escape s =
     dec_call h id (\<lambda>i. locked e id (\<lambda>s.
       do { (v, s) \<leftarrow> VpuReadReg e 0x114 s;
            s \<leftarrow> VpuWriteReg e 0x114 (if escape = 0 then v AND NOT 1 else v OR 1) s;
            unlock e RETCODE_SUCCESS s })) s"

section \<open>Sequence header\<close>

definition seq_option :: "u32 \<Rightarrow> codec_inst \<Rightarrow> u32" where
  "seq_option sr c =
     (let d = decInfo c; q = openParam d
      in (push_bit 3 (of_int (dynamicAllocEnable d)) AND 0x8) OR (push_bit 2 (of_int (filePlayEnable d)) AND 0x4) OR
         (push_bit 1 (of_int (reorderEnable q)) AND 0x2) OR
         (if codecMode c = MJPG_DEC then push_bit 10 1 OR push_bit 5 (of_int (rep_enable (decReportUserData d))) else 0) OR
         (if cpu_is_mx27 sr then of_int (qpReport q) AND 1 else of_int (mp4DeblkEnable q) AND 1))"

text \<open>The parameters of \<^verbatim>\<open>SEQ_INIT\<close>, before and after the memory of the user data.\<close>

definition seq_words :: "DecInfo \<Rightarrow> (u32 \<times> u32) list" where
  "seq_words d =
     [(0x180, streamBufStartAddr d), (0x184, of_int (c_div (streamBufSize d) 1024))] @
     (if filePlayEnable d = 1 then [(0x190, of_int (streamStartByteOffset (openParam d)))] else [])"

definition seq_words2 :: "u32 \<Rightarrow> codec_inst \<Rightarrow> (u32 \<times> u32) list" where
  "seq_words2 sr c =
     (let d = decInfo c; q = openParam d
      in [(0x188, seq_option sr c)] @
         (if codecMode c = VC1_DEC then [(0x19C, 0)] else []) @
         (if codecMode c = MP4_DEC then [(0x19C, of_int (mp4Class q))] else []) @
         (if codecMode c = AVC_DEC
          then [(0x194, psSaveBuffer q), (0x198, of_int (c_div (psSaveBufferSize q) 1024))] else []) @
         (if codecMode c = MJPG_DEC then [(0x19C, of_int (mjpg_thumbNailDecEnable q))] else []) @
         [(0x18C, of_int (picSrcSize d))] @ aux_std sr d)"

text \<open>\<open>bits v n m\<close> is \<^verbatim>\<open>(v >> n) & m\<close> as an \<^verbatim>\<open>int\<close>.\<close>

definition bits :: "u32 \<Rightarrow> nat \<Rightarrow> u32 \<Rightarrow> int" where
  "bits v n m = uint (drop_bit n v AND m)"

definition seq_size :: "u32 \<Rightarrow> u32 \<Rightarrow> DecInitialInfo \<Rightarrow> DecInitialInfo" where
  "seq_size sr v info =
     (if cpu_is_mx37 sr \<or> cpu_is_mx5x sr then info\<lparr>picWidth := bits v 16 0xffff, picHeight := bits v 0 0xffff\<rparr>
      else info\<lparr>picWidth := bits v 10 0x3ff, picHeight := bits v 0 0x3ff\<rparr>)"

definition seq_mp4 :: "u32 \<Rightarrow> DecInitialInfo \<Rightarrow> DecInitialInfo" where
  "seq_mp4 v info =
     info\<lparr>info_shortVideoHeader := bits v 2 1, info_dataPartitionEnable := bits v 0 1,
       info_reversibleVlcEnable := (if bits v 0 1 \<noteq> 0 then bits v 1 1 else 0), info_annexJEnable := bits v 3 1\<rparr>"

text \<open>The visible rectangle from the two words that give the cropped borders.\<close>

definition crop10 :: "int \<Rightarrow> int \<Rightarrow> u32 \<Rightarrow> u32 \<Rightarrow> Rect" where
  "crop10 w h v v2 =
     \<lparr>rect_left = (drop_bit 10 v AND 0x3FF) * 2, rect_top = (drop_bit 10 v2 AND 0x3FF) * 2,
      rect_right = of_int w - (v AND 0x3FF) * 2, rect_bottom = of_int h - (v2 AND 0x3FF) * 2\<rparr>"

definition crop16 :: "int \<Rightarrow> int \<Rightarrow> u32 \<Rightarrow> u32 \<Rightarrow> Rect" where
  "crop16 w h v v2 =
     \<lparr>rect_left = drop_bit 16 v AND 0xFFFF, rect_top = drop_bit 16 v2 AND 0xFFFF,
      rect_right = of_int w - (v AND 0xFFFF), rect_bottom = of_int h - (v2 AND 0xFFFF)\<rparr>"

definition seq_avc :: "u32 \<Rightarrow> u32 \<Rightarrow> u32 \<Rightarrow> DecInitialInfo \<Rightarrow> DecInitialInfo" where
  "seq_avc sr v v2 info =
     (let area = of_int (picWidth info * picHeight info) :: u32
      in info\<lparr>picCropRect := (if v = 0 \<and> v2 = 0 then zero_rect
                else (if cpu_is_mx5x sr then crop16 else crop10) (picWidth info) (picHeight info) v v2),
              normalSliceSize := uint (area * 3 div 2 div 1024 div 4),
              worstSliceSize := uint ((area div 256 * 3200 div 8 + 512) div 1024)\<rparr>)"

definition seq_header :: "u32 \<Rightarrow> u32 \<Rightarrow> DecInitialInfo \<Rightarrow> DecInitialInfo" where
  "seq_header sr v info =
     (if cpu_is_mx37 sr
      then info\<lparr>profile := bits v 4 0xFF, level := bits v 12 0xFF, interlace := bits v 20 1, vc1_psf := bits v 22 1\<rparr>
      else info\<lparr>profile := bits v 0 0xFF, level := bits v 8 0xFF, interlace := bits v 16 1,
        direct8x8Flag := bits v 17 1, vc1_psf := bits v 18 1,
        constraint_set_flag := [bits v 19 1, bits v 20 1, bits v 21 1, bits v 22 1]\<rparr>)"

text \<open>The internal RAM of the new sequence; \<open>ir\<close> is the uninitialised local of \<^verbatim>\<open>SetDecSecondAXIIRAM\<close>.\<close>

definition dec_iram :: "io_env \<Rightarrow> iram_setting \<Rightarrow> nat \<Rightarrow> DecInitialInfo \<Rightarrow> dec_lib \<Rightarrow> dec_lib option" where
  "dec_iram e ir i info s =
     (let width = (picWidth info + 15) AND NOT 15; mode = codecMode (the_inst s i)
      in if width = 0 then Some s
         else do {
           (_, ir, s) \<leftarrow> IOGetIramBase e ir s;
           Some (upd_dec i (\<lambda>d. d\<lparr>secAxiUse := SetDecSecondAXIIRAM (system_rev s) (uint (iram_start ir))
             (uint (iram_end ir)) width mode (profile info) (secAxiUse d)\<rparr>) s) })"

text \<open>
  Reading the results of a successful \<^verbatim>\<open>SEQ_INIT\<close>, after the size: the format, then the header
  report and the rest.
\<close>

definition seq_format :: "io_env \<Rightarrow> codec_inst \<Rightarrow> DecInitialInfo \<Rightarrow> dec_lib \<Rightarrow> (DecInitialInfo \<times> dec_lib) option" where
  "seq_format e c info s =
     do { (v, s) \<leftarrow> VpuReadReg e 0x1C8 s;
          let info = info\<lparr>frameRateInfo := v\<rparr>;
          (info, s) \<leftarrow> (if codecMode c = MP4_DEC
                        then do { (v, s) \<leftarrow> VpuReadReg e 0x1D4 s; Some (seq_mp4 v info, s) } else Some (info, s));
          (v, s) \<leftarrow> VpuReadReg e 0x1CC s;
          (v2, s) \<leftarrow> VpuReadReg e 0x1D0 s;
          let info = info\<lparr>minFrameBufferCount := sint v, frameBufDelay := sint v2\<rparr>;
          (info, s) \<leftarrow> (if codecMode c = AVC_DEC
                        then do { (v, s) \<leftarrow> VpuReadReg e 0x1D8 s;
                                  (v2, s) \<leftarrow> VpuReadReg e 0x1DC s;
                                  Some (seq_avc (system_rev s) v v2 info, s) }
                        else Some (info\<lparr>picCropRect := zero_rect\<rparr>, s));
          if codecMode c = MJPG_DEC
          then do { (v, s) \<leftarrow> VpuReadReg e 0x1E8 s;
                    (v2, s) \<leftarrow> VpuReadReg e 0x1E4 s;
                    Some (info\<lparr>mjpg_thumbNailEnable := bits v 0 1, mjpg_sourceFormat := bits v2 0 7\<rparr>, s) }
          else Some (info, s) }"

definition seq_report :: "io_env \<Rightarrow> DecInitialInfo \<Rightarrow> dec_lib \<Rightarrow> (DecInitialInfo \<times> dec_lib) option" where
  "seq_report e info s =
     do { let sr = system_rev s;
          (info, s) \<leftarrow> (if cpu_is_mx37 sr \<or> cpu_is_mx5x sr
                        then do { (v, s) \<leftarrow> VpuReadReg e (if cpu_is_mx37 sr then 0x1D4 else 0x1EC) s;
                                  Some (seq_header sr v info, s) }
                        else Some (info, s));
          (v, s) \<leftarrow> VpuReadReg e 0x1B0 s;
          Some (info\<lparr>aspectRateInfo := sint v,
                  reportBufSize := \<lparr>frameBufStatBufSize = 0x100, mbInfoBufSize = 0x4000, mvInfoBufSize = 0x20000\<rparr>,
                  streamInfoObtained := (if cpu_is_mx37 sr \<or> cpu_is_mx5x sr then 1 else 0)\<rparr>, s) }"

definition seq_results ::
    "io_env \<Rightarrow> iram_setting \<Rightarrow> nat \<Rightarrow> DecInitialInfo \<Rightarrow> dec_lib \<Rightarrow> ((RetCode \<times> DecInitialInfo) \<times> dec_lib) option" where
  "seq_results e ir i info s =
     do { let c = the_inst s i;
          (info, s) \<leftarrow> seq_format e c info s;
          if codecMode c = MJPG_DEC \<and> mjpg_thumbNailDecEnable (openParam (decInfo c)) = 1 \<and> mjpg_thumbNailEnable info = 0
          then unlock e (RETCODE_FAILURE, info) s
          else do {
            (info, s) \<leftarrow> seq_report e info s;
            s \<leftarrow> UnlockVpu e s;
            let s = upd_dec i (\<lambda>d. d\<lparr>initialInfo := info, initialInfoObtained := 1\<rparr>) s;
            s \<leftarrow> (if \<not> cpu_is_mx37 (system_rev s) then dec_iram e ir i info s else Some s);
            Some ((RETCODE_SUCCESS, info), s) } }"

definition seq_init ::
    "io_env \<Rightarrow> iram_setting \<Rightarrow> nat \<Rightarrow> DecInitialInfo \<Rightarrow> dec_lib \<Rightarrow> ((RetCode \<times> DecInitialInfo) \<times> dec_lib) option" where
  "seq_init e ir i info s =
     do { (empty, s) \<leftarrow> DecBitstreamBufEmpty e (decInfo (the_inst s i)) s;
          if empty then unlock e (RETCODE_WRONG_CALL_SEQUENCE, info) s
          else do {
            s \<leftarrow> write_regs e (seq_words (decInfo (the_inst s i))) s;
            (ok, s) \<leftarrow> user_data_mem e i s;
            if \<not> ok then unlock e (RETCODE_FAILURE, info) s
            else do {
              s \<leftarrow> write_regs e (seq_words2 (system_rev s) (the_inst s i)) s;
              s \<leftarrow> run_cmd e i SEQ_INIT s;
              s \<leftarrow> WaitBitBusyClear e s;
              (ok, s) \<leftarrow> VpuReadReg e 0x1C0 s;
              if ok = 0 then do { (v, s) \<leftarrow> VpuReadReg e 0x1E0 s; unlock e (RETCODE_FAILURE, info\<lparr>errorcode := v\<rparr>) s }
              else do {
                (v, s) \<leftarrow> VpuReadReg e 0x1C4 s;
                let info = seq_size (system_rev s) v info;
                let least = (if codecMode (the_inst s i) = MJPG_DEC then 16 else 64);
                if picWidth info < least \<or> picHeight info < least then unlock e (RETCODE_FAILURE, info) s
                else seq_results e ir i info s } } } }"

definition vpu_DecGetInitialInfo :: "io_env \<Rightarrow> iram_setting \<Rightarrow> handle \<Rightarrow> DecInitialInfo option \<Rightarrow> dec_lib \<Rightarrow>
    ((RetCode \<times> DecInitialInfo option) \<times> dec_lib) option" where
  "vpu_DecGetInitialInfo e ir h info s =
     dec_call h (\<lambda>r. (r, info)) (\<lambda>i s.
       case info of
         None \<Rightarrow> Some ((RETCODE_INVALID_PARAM, None), s)
       | Some x \<Rightarrow>
           if initialInfoObtained (decInfo (the_inst s i)) \<noteq> 0 then Some ((RETCODE_CALLED_BEFORE, info), s)
           else locked e (\<lambda>r. (r, info)) (\<lambda>s.
             do { ((ret, x), s) \<leftarrow> seq_init e ir i x s; Some ((ret, Some x), s) }) s) s"

section \<open>Frame buffers\<close>

text \<open>The words of the parameter buffer, by index, that give the addresses of the frames.\<close>

definition frame_words :: "u32 \<Rightarrow> int \<Rightarrow> FrameBuffer list \<Rightarrow> nat \<Rightarrow> (nat \<times> u32) list" where
  "frame_words sr fmt bufs num =
     (if \<not> cpu_is_mx5x sr
      then concat (map (\<lambda>i. let f = (if cpu_is_mx37 sr then swab32 else id); b = bufs ! i
             in [(i * 3, f (bufY b)), (i * 3 + 1, f (bufCb b)), (i * 3 + 2, f (bufCr b))] @
                (if cpu_is_mx37 sr \<and> fmt = STD_AVC then [(i + 96, f (bufMvCol b))] else [])) [0 ..< num]) @
           (if cpu_is_mx37 sr \<and> fmt \<in> {STD_VC1, STD_MPEG4} then [(96, swab32 (bufMvCol (bufs ! 0)))] else [])
      else concat (map (\<lambda>j. let i = 2 * j; b = bufs ! i; b' = bufs ! (i + 1)
             in [(i * 3, bufCb b), (i * 3 + 1, bufY b), (i * 3 + 3, bufCr b)] @
                (if fmt = STD_AVC then [(96 + i + 1, bufMvCol b)] else []) @
                (if i + 1 < num
                 then [(i * 3 + 2, bufY b'), (i * 3 + 4, bufCr b'), (i * 3 + 5, bufCb b')] @
                      (if fmt = STD_AVC then [(96 + i, bufMvCol b')] else [])
                 else [])) [0 ..< (num + 1) div 2]) @
           (if fmt \<in> {STD_VC1, STD_MPEG4, STD_RV} then [(97, bufMvCol (bufs ! 0))] else []))"

text \<open>
  Stores into the parameter buffer: \<open>None\<close> past its end. The array of the caller must have the
  \<open>num\<close> elements it announces, and a first one where its motion vectors are used.
\<close>

definition para_store :: "u32 \<Rightarrow> (nat \<times> u32) list \<Rightarrow> (u32 \<Rightarrow> u32) \<Rightarrow> (u32 \<Rightarrow> u32) option" where
  "para_store base ws m =
     (if list_all (\<lambda>w. 4 * fst w < unat PARA_BUF_SIZE) ws
      then Some (foldl (\<lambda>m w. m(base + 4 * of_nat (fst w) := snd w)) m ws) else None)"

definition frame_addrs :: "int \<Rightarrow> FrameBuffer list \<Rightarrow> int \<Rightarrow> dec_lib \<Rightarrow> dec_lib option" where
  "frame_addrs fmt bufs num s =
     (if num > int (length bufs) \<or>
         bufs = [] \<and> (cpu_is_mx37 (system_rev s) \<and> fmt \<in> {STD_VC1, STD_MPEG4} \<or>
           cpu_is_mx5x (system_rev s) \<and> fmt \<in> {STD_VC1, STD_MPEG4, STD_RV}) then None
      else do { m \<leftarrow> para_store (virt_paraBuf s) (frame_words (system_rev s) fmt bufs (nat num)) (umem s);
                Some (s\<lparr>umem := m\<rparr>) })"

definition register_words :: "u32 \<Rightarrow> codec_inst \<Rightarrow> DecBufInfo \<Rightarrow> (u32 \<times> u32) list" where
  "register_words sr c info =
     (if codecMode c = AVC_DEC
      then [(0x188, sliceSaveBuffer info), (0x18C, of_int (c_div (sliceSaveBufferSize info) 1024))] else []) @
     [(0x1A4, push_bit 16 (of_int (maxMbNum info)) OR push_bit 8 (of_int (maxMbX info)) OR of_int (maxMbY info))] @
     aux_std sr (decInfo c)"

text \<open>
  \<open>iram_on\<close> is the result of \<^verbatim>\<open>vpu_dec_iram_enabled\<close>, which is not part of the sources;
  \<open>pBufInfo\<close> is \<open>None\<close> for a null pointer, which the code dereferences.
\<close>

definition register_axi :: "io_env \<Rightarrow> bool \<Rightarrow> iram_setting \<Rightarrow> DecInfo \<Rightarrow> dec_lib \<Rightarrow> dec_lib option" where
  "register_axi e iram_on ir d s =
     (let sr = system_rev s; u = secAxiUse d
      in if (cpu_is_mx37 sr \<or> cpu_is_mx27 sr \<and> iram_on) \<and> bitstreamFormat (openParam d) \<noteq> STD_VC1
         then vpu_setting_iram e ir s
         else write_regs e
           (if cpu_is_mx5x sr
            then [(0x190, of_int (bufBitUse u)), (0x194, of_int (bufIpAcDcUse u)), (0x198, of_int (bufDbkYUse u)),
                  (0x19C, of_int (bufDbkCUse u)), (0x1A0, of_int (bufOvlUse u))]
            else [(BIT_AXI_SRAM_USE, 0)]) s)"

definition register_body :: "io_env \<Rightarrow> bool \<Rightarrow> iram_setting \<Rightarrow> nat \<Rightarrow> FrameBuffer list \<Rightarrow> int \<Rightarrow> int \<Rightarrow>
    DecBufInfo option \<Rightarrow> dec_lib \<Rightarrow> (RetCode \<times> dec_lib) option" where
  "register_body e iram_on ir i bufs num str pBufInfo s =
     do { let c = the_inst s i;
          s \<leftarrow> frame_addrs (bitstreamFormat (openParam (decInfo c))) bufs num s;
          s \<leftarrow> write_regs e [(0x180, of_int num), (0x184, of_int str)] s;
          s \<leftarrow> register_axi e iram_on ir (decInfo c) s;
          info \<leftarrow> pBufInfo;
          s \<leftarrow> write_regs e (register_words (system_rev s) c info) s;
          s \<leftarrow> run_cmd e i SET_FRAME_BUF s;
          s \<leftarrow> WaitBitBusyClear e s;
          unlock e RETCODE_SUCCESS s }"

definition vpu_DecRegisterFrameBuffer :: "io_env \<Rightarrow> bool \<Rightarrow> iram_setting \<Rightarrow> handle \<Rightarrow> FrameBuffer list option \<Rightarrow>
    int \<Rightarrow> int \<Rightarrow> DecBufInfo option \<Rightarrow> dec_lib \<Rightarrow> (RetCode \<times> dec_lib) option" where
  "vpu_DecRegisterFrameBuffer e iram_on ir h bufArray num str pBufInfo s =
     dec_call h id (\<lambda>i s.
       let d = decInfo (the_inst s i) in
       if frameBufPool d \<noteq> None then Some (RETCODE_CALLED_BEFORE, s)
       else if initialInfoObtained d = 0 then Some (RETCODE_WRONG_CALL_SEQUENCE, s)
       else case bufArray of
         None \<Rightarrow> Some (RETCODE_INVALID_FRAME_BUFFER, s)
       | Some bufs \<Rightarrow>
           if num < minFrameBufferCount (initialInfo d) then Some (RETCODE_INSUFFICIENT_FRAME_BUFFERS, s)
           else if str < picWidth (initialInfo d) \<or> str mod 8 \<noteq> 0 then Some (RETCODE_INVALID_STRIDE, s)
           else let s = upd_dec i (\<lambda>d. d\<lparr>frameBufPool := Some bufs, numFrameBuffers := num, stride := str\<rparr>) s
                in if bitstreamFormat (openParam d) = STD_MJPG then Some (RETCODE_SUCCESS, s)
                   else locked e id (register_body e iram_on ir i bufs num str pBufInfo) s) s"

section \<open>The bitstream buffer\<close>

text \<open>
  The ring of stream bytes between \<^verbatim>\<open>streamBufStartAddr\<close> and \<^verbatim>\<open>streamBufEndAddr\<close>: the room
  that the caller is told, and the write pointer after \<open>n\<close> more bytes (\<open>None\<close> is
  \<^verbatim>\<open>RETCODE_INVALID_PARAM\<close>).
\<close>

definition ring_room :: "u32 \<Rightarrow> u32 \<Rightarrow> u32 \<Rightarrow> u32 \<Rightarrow> u32" where
  "ring_room start fin rd wr = (if wr < rd then rd - wr - 1 else (fin - wr) + (rd - start) - 1)"

definition ring_advance :: "bool \<Rightarrow> u32 \<Rightarrow> u32 \<Rightarrow> u32 \<Rightarrow> u32 \<Rightarrow> u32 \<Rightarrow> u32 option" where
  "ring_advance file_play start fin rd wr n =
     (if wr < rd \<and> rd \<le> wr + n then None
      else let w = wr + n in
           if file_play then Some w
           else let w = (if w > fin then start + (w - fin) else w)
                in Some (if w = fin then start else w))"

text \<open>The result is \<open>None\<close> when one of the three pointers of the caller is null.\<close>

definition vpu_DecGetBitstreamBuffer :: "io_env \<Rightarrow> handle \<Rightarrow> bool \<Rightarrow> dec_lib \<Rightarrow>
    ((RetCode \<times> (u32 \<times> u32 \<times> u32) option) \<times> dec_lib) option" where
  "vpu_DecGetBitstreamBuffer e h ptrs_ok s =
     dec_call h (\<lambda>r. (r, None)) (\<lambda>i s.
       if \<not> ptrs_ok then Some ((RETCODE_INVALID_PARAM, None), s)
       else do {
         let d = decInfo (the_inst s i);
         s \<leftarrow> IOClkGateSet e True s;
         (rdPtr, s) \<leftarrow> VpuReadReg e (streamRdPtrRegAddr d) s;
         s \<leftarrow> IOClkGateSet e False s;
         let wrPtr = streamWrPtr d;
         Some ((RETCODE_SUCCESS,
           Some (rdPtr, wrPtr, ring_room (streamBufStartAddr d) (streamBufEndAddr d) rdPtr wrPtr)), s) }) s"

definition vpu_DecUpdateBitstreamBuffer :: "io_env \<Rightarrow> handle \<Rightarrow> u32 \<Rightarrow> dec_lib \<Rightarrow> (RetCode \<times> dec_lib) option" where
  "vpu_DecUpdateBitstreamBuffer e h n s =
     dec_call h id (\<lambda>i s.
       if n = 0 then do { s \<leftarrow> stream_end_flag e i True s; Some (RETCODE_SUCCESS, s) }
       else do {
         let d = decInfo (the_inst s i);
         s \<leftarrow> stream_end_flag e i False s;
         s \<leftarrow> IOClkGateSet e True s;
         (rdPtr, s) \<leftarrow> VpuReadReg e (streamRdPtrRegAddr d) s;
         case ring_advance (filePlayEnable d = 1) (streamBufStartAddr d) (streamBufEndAddr d) rdPtr (streamWrPtr d) n of
           None \<Rightarrow> do { s \<leftarrow> IOClkGateSet e False s; Some (RETCODE_INVALID_PARAM, s) }
         | Some w \<Rightarrow> do {
             s \<leftarrow> VpuWriteReg e (streamWrPtrRegAddr d) w (upd_dec i (\<lambda>d. d\<lparr>streamWrPtr := w\<rparr>) s);
             s \<leftarrow> IOClkGateSet e False s;
             Some (RETCODE_SUCCESS, s) } }) s"

section \<open>Starting a frame\<close>

definition rot_mir :: "DecInfo \<Rightarrow> u32" where
  "rot_mir d =
     (if rotationEnable d \<noteq> 0
      then 0x10 OR (if rotationAngle d = 90 then 1 else if rotationAngle d = 180 then 2
                    else if rotationAngle d = 270 then 3 else 0) else 0) OR
     (if mirrorEnable d \<noteq> 0
      then 0x10 OR (if mirrorDirection d = 1 then 4 else if mirrorDirection d = 2 then 8
                    else if mirrorDirection d = 3 then 0xc else 0) else 0)"

definition pic_rot :: "u32 \<Rightarrow> codec_inst \<Rightarrow> (u32 \<times> u32) list" where
  "pic_rot sr c =
     (let d = decInfo c;
          rm = rot_mir d OR (if (cpu_is_mx37 sr \<or> cpu_is_mx5x sr) \<and> deringEnable d \<noteq> 0 then 0x20 else 0)
      in (if rm AND 0x30 \<noteq> 0 \<or> codecMode c = MJPG_DEC
          then [(0x184, bufY (rotatorOutput d)), (0x188, bufCb (rotatorOutput d)), (0x18C, bufCr (rotatorOutput d)),
                (0x190, of_int (rotatorStride d))] else []) @ [(0x180, rm)])"

text \<open>The deblocking output of the i.MX32; \<open>None\<close> when it is needed and not set.\<close>

definition pic_dbk :: "u32 \<Rightarrow> codec_inst \<Rightarrow> (u32 \<times> u32) list option" where
  "pic_dbk sr c =
     (let d = decInfo c
      in if cpu_is_mx32 sr \<and> codecMode c = MP4_DEC \<and> mp4DeblkEnable (openParam d) = 1
         then (if deBlockingFilterOutputValid d \<noteq> 0
               then Some [(0x190, bufY (deBlockingFilterOutput d)), (0x194, bufCb (deBlockingFilterOutput d)),
                          (0x198, bufCr (deBlockingFilterOutput d))]
               else None)
         else Some [])"

abbreviation (input) "ADDR_MV_BASE_OFFSET \<equiv> 0x100 :: u32"
abbreviation (input) "ADDR_MB_BASE_OFFSET \<equiv> 0x100 + 0x20000 :: u32"
abbreviation (input) "ADDR_FRAME_BUF_STAT_BASE_OFFSET \<equiv> 0x100 + 0x20000 + 0x4000 :: u32"
abbreviation (input) "DEC_ADDR_END_OF_RPT_BUF \<equiv> 0x100 + 0x20000 + 0x4000 + 0x100 :: u32"

text \<open>The addresses of the report areas, which the i.MX37 and i.MX5x take from memory.\<close>

definition para_table :: "u32 \<Rightarrow> DecInfo \<Rightarrow> (u32 \<Rightarrow> u32) \<Rightarrow> u32 \<Rightarrow> u32" where
  "para_table sr d m =
     (let va = virt_uaddr (picParaBaseMem d); pa = phy_addr (picParaBaseMem d);
          put = (\<lambda>on k v m. if rep_enable on \<noteq> 0 \<and> (cpu_is_mx37 sr \<or> cpu_is_mx5x sr)
                   then m(va + 4 * (if cpu_is_mx37 sr then k + 1 else k) := (if cpu_is_mx37 sr then swab32 v else v))
                   else m)
      in put (decReportMVInfo d) 4 (pa + ADDR_MV_BASE_OFFSET)
           (put (decReportMBInfo d) 2 (pa + ADDR_MB_BASE_OFFSET)
             (put (decReportFrameBufStat d) 0 (pa + ADDR_FRAME_BUF_STAT_BASE_OFFSET) m)))"

definition pic_para_mem :: "io_env \<Rightarrow> nat \<Rightarrow> dec_lib \<Rightarrow> (bool \<times> dec_lib) option" where
  "pic_para_mem e i s =
     (let d = decInfo (the_inst s i)
      in if rep_enable (decReportMBInfo d) \<noteq> 0 \<or> rep_enable (decReportMVInfo d) \<noteq> 0 \<or>
            rep_enable (decReportFrameBufStat d) \<noteq> 0
         then do {
           (ok, m, s) \<leftarrow> (if phy_addr (picParaBaseMem d) = 0
                          then alloc_report e DEC_ADDR_END_OF_RPT_BUF (picParaBaseMem d) s
                          else Some (True, picParaBaseMem d, s));
           let s = upd_dec i (\<lambda>d. d\<lparr>picParaBaseMem := m\<rparr>) s;
           if \<not> ok then Some (False, s)
           else do {
             s \<leftarrow> VpuWriteReg e 0x1A8 (phy_addr m) s;
             Some (True, s\<lparr>umem := para_table (system_rev s) (decInfo (the_inst s i)) (umem s)\<rparr>) } }
         else Some (True, s))"

definition pic_option :: "u32 \<Rightarrow> DecInfo \<Rightarrow> DecParam \<Rightarrow> u32" where
  "pic_option sr d p =
     (let on = (\<lambda>r n. push_bit n (of_int (rep_enable r)) :: u32);
          scan = push_bit 1 (of_int (prescanMode p)) OR of_int (prescanEnable p)
      in if cpu_is_mx37 sr \<or> cpu_is_mx5x sr
         then (if cpu_is_mx37 sr
               then push_bit 9 (of_int (DbkOffsetEnable (dbkOffset d))) OR push_bit 16 (of_int (skipframeNum p)) else 0) OR
              push_bit 10 1 OR on (decReportFrameBufStat d) 8 OR on (decReportMBInfo d) 7 OR on (decReportMVInfo d) 6 OR
              (if iframeSearchEnable p = 1 then push_bit 2 (of_int (iframeSearchEnable p) AND 1)
               else if skipframeMode p \<noteq> 0 then push_bit 3 (of_int (skipframeMode p)) OR scan
               else on (decReportUserData d) 5 OR scan)
         else if iframeSearchEnable p = 1 then push_bit 2 (of_int (iframeSearchEnable p)) AND 4
         else push_bit 3 (of_int (skipframeMode p)) OR push_bit 2 (of_int (iframeSearchEnable p)) OR scan)"

definition reorder_mode :: "codec_inst \<Rightarrow> bool" where
  "reorder_mode c \<longleftrightarrow>
     codecMode c = AVC_DEC \<and> reorderEnable (openParam (decInfo c)) = 1 \<or>
     codecMode c = VC1_DEC \<or> codecMode c = MP2_DEC \<or> codecMode c = MP4_DEC \<or> codecMode c = RV_DEC"

definition flag :: "nat \<Rightarrow> bool \<Rightarrow> u32" where
  "flag n b = (if b then push_bit n 1 else 0)"

definition axi_use :: "SecAxiUse \<Rightarrow> u32" where
  "axi_use u =
     flag 0 (useBitEnable u) OR flag 1 (useIpEnable u) OR flag 2 (useDbkEnable u) OR flag 3 (useOvlEnable u) OR
     flag 7 (useHostBitEnable u) OR flag 8 (useHostIpEnable u) OR flag 9 (useHostDbkEnable u) OR
     flag 10 (useHostOvlEnable u)"

text \<open>The registers that follow the reordering flag.\<close>

definition pic_words :: "u32 \<Rightarrow> codec_inst \<Rightarrow> DecParam \<Rightarrow> (u32 \<times> u32) list" where
  "pic_words sr c p =
     (let d = decInfo c
      in (if filePlayEnable d = 1
          then [(0x19C, of_int (chunkSize p))] @
               (if dynamicAllocEnable d = 1 then [(0x1A0, picStreamBufferAddr p)] else []) @
               [(0x1A4, of_int (picStartByteOffset p))] else []) @
         aux_std sr d @ [(BIT_AXI_SRAM_USE, axi_use (secAxiUse d))])"

definition pic_run :: "io_env \<Rightarrow> nat \<Rightarrow> DecParam \<Rightarrow> dec_lib \<Rightarrow> (RetCode \<times> dec_lib) option" where
  "pic_run e i p s =
     do { let sr = system_rev s;
          s \<leftarrow> VpuWriteReg e 0x194 (pic_option sr (decInfo (the_inst s i)) p) s;
          let s = (if (cpu_is_mx37 sr \<or> cpu_is_mx5x sr) \<and> iframeSearchEnable p = 1
                   then upd_dec i (\<lambda>d. d\<lparr>vc1BframeDisplayValid := 0\<rparr>) s else s);
          let c = the_inst s i;
          let dbk = dbkOffset (decInfo c);
          s \<leftarrow> write_regs e (if cpu_is_mx37 sr
                 then [(0x1B4, push_bit 5 (of_int (DbkOffsetA dbk) AND 31) OR (of_int (DbkOffsetB dbk) AND 31))] else []) s;
          s \<leftarrow> write_regs e (if cpu_is_mx5x sr then [(0x198, of_int (skipframeNum p))] else []) s;
          s \<leftarrow> (if \<not> cpu_is_mx5x sr
                then do { (v, s) \<leftarrow> VpuReadReg e 0x114 s;
                          write_regs e (if reorder_mode c \<and> filePlayEnable (decInfo c) = 1
                            then [(0x114, (v AND 0xFFFFFFFD) OR push_bit 1 (of_int (dispReorderBuf p) AND 1))] else []) s }
                else Some s);
          s \<leftarrow> write_regs e (pic_words sr c p) s;
          s \<leftarrow> run_cmd e i PIC_RUN s;
          Some (RETCODE_SUCCESS, set_pending (Some i) s) }"

definition start_body :: "io_env \<Rightarrow> nat \<Rightarrow> DecParam \<Rightarrow> dec_lib \<Rightarrow> (RetCode \<times> dec_lib) option" where
  "start_body e i p s =
     do { s \<leftarrow> write_regs e (pic_rot (system_rev s) (the_inst s i)) s;
          case pic_dbk (system_rev s) (the_inst s i) of
            None \<Rightarrow> unlock e RETCODE_DEBLOCKING_OUTPUT_NOT_SET s
          | Some ws \<Rightarrow> do {
              s \<leftarrow> write_regs e ws s;
              (ok, s) \<leftarrow> pic_para_mem e i s;
              if \<not> ok then unlock e RETCODE_FAILURE s
              else do {
                (ok, s) \<leftarrow> user_data_mem e i s;
                if \<not> ok then unlock e RETCODE_FAILURE s else pic_run e i p s } } }"

definition vpu_DecStartOneFrame :: "io_env \<Rightarrow> handle \<Rightarrow> DecParam \<Rightarrow> dec_lib \<Rightarrow> (RetCode \<times> dec_lib) option" where
  "vpu_DecStartOneFrame e h param s =
     dec_call h id (\<lambda>i s.
       let s = upd_inst i (\<lambda>c. c\<lparr>decParam := param\<rparr>) s
       in if frameBufPool (decInfo (the_inst s i)) = None then Some (RETCODE_WRONG_CALL_SEQUENCE, s)
          else locked e id (start_body e i param) s) s"

section \<open>The output of a frame\<close>

text \<open>\<^verbatim>\<open>progressiveFrame\<close> and \<^verbatim>\<open>vc1_repeatFrame\<close> are one field of a union.\<close>

definition out_success :: "codec_inst \<Rightarrow> u32 \<Rightarrow> DecOutputInfo \<Rightarrow> DecOutputInfo" where
  "out_success c v info =
     (let info = info\<lparr>decodingSuccess := bits v 0 1\<rparr>
      in if codecMode c = AVC_DEC then info\<lparr>notSufficientPsBuffer := bits v 3 1, notSufficientSliceBuffer := bits v 2 1\<rparr>
         else if codecMode c = MP4_DEC then info\<lparr>mp4PackedPBframe := bits v 16 1\<rparr> else info)"

definition out_crop :: "u32 \<Rightarrow> u32 \<Rightarrow> u32 \<Rightarrow> DecOutputInfo \<Rightarrow> DecOutputInfo" where
  "out_crop sr v v2 info =
     (if v = 0 \<and> v2 = 0 then info\<lparr>decPicCrop := zero_rect\<rparr>
      else if cpu_is_mx5x sr then info\<lparr>decPicCrop := crop16 (decPicWidth info) (decPicHeight info) v v2\<rparr>
      else if cpu_is_mx37 sr then info\<lparr>decPicCrop := crop10 (decPicWidth info) (decPicHeight info) v v2\<rparr>
      else info)"

definition out_type :: "u32 \<Rightarrow> codec_inst \<Rightarrow> u32 \<Rightarrow> DecOutputInfo \<Rightarrow> DecOutputInfo" where
  "out_type sr c v info =
     (let info = info\<lparr>picType := bits v 0 (if codecMode c = VC1_DEC \<and> profile (initialInfo (decInfo c)) = 2 then 0x3f else 7),
                      interlacedFrame := bits v 16 1\<rparr>
      in if cpu_is_mx37 sr \<or> cpu_is_mx5x sr
         then info\<lparr>h264Npf := bits v 16 3, interlacedFrame := bits v 18 1, pictureStructure := bits v 19 3,
                topFieldFirst := bits v 21 1, repeatFirstField := bits v 22 1, progressiveFrame := bits v 23 3,
                fieldSequence := bits v 25 7\<rparr>
         else info)"

text \<open>
  The reports. \<open>report_head\<close> reads a pair of words at \<open>va\<close> (the value and the address word); a
  report enabled after the frame was started has no memory, and the read at address 0 faults.
  \<open>copy_report\<close> is \<^verbatim>\<open>CopyBufferData\<close> on the words of the user memory.
\<close>

definition report_head :: "u32 \<Rightarrow> u32 \<Rightarrow> u32 \<Rightarrow> dec_lib \<Rightarrow> (u32 \<times> u32) option" where
  "report_head base off sr s =
     (if base = 0 then None
      else let a = umem s (base + off); b = umem s (base + off + 4)
           in Some (if cpu_is_mx37 sr then (swab32 a, swab32 b) else (b, a)))"

definition copy_report :: "u32 \<Rightarrow> u32 \<Rightarrow> u32 \<Rightarrow> int \<Rightarrow> (u32 \<Rightarrow> u32) \<Rightarrow> u32 \<Rightarrow> u32" where
  "copy_report sr dst src n m =
     (if dst = 0 \<or> src = 0 \<or> n = 0 then m
      else if cpu_is_mx37 sr
      then foldl (\<lambda>m k. m(dst + 4 * of_nat k := m (src + 4 * of_nat k))) m [0 ..< nat n div 4]
      else if cpu_is_mx5x sr
      then foldl (\<lambda>m k. let m = m(dst + 8 * of_nat k := swab32 (m (src + 8 * of_nat k + 4)))
                        in m(dst + 8 * of_nat k + 4 := swab32 (m (src + 8 * of_nat k)))) m [0 ..< nat n div 8]
      else m)"

definition pad8 :: "int \<Rightarrow> int" where
  "pad8 n = (n + 7) div 8 * 8"

definition out_bufstat :: "DecInfo \<Rightarrow> DecOutputInfo \<Rightarrow> dec_lib \<Rightarrow> (DecOutputInfo \<times> dec_lib) option" where
  "out_bufstat d info s =
     (if rep_enable (decReportFrameBufStat d) = 0 then Some (info, s)
      else do {
        let va = virt_uaddr (picParaBaseMem d);
        (v, _) \<leftarrow> report_head va 0 (system_rev s) s;
        let n = bits v 0 0xFFFFFF;
        let a = rep_addr (decReportFrameBufStat d);
        if bits v 24 0xFF = 1
        then Some (info\<lparr>out_frameBufStat := (out_frameBufStat info)\<lparr>rep_enable := 1, rep_size := n, rep_addr := a\<rparr>\<rparr>,
               if n \<noteq> 0 \<and> a \<noteq> 0
               then s\<lparr>umem := copy_report (system_rev s) a (va + ADDR_FRAME_BUF_STAT_BASE_OFFSET) (pad8 n) (umem s)\<rparr>
               else s)
        else Some (info\<lparr>out_frameBufStat := (out_frameBufStat info)\<lparr>rep_enable := 1\<rparr>\<rparr>, s) })"

definition out_mb :: "DecInfo \<Rightarrow> DecOutputInfo \<Rightarrow> dec_lib \<Rightarrow> (DecOutputInfo \<times> dec_lib) option" where
  "out_mb d info s =
     (if rep_enable (decReportMBInfo d) = 0 then Some (info, s)
      else do {
        let va = virt_uaddr (picParaBaseMem d);
        (v, _) \<leftarrow> report_head va 8 (system_rev s) s;
        let n = bits v 0 0xFFFF;
        let a = rep_addr (decReportMBInfo d);
        if bits v 24 0xFF = 2
        then Some (info\<lparr>out_mbInfo := (out_mbInfo info)\<lparr>rep_enable := 1, rep_size := n, rep_addr := a\<rparr>\<rparr>,
               if n \<noteq> 0 \<and> a \<noteq> 0
               then s\<lparr>umem := copy_report (system_rev s) a (va + ADDR_MB_BASE_OFFSET) (pad8 n) (umem s)\<rparr> else s)
        else Some (info\<lparr>out_mbInfo := (out_mbInfo info)\<lparr>rep_enable := 1, rep_size := 0, rep_addr := 0\<rparr>\<rparr>, s) })"

definition out_mv :: "DecInfo \<Rightarrow> DecOutputInfo \<Rightarrow> dec_lib \<Rightarrow> (DecOutputInfo \<times> dec_lib) option" where
  "out_mv d info s =
     (if rep_enable (decReportMVInfo d) = 0 then Some (info, s)
      else do {
        let va = virt_uaddr (picParaBaseMem d);
        (v, _) \<leftarrow> report_head va 16 (system_rev s) s;
        let n = bits v 0 0xFFFF;
        let k = bits v 16 0xFF;
        let a = rep_addr (decReportMVInfo d);
        if bits v 24 0xFF = 4
        then Some (info\<lparr>out_mvInfo := (out_mvInfo info)\<lparr>rep_enable := 1, rep_size := n, rep_num := k, rep_addr := a\<rparr>\<rparr>,
               if n \<noteq> 0 \<and> a \<noteq> 0
               then s\<lparr>umem := copy_report (system_rev s) a (va + ADDR_MV_BASE_OFFSET) (pad8 n * k * 4) (umem s)\<rparr> else s)
        else Some (info\<lparr>out_mvInfo := (out_mvInfo info)\<lparr>rep_enable := 1, rep_num := 0, rep_addr := 0\<rparr>\<rparr>, s) })"

definition out_user :: "DecInfo \<Rightarrow> DecOutputInfo \<Rightarrow> dec_lib \<Rightarrow> (DecOutputInfo \<times> dec_lib) option" where
  "out_user d info s =
     (if rep_enable (decReportUserData d) = 0 then Some (info, s)
      else do {
        let va = virt_uaddr (userDataBufMem d);
        (v, v2) \<leftarrow> report_head va 0 (system_rev s) s;
        let num = bits v 16 0xFFFF;
        let n = (if num = 0 then 0 else bits v 0 0xFFFF);
        let a = rep_addr (decReportUserData d);
        Some (info\<lparr>out_userData := (out_userData info)\<lparr>rep_enable := 1, rep_size := n, rep_num := num,
                     rep_full := (if num = 0 then 0 else bits v2 16 0xFFFF)\<rparr>\<rparr>,
              if n \<noteq> 0 \<and> a \<noteq> 0 then s\<lparr>umem := copy_report (system_rev s) a va (pad8 n + 8 * 17) (umem s)\<rparr> else s) })"

text \<open>
  The types of the decoded pictures. The indices come from the device: outside the 32 elements of
  \<^verbatim>\<open>decoded_pictype\<close> the access is \<open>None\<close>.
\<close>

definition save_pictype :: "DecOutputInfo \<Rightarrow> dec_lib \<Rightarrow> dec_lib option" where
  "save_pictype info s =
     (if indexFrameDecoded info < 0 then Some s
      else if indexFrameDecoded info < 32
      then Some (s\<lparr>decoded_pictype := (decoded_pictype s)[nat (indexFrameDecoded info) := picType info]\<rparr>)
      else None)"

definition vc1_display ::
    "io_env \<Rightarrow> nat \<Rightarrow> DecOutputInfo \<Rightarrow> dec_lib \<Rightarrow> (DecOutputInfo \<times> dec_lib) option" where
  "vc1_display e i info s =
     (let c = the_inst s i; d = decInfo c; k = indexFrameDisplay info
      in if codecMode c = VC1_DEC \<and> k \<noteq> -3 \<and> vc1BframeDisplayValid d = 0
         then if k < 0 \<or> 32 \<le> k then None
              else let t = decoded_pictype s ! nat k
                   in if t = 3 \<and> profile (initialInfo d) \<noteq> 2 \<or> drop_bit 3 t = 3 \<and> profile (initialInfo d) = 2
                      then do {
                        (v, s) \<leftarrow> VpuReadReg e (frameDisplayFlagRegAddr d) s;
                        s \<leftarrow> VpuWriteReg e (frameDisplayFlagRegAddr d) (NOT (push_bit (nat k) 1) AND v) s;
                        Some (info\<lparr>indexFrameDisplay := -3\<rparr>, s) }
                      else Some (info, upd_dec i (\<lambda>d. d\<lparr>vc1BframeDisplayValid := 1\<rparr>) s)
         else Some (info, s))"

text \<open>The quantiser report of the i.MX27: rows of 32 words are packed into \<^verbatim>\<open>virt_paraBuf2\<close>.\<close>

definition qp_word :: "u32 \<Rightarrow> u32 \<Rightarrow> u32" where
  "qp_word v1 v2 = (push_bit 8 v1 AND 0xff000000) OR push_bit 16 v1 OR drop_bit 8 v2 OR (v2 AND 0xff)"

definition qp_pack :: "u32 \<Rightarrow> u32 \<Rightarrow> nat \<Rightarrow> nat \<Rightarrow> (u32 \<Rightarrow> u32) \<Rightarrow> u32 \<Rightarrow> u32" where
  "qp_pack pb pb2 cols rows m =
     foldl (\<lambda>m (i, j). m(pb2 + 4 * of_nat (i * cols + j) :=
              qp_word (m (pb + 4 * of_nat (i * 32 + 2 * j))) (m (pb + 4 * of_nat (i * 32 + 2 * j + 1)))))
       m (List.product [0 ..< rows] [0 ..< cols])"

definition qp_report :: "DecInfo \<Rightarrow> DecOutputInfo \<Rightarrow> dec_lib \<Rightarrow> (DecOutputInfo \<times> dec_lib) option" where
  "qp_report d info s =
     (let cols = nat ((c_div (picWidth (initialInfo d)) 16 + 3) div 4); rows = nat (c_div (picHeight (initialInfo d)) 16)
      in if rows \<noteq> 0 \<and> cols \<noteq> 0 \<and>
            (4 * ((rows - 1) * 32 + 2 * cols) > unat PARA_BUF_SIZE \<or> 4 * (rows * cols) > unat (PARA_BUF2_SIZE + PARA_BUF_SIZE))
         then None
         else Some (info\<lparr>qpInfo := virt_paraBuf2 s\<rparr>,
                s\<lparr>umem := qp_pack (virt_paraBuf s) (virt_paraBuf2 s) cols rows (umem s)\<rparr>))"

definition out_post :: "u32 \<Rightarrow> DecOutputInfo \<Rightarrow> DecOutputInfo" where
  "out_post v info =
     info\<lparr>hScaleFlag := bits v 1 1, vScaleFlag := bits v 2 1,
       indexFrameRangemap := (if bits v 0 1 \<noteq> 0 then bits v 3 31 else -1)\<rparr>"

definition out_header :: "io_env \<Rightarrow> nat \<Rightarrow> dec_lib \<Rightarrow> (DecOutputInfo \<times> dec_lib) option" where
  "out_header e i s =
     do { let c = the_inst s i;
          let sr = system_rev s;
          (v, s) \<leftarrow> VpuReadReg e 0x1D4 s;
          let info = out_success c v zero_output;
          (v, s) \<leftarrow> VpuReadReg e 0x1BC s;
          let info = info\<lparr>decPicHeight := bits v 0 0xFFFF, decPicWidth := bits v 16 0xFFFF\<rparr>;
          (info, s) \<leftarrow> (if codecMode c = AVC_DEC
                        then do { (v, s) \<leftarrow> VpuReadReg e 0x1E0 s;
                                  (v2, s) \<leftarrow> VpuReadReg e 0x1E4 s;
                                  Some (out_crop sr v v2 info, s) }
                        else Some (info, s));
          (v, s) \<leftarrow> VpuReadReg e 0x1CC s;
          Some (out_type sr c v info, s) }"

definition out_indices :: "io_env \<Rightarrow> DecOutputInfo \<Rightarrow> dec_lib \<Rightarrow> (DecOutputInfo \<times> dec_lib) option" where
  "out_indices e info s =
     do { (err, s) \<leftarrow> VpuReadReg e 0x1C8 s;
          (opt, s) \<leftarrow> VpuReadReg e 0x1D0 s;
          (disp, s) \<leftarrow> VpuReadReg e 0x1C4 s;
          (cur, s) \<leftarrow> VpuReadReg e 0x1DC s;
          (num, s) \<leftarrow> VpuReadReg e 0x1EC s;
          Some (info\<lparr>numOfErrMBs := sint err, prescanresult := sint opt, indexFrameDisplay := sint disp,
                  indexFrameDecoded := sint cur, NumDecFrameBuf := sint num\<rparr>, s) }"

definition output_body :: "io_env \<Rightarrow> nat \<Rightarrow> dec_lib \<Rightarrow> (DecOutputInfo \<times> dec_lib) option" where
  "output_body e i s =
     do { s \<leftarrow> (if cpu_is_mx32 (system_rev s) then vl2cc_flush e s else Some s);
          s \<leftarrow> IOClkGateSet e True s;
          (info, s) \<leftarrow> out_header e i s;
          let d = decInfo (the_inst s i);
          (info, s) \<leftarrow> out_bufstat d info s;
          (info, s) \<leftarrow> out_mb d info s;
          (info, s) \<leftarrow> out_mv d info s;
          (info, s) \<leftarrow> out_user d info s;
          (info, s) \<leftarrow> out_indices e info s;
          s \<leftarrow> save_pictype info s;
          (info, s) \<leftarrow> vc1_display e i info s;
          (info, s) \<leftarrow> (if cpu_is_mx27 (system_rev s) \<and> codecMode (the_inst s i) = MP4_DEC \<and> qpReport (openParam d) = 1
                        then qp_report d info s else Some (info, s));
          if (cpu_is_mx37 (system_rev s) \<or> cpu_is_mx5x (system_rev s)) \<and> codecMode (the_inst s i) = VC1_DEC
          then do { (v, s) \<leftarrow> VpuReadReg e 0x1D0 s; Some (out_post v info, s) } else Some (info, s) }"

definition vpu_DecGetOutputInfo :: "io_env \<Rightarrow> handle \<Rightarrow> DecOutputInfo option \<Rightarrow> dec_lib \<Rightarrow>
    ((RetCode \<times> DecOutputInfo option) \<times> dec_lib) option" where
  "vpu_DecGetOutputInfo e h info s =
     dec_call h (\<lambda>r. (r, info)) (\<lambda>i s.
       if info = None then Some ((RETCODE_INVALID_PARAM, None), s)
       else if pendingInst (sem s) = None then Some ((RETCODE_WRONG_CALL_SEQUENCE, info), s)
       else if pendingInst (sem s) \<noteq> Some i then Some ((RETCODE_INVALID_HANDLE, info), s)
       else do {
         (info, s) \<leftarrow> output_body e i s;
         unlock e (RETCODE_SUCCESS, Some info) (set_pending None s) }) s"

definition vpu_DecBitBufferFlush :: "io_env \<Rightarrow> handle \<Rightarrow> dec_lib \<Rightarrow> (RetCode \<times> dec_lib) option" where
  "vpu_DecBitBufferFlush e h s =
     dec_call h id (\<lambda>i s.
       if frameBufPool (decInfo (the_inst s i)) = None then Some (RETCODE_WRONG_CALL_SEQUENCE, s)
       else locked e id (\<lambda>s.
         do { s \<leftarrow> write_regs e (aux_std (system_rev s) (decInfo (the_inst s i))) s;
              s \<leftarrow> run_cmd e i DEC_BUF_FLUSH s;
              s \<leftarrow> WaitBitBusyClear e s;
              let s = upd_dec i (\<lambda>d. d\<lparr>streamWrPtr := streamBufStartAddr d\<rparr>) s;
              let d = decInfo (the_inst s i);
              s \<leftarrow> VpuWriteReg e (streamWrPtrRegAddr d) (streamBufStartAddr d) s;
              unlock e RETCODE_SUCCESS s }) s) s"

text \<open>On the ARM a shift by 32 or more gives 0.\<close>

definition vpu_DecClrDispFlag :: "io_env \<Rightarrow> handle \<Rightarrow> int \<Rightarrow> dec_lib \<Rightarrow> (RetCode \<times> dec_lib) option" where
  "vpu_DecClrDispFlag e h index s =
     dec_call h id (\<lambda>i s.
       let d = decInfo (the_inst s i) in
       if frameBufPool d = None then Some (RETCODE_WRONG_CALL_SEQUENCE, s)
       else if index < 0 \<or> index > numFrameBuffers d - 1 then Some (RETCODE_INVALID_PARAM, s)
       else locked e id (\<lambda>s.
         do { (v, s) \<leftarrow> VpuReadReg e (frameDisplayFlagRegAddr d) s;
              s \<leftarrow> VpuWriteReg e (frameDisplayFlagRegAddr d) (NOT (push_bit (nat index) 1) AND v) s;
              unlock e RETCODE_SUCCESS s }) s) s"

section \<open>Commands\<close>

text \<open>The commands of \<^verbatim>\<open>vpu_DecGiveCommand\<close> with their parameters, \<open>None\<close> for a null pointer.\<close>

datatype DecCommand =
    ENABLE_ROTATION | DISABLE_ROTATION | ENABLE_MIRRORING | DISABLE_MIRRORING | ENABLE_DERING | DISABLE_DERING
  | SET_MIRROR_DIRECTION "int option" | SET_ROTATION_ANGLE "int option" | SET_ROTATOR_OUTPUT "FrameBuffer option"
  | SET_ROTATOR_STRIDE "int option" | DEC_SET_SPS_RBSP "DecParamSet option" | DEC_SET_PPS_RBSP "DecParamSet option"
  | DEC_SET_DEBLOCK_OUTPUT "FrameBuffer option" | SET_DBK_OFFSET "DbkOffset option"
  | DEC_SET_REPORT_BUFSTAT "DecReportInfo option" | DEC_SET_REPORT_MBINFO "DecReportInfo option"
  | DEC_SET_REPORT_MVINFO "DecReportInfo option" | DEC_SET_REPORT_USERDATA "DecReportInfo option" | OTHER_COMMAND

definition rotator_ready :: "DecInfo \<Rightarrow> DecInfo \<Rightarrow> RetCode \<times> DecInfo" where
  "rotator_ready d d' =
     (if rotatorOutputValid d = 0 then (RETCODE_ROTATOR_OUTPUT_NOT_SET, d)
      else if rotatorStride d = 0 then (RETCODE_ROTATOR_STRIDE_NOT_SET, d)
      else (RETCODE_SUCCESS, d'))"

definition set_angle :: "int \<Rightarrow> DecInfo \<Rightarrow> RetCode \<times> DecInfo" where
  "set_angle angle d =
     (if angle \<notin> {0, 90, 180, 270} then (RETCODE_INVALID_PARAM, d)
      else if rotatorStride d \<noteq> 0 \<and>
        (if angle = 90 \<or> angle = 270 then picHeight (initialInfo d) else picWidth (initialInfo d)) > rotatorStride d
      then (RETCODE_INVALID_PARAM, d)
      else (RETCODE_SUCCESS, d\<lparr>rotationAngle := angle\<rparr>))"

definition set_stride :: "int \<Rightarrow> DecInfo \<Rightarrow> RetCode \<times> DecInfo" where
  "set_stride str d =
     (if str mod 8 \<noteq> 0 \<or> str = 0 then (RETCODE_INVALID_STRIDE, d)
      else if (if rotationAngle d = 90 \<or> rotationAngle d = 270 then picHeight (initialInfo d) else picWidth (initialInfo d)) > str
      then (RETCODE_INVALID_STRIDE, d)
      else (RETCODE_SUCCESS, d\<lparr>rotatorStride := str\<rparr>))"

definition report_code :: "DecReportInfo \<Rightarrow> RetCode" where
  "report_code r = (if rep_enable r \<noteq> 0 \<and> rep_addr r = 0 then RETCODE_REPORT_BUF_NOT_SET else RETCODE_SUCCESS)"

definition dbk_flag :: "DbkOffset \<Rightarrow> DbkOffset" where
  "dbk_flag k = k\<lparr>DbkOffsetEnable := (if DbkOffsetA k \<noteq> 0 \<and> DbkOffsetB k \<noteq> 0 then 1 else 0)\<rparr>"

text \<open>The commands that only change the settings of the instance.\<close>

fun dec_setting :: "u32 \<Rightarrow> DecCommand \<Rightarrow> DecInfo \<Rightarrow> (RetCode \<times> DecInfo) option" where
  "dec_setting sr ENABLE_ROTATION d = Some (rotator_ready d (d\<lparr>rotationEnable := 1\<rparr>))"
| "dec_setting sr DISABLE_ROTATION d = Some (RETCODE_SUCCESS, d\<lparr>rotationEnable := 0\<rparr>)"
| "dec_setting sr ENABLE_MIRRORING d = Some (rotator_ready d (d\<lparr>mirrorEnable := 1\<rparr>))"
| "dec_setting sr DISABLE_MIRRORING d = Some (RETCODE_SUCCESS, d\<lparr>mirrorEnable := 0\<rparr>)"
| "dec_setting sr ENABLE_DERING d = Some (rotator_ready d (d\<lparr>deringEnable := 1\<rparr>))"
| "dec_setting sr DISABLE_DERING d = Some (RETCODE_SUCCESS, d\<lparr>deringEnable := 0\<rparr>)"
| "dec_setting sr (SET_MIRROR_DIRECTION (Some dir)) d =
     Some (if dir < 0 \<or> dir > 3 then (RETCODE_INVALID_PARAM, d) else (RETCODE_SUCCESS, d\<lparr>mirrorDirection := dir\<rparr>))"
| "dec_setting sr (SET_ROTATION_ANGLE (Some angle)) d = Some (set_angle angle d)"
| "dec_setting sr (SET_ROTATOR_OUTPUT (Some frame)) d =
     Some (RETCODE_SUCCESS, d\<lparr>rotatorOutput := frame, rotatorOutputValid := 1\<rparr>)"
| "dec_setting sr (SET_ROTATOR_STRIDE (Some str)) d = Some (set_stride str d)"
| "dec_setting sr (DEC_SET_DEBLOCK_OUTPUT (Some frame)) d =
     Some (RETCODE_SUCCESS, if cpu_is_mx5x sr then d
           else d\<lparr>deBlockingFilterOutput := frame, deBlockingFilterOutputValid := 1\<rparr>)"
| "dec_setting sr (DEC_SET_DEBLOCK_OUTPUT None) d =
     Some (if cpu_is_mx5x sr then RETCODE_SUCCESS else RETCODE_INVALID_PARAM, d)"
| "dec_setting sr (SET_DBK_OFFSET (Some k)) d = Some (RETCODE_SUCCESS, d\<lparr>dbkOffset := dbk_flag k\<rparr>)"
| "dec_setting sr (SET_DBK_OFFSET None) d = None"
| "dec_setting sr (DEC_SET_REPORT_BUFSTAT (Some r)) d = Some (report_code r, d\<lparr>decReportFrameBufStat := r\<rparr>)"
| "dec_setting sr (DEC_SET_REPORT_MBINFO (Some r)) d = Some (report_code r, d\<lparr>decReportMBInfo := r\<rparr>)"
| "dec_setting sr (DEC_SET_REPORT_MVINFO (Some r)) d = Some (report_code r, d\<lparr>decReportMVInfo := r\<rparr>)"
| "dec_setting sr (DEC_SET_REPORT_USERDATA (Some r)) d = Some (report_code r, d\<lparr>decReportUserData := r\<rparr>)"
| "dec_setting sr OTHER_COMMAND d = Some (RETCODE_INVALID_COMMAND, d)"
| "dec_setting sr _ d = Some (RETCODE_INVALID_PARAM, d)"

definition give_setting :: "DecCommand \<Rightarrow> nat \<Rightarrow> dec_lib \<Rightarrow> (RetCode \<times> dec_lib) option" where
  "give_setting cmd i s =
     do { (ret, d) \<leftarrow> dec_setting (system_rev s) cmd (decInfo (the_inst s i));
          Some (ret, upd_dec i (\<lambda>_. d) s) }"

text \<open>Only the sequence parameter set is sent under the lock.\<close>

definition vpu_DecGiveCommand :: "io_env \<Rightarrow> handle \<Rightarrow> DecCommand \<Rightarrow> dec_lib \<Rightarrow> (RetCode \<times> dec_lib) option" where
  "vpu_DecGiveCommand e h cmd s =
     dec_call h id (\<lambda>i s.
       let avc = (codecMode (the_inst s i) = AVC_DEC) in
       case cmd of
         DEC_SET_DEBLOCK_OUTPUT p \<Rightarrow>
           if cpu_is_mx27 (system_rev s) then Some (RETCODE_NOT_SUPPORTED, s) else give_setting cmd i s
       | DEC_SET_SPS_RBSP p \<Rightarrow>
           if \<not> avc then Some (RETCODE_INVALID_COMMAND, s)
           else (case p of
              None \<Rightarrow> Some (RETCODE_INVALID_PARAM, s)
            | Some para \<Rightarrow> locked e id (\<lambda>s.
                do { s \<leftarrow> SetParaSet e (the_inst s i) 0 para s; unlock e RETCODE_SUCCESS s }) s)
       | DEC_SET_PPS_RBSP p \<Rightarrow>
           if \<not> avc then Some (RETCODE_INVALID_COMMAND, s)
           else (case p of
              None \<Rightarrow> Some (RETCODE_INVALID_PARAM, s)
            | Some para \<Rightarrow> do { s \<leftarrow> SetParaSet e (the_inst s i) 1 para s; Some (RETCODE_SUCCESS, s) })
       | _ \<Rightarrow> give_setting cmd i s) s"

end
