(* ===== verification/Vpu_Dec_Safety.thy ===== *)
theory Vpu_Dec_Safety
  imports Vpu_Cmd_Safety Vpu_Dec
begin

unbundle bit_operations_syntax

text \<open>
  What a caller may rely on whatever it calls: the decoder interface refines a small state
  machine of instances and of the lock that a running frame holds, and the invariants of that
  machine hold after any sequence of calls, on any device and with any failures of the operating
  system.
\<close>

section \<open>Reasoning about results\<close>

text \<open>\<open>ens Q r\<close>: if the call returns, its result satisfies \<open>Q\<close>. The rules follow the program text.\<close>

definition ens :: "('a \<Rightarrow> bool) \<Rightarrow> 'a option \<Rightarrow> bool" where
  "ens Q r \<longleftrightarrow> (\<forall>x. r = Some x \<longrightarrow> Q x)"

lemma ens_Some: "Q x \<Longrightarrow> ens Q (Some x)"
  by (simp add: ens_def)

lemma ens_None: "ens Q None"
  by (simp add: ens_def)

lemma ens_bind: "ens (\<lambda>x. ens Q (f x)) m \<Longrightarrow> ens Q (m \<bind> f)"
  by (cases m) (simp_all add: ens_def)

lemma ens_if: "(b \<Longrightarrow> ens Q x) \<Longrightarrow> (\<not> b \<Longrightarrow> ens Q y) \<Longrightarrow> ens Q (if b then x else y)"
  by simp

lemma ens_let: "(\<And>y. y = x \<Longrightarrow> ens Q (f y)) \<Longrightarrow> ens Q (Let x f)"
  by simp

lemma ens_split: "ens Q (f a b) \<Longrightarrow> ens Q (case (a, b) of (x, y) \<Rightarrow> f x y)"
  by simp

lemma ens_prod: "(\<And>a b. p = (a, b) \<Longrightarrow> ens Q (f a b)) \<Longrightarrow> ens Q (case p of (x, y) \<Rightarrow> f x y)"
  by (cases p) simp

lemma ens_option:
  "(x = None \<Longrightarrow> ens Q a) \<Longrightarrow> (\<And>y. x = Some y \<Longrightarrow> ens Q (f y)) \<Longrightarrow> ens Q (case x of None \<Rightarrow> a | Some y \<Rightarrow> f y)"
  by (cases x) simp_all

lemma ens_pure: "(\<And>x. r = Some x \<Longrightarrow> Q x) \<Longrightarrow> ens Q r"
  by (simp add: ens_def)

lemma ens_weak: "ens P r \<Longrightarrow> (\<And>x. P x \<Longrightarrow> Q x) \<Longrightarrow> ens Q r"
  by (simp add: ens_def)

lemma ens_elim: "ens Q r \<Longrightarrow> r = Some x \<Longrightarrow> Q x"
  by (simp add: ens_def)

lemmas ens_flow = ens_Some ens_None ens_bind ens_if ens_let ens_split ens_prod

section \<open>The abstract machine\<close>

text \<open>
  An instance is free or open, has its sequence header or not, its frame buffers or not, and its
  rotator settings. \<open>held\<close> is the lock of the library and \<open>pending\<close> the instance whose frame is
  being decoded.
\<close>

record inst_view =
  v_used :: bool
  v_info :: bool
  v_frames :: bool
  v_turn :: bool
  v_out :: bool
  v_stride :: int
  v_angle :: int
  v_dir :: int

record dec_spec =
  insts :: "inst_view list"
  pending :: "nat option"
  held :: bool

definition rotator_law :: "inst_view \<Rightarrow> bool" where
  "rotator_law v \<longleftrightarrow> (v_turn v \<longrightarrow> v_out v \<and> v_stride v \<noteq> 0) \<and> v_stride v mod 8 = 0 \<and>
     v_angle v \<in> {0, 90, 180, 270} \<and> 0 \<le> v_dir v \<and> v_dir v \<le> 3"

definition fresh_view :: inst_view where
  "fresh_view = \<lparr>v_used = True, v_info = False, v_frames = False, v_turn = False, v_out = False, v_stride = 0,
     v_angle = 0, v_dir = 0\<rparr>"

inductive spec_step :: "dec_spec \<Rightarrow> dec_spec \<Rightarrow> bool" where
  stay: "spec_step a a"
| opened: "i < length (insts a) \<Longrightarrow> \<not> v_used (insts a ! i) \<Longrightarrow> \<not> held a \<Longrightarrow>
    spec_step a (a\<lparr>insts := (insts a)[i := fresh_view]\<rparr>)"
| abandoned: "pending a = Some i \<Longrightarrow> spec_step a (a\<lparr>pending := None, held := False\<rparr>)"
| closed: "i < length (insts a) \<Longrightarrow> v_used (insts a ! i) \<Longrightarrow> \<not> held a \<Longrightarrow>
    spec_step a (a\<lparr>insts := (insts a)[i := (insts a ! i)\<lparr>v_used := False\<rparr>]\<rparr>)"
| closed_pending: "i < length (insts a) \<Longrightarrow> v_used (insts a ! i) \<Longrightarrow> pending a = Some i \<Longrightarrow>
    spec_step a (a\<lparr>insts := (insts a)[i := (insts a ! i)\<lparr>v_used := False\<rparr>], pending := None, held := False\<rparr>)"
| got_info: "i < length (insts a) \<Longrightarrow> v_used (insts a ! i) \<Longrightarrow> \<not> v_info (insts a ! i) \<Longrightarrow> \<not> held a \<Longrightarrow>
    spec_step a (a\<lparr>insts := (insts a)[i := (insts a ! i)\<lparr>v_info := True\<rparr>]\<rparr>)"
| registered: "i < length (insts a) \<Longrightarrow> v_used (insts a ! i) \<Longrightarrow> v_info (insts a ! i) \<Longrightarrow> \<not> v_frames (insts a ! i) \<Longrightarrow>
    spec_step a (a\<lparr>insts := (insts a)[i := (insts a ! i)\<lparr>v_frames := True\<rparr>]\<rparr>)"
| started: "i < length (insts a) \<Longrightarrow> v_used (insts a ! i) \<Longrightarrow> v_frames (insts a ! i) \<Longrightarrow> \<not> held a \<Longrightarrow>
    spec_step a (a\<lparr>pending := Some i, held := True\<rparr>)"
| finished: "i < length (insts a) \<Longrightarrow> v_used (insts a ! i) \<Longrightarrow> pending a = Some i \<Longrightarrow>
    spec_step a (a\<lparr>pending := None, held := False\<rparr>)"
| setting: "i < length (insts a) \<Longrightarrow> v_used (insts a ! i) \<Longrightarrow> v_used v \<Longrightarrow> v_info v = v_info (insts a ! i) \<Longrightarrow>
    v_frames v = v_frames (insts a ! i) \<Longrightarrow> (rotator_law (insts a ! i) \<Longrightarrow> rotator_law v) \<Longrightarrow>
    spec_step a (a\<lparr>insts := (insts a)[i := v]\<rparr>)"

definition view :: "codec_inst \<Rightarrow> inst_view" where
  "view c = (let d = decInfo c in
     \<lparr>v_used = inUse c, v_info = initialInfoObtained d \<noteq> 0, v_frames = frameBufPool d \<noteq> None,
      v_turn = rotationEnable d \<noteq> 0 \<or> mirrorEnable d \<noteq> 0 \<or> deringEnable d \<noteq> 0, v_out = rotatorOutputValid d \<noteq> 0,
      v_stride = rotatorStride d, v_angle = rotationAngle d, v_dir = mirrorDirection d\<rparr>)"

definition spec :: "dec_lib \<Rightarrow> dec_spec" where
  "spec s = \<lparr>insts = map view (codecInstPool (sem s)), pending = pendingInst (sem s), held = api_lock (sem s)\<rparr>"

section \<open>What the steps do to the abstract state\<close>

lemma spec_simps [simp]:
  "pending (spec s) = pendingInst (sem s)" "held (spec s) = api_lock (sem s)"
  "length (insts (spec s)) = length (codecInstPool (sem s))"
  by (simp_all add: spec_def)

lemma insts_nth: "i < length (codecInstPool (sem s)) \<Longrightarrow> insts (spec s) ! i = view (the_inst s i)"
  by (simp add: spec_def the_inst_def)

lemma spec_same_sem: "sem s' = sem s \<Longrightarrow> spec s' = spec s"
  by (simp add: spec_def)

lemma spec_upd_inst:
  "spec (upd_inst i f s) = (spec s)\<lparr>insts := (insts (spec s))[i := view (f (the_inst s i))]\<rparr>"
  by (simp add: spec_def upd_inst_def map_update)

lemma spec_upd_inst_same:
  assumes "view (f (the_inst s i)) = view (the_inst s i)"
  shows "spec (upd_inst i f s) = spec s"
proof (cases "i < length (codecInstPool (sem s))")
  case True
  then show ?thesis using assms by (simp add: spec_upd_inst insts_nth [symmetric])
next
  case False
  then show ?thesis by (simp add: spec_upd_inst list_update_beyond)
qed

lemma spec_upd_dec_same:
  assumes "view ((the_inst s i)\<lparr>decInfo := f (decInfo (the_inst s i))\<rparr>) = view (the_inst s i)"
  shows "spec (upd_dec i f s) = spec s"
  unfolding upd_dec_def by (rule spec_upd_inst_same) (use assms in simp)

lemma lib_ioctl_ens:
  assumes "\<And>r rep s'. sem s' = sem s \<Longrightarrow> Q (r, rep, s')"
  shows "ens Q (lib_ioctl e cmd s)"
proof (rule ens_pure)
  fix x assume x: "lib_ioctl e cmd s = Some x"
  obtain r rep s' where p: "x = (r, rep, s')" by (cases x)
  then obtain k n where "s' = s\<lparr>kernel := k, n_ioctl := n\<rparr>" using lib_ioctl_frame x by blast
  then show "Q x" using assms p by simp
qed

lemma VpuWriteReg_ens: "(\<And>s'. sem s' = sem s \<Longrightarrow> Q s') \<Longrightarrow> ens Q (VpuWriteReg e a v s)"
  unfolding VpuWriteReg_def by (intro ens_flow lib_ioctl_ens) auto

lemma VpuReadReg_ens: "(\<And>v s'. sem s' = sem s \<Longrightarrow> Q (v, s')) \<Longrightarrow> ens Q (VpuReadReg e a s)"
  unfolding VpuReadReg_def by (intro ens_flow lib_ioctl_ens) auto

lemma IOClkGateSet_ens: "(\<And>s'. sem s' = sem s \<Longrightarrow> Q s') \<Longrightarrow> ens Q (IOClkGateSet e b s)"
  unfolding IOClkGateSet_def by (intro ens_flow lib_ioctl_ens) auto

lemma vl2cc_flush_ens: "(\<And>s'. sem s' = sem s \<Longrightarrow> Q s') \<Longrightarrow> ens Q (vl2cc_flush e s)"
  unfolding vl2cc_flush_def by (intro ens_flow lib_ioctl_ens) auto

lemma IOGetIramBase_ens: "(\<And>r ir s'. sem s' = sem s \<Longrightarrow> Q (r, ir, s')) \<Longrightarrow> ens Q (IOGetIramBase e ir s)"
  unfolding IOGetIramBase_def by (intro ens_flow lib_ioctl_ens) auto

lemma write_all_ens: "(\<And>s'. sem s' = sem s \<Longrightarrow> Q s') \<Longrightarrow> ens Q (write_regs e ws s)"
proof (induction ws arbitrary: s)
  case (Cons w ws)
  obtain a v where w: "w = (a, v)" by (cases w)
  show ?case unfolding w write_regs.simps
    by (intro ens_bind VpuWriteReg_ens Cons.IH) (use Cons.prems in simp)
qed (simp add: ens_def)

lemma BitIssueCommand_ens: "(\<And>s'. sem s' = sem s \<Longrightarrow> Q s') \<Longrightarrow> ens Q (BitIssueCommand e i m c s)"
  unfolding BitIssueCommand_def by (intro ens_flow IOClkGateSet_ens write_all_ens) simp

lemma run_cmd_ens: "(\<And>s'. sem s' = sem s \<Longrightarrow> Q s') \<Longrightarrow> ens Q (run_cmd e i c s)"
  unfolding run_cmd_def by (rule BitIssueCommand_ens)

lemma busy_loop_sem:
  assumes "busy_loop e t0 s = Some s'"
  shows "sem s' = sem s"
  using assms
proof (rule busy_loop.raw_induct [rotated], goal_cases)
  case (1 f e t0 s s')
  from 1(2) obtain v t where t: "VpuReadReg e BIT_BUSY_FLAG s = Some (v, t)"
    "(if v = 0 then Some t else case gettimeofday e t of (now, s) \<Rightarrow>
       if elapsed_ms t0 now < 1000 then f e t0 s else Some s) = Some s'"
    by (auto simp: bind_eq_Some_conv)
  have st: "sem t = sem s" using VpuReadReg_ens [of s "\<lambda>(v, s'). sem s' = sem s" e] t(1) by (auto simp: ens_def)
  show ?case using t(2) st 1(1) [of e t0 "t\<lparr>n_clock := Suc (n_clock t)\<rparr>" s']
    by (auto simp: gettimeofday_def split: if_splits)
qed

lemma WaitBitBusyClear_ens: "(\<And>s'. sem s' = sem s \<Longrightarrow> Q s') \<Longrightarrow> ens Q (WaitBitBusyClear e s)"
  unfolding WaitBitBusyClear_def
  by (intro ens_flow VpuReadReg_ens ens_pure) (auto simp: gettimeofday_def dest: busy_loop_sem)

lemma wait_idle_sem:
  assumes "wait_idle e s = Some s'"
  shows "sem s' = sem s"
  using assms
proof (rule wait_idle.raw_induct [rotated], goal_cases)
  case (1 f e s s')
  from 1(2) obtain v t where t: "VpuReadReg e BIT_BUSY_FLAG s = Some (v, t)" "(if v \<noteq> 0 then f e t else Some t) = Some s'"
    by (auto simp: bind_eq_Some_conv)
  have st: "sem t = sem s" using VpuReadReg_ens [of s "\<lambda>(v, s'). sem s' = sem s" e] t(1) by (auto simp: ens_def)
  show ?case using t(2) st 1(1) [of e t s'] by (auto split: if_splits)
qed

lemma wait_idle_ens: "(\<And>s'. sem s' = sem s \<Longrightarrow> Q s') \<Longrightarrow> ens Q (wait_idle e s)"
  by (rule ens_pure) (auto dest: wait_idle_sem)

lemma isVpuInitialized_ens: "(\<And>b s'. sem s' = sem s \<Longrightarrow> Q (b, s')) \<Longrightarrow> ens Q (isVpuInitialized e s)"
  unfolding isVpuInitialized_def by (intro ens_flow IOClkGateSet_ens VpuReadReg_ens) simp

lemma IOGetPhyMem_ens: "(\<And>r m s'. sem s' = sem s \<Longrightarrow> Q (r, m, s')) \<Longrightarrow> ens Q (IOGetPhyMem e b s)"
  unfolding IOGetPhyMem_def IOGetPhyMem'_def by (intro ens_flow lib_ioctl_ens) auto

lemma IOFreePhyMem_ens: "(\<And>m s'. sem s' = sem s \<Longrightarrow> Q (m, s')) \<Longrightarrow> ens Q (IOFreePhyMem e b s)"
  unfolding IOFreePhyMem_def IOFreePhyMem'_def by (intro ens_flow lib_ioctl_ens) auto

lemma IOGetVirtMem_sem: "IOGetVirtMem e b s = (va, m, s') \<Longrightarrow> sem s' = sem s"
  by (auto simp: IOGetVirtMem_def lib_mmap_def Let_def split: if_splits)

lemma IOFreeVirtMem_sem: "IOFreeVirtMem b s = (m, s') \<Longrightarrow> sem s' = sem s"
  by (auto simp: IOFreeVirtMem_def lib_munmap_def split: if_splits)

lemma SetParaSet_ens: "(\<And>s'. sem s' = sem s \<Longrightarrow> Q s') \<Longrightarrow> ens Q (SetParaSet e c t p s)"
  unfolding SetParaSet_def
  by (intro ens_flow IOClkGateSet_ens write_all_ens BitIssueCommand_ens wait_idle_ens) simp_all

lemma vpu_setting_iram_ens: "(\<And>s'. sem s' = sem s \<Longrightarrow> Q s') \<Longrightarrow> ens Q (vpu_setting_iram e ir s)"
  unfolding vpu_setting_iram_def set_iram_def
  by (intro ens_flow IOGetIramBase_ens IOClkGateSet_ens VpuWriteReg_ens write_all_ens ens_pure
      [where r = "get_iram_setting a b" for a b]) auto

lemma DecBitstreamBufEmpty_ens: "(\<And>b s'. sem s' = sem s \<Longrightarrow> Q (b, s')) \<Longrightarrow> ens Q (DecBitstreamBufEmpty e d s)"
  unfolding DecBitstreamBufEmpty_def by (intro ens_flow IOClkGateSet_ens VpuReadReg_ens) simp

lemma alloc_report_ens: "(\<And>ok m s'. sem s' = sem s \<Longrightarrow> Q (ok, m, s')) \<Longrightarrow> ens Q (alloc_report e n m s)"
  unfolding alloc_report_def
  by (intro ens_flow IOGetPhyMem_ens IOFreePhyMem_ens) (auto dest: IOGetVirtMem_sem)

lemma free_report_ens: "(\<And>m s'. sem s' = sem s \<Longrightarrow> Q (m, s')) \<Longrightarrow> ens Q (free_report e m s)"
  unfolding free_report_def by (intro ens_flow IOFreePhyMem_ens) (auto dest: IOFreeVirtMem_sem)

text \<open>Locks.\<close>

lemma UnlockVpu_ens: "(\<And>s'. sem s' = (sem s)\<lparr>api_lock := False\<rparr> \<Longrightarrow> Q s') \<Longrightarrow> ens Q (UnlockVpu e s)"
  unfolding UnlockVpu_def semaphore_post_def by (intro IOClkGateSet_ens) simp

lemma unlock_ens: "(\<And>s'. sem s' = (sem s)\<lparr>api_lock := False\<rparr> \<Longrightarrow> Q (r, s')) \<Longrightarrow> ens Q (unlock e r s)"
  unfolding unlock_def by (intro ens_flow UnlockVpu_ens) simp

lemma locked_ens:
  assumes "\<And>s'. \<not> api_lock (sem s) \<Longrightarrow> sem s' = (sem s)\<lparr>api_lock := True\<rparr> \<Longrightarrow> ens Q (body s')"
    and "\<And>s'. sem s' = sem s \<Longrightarrow> Q (out RETCODE_FAILURE_TIMEOUT, s')"
  shows "ens Q (locked e out body s)"
  unfolding locked_def LockVpu_def semaphore_wait_def Let_def
  by (cases "api_lock (sem s) \<or> \<not> lock_ok e (n_lock s)")
    (auto intro!: ens_bind ens_Some IOClkGateSet_ens assms)

lemma stream_end_flag_ens:
  assumes "\<And>s'. sem s' = (sem s)\<lparr>reg_lock := False\<rparr> \<Longrightarrow> Q s'"
  shows "ens Q (stream_end_flag e i b s)"
proof -
  have L: "ens P (LockVpuReg e s)" if "\<And>r b s'. sem s' = (sem s)\<lparr>reg_lock := b\<rparr> \<Longrightarrow> P (r, s')" for P
  proof (cases "reg_lock (sem s) \<or> \<not> lock_ok e (n_lock s)")
    case True
    then have "LockVpuReg e s = Some (False, s\<lparr>n_lock := Suc (n_lock s)\<rparr>)"
      by (simp add: LockVpuReg_def semaphore_wait_def Let_def)
    moreover have "sem (s\<lparr>n_lock := Suc (n_lock s)\<rparr>) = (sem s)\<lparr>reg_lock := reg_lock (sem s)\<rparr>" by simp
    ultimately show ?thesis using that by (metis ens_Some)
  next
    case False
    then show ?thesis unfolding LockVpuReg_def semaphore_wait_def Let_def
      by (auto intro!: ens_bind ens_Some IOClkGateSet_ens that)
  qed
  show ?thesis
    unfolding stream_end_flag_def Let_def UnlockVpuReg_def semaphore_post_def
    by (auto intro!: ens_bind L VpuReadReg_ens VpuWriteReg_ens IOClkGateSet_ens assms)
qed

text \<open>Steps of the calls in terms of the abstract state.\<close>

lemma spec_lock: "sem s' = (sem s)\<lparr>api_lock := b\<rparr> \<Longrightarrow> spec s' = (spec s)\<lparr>held := b\<rparr>"
  by (simp add: spec_def)

lemma spec_reg_lock: "sem s' = (sem s)\<lparr>reg_lock := b\<rparr> \<Longrightarrow> spec s' = spec s"
  by (simp add: spec_def)

lemma spec_fields [simp]:
  "spec (upd_dec i (\<lambda>d. d\<lparr>picParaBaseMem := m\<rparr>) s) = spec s"
  "spec (upd_dec i (\<lambda>d. d\<lparr>userDataBufMem := m\<rparr>) s) = spec s"
  "spec (upd_dec i (\<lambda>d. d\<lparr>secAxiUse := f d\<rparr>) s) = spec s"
  "spec (upd_dec i (\<lambda>d. d\<lparr>vc1BframeDisplayValid := x\<rparr>) s) = spec s"
  "spec (upd_dec i (\<lambda>d. d\<lparr>streamWrPtr := g d\<rparr>) s) = spec s"
  "spec (upd_inst i (\<lambda>c. c\<lparr>decParam := p\<rparr>) s) = spec s"
  "spec (s\<lparr>umem := w\<rparr>) = spec s"
  "spec (set_pending p' s) = (spec s)\<lparr>pending := p'\<rparr>"
  by (simp_all add: spec_upd_dec_same spec_upd_inst_same view_def Let_def) (simp_all add: spec_def set_pending_def)

lemma user_data_mem_ens:
  assumes "\<And>ok s'. spec s' = spec s \<Longrightarrow> Q (ok, s')"
  shows "ens Q (user_data_mem e i s)"
  unfolding user_data_mem_def
  by (intro ens_flow alloc_report_ens write_all_ens) (auto intro!: assms dest!: spec_same_sem)

lemma pic_para_mem_ens:
  assumes "\<And>ok s'. spec s' = spec s \<Longrightarrow> Q (ok, s')"
  shows "ens Q (pic_para_mem e i s)"
proof -
  have a: "ens P (if b then alloc_report e n m s else Some (True, m, s))"
    if "\<And>ok m s'. spec s' = spec s \<Longrightarrow> P (ok, m, s')" for P b n m
    using that by (auto intro!: ens_if alloc_report_ens ens_Some dest: spec_same_sem)
  show ?thesis
    unfolding pic_para_mem_def
    by (intro ens_flow a VpuWriteReg_ens) (auto intro!: assms dest!: spec_same_sem)
qed

lemma dec_iram_ens:
  assumes "\<And>s'. spec s' = spec s \<Longrightarrow> Q s'"
  shows "ens Q (dec_iram e ir i info s)"
  unfolding dec_iram_def by (intro ens_flow IOGetIramBase_ens) (auto intro!: assms dest!: spec_same_sem)

lemma frame_addrs_ens: "(\<And>s'. sem s' = sem s \<Longrightarrow> Q s') \<Longrightarrow> ens Q (frame_addrs f b n s)"
  unfolding frame_addrs_def by (auto simp: ens_def bind_eq_Some_conv)

lemma register_axi_ens: "(\<And>s'. sem s' = sem s \<Longrightarrow> Q s') \<Longrightarrow> ens Q (register_axi e b ir d s)"
  unfolding register_axi_def by (intro ens_flow vpu_setting_iram_ens write_all_ens) auto

lemma report_ens:
  assumes "\<And>info s'. sem s' = sem s \<Longrightarrow> Q (info, s')"
  shows "ens Q (out_bufstat d info s)" "ens Q (out_mb d info s)" "ens Q (out_mv d info s)" "ens Q (out_user d info s)"
    "ens Q (qp_report d info s)"
  unfolding out_bufstat_def out_mb_def out_mv_def out_user_def qp_report_def Let_def
  by (intro ens_flow ens_pure [where r = "report_head a b c s" for a b c] assms; simp)+

lemma out_header_ens: "(\<And>info s'. sem s' = sem s \<Longrightarrow> Q (info, s')) \<Longrightarrow> ens Q (out_header e i s)"
  unfolding out_header_def by (intro ens_flow VpuReadReg_ens) auto

lemma out_indices_ens: "(\<And>info s'. sem s' = sem s \<Longrightarrow> Q (info, s')) \<Longrightarrow> ens Q (out_indices e info s)"
  unfolding out_indices_def by (intro ens_flow VpuReadReg_ens) auto

lemma save_pictype_ens: "(\<And>s'. sem s' = sem s \<Longrightarrow> Q s') \<Longrightarrow> ens Q (save_pictype info s)"
  unfolding save_pictype_def by (intro ens_flow) auto

lemma vc1_display_ens:
  assumes "\<And>info s'. spec s' = spec s \<Longrightarrow> Q (info, s')"
  shows "ens Q (vc1_display e i info s)"
  unfolding vc1_display_def
  by (intro ens_flow VpuReadReg_ens VpuWriteReg_ens) (auto intro!: assms dest!: spec_same_sem)

lemma output_body_ens: "(\<And>info s'. spec s' = spec s \<Longrightarrow> Q (info, s')) \<Longrightarrow> ens Q (output_body e i s)"
  unfolding output_body_def
  by (intro ens_flow vl2cc_flush_ens IOClkGateSet_ens out_header_ens report_ens out_indices_ens save_pictype_ens
      vc1_display_ens VpuReadReg_ens) (auto dest!: spec_same_sem)

lemma dec_call_ens:
  assumes "\<And>i. h = Slot i \<Longrightarrow> i < 4 \<Longrightarrow> inUse (the_inst s i) \<Longrightarrow> ens Q (body i s)" "\<And>r. Q (out r, s)"
  shows "ens Q (dec_call h out body s)"
  unfolding dec_call_def Let_def
  by (cases h) (auto simp: CheckDecInstanceValidity_def CheckInstanceValidity_def Let_def the_inst_def
      intro!: ens_Some assms split: if_splits)

section \<open>Every call is a step of the abstract machine\<close>

definition steps_to :: "dec_lib \<Rightarrow> 'r \<times> dec_lib \<Rightarrow> bool" where
  "steps_to s = (\<lambda>(r, s'). spec_step (spec s) (spec s'))"

lemma steps_to_same: "spec s' = spec s \<Longrightarrow> steps_to s (r, s')"
  by (simp add: steps_to_def spec_step.stay)

lemma steps_to_unlocked: "\<not> api_lock (sem s) \<Longrightarrow> spec s' = (spec s)\<lparr>held := False\<rparr> \<Longrightarrow> steps_to s (r, s')"
  by (rule steps_to_same) (simp add: spec_def)

lemma view_used: "inUse (the_inst s i) \<Longrightarrow> i < length (codecInstPool (sem s)) \<Longrightarrow> v_used (insts (spec s) ! i)"
  by (simp add: insts_nth view_def Let_def)

text \<open>The calls that only lock, talk to the device and unlock.\<close>

lemma plain_locked:
  assumes "\<And>s'. spec s' = (spec s)\<lparr>held := True\<rparr> \<Longrightarrow> ens (\<lambda>(r, t). spec t = (spec s)\<lparr>held := False\<rparr>) (body s')"
  shows "ens (steps_to s) (locked e out body s)"
proof (rule locked_ens)
  fix s' :: dec_lib
  assume "\<not> api_lock (sem s)" and s': "sem s' = (sem s)\<lparr>api_lock := True\<rparr>"
  then show "ens (steps_to s) (body s')"
    by (intro ens_weak [OF assms [OF spec_lock [OF s']]]) (auto intro: steps_to_unlocked)
next
  fix s' :: dec_lib
  assume "sem s' = sem s"
  then show "steps_to s (out RETCODE_FAILURE_TIMEOUT, s')" by (intro steps_to_same spec_same_sem)
qed

lemma DecSetEscSeqInit_step: "ens (steps_to s) (vpu_DecSetEscSeqInit e h x s)"
  unfolding vpu_DecSetEscSeqInit_def
  by (intro dec_call_ens plain_locked ens_flow VpuReadReg_ens VpuWriteReg_ens unlock_ens)
    (auto intro: steps_to_same simp: spec_def)

lemma DecClrDispFlag_step: "ens (steps_to s) (vpu_DecClrDispFlag e h x s)"
  unfolding vpu_DecClrDispFlag_def
  by (intro dec_call_ens plain_locked ens_flow VpuReadReg_ens VpuWriteReg_ens unlock_ens)
    (auto intro: steps_to_same simp: spec_def)

lemma DecBitBufferFlush_step: "ens (steps_to s) (vpu_DecBitBufferFlush e h s)"
  unfolding vpu_DecBitBufferFlush_def
  by (intro dec_call_ens plain_locked ens_flow write_all_ens run_cmd_ens WaitBitBusyClear_ens VpuWriteReg_ens unlock_ens)
    (auto intro: steps_to_same dest!: spec_same_sem spec_lock)

lemma DecGetBitstreamBuffer_step: "ens (steps_to s) (vpu_DecGetBitstreamBuffer e h p s)"
  unfolding vpu_DecGetBitstreamBuffer_def
  by (intro dec_call_ens ens_flow IOClkGateSet_ens VpuReadReg_ens) (auto intro: steps_to_same simp: spec_def)

lemma DecUpdateBitstreamBuffer_step: "ens (steps_to s) (vpu_DecUpdateBitstreamBuffer e h n s)"
  unfolding vpu_DecUpdateBitstreamBuffer_def
  by (intro dec_call_ens ens_flow ens_option stream_end_flag_ens IOClkGateSet_ens VpuReadReg_ens VpuWriteReg_ens)
    (auto intro!: steps_to_same dest!: spec_same_sem spec_reg_lock)

text \<open>The calls that change the abstract state.\<close>

lemma GetCodecInstance_Some:
  assumes "GetCodecInstance z p = Some (i, q)"
  shows "i < length p" "\<not> inUse (p ! i)"
    "q = p[i := \<lparr>instIndex = instIndex (p ! i), inUse = True, codecMode = 0, \<dots> = z\<rparr>]"
  using assms find_free_Some [of p 0 i] by (auto simp: GetCodecInstance_def split: option.splits)

lemma opened_spec:
  assumes g: "GetCodecInstance zero_codec (codecInstPool (sem s)) = Some (i, q)"
    and t: "sem t = (sem s)\<lparr>codecInstPool := q, api_lock := False\<rparr>" and l: "\<not> api_lock (sem s)"
  shows "spec (upd_inst i (\<lambda>c. c\<lparr>codecMode := m c, decInfo := open_info sr p regs (decInfo c)\<rparr>) t) =
    (spec s)\<lparr>insts := (insts (spec s))[i := fresh_view]\<rparr>"
proof -
  note i = GetCodecInstance_Some [OF g]
  have c: "the_inst t i = \<lparr>instIndex = instIndex (codecInstPool (sem s) ! i), inUse = True, codecMode = 0, \<dots> = zero_codec\<rparr>"
    using i t by (simp add: the_inst_def)
  have v: "view ((the_inst t i)\<lparr>codecMode := m (the_inst t i), decInfo := open_info sr p regs (decInfo (the_inst t i))\<rparr>) =
      fresh_view"
    unfolding c
    by (cases regs) (simp add: view_def fresh_view_def open_info_def zero_codec_def codec_inst.defs zero_dec_info_def Let_def)
  have t': "spec t = (spec s)\<lparr>insts := (insts (spec s))[i := view (the_inst t i)]\<rparr>"
    unfolding c using i(3) t l by (simp add: spec_def map_update)
  show ?thesis unfolding spec_upd_inst v unfolding t' by simp
qed

lemma open_regs_ens: "(\<And>s'. spec s' = spec s \<Longrightarrow> Q s') \<Longrightarrow> ens Q (open_regs e i s)"
  unfolding open_regs_def
  by (intro ens_flow write_all_ens stream_end_flag_ens VpuReadReg_ens VpuWriteReg_ens)
    (auto dest!: spec_same_sem spec_reg_lock)

lemma open_body_step:
  assumes "\<not> api_lock (sem s)" "sem t = (sem s)\<lparr>api_lock := True\<rparr>"
  shows "ens (steps_to s) (open_body e pop t)"
proof (cases "GetCodecInstance zero_codec (codecInstPool (sem s))")
  case None
  then show ?thesis
    unfolding open_body_def using assms by (auto intro!: unlock_ens steps_to_same simp: spec_def)
next
  case (Some iq)
  then obtain i q where g: "GetCodecInstance zero_codec (codecInstPool (sem s)) = Some (i, q)" by (cases iq) simp
  have ok: "steps_to s (r, t')" if "spec t' = (spec s)\<lparr>insts := (insts (spec s))[i := fresh_view]\<rparr>" for t' and r :: open_result
    using that assms(1) GetCodecInstance_Some [OF g]
    by (auto simp: steps_to_def insts_nth the_inst_def view_def Let_def intro!: spec_step.opened)
  have inner: "ens (steps_to s) (open_inst e p i t')" if "sem t' = (sem s)\<lparr>codecInstPool := q, api_lock := False\<rparr>" for t' p
    unfolding open_inst_def
    by (intro ens_flow ens_pure [where r = "ptr_regs a" for a] locked_ens open_regs_ens unlock_ens ok)
      (use opened_spec [OF g that assms(1)] assms(1) in \<open>auto simp: spec_def\<close>)
  show ?thesis
    unfolding open_body_def
    by (intro ens_option ens_flow unlock_ens UnlockVpu_ens ens_pure [where r = pop])
      (use assms g in \<open>auto intro!: inner intro: steps_to_same simp: spec_def\<close>)
qed

lemma DecOpen_step: "ens (steps_to s) (vpu_DecOpen e pop h s)"
proof -
  have step: "ens (steps_to s) (locked e out (open_body e p) t)" if "sem t = sem s" for out p t
    by (intro locked_ens open_body_step) (use that in \<open>auto intro!: steps_to_same simp: spec_def\<close>)
  show ?thesis
    unfolding vpu_DecOpen_def
    by (intro ens_flow isVpuInitialized_ens step) (auto intro!: steps_to_same dest: spec_same_sem)
qed

lemma free_spec:
  "spec (FreeInstance i s) = (spec s)\<lparr>insts := (insts (spec s))[i := (insts (spec s) ! i)\<lparr>v_used := False\<rparr>]\<rparr>"
proof (cases "i < length (codecInstPool (sem s))")
  case True
  then show ?thesis by (simp add: FreeInstance_def FreeCodecInstance_def spec_def map_update view_def Let_def)
next
  case False
  then show ?thesis by (simp add: FreeInstance_def FreeCodecInstance_def spec_def list_update_beyond)
qed

lemma close_body_ens:
  assumes "\<And>s'. spec s' = (spec s)\<lparr>insts := (insts (spec s))[i := (insts (spec s) ! i)\<lparr>v_used := False\<rparr>], held := False\<rparr> \<Longrightarrow>
    Q (RETCODE_SUCCESS, s')"
  shows "ens Q (close_body e i s)"
proof -
  have seq: "ens P (if b then do { s \<leftarrow> write_regs e ws s; s \<leftarrow> run_cmd e i c s; WaitBitBusyClear e s } else Some s)"
    if "\<And>s'. spec s' = spec s \<Longrightarrow> P s'" for P b ws c
    by (intro ens_flow write_all_ens run_cmd_ens WaitBitBusyClear_ens) (auto intro!: that dest!: spec_same_sem)
  show ?thesis
    unfolding close_body_def
    by (intro ens_flow seq free_report_ens unlock_ens assms) (auto simp: free_spec dest!: spec_same_sem spec_lock)
qed

lemma closed_steps:
  assumes "i < length (codecInstPool (sem s))" "inUse (the_inst s i)" "\<not> api_lock (sem s)"
    and "spec t = (spec s)\<lparr>insts := (insts (spec s))[i := (insts (spec s) ! i)\<lparr>v_used := False\<rparr>], held := False\<rparr>"
  shows "steps_to s (r, t)"
proof -
  have "spec t = (spec s)\<lparr>insts := (insts (spec s))[i := (insts (spec s) ! i)\<lparr>v_used := False\<rparr>]\<rparr>"
    using assms(3,4) by (simp add: spec_def)
  then show ?thesis using assms(1-3) view_used [of s i] by (simp add: steps_to_def spec_step.closed)
qed

lemma closed_pending_steps:
  assumes "i < length (codecInstPool (sem s))" "inUse (the_inst s i)" "pendingInst (sem s) = Some i"
    and "spec t = (spec s)\<lparr>insts := (insts (spec s))[i := (insts (spec s) ! i)\<lparr>v_used := False\<rparr>], pending := None,
      held := False\<rparr>"
  shows "steps_to s (r, t)"
  using assms view_used [of s i] by (simp add: steps_to_def spec_step.closed_pending)

lemma finished_steps:
  assumes "pendingInst (sem s) = Some i" "spec t = (spec s)\<lparr>pending := None, held := False\<rparr>"
  shows "steps_to s (r, t)"
  using assms by (simp add: steps_to_def spec_step.abandoned)

lemma DecClose_step:
  assumes len: "length (codecInstPool (sem s)) = 4"
  shows "ens (steps_to s) (vpu_DecClose e h s)"
proof -
  have free: "ens (steps_to s) (locked e id (close_body e i) s)" if i: "i < 4" "inUse (the_inst s i)" for i
    by (intro locked_ens close_body_ens closed_steps [of i] steps_to_same)
      (use i len in \<open>auto dest!: spec_lock spec_same_sem\<close>)
  have pend: "ens (steps_to s) (locked e id (close_body e i) t)"
    if i: "i < 4" "inUse (the_inst s i)" "pendingInst (sem s) = Some i"
      and t: "sem t = (sem s)\<lparr>pendingInst := None, api_lock := False\<rparr>" for i t
  proof -
    have t': "spec t = (spec s)\<lparr>pending := None, held := False\<rparr>" using t by (simp add: spec_def)
    show ?thesis
    proof (intro locked_ens close_body_ens)
      fix s' :: dec_lib
      assume "sem s' = sem t"
      then show "steps_to s (id RETCODE_FAILURE_TIMEOUT, s')" using finished_steps [OF i(3)] t' spec_same_sem by metis
    next
      fix s' u :: dec_lib
      assume "sem s' = (sem t)\<lparr>api_lock := True\<rparr>"
        and u: "spec u = (spec s')\<lparr>insts := (insts (spec s'))[i := (insts (spec s') ! i)\<lparr>v_used := False\<rparr>], held := False\<rparr>"
      then have "spec s' = (spec s)\<lparr>pending := None, held := True\<rparr>" using t' spec_lock by fastforce
      then have "spec u = (spec s)\<lparr>insts := (insts (spec s))[i := (insts (spec s) ! i)\<lparr>v_used := False\<rparr>], pending := None,
          held := False\<rparr>" using u by simp
      then show "steps_to s (RETCODE_SUCCESS, u)" using i len by (intro closed_pending_steps [of i]) simp_all
    qed
  qed
  show ?thesis
    unfolding vpu_DecClose_def
    by (intro dec_call_ens ens_flow UnlockVpu_ens free pend) (auto intro: steps_to_same simp: set_pending_def)
qed

lemma seq_format_ens: "(\<And>x s'. sem s' = sem s \<Longrightarrow> Q (x, s')) \<Longrightarrow> ens Q (seq_format e c info s)"
  unfolding seq_format_def by (intro ens_flow VpuReadReg_ens) auto

lemma seq_report_ens: "(\<And>x s'. sem s' = sem s \<Longrightarrow> Q (x, s')) \<Longrightarrow> ens Q (seq_report e info s)"
  unfolding seq_report_def by (intro ens_flow VpuReadReg_ens) auto

lemma got_info_spec:
  assumes "i < length (codecInstPool (sem s))" "sem t = (sem s)\<lparr>api_lock := False\<rparr>"
  shows "spec (upd_dec i (\<lambda>d. d\<lparr>initialInfo := x, initialInfoObtained := 1\<rparr>) t) =
    (spec s)\<lparr>insts := (insts (spec s))[i := (insts (spec s) ! i)\<lparr>v_info := True\<rparr>], held := False\<rparr>"
  using assms by (simp add: upd_dec_def spec_upd_inst the_inst_def) (simp add: spec_def view_def Let_def)

lemma seq_results_ens:
  assumes i: "i < length (codecInstPool (sem s))"
    and ok: "\<And>r s'. spec s' = (spec s)\<lparr>held := False\<rparr> \<or>
      spec s' = (spec s)\<lparr>insts := (insts (spec s))[i := (insts (spec s) ! i)\<lparr>v_info := True\<rparr>], held := False\<rparr> \<Longrightarrow> Q (r, s')"
  shows "ens Q (seq_results e ir i info s)"
  unfolding seq_results_def
  by (intro ens_flow seq_format_ens seq_report_ens unlock_ens UnlockVpu_ens dec_iram_ens)
    (auto intro!: ok simp: spec_lock got_info_spec [OF i])

lemma seq_init_ens:
  assumes i: "i < length (codecInstPool (sem s))"
    and ok: "\<And>r s'. spec s' = (spec s)\<lparr>held := False\<rparr> \<or>
      spec s' = (spec s)\<lparr>insts := (insts (spec s))[i := (insts (spec s) ! i)\<lparr>v_info := True\<rparr>], held := False\<rparr> \<Longrightarrow> Q (r, s')"
  shows "ens Q (seq_init e ir i info s)"
proof -
  have len: "i < length (codecInstPool (sem t))" if "spec t = spec s" for t
    using i that by (metis spec_simps(3))
  show ?thesis
    unfolding seq_init_def
    by (intro ens_flow DecBitstreamBufEmpty_ens write_all_ens user_data_mem_ens run_cmd_ens WaitBitBusyClear_ens
        VpuReadReg_ens unlock_ens seq_results_ens)
      (auto intro!: ok len dest!: spec_same_sem spec_lock)
qed

lemma DecGetInitialInfo_step:
  assumes len: "length (codecInstPool (sem s)) = 4"
  shows "ens (steps_to s) (vpu_DecGetInitialInfo e ir h info s)"
proof -
  have ok: "steps_to s (r, t)"
    if i: "i < 4" "inUse (the_inst s i)" "initialInfoObtained (decInfo (the_inst s i)) = 0" "\<not> api_lock (sem s)"
      and t: "spec t = (spec s)\<lparr>held := False\<rparr> \<or>
        spec t = (spec s)\<lparr>insts := (insts (spec s))[i := (insts (spec s) ! i)\<lparr>v_info := True\<rparr>], held := False\<rparr>"
    for i t and r :: "RetCode \<times> DecInitialInfo option"
  proof -
    have "\<not> v_info (insts (spec s) ! i)" using i(1,3) len by (simp add: insts_nth view_def Let_def)
    moreover have "spec t = spec s \<or> spec t = (spec s)\<lparr>insts := (insts (spec s))[i := (insts (spec s) ! i)\<lparr>v_info := True\<rparr>]\<rparr>"
      using i(4) t by (auto simp: spec_def)
    ultimately show ?thesis
      using i(1,2,4) len view_used [of s i] by (auto simp: steps_to_def spec_step.got_info spec_step.stay)
  qed
  have locked: "ens (steps_to s) (locked e out (\<lambda>s. do { ((ret, x), s) \<leftarrow> seq_init e ir i x s; Some ((ret, Some x), s) }) s)"
    if "i < 4" "inUse (the_inst s i)" "initialInfoObtained (decInfo (the_inst s i)) = 0" for i x out
    by (intro locked_ens ens_bind seq_init_ens)
      (use that len in \<open>auto intro!: ens_flow intro: ok steps_to_same dest!: spec_same_sem spec_lock\<close>)
  show ?thesis
    unfolding vpu_DecGetInitialInfo_def
    by (intro dec_call_ens ens_option ens_flow locked) (auto intro: steps_to_same)
qed

lemma DecRegisterFrameBuffer_step:
  assumes len: "length (codecInstPool (sem s)) = 4"
  shows "ens (steps_to s) (vpu_DecRegisterFrameBuffer e on ir h bufs num str info s)"
proof -
  let ?t = "\<lambda>i b. upd_dec i (\<lambda>d. d\<lparr>frameBufPool := Some b, numFrameBuffers := num, stride := str\<rparr>) s"
  have reg: "steps_to s (r, t)"
    if i: "i < 4" "inUse (the_inst s i)" "initialInfoObtained (decInfo (the_inst s i)) \<noteq> 0"
      "frameBufPool (decInfo (the_inst s i)) = None" and t: "spec t = spec (?t i b)" for i b t and r :: RetCode
  proof -
    have v: "v_info (insts (spec s) ! i)" "\<not> v_frames (insts (spec s) ! i)"
      using i len by (simp_all add: insts_nth view_def Let_def)
    have "spec t = (spec s)\<lparr>insts := (insts (spec s))[i := (insts (spec s) ! i)\<lparr>v_frames := True\<rparr>]\<rparr>"
      using t i(1) len by (simp add: upd_dec_def spec_upd_inst insts_nth) (simp add: view_def Let_def)
    then show ?thesis using v i(1,2) len view_used [of s i] by (simp add: steps_to_def spec_step.registered)
  qed
  have lock: "ens (steps_to s) (locked e id (register_body e on ir i b num str info) (?t i b))"
    if i: "i < 4" "inUse (the_inst s i)" "initialInfoObtained (decInfo (the_inst s i)) \<noteq> 0"
      "frameBufPool (decInfo (the_inst s i)) = None" for i b
  proof -
    have l: "api_lock (sem (?t i b)) = api_lock (sem s)" by (simp add: upd_dec_def upd_inst_def)
    show ?thesis
      unfolding register_body_def
      by (intro locked_ens ens_flow frame_addrs_ens write_all_ens register_axi_ens ens_pure [where r = info]
          run_cmd_ens WaitBitBusyClear_ens unlock_ens reg [OF i])
        (use l in \<open>auto simp: spec_def\<close>)
  qed
  show ?thesis
    unfolding vpu_DecRegisterFrameBuffer_def
    by (intro dec_call_ens ens_flow ens_option) (auto intro: steps_to_same reg intro!: lock)
qed

lemma pic_run_ens:
  assumes "\<And>s'. spec s' = (spec s)\<lparr>pending := Some i\<rparr> \<Longrightarrow> Q (RETCODE_SUCCESS, s')"
  shows "ens Q (pic_run e i p s)"
proof -
  have b: "spec (if c then upd_dec i (\<lambda>d. d\<lparr>vc1BframeDisplayValid := 0\<rparr>) t else t) = spec t" for c t by simp
  show ?thesis
    unfolding pic_run_def
    by (intro ens_flow VpuWriteReg_ens write_all_ens VpuReadReg_ens run_cmd_ens assms)
      (auto simp: b dest!: spec_same_sem split: if_splits)
qed

lemma start_body_ens:
  assumes "\<And>r s'. spec s' = (spec s)\<lparr>held := False\<rparr> \<or> spec s' = (spec s)\<lparr>pending := Some i\<rparr> \<Longrightarrow> Q (r, s')"
  shows "ens Q (start_body e i p s)"
  unfolding start_body_def
  by (intro ens_flow ens_option write_all_ens unlock_ens pic_para_mem_ens user_data_mem_ens pic_run_ens)
    (auto intro!: assms dest!: spec_same_sem spec_lock)

lemma DecStartOneFrame_step:
  assumes len: "length (codecInstPool (sem s)) = 4"
  shows "ens (steps_to s) (vpu_DecStartOneFrame e h param s)"
proof -
  let ?t = "\<lambda>i. upd_inst i (\<lambda>c. c\<lparr>decParam := param\<rparr>) s"
  have ok: "steps_to s (r, u)"
    if i: "i < 4" "inUse (the_inst s i)" "frameBufPool (decInfo (the_inst (?t i) i)) \<noteq> None" "\<not> api_lock (sem (?t i))"
      and u: "spec u = (spec s)\<lparr>held := False\<rparr> \<or> spec u = (spec s)\<lparr>held := True, pending := Some i\<rparr>" for i u and r :: RetCode
  proof -
    have l: "\<not> api_lock (sem s)" using i(4) by (simp add: upd_inst_def)
    have "v_frames (insts (spec (?t i)) ! i)"
      using i(1,3) len by (subst insts_nth) (auto simp: upd_inst_def view_def Let_def)
    then have "v_frames (insts (spec s) ! i)" by simp
    moreover have "spec u = spec s \<or> spec u = (spec s)\<lparr>pending := Some i, held := True\<rparr>" using u l by (auto simp: spec_def)
    ultimately show ?thesis
      using i(1,2) l len view_used [of s i] by (auto simp: steps_to_def spec_step.started spec_step.stay)
  qed
  have lock: "ens (steps_to s) (locked e id (start_body e i param) (?t i))"
    if i: "i < 4" "inUse (the_inst s i)" "frameBufPool (decInfo (the_inst (?t i) i)) \<noteq> None" for i
    by (intro locked_ens start_body_ens) (use i in \<open>auto intro: steps_to_same ok [OF i] dest!: spec_same_sem spec_lock\<close>)
  show ?thesis
    unfolding vpu_DecStartOneFrame_def
    by (intro dec_call_ens ens_flow) (auto intro: steps_to_same intro!: lock)
qed

lemma DecGetOutputInfo_step: "ens (steps_to s) (vpu_DecGetOutputInfo e h info s)"
proof -
  have fin: "steps_to s (r, u)" if "pendingInst (sem s) = Some i" "spec t = spec s" "sem u = (sem (set_pending None t))\<lparr>api_lock := False\<rparr>"
    for i t u and r :: "RetCode \<times> DecOutputInfo option"
    using that(2) spec_lock [OF that(3)] by (intro finished_steps [OF that(1)]) simp
  show ?thesis
    unfolding vpu_DecGetOutputInfo_def
    by (intro dec_call_ens ens_flow output_body_ens unlock_ens) (auto intro: steps_to_same fin)
qed

definition setting_law :: "DecInfo \<Rightarrow> bool" where
  "setting_law d \<longleftrightarrow>
     (rotationEnable d \<noteq> 0 \<or> mirrorEnable d \<noteq> 0 \<or> deringEnable d \<noteq> 0 \<longrightarrow> rotatorOutputValid d \<noteq> 0 \<and> rotatorStride d \<noteq> 0) \<and>
     rotatorStride d mod 8 = 0 \<and> rotationAngle d \<in> {0, 90, 180, 270} \<and> 0 \<le> mirrorDirection d \<and> mirrorDirection d \<le> 3"

lemma rotator_law_view: "rotator_law (view c) \<longleftrightarrow> setting_law (decInfo c)"
  by (simp add: rotator_law_def setting_law_def view_def Let_def)

definition keeps_setting :: "DecInfo \<Rightarrow> DecInfo \<Rightarrow> bool" where
  "keeps_setting d d' \<longleftrightarrow> initialInfoObtained d' = initialInfoObtained d \<and> frameBufPool d' = frameBufPool d \<and>
     (setting_law d \<longrightarrow> setting_law d')"

lemma set_angle_keeps: "keeps_setting d (snd (set_angle x d))"
  unfolding set_angle_def keeps_setting_def by (simp add: setting_law_def)

lemma set_stride_keeps: "keeps_setting d (snd (set_stride x d))"
  unfolding set_stride_def keeps_setting_def by (simp add: setting_law_def)

lemma rotator_ready_keeps:
  "keeps_setting d (snd (rotator_ready d (d\<lparr>rotationEnable := 1\<rparr>)))"
  "keeps_setting d (snd (rotator_ready d (d\<lparr>mirrorEnable := 1\<rparr>)))"
  "keeps_setting d (snd (rotator_ready d (d\<lparr>deringEnable := 1\<rparr>)))"
  unfolding rotator_ready_def keeps_setting_def by (simp_all add: setting_law_def)

lemma dec_setting_keeps:
  "dec_setting sr cmd d = Some x \<Longrightarrow> keeps_setting d (snd x)"
proof (induction sr cmd d rule: dec_setting.induct)
qed (auto simp: set_angle_keeps set_stride_keeps rotator_ready_keeps,
     auto simp: keeps_setting_def setting_law_def)

lemma give_setting_step:
  assumes "length (codecInstPool (sem s)) = 4" "i < 4" "inUse (the_inst s i)"
  shows "ens (steps_to s) (give_setting cmd i s)"
  unfolding give_setting_def
proof (intro ens_flow ens_pure [where r = "dec_setting a b c" for a b c])
  fix x ret d
  assume "dec_setting (system_rev s) cmd (decInfo (the_inst s i)) = Some x" "x = (ret, d)"
  then have v: "initialInfoObtained d = initialInfoObtained (decInfo (the_inst s i))" "frameBufPool d = frameBufPool (decInfo (the_inst s i))"
    "rotator_law (view (the_inst s i)) \<longrightarrow> rotator_law (view ((the_inst s i)\<lparr>decInfo := d\<rparr>))"
    using dec_setting_keeps [of "system_rev s" cmd "decInfo (the_inst s i)" x] by (auto simp: keeps_setting_def rotator_law_view)
  have u: "spec (upd_dec i (\<lambda>_. d) s) = (spec s)\<lparr>insts := (insts (spec s))[i := view ((the_inst s i)\<lparr>decInfo := d\<rparr>)]\<rparr>"
    by (simp add: upd_dec_def spec_upd_inst)
  show "steps_to s (ret, upd_dec i (\<lambda>_. d) s)"
    unfolding steps_to_def u prod.case
    by (rule spec_step.setting) (use assms v in \<open>auto simp: insts_nth\<close>, auto simp: view_def Let_def)
qed

lemma DecGiveCommand_step:
  assumes "length (codecInstPool (sem s)) = 4"
  shows "ens (steps_to s) (vpu_DecGiveCommand e h cmd s)"
proof -
  have sps: "ens (steps_to s) (locked e id (\<lambda>s. do { s \<leftarrow> SetParaSet e (the_inst s i) t p s; unlock e RETCODE_SUCCESS s }) s)" for i t p
    by (intro plain_locked ens_flow SetParaSet_ens unlock_ens) (auto dest!: spec_same_sem spec_lock)
  have pps: "ens (steps_to s) (do { s \<leftarrow> SetParaSet e c t p s; Some (RETCODE_SUCCESS, s) })" for c t p
    by (intro ens_flow SetParaSet_ens) (auto intro!: steps_to_same dest: spec_same_sem)
  show ?thesis
    unfolding vpu_DecGiveCommand_def Let_def
    by (intro dec_call_ens) (auto intro: steps_to_same intro!: sps pps ens_Some give_setting_step assms
        split: DecCommand.split option.split)
qed

section \<open>Sequences of calls\<close>

datatype dec_op =
    DecOpen "DecOpenParam option" "handle option" | DecClose handle | DecSetEscSeqInit handle int
  | DecGetInitialInfo iram_setting handle "DecInitialInfo option"
  | DecRegisterFrameBuffer bool iram_setting handle "FrameBuffer list option" int int "DecBufInfo option"
  | DecGetBitstreamBuffer handle bool | DecUpdateBitstreamBuffer handle u32 | DecStartOneFrame handle DecParam
  | DecGetOutputInfo handle "DecOutputInfo option" | DecBitBufferFlush handle | DecClrDispFlag handle int
  | DecGiveCommand handle DecCommand

fun dec_exec :: "io_env \<Rightarrow> dec_op \<Rightarrow> dec_lib \<Rightarrow> dec_lib option" where
  "dec_exec e (DecOpen pop h) s = map_option snd (vpu_DecOpen e pop h s)"
| "dec_exec e (DecClose h) s = map_option snd (vpu_DecClose e h s)"
| "dec_exec e (DecSetEscSeqInit h x) s = map_option snd (vpu_DecSetEscSeqInit e h x s)"
| "dec_exec e (DecGetInitialInfo ir h info) s = map_option snd (vpu_DecGetInitialInfo e ir h info s)"
| "dec_exec e (DecRegisterFrameBuffer on ir h bufs num str info) s =
     map_option snd (vpu_DecRegisterFrameBuffer e on ir h bufs num str info s)"
| "dec_exec e (DecGetBitstreamBuffer h b) s = map_option snd (vpu_DecGetBitstreamBuffer e h b s)"
| "dec_exec e (DecUpdateBitstreamBuffer h n) s = map_option snd (vpu_DecUpdateBitstreamBuffer e h n s)"
| "dec_exec e (DecStartOneFrame h p) s = map_option snd (vpu_DecStartOneFrame e h p s)"
| "dec_exec e (DecGetOutputInfo h info) s = map_option snd (vpu_DecGetOutputInfo e h info s)"
| "dec_exec e (DecBitBufferFlush h) s = map_option snd (vpu_DecBitBufferFlush e h s)"
| "dec_exec e (DecClrDispFlag h x) s = map_option snd (vpu_DecClrDispFlag e h x s)"
| "dec_exec e (DecGiveCommand h c) s = map_option snd (vpu_DecGiveCommand e h c s)"

text \<open>\<open>e\<close> may differ from call to call: other processes and the device change between calls.\<close>

inductive dec_reach :: "dec_lib \<Rightarrow> dec_lib \<Rightarrow> bool" where
  start: "dec_reach s s"
| call: "dec_reach s t \<Longrightarrow> dec_exec e op t = Some u \<Longrightarrow> dec_reach s u"

lemma ens_exec: "ens (steps_to s) f \<Longrightarrow> map_option snd f = Some s' \<Longrightarrow> spec_step (spec s) (spec s')"
  by (auto simp: ens_def steps_to_def)

lemma dec_exec_step:
  assumes "length (codecInstPool (sem s)) = 4" "dec_exec e op s = Some s'"
  shows "spec_step (spec s) (spec s')"
  using assms
  by (cases op) (auto simp del: map_option_eq_Some intro: DecOpen_step DecClose_step DecSetEscSeqInit_step DecGetInitialInfo_step
      DecRegisterFrameBuffer_step DecGetBitstreamBuffer_step DecUpdateBitstreamBuffer_step DecStartOneFrame_step
      DecGetOutputInfo_step DecBitBufferFlush_step DecClrDispFlag_step DecGiveCommand_step elim!: ens_exec [rotated])

definition inst_law :: "inst_view \<Rightarrow> bool" where
  "inst_law v \<longleftrightarrow> (v_used v \<longrightarrow> (v_frames v \<longrightarrow> v_info v) \<and> rotator_law v)"

definition spec_inv :: "dec_spec \<Rightarrow> bool" where
  "spec_inv a \<longleftrightarrow> length (insts a) = 4 \<and> (held a \<longleftrightarrow> pending a \<noteq> None) \<and>
     (\<forall>i. pending a = Some i \<longrightarrow> i < 4 \<and> v_used (insts a ! i) \<and> v_frames (insts a ! i)) \<and>
     (\<forall>v \<in> set (insts a). inst_law v)"

lemma rotator_law_flags [simp]:
  "rotator_law (v\<lparr>v_used := b\<rparr>) = rotator_law v" "rotator_law (v\<lparr>v_info := b\<rparr>) = rotator_law v"
  "rotator_law (v\<lparr>v_frames := b\<rparr>) = rotator_law v"
  by (simp_all add: rotator_law_def)

lemma inv_update:
  assumes "spec_inv a" "inst_law v" "pending a = Some i \<Longrightarrow> v_used v \<and> v_frames v"
  shows "spec_inv (a\<lparr>insts := (insts a)[i := v]\<rparr>)"
proof -
  have "\<forall>w \<in> set ((insts a)[i := v]). inst_law w"
    using assms(1,2) set_update_subset_insert [of "insts a" i v] by (auto simp: spec_inv_def)
  moreover have "v_used ((insts a)[i := v] ! j) \<and> v_frames ((insts a)[i := v] ! j)" if "pending a = Some j" for j
    using assms(1,3) that by (cases "i = j") (auto simp: spec_inv_def)
  ultimately show ?thesis using assms(1) by (simp add: spec_inv_def)
qed

lemma inv_release: "spec_inv a \<Longrightarrow> spec_inv (a\<lparr>pending := None, held := False\<rparr>)"
  by (simp add: spec_inv_def)

lemma inv_inst: "spec_inv a \<Longrightarrow> i < length (insts a) \<Longrightarrow> inst_law (insts a ! i)"
  by (simp add: spec_inv_def)

lemma inv_pending: "spec_inv a \<Longrightarrow> pending a = Some i \<Longrightarrow> v_used (insts a ! i) \<and> v_frames (insts a ! i) \<and> held a"
  by (simp add: spec_inv_def)

lemma spec_step_inv: "spec_step a b \<Longrightarrow> spec_inv a \<Longrightarrow> spec_inv b"
proof (induction rule: spec_step.induct)
  case (opened i a)
  have "inst_law fresh_view" by (simp add: inst_law_def rotator_law_def fresh_view_def)
  then show ?case using opened inv_pending [of a i] by (intro inv_update) auto
next
  case (closed i a)
  then show ?case using inv_pending [of a i] by (intro inv_update) (auto simp: inst_law_def)
next
  case (closed_pending i a)
  then have "spec_inv ((a\<lparr>pending := None, held := False\<rparr>)\<lparr>insts := (insts a)[i := (insts a ! i)\<lparr>v_used := False\<rparr>]\<rparr>)"
    using inv_update [OF inv_release, of a "(insts a ! i)\<lparr>v_used := False\<rparr>" i] by (simp add: inst_law_def)
  then show ?case by (simp add: spec_inv_def)
next
  case (got_info i a)
  then show ?case using inv_pending [of a i] inv_inst [of a i] by (intro inv_update) (auto simp: inst_law_def)
next
  case (registered i a)
  then show ?case using inv_pending [of a i] inv_inst [of a i] by (intro inv_update) (auto simp: inst_law_def)
next
  case (started i a)
  then show ?case by (simp add: spec_inv_def)
next
  case (setting i a v)
  then show ?case using inv_pending [of a i] inv_inst [of a i] by (intro inv_update) (auto simp: inst_law_def)
qed (simp_all add: inv_release)

lemma spec_inv_length: "spec_inv (spec s) \<Longrightarrow> length (codecInstPool (sem s)) = 4"
  by (simp add: spec_inv_def)

lemma dec_reach_inv: "dec_reach s0 s \<Longrightarrow> spec_inv (spec s0) \<Longrightarrow> spec_inv (spec s)"
proof (induction rule: dec_reach.induct)
  case (call s t e op u)
  note inv = call.IH [OF call.prems]
  show ?case by (rule spec_step_inv [OF dec_exec_step [OF spec_inv_length [OF inv] call.hyps(2)] inv])
qed

end
