(* ===== verification/Vpu_Dec_Live.thy ===== *)
theory Vpu_Dec_Live
  imports Vpu_Dec_Safety
begin

unbundle bit_operations_syntax

text \<open>
  The properties of the decoder interface: the refinement and the invariants with concrete
  sessions, the calls that return, and the ring of stream bytes.
\<close>

section \<open>Calls that return\<close>

text \<open>\<open>ret Q r\<close>: the call returns, and its result satisfies \<open>Q\<close>.\<close>

definition ret :: "('a \<Rightarrow> bool) \<Rightarrow> 'a option \<Rightarrow> bool" where
  "ret Q r \<longleftrightarrow> (\<exists>x. r = Some x \<and> Q x)"

lemma ret_Some: "Q x \<Longrightarrow> ret Q (Some x)"
  by (simp add: ret_def)

lemma ret_bind: "ret (\<lambda>x. ret Q (f x)) m \<Longrightarrow> ret Q (m \<bind> f)"
  by (auto simp: ret_def)

lemma ret_split: "ret Q (f a b) \<Longrightarrow> ret Q (case (a, b) of (x, y) \<Rightarrow> f x y)"
  by simp

lemma ret_let: "(\<And>y. y = x \<Longrightarrow> ret Q (f y)) \<Longrightarrow> ret Q (Let x f)"
  by simp

lemma ret_if: "(b \<Longrightarrow> ret Q x) \<Longrightarrow> (\<not> b \<Longrightarrow> ret Q y) \<Longrightarrow> ret Q (if b then x else y)"
  by simp

lemmas ret_flow = ret_Some ret_bind ret_split ret_let ret_if

text \<open>What the register accesses keep: everything but the driver and the count of its calls.\<close>

definition calm :: "dec_lib \<Rightarrow> dec_lib \<Rightarrow> bool" where
  "calm s s' \<longleftrightarrow> sem s' = sem s \<and> vpu_fd s' = vpu_fd s \<and> system_rev s' = system_rev s"

lemma calm_refl [simp]: "calm s s"
  by (simp add: calm_def)

lemma calm_trans [trans]: "calm s t \<Longrightarrow> calm t u \<Longrightarrow> calm s u"
  by (simp add: calm_def)

lemma lib_ioctl_ret:
  assumes "0 \<le> vpu_fd s" "ret (\<lambda>_. True) (vpu_ioctl (bitmaps e) (ioctl_env e (n_ioctl s)) cmd (kernel s))"
    and "\<And>r rep s'. calm s s' \<Longrightarrow> Q (r, rep, s')"
  shows "ret Q (lib_ioctl e cmd s)"
  using assms by (auto simp: ret_def lib_ioctl_def calm_def)

lemma VpuWriteReg_ret: "0 \<le> vpu_fd s \<Longrightarrow> (\<And>s'. calm s s' \<Longrightarrow> Q s') \<Longrightarrow> ret Q (VpuWriteReg e a v s)"
  unfolding VpuWriteReg_def
  by (intro ret_bind lib_ioctl_ret) (auto simp: ret_def ioctl_reg_write_def)

lemma VpuReadReg_ret: "0 \<le> vpu_fd s \<Longrightarrow> (\<And>v s'. calm s s' \<Longrightarrow> Q (v, s')) \<Longrightarrow> ret Q (VpuReadReg e a s)"
  unfolding VpuReadReg_def
  by (intro ret_bind lib_ioctl_ret) (auto simp: ret_def ioctl_reg_read_def Let_def split: prod.split)

lemma IOClkGateSet_ret: "0 \<le> vpu_fd s \<Longrightarrow> (\<And>s'. calm s s' \<Longrightarrow> Q s') \<Longrightarrow> ret Q (IOClkGateSet e b s)"
  unfolding IOClkGateSet_def by (intro ret_bind lib_ioctl_ret) (auto simp: ret_def)

lemma calm_fd: "calm s s' \<Longrightarrow> 0 \<le> vpu_fd s \<Longrightarrow> 0 \<le> vpu_fd s'"
  by (simp add: calm_def)

lemma write_all_ret: "0 \<le> vpu_fd s \<Longrightarrow> (\<And>s'. calm s s' \<Longrightarrow> Q s') \<Longrightarrow> ret Q (write_regs e ws s)"
proof (induction ws arbitrary: s)
  case (Cons w ws)
  obtain a v where w: "w = (a, v)" by (cases w)
  show ?case unfolding w write_regs.simps
    by (intro ret_bind VpuWriteReg_ret Cons.IH Cons.prems) (use Cons.prems(1) in \<open>auto intro: calm_fd calm_trans\<close>)
qed (simp add: ret_def)

lemma BitIssueCommand_ret: "0 \<le> vpu_fd s \<Longrightarrow> (\<And>s'. calm s s' \<Longrightarrow> Q s') \<Longrightarrow> ret Q (BitIssueCommand e i m c s)"
  unfolding BitIssueCommand_def
  by (intro ret_bind IOClkGateSet_ret write_all_ret) (auto intro: calm_fd calm_trans)

definition clock_runs :: "io_env \<Rightarrow> bool" where
  "clock_runs e \<longleftrightarrow> (\<forall>j. \<exists>n. 1000 \<le> elapsed_ms (clock e j) (clock e (Suc j + n)))"

lemma read_calm: "VpuReadReg e a s = Some (v, s') \<Longrightarrow> calm s s'"
  by (auto simp: VpuReadReg_def bind_eq_Some_conv calm_def dest!: lib_ioctl_frame)

lemma busy_loop_calm:
  assumes "busy_loop e t0 s = Some s'"
  shows "calm s s'"
  using assms
proof (rule busy_loop.raw_induct [rotated], goal_cases)
  case (1 f e t0 s s')
  from 1(2) obtain v t where t: "VpuReadReg e BIT_BUSY_FLAG s = Some (v, t)"
    "(if v = 0 then Some t else case gettimeofday e t of (now, s) \<Rightarrow>
       if elapsed_ms t0 now < 1000 then f e t0 s else Some s) = Some s'"
    by (auto simp: bind_eq_Some_conv)
  show ?case using t(2) read_calm [OF t(1)] 1(1) [of e t0 "t\<lparr>n_clock := Suc (n_clock t)\<rparr>" s']
    by (auto simp: gettimeofday_def calm_def split: if_splits)
qed

lemma WaitBitBusyClear_ret:
  assumes "0 \<le> vpu_fd s" "clock_runs e" "\<And>s'. calm s s' \<Longrightarrow> Q s'"
  shows "ret Q (WaitBitBusyClear e s)"
proof -
  obtain t where t: "VpuReadReg e BIT_BUSY_FLAG s = Some (poll e s 0, t)" "vpu_fd t = vpu_fd s" "n_clock t = n_clock s"
    using read_busy [OF assms(1), of e] by blast
  let ?u = "t\<lparr>n_clock := Suc (n_clock s)\<rparr>"
  obtain n where n: "1000 \<le> elapsed_ms (clock e (n_clock s)) (clock e (Suc (n_clock s) + n))"
    using assms(2) unfolding clock_runs_def by blast
  obtain s' where s': "busy_loop e (clock e (n_clock s)) ?u = Some s'"
    using busy_loop_returns [of ?u "clock e (n_clock s)" e n] n t assms(1) by auto
  have "calm s t" using read_calm t(1) by blast
  moreover have "calm s s'" using busy_loop_calm [OF s'] \<open>calm s t\<close> by (simp add: calm_def)
  ultimately show ?thesis
    using t s' assms(3) by (auto simp: ret_def WaitBitBusyClear_def gettimeofday_def)
qed

text \<open>The lock of the library, when the attempts to take it when it is free succeed.\<close>

lemma locked_ret:
  assumes "0 \<le> vpu_fd s" "\<forall>n. lock_ok e n" "\<not> api_lock (sem s)"
    and "\<And>s'. sem s' = (sem s)\<lparr>api_lock := True\<rparr> \<Longrightarrow> vpu_fd s' = vpu_fd s \<Longrightarrow> system_rev s' = system_rev s \<Longrightarrow> ret Q (body s')"
  shows "ret Q (locked e out body s)"
  unfolding locked_def LockVpu_def semaphore_wait_def Let_def
  using assms by (auto intro!: ret_bind IOClkGateSet_ret ret_Some simp: calm_def)

lemma UnlockVpu_ret:
  fixes s :: dec_lib
  assumes "0 \<le> vpu_fd s"
    and "\<And>s'. sem s' = (sem s)\<lparr>api_lock := False\<rparr> \<Longrightarrow> vpu_fd s' = vpu_fd s \<Longrightarrow> system_rev s' = system_rev s \<Longrightarrow> Q s'"
  shows "ret Q (UnlockVpu e s)"
  unfolding UnlockVpu_def semaphore_post_def
  using assms by (auto intro!: IOClkGateSet_ret simp: calm_def)

lemma unlock_ret:
  assumes "0 \<le> vpu_fd s"
    and "\<And>s'. sem s' = (sem s)\<lparr>api_lock := False\<rparr> \<Longrightarrow> vpu_fd s' = vpu_fd s \<Longrightarrow> system_rev s' = system_rev s \<Longrightarrow> Q (r, s')"
  shows "ret Q (unlock e r s)"
  unfolding unlock_def using assms by (intro ret_flow UnlockVpu_ret) auto

lemma free_report_ret:
  assumes "\<And>s'. calm s s' \<Longrightarrow> Q (zero_mem_desc, s')"
  shows "ret Q (free_report e zero_mem_desc s)"
  using assms [of "s\<lparr>sz_alloc := sz_alloc s - mem_size zero_mem_desc\<rparr>"]
  by (simp add: ret_def free_report_def IOFreeVirtMem_def IOFreePhyMem_def IOFreePhyMem'_def zero_mem_desc_def calm_def)

lemma the_inst_upd [simp]:
  "i < length (codecInstPool (sem s)) \<Longrightarrow> the_inst (upd_dec i f s) i = (the_inst s i)\<lparr>decInfo := f (decInfo (the_inst s i))\<rparr>"
  "length (codecInstPool (sem (upd_dec i f s))) = length (codecInstPool (sem s))"
  "vpu_fd (upd_dec i f s) = vpu_fd s" "system_rev (upd_dec i f s) = system_rev s"
  "pendingInst (sem (upd_dec i f s)) = pendingInst (sem s)" "api_lock (sem (upd_dec i f s)) = api_lock (sem s)"
  by (simp_all add: upd_dec_def upd_inst_def the_inst_def)

lemma free_instance [simp]:
  "i < length (codecInstPool (sem s)) \<Longrightarrow> \<not> inUse (the_inst (FreeInstance i s) i)"
  "pendingInst (sem (FreeInstance i s)) = pendingInst (sem s)" "vpu_fd (FreeInstance i s) = vpu_fd s"
  by (simp_all add: FreeInstance_def FreeCodecInstance_def the_inst_def)

lemma calm_inst: "calm s s' \<Longrightarrow> the_inst s' i = the_inst s i \<and> length (codecInstPool (sem s')) = length (codecInstPool (sem s)) \<and>
    pendingInst (sem s') = pendingInst (sem s) \<and> vpu_fd s' = vpu_fd s"
  by (simp add: calm_def the_inst_def)

section \<open>An abandoned frame\<close>

lemma close_body_ret:
  assumes "0 \<le> vpu_fd s" "clock_runs e" "i < length (codecInstPool (sem s))"
    and "picParaBaseMem (decInfo (the_inst s i)) = zero_mem_desc" "userDataBufMem (decInfo (the_inst s i)) = zero_mem_desc"
  shows "ret (\<lambda>(r, s'). r = RETCODE_SUCCESS \<and> \<not> api_lock (sem s') \<and> pendingInst (sem s') = pendingInst (sem s) \<and>
    \<not> inUse (the_inst s' i)) (close_body e i s)"
proof -
  have seq: "ret P (if b then do { s \<leftarrow> write_regs e ws s; s \<leftarrow> run_cmd e i c s; WaitBitBusyClear e s } else Some s)"
    if "\<And>s'. calm s s' \<Longrightarrow> P s'" for P b ws c
    unfolding run_cmd_def
    by (intro ret_flow write_all_ret BitIssueCommand_ret WaitBitBusyClear_ret assms that)
      (use assms(1) in \<open>auto intro: calm_fd calm_trans\<close>)
  have tail: "ret (\<lambda>(r, s'). r = RETCODE_SUCCESS \<and> \<not> api_lock (sem s') \<and> pendingInst (sem s') = pendingInst (sem s) \<and>
      \<not> inUse (the_inst s' i)) (unlock e RETCODE_SUCCESS (FreeInstance i u))"
    if "i < length (codecInstPool (sem u))" "pendingInst (sem u) = pendingInst (sem s)" "0 \<le> vpu_fd u" for u
    using that free_instance(1) [OF that(1)] by (intro unlock_ret) (auto simp: the_inst_def)
  have user: "ret (\<lambda>(r, s'). r = RETCODE_SUCCESS \<and> \<not> api_lock (sem s') \<and> pendingInst (sem s') = pendingInst (sem s) \<and>
      \<not> inUse (the_inst s' i))
      (do { (m, s) \<leftarrow> free_report e (userDataBufMem (decInfo (the_inst u i))) u;
            unlock e RETCODE_SUCCESS (FreeInstance i (upd_dec i (\<lambda>d. d\<lparr>userDataBufMem := m\<rparr>) s)) })"
    if "i < length (codecInstPool (sem u))" "pendingInst (sem u) = pendingInst (sem s)" "0 \<le> vpu_fd u"
      "userDataBufMem (decInfo (the_inst u i)) = zero_mem_desc" for u
    unfolding that(4) using that(1-3) by (intro ret_flow free_report_ret tail) (auto dest: calm_inst)
  have pic: "ret (\<lambda>(r, s'). r = RETCODE_SUCCESS \<and> \<not> api_lock (sem s') \<and> pendingInst (sem s') = pendingInst (sem s) \<and>
      \<not> inUse (the_inst s' i))
      (do { (m, s) \<leftarrow> free_report e (picParaBaseMem (decInfo (the_inst u i))) u;
            let s = upd_dec i (\<lambda>d. d\<lparr>picParaBaseMem := m\<rparr>) s;
            (m, s) \<leftarrow> free_report e (userDataBufMem (decInfo (the_inst s i))) s;
            let s = upd_dec i (\<lambda>d. d\<lparr>userDataBufMem := m\<rparr>) s;
            unlock e RETCODE_SUCCESS (FreeInstance i s) })" if "calm s u" for u
  proof -
    have u: "the_inst u i = the_inst s i" "length (codecInstPool (sem u)) = length (codecInstPool (sem s))"
      "pendingInst (sem u) = pendingInst (sem s)" "vpu_fd u = vpu_fd s" using calm_inst [OF that] by simp_all
    have d: "userDataBufMem (decInfo (the_inst (upd_dec i (\<lambda>d. d\<lparr>picParaBaseMem := m\<rparr>) t) i)) = zero_mem_desc"
      if "calm u t" for m t using calm_inst [OF that, of i] assms(3,5) u by simp
    show ?thesis
      unfolding Let_def u(1) assms(4)
      by (rule ret_bind, rule free_report_ret, rule ret_split, rule user) (use assms u d in \<open>auto dest: calm_inst\<close>)
  qed
  show ?thesis unfolding close_body_def by (rule ret_bind, rule seq, erule pic)
qed

text \<open>
  C7. A frame that the caller abandons does not lock the library for good. On an open library
  whose clock advances and whose lock requests are granted, \<^verbatim>\<open>vpu_DecClose\<close> of a valid instance
  with a pending frame and without report memory returns \<^verbatim>\<open>RETCODE_SUCCESS\<close>, even if the BIT
  processor never finishes, and leaves the lock free, no frame pending and the instance free.
  The comment above \<^verbatim>\<open>vpu_DecClose\<close> promises \<^verbatim>\<open>RETCODE_FRAME_NOT_COMPLETE\<close> for this case.
\<close>

theorem abandoned_frame_closes:
  assumes "pendingInst (sem s) = Some i" "CheckDecInstanceValidity (system_rev s) (codecInstPool (sem s)) (Slot i) = RETCODE_SUCCESS"
    and "length (codecInstPool (sem s)) = 4" "0 \<le> vpu_fd s" "\<forall>n. lock_ok e n"
    and "\<forall>j. \<exists>n. 1000 \<le> elapsed_ms (clock e j) (clock e (Suc j + n))"
    and "picParaBaseMem (decInfo (the_inst s i)) = zero_mem_desc" "userDataBufMem (decInfo (the_inst s i)) = zero_mem_desc"
  shows "\<exists>s'. vpu_DecClose e (Slot i) s = Some (RETCODE_SUCCESS, s') \<and> \<not> api_lock (sem s') \<and> pendingInst (sem s') = None \<and>
    \<not> inUse (the_inst s' i)"
proof -
  have i: "i < length (codecInstPool (sem s))"
    using assms(2,3) by (auto simp: CheckDecInstanceValidity_def CheckInstanceValidity_def split: if_splits)
  have "ret (\<lambda>(r, s'). r = RETCODE_SUCCESS \<and> \<not> api_lock (sem s') \<and> pendingInst (sem s') = None \<and> \<not> inUse (the_inst s' i))
      (do { s \<leftarrow> UnlockVpu e (set_pending None s); locked e id (close_body e i) s })"
  proof (intro ret_bind UnlockVpu_ret locked_ret)
    fix t u :: dec_lib
    assume t: "sem t = (sem (set_pending None s))\<lparr>api_lock := False\<rparr>" "vpu_fd t = vpu_fd (set_pending None s)"
      and u: "sem u = (sem t)\<lparr>api_lock := True\<rparr>" "vpu_fd u = vpu_fd t"
    have s: "the_inst u i = the_inst s i" "length (codecInstPool (sem u)) = length (codecInstPool (sem s))"
      "pendingInst (sem u) = None" "vpu_fd u = vpu_fd s" using t u by (simp_all add: the_inst_def set_pending_def)
    show "ret (\<lambda>(r, s'). r = RETCODE_SUCCESS \<and> \<not> api_lock (sem s') \<and> pendingInst (sem s') = None \<and> \<not> inUse (the_inst s' i))
        (close_body e i u)"
      using close_body_ret [of u e i] assms(4,6-8) i s by (simp add: clock_runs_def)
  qed (use assms(4,5) in \<open>auto simp: set_pending_def\<close>)
  then show ?thesis
    using assms(1,2) by (auto simp: vpu_DecClose_def dec_call_def Let_def ret_def)
qed

section \<open>A sample session\<close>

text \<open>A library with four free slots and an open device, on a processor that always reads 1.\<close>

definition free_slot :: "nat \<Rightarrow> codec_inst" where
  "free_slot i = \<lparr>instIndex = int i, inUse = False, codecMode = 0, \<dots> = zero_codec\<rparr>"

definition dec_sample :: dec_lib where
  "dec_sample = \<lparr>vpu_fd = 3, vpu_reg_base = 0x40100000, vpu_active_num = 1, system_rev = 0x27020, vpu_semap = 0x40000000,
     sem = \<lparr>is_initialized = True, api_lock = False, reg_lock = False,
       codecInstPool = map free_slot [0, 1, 2, 3], pendingInst = None\<rparr>,
     bit_work_addr = zero_mem_desc, code_buf = zero_mem_desc, para_buf = zero_mem_desc, pic_para_addr = zero_mem_desc,
     user_data_addr = zero_mem_desc, lib_share_mem = zero_mem_desc, sz_alloc = 0, mutex_timeout = 10, fileno = 0,
     maps = [], kernel = loaded, n_ioctl = 0, n_mmap = 0, n_lock = 0, n_clock = 0, virt_codeBuf = 0,
     virt_paraBuf = 0, virt_paraBuf2 = 0, umem = \<lambda>_. 0, decoded_pictype = replicate 32 0\<rparr>"

definition sample_pop :: DecOpenParam where
  "sample_pop = zero_dec_open\<lparr>bitstreamFormat := STD_AVC, bitstreamBuffer := 0x1000, bitstreamBufferSize := 0x1000\<rparr>"

lemma wedged_running: "0 \<le> vpu_fd s \<Longrightarrow> \<exists>s'. isVpuInitialized wedged_io s = Some (True, s') \<and> calm s s'"
  by (simp add: isVpuInitialized_def IOClkGateSet_def VpuReadReg_def lib_ioctl_def ioctl_reg_read_def reg_offset_ok_def
      READ_REG_def vpu_clk_force_on_def wedged_io_def idle_env_def calm_def)

lemma stream_end_flag_ret:
  fixes s :: dec_lib
  assumes "0 \<le> vpu_fd s"
    and "\<And>s'. sem s' = (sem s)\<lparr>reg_lock := False\<rparr> \<Longrightarrow> vpu_fd s' = vpu_fd s \<Longrightarrow> system_rev s' = system_rev s \<Longrightarrow> Q s'"
  shows "ret Q (stream_end_flag e i b s)"
proof -
  have L: "ret P (LockVpuReg e s)" if "\<And>r b s'. sem s' = (sem s)\<lparr>reg_lock := b\<rparr> \<Longrightarrow> vpu_fd s' = vpu_fd s \<Longrightarrow> system_rev s' = system_rev s \<Longrightarrow> P (r, s')" for P
  proof (cases "reg_lock (sem s) \<or> \<not> lock_ok e (n_lock s)")
    case True
    then have "LockVpuReg e s = Some (False, s\<lparr>n_lock := Suc (n_lock s)\<rparr>)"
      by (simp add: LockVpuReg_def semaphore_wait_def Let_def)
    then show ?thesis using that [of "s\<lparr>n_lock := Suc (n_lock s)\<rparr>" "reg_lock (sem s)"] by (simp add: ret_def)
  next
    case False
    then show ?thesis unfolding LockVpuReg_def semaphore_wait_def Let_def
      using assms(1) by (auto intro!: ret_bind ret_Some IOClkGateSet_ret that simp: calm_def)
  qed
  have U: "ret Q (UnlockVpuReg e t)" if "sem t = (sem s)\<lparr>reg_lock := c\<rparr>" "vpu_fd t = vpu_fd s" "system_rev t = system_rev s" for t :: dec_lib and c
    unfolding UnlockVpuReg_def semaphore_post_def using that assms by (auto intro!: IOClkGateSet_ret simp: calm_def)
  show ?thesis
    unfolding stream_end_flag_def Let_def
    by (intro ret_bind L ret_split VpuReadReg_ret VpuWriteReg_ret U) (use assms(1) in \<open>auto simp: calm_def\<close>)
qed

lemma open_regs_ret:
  fixes s :: dec_lib
  assumes "0 \<le> vpu_fd s"
    and "\<And>s'. sem s' = (sem s)\<lparr>reg_lock := False\<rparr> \<Longrightarrow> vpu_fd s' = vpu_fd s \<Longrightarrow> Q s'"
  shows "ret Q (open_regs e i s)"
  unfolding open_regs_def
  by (intro ret_let ret_bind write_all_ret stream_end_flag_ret VpuReadReg_ret ret_split VpuWriteReg_ret)
    (use assms in \<open>auto simp: calm_def\<close>)

lemma open_inst_ret:
  fixes s :: dec_lib
  assumes "0 \<le> vpu_fd s" "\<forall>n. lock_ok e n" "\<not> api_lock (sem s)" "ptr_regs (instIndex (the_inst s i)) = Some regs"
    "i < length (codecInstPool (sem s))" "inUse (the_inst s i)"
  shows "ret (\<lambda>((r, q, h), s'). r = RETCODE_SUCCESS \<and> q = Some p \<and> h = Some (Slot i) \<and> inUse (the_inst s' i)) (open_inst e p i s)"
  unfolding open_inst_def assms(4) Let_def bind.bind_lunit
  by (intro locked_ret ret_bind open_regs_ret unlock_ret) (use assms in \<open>auto simp: upd_inst_def the_inst_def\<close>)

lemma sample_open:
  "\<exists>s'. vpu_DecOpen wedged_io (Some sample_pop) None dec_sample = Some ((RETCODE_SUCCESS, Some sample_pop, Some (Slot 0)), s') \<and>
    inUse (the_inst s' 0)"
proof -
  have fd: "0 \<le> vpu_fd dec_sample" by (simp add: dec_sample_def)
  obtain t where t: "isVpuInitialized wedged_io dec_sample = Some (True, t)" "calm dec_sample t"
    using wedged_running [OF fd] by blast
  have c: "CheckDecOpenParam (system_rev t) (Some sample_pop) = (RETCODE_SUCCESS, Some sample_pop)"
    using t(2) by (simp add: calm_def dec_sample_def CheckDecOpenParam_def stream_buf_ok_def sample_pop_def zero_dec_open_def
        cpu_is_mx27_def cpu_is_mx32_def cpu_is_mx37_def cpu_is_mx5x_def mxc_cpu_def)
  define new where "new = \<lparr>instIndex = 0, inUse = True, codecMode = 0, \<dots> = zero_codec\<rparr>"
  let ?pool = "new # map free_slot [1, 2, 3]"
  have g: "GetCodecInstance zero_codec (codecInstPool (sem dec_sample)) = Some (0, ?pool)"
    by (simp add: GetCodecInstance_def dec_sample_def free_slot_def new_def)
  have locks: "\<forall>n. lock_ok wedged_io n" by (simp add: wedged_io_def sample_io_def)
  have r: "ptr_regs 0 = Some (0x120, 0x124, 0x140)" by (simp add: ptr_regs_def)
  have "ret (\<lambda>((r, q, h), s'). r = RETCODE_SUCCESS \<and> q = Some sample_pop \<and> h = Some (Slot 0) \<and> inUse (the_inst s' 0))
      (locked wedged_io (\<lambda>r. (r, Some sample_pop, None)) (open_body wedged_io (Some sample_pop)) t)"
  proof (intro locked_ret locks)
    fix u :: dec_lib
    assume u: "sem u = (sem t)\<lparr>api_lock := True\<rparr>" "vpu_fd u = vpu_fd t"
    have p: "GetCodecInstance zero_codec (codecInstPool (sem u)) = Some (0, ?pool)"
      using u t(2) g by (simp add: calm_def)
    show "ret (\<lambda>((r, q, h), s'). r = RETCODE_SUCCESS \<and> q = Some sample_pop \<and> h = Some (Slot 0) \<and> inUse (the_inst s' 0))
        (open_body wedged_io (Some sample_pop) u)"
      unfolding open_body_def p option.case prod.case bind.bind_lunit
      by (intro ret_bind UnlockVpu_ret open_inst_ret [OF _ locks, where regs = "(0x120, 0x124, 0x140)"])
        (use fd u t(2) in \<open>auto simp: calm_def the_inst_def new_def r\<close>)
  qed (use fd t(2) in \<open>auto simp: calm_def dec_sample_def\<close>)
  then show ?thesis using t(1) c by (auto simp: vpu_DecOpen_def ret_def)
qed

section \<open>Refinement and invariants\<close>

text \<open>
  C1. The decoder interface refines the abstract machine \<open>spec_step\<close> of instances, sequence
  headers, frame buffers, rotator settings and the lock: every call that returns, with any
  arguments, on any device and with any failing system call, is one step of it or leaves the
  abstract state alone.
\<close>

theorem decoder_refines:
  assumes "length (codecInstPool (sem s)) = 4" "dec_exec e op s = Some s'"
  shows "spec_step (spec s) (spec s')"
  using assms by (rule dec_exec_step)

theorem decoder_refines_witness:
  "\<exists>s'. dec_exec wedged_io (DecOpen (Some sample_pop) None) dec_sample = Some s' \<and> inUse (the_inst s' 0) \<and>
     spec_step (spec dec_sample) (spec s')"
proof -
  obtain s' where s': "vpu_DecOpen wedged_io (Some sample_pop) None dec_sample =
      Some ((RETCODE_SUCCESS, Some sample_pop, Some (Slot 0)), s')" "inUse (the_inst s' 0)"
    using sample_open by blast
  then have x: "dec_exec wedged_io (DecOpen (Some sample_pop) None) dec_sample = Some s'" by simp
  have "length (codecInstPool (sem dec_sample)) = 4" by (simp add: dec_sample_def)
  from decoder_refines [OF this x] show ?thesis using x s'(2) by blast
qed

text \<open>
  C6. What holds after any sequence of decoder calls, from a library without open instances: the
  lock is held exactly while a frame is being decoded, that frame belongs to an open instance with
  frame buffers, frame buffers are registered only after the sequence header was read, and
  rotation, mirroring and deringing are enabled only with an output frame and a stride that is a
  multiple of 8, with an angle and a direction that the start of a frame knows.
\<close>

theorem decoder_invariant:
  assumes "dec_reach s0 s" "length (codecInstPool (sem s0)) = 4" "\<forall>i < 4. \<not> inUse (codecInstPool (sem s0) ! i)"
    "\<not> api_lock (sem s0)" "pendingInst (sem s0) = None"
  shows "(api_lock (sem s) \<longleftrightarrow> pendingInst (sem s) \<noteq> None) \<and>
    (\<forall>i. pendingInst (sem s) = Some i \<longrightarrow> i < 4 \<and> inUse (the_inst s i) \<and> frameBufPool (decInfo (the_inst s i)) \<noteq> None) \<and>
    (\<forall>i < 4. inUse (the_inst s i) \<longrightarrow> (let d = decInfo (the_inst s i) in
       (frameBufPool d \<noteq> None \<longrightarrow> initialInfoObtained d \<noteq> 0) \<and>
       (rotationEnable d \<noteq> 0 \<or> mirrorEnable d \<noteq> 0 \<or> deringEnable d \<noteq> 0 \<longrightarrow>
          rotatorOutputValid d \<noteq> 0 \<and> rotatorStride d \<noteq> 0) \<and>
       rotatorStride d mod 8 = 0 \<and> rotationAngle d \<in> {0, 90, 180, 270} \<and> mirrorDirection d \<in> {0..3}))"
proof -
  have "spec_inv (spec s0)"
    using assms(2-5) by (simp add: spec_inv_def) (auto simp: spec_def view_def Let_def inst_law_def in_set_conv_nth)
  then have inv: "spec_inv (spec s)" using dec_reach_inv assms(1) by blast
  then have len: "length (codecInstPool (sem s)) = 4" by (simp add: spec_inv_def)
  have v: "insts (spec s) ! i = view (the_inst s i)" if "i < 4" for i using that len by (simp add: insts_nth)
  have p: "i < 4 \<and> inUse (the_inst s i) \<and> frameBufPool (decInfo (the_inst s i)) \<noteq> None" if "pendingInst (sem s) = Some i" for i
  proof -
    have "i < 4 \<and> v_used (insts (spec s) ! i) \<and> v_frames (insts (spec s) ! i)" using inv that by (simp add: spec_inv_def)
    then show ?thesis using v [of i] by (simp add: view_def Let_def)
  qed
  have u: "(frameBufPool (decInfo (the_inst s i)) \<noteq> None \<longrightarrow> initialInfoObtained (decInfo (the_inst s i)) \<noteq> 0) \<and>
      setting_law (decInfo (the_inst s i))" if "i < 4" "inUse (the_inst s i)" for i
  proof -
    have "(v_frames (view (the_inst s i)) \<longrightarrow> v_info (view (the_inst s i))) \<and> rotator_law (view (the_inst s i))"
      using inv_inst [OF inv, of i] that len v [of i] by (simp add: inst_law_def) (simp add: view_def Let_def)
    then show ?thesis by (simp add: rotator_law_view) (simp add: view_def Let_def)
  qed
  have "api_lock (sem s) \<longleftrightarrow> pendingInst (sem s) \<noteq> None" using inv by (simp add: spec_inv_def)
  moreover have "\<forall>i < 4. inUse (the_inst s i) \<longrightarrow> (let d = decInfo (the_inst s i) in
       (frameBufPool d \<noteq> None \<longrightarrow> initialInfoObtained d \<noteq> 0) \<and>
       (rotationEnable d \<noteq> 0 \<or> mirrorEnable d \<noteq> 0 \<or> deringEnable d \<noteq> 0 \<longrightarrow>
          rotatorOutputValid d \<noteq> 0 \<and> rotatorStride d \<noteq> 0) \<and>
       rotatorStride d mod 8 = 0 \<and> rotationAngle d \<in> {0, 90, 180, 270} \<and> mirrorDirection d \<in> {0..3})"
    unfolding Let_def using u by (simp add: setting_law_def)
  ultimately show ?thesis using p by blast
qed

theorem decoder_invariant_witness:
  "\<exists>s. dec_reach dec_sample s \<and> inUse (the_inst s 0) \<and> (api_lock (sem s) \<longleftrightarrow> pendingInst (sem s) \<noteq> None) \<and>
     (frameBufPool (decInfo (the_inst s 0)) \<noteq> None \<longrightarrow> initialInfoObtained (decInfo (the_inst s 0)) \<noteq> 0)"
proof -
  obtain s where s: "vpu_DecOpen wedged_io (Some sample_pop) None dec_sample =
      Some ((RETCODE_SUCCESS, Some sample_pop, Some (Slot 0)), s)" "inUse (the_inst s 0)"
    using sample_open by blast
  have x: "dec_exec wedged_io (DecOpen (Some sample_pop) None) dec_sample = Some s" using s(1) by simp
  have r: "dec_reach dec_sample s" by (rule dec_reach.call [OF dec_reach.start x])
  have "length (codecInstPool (sem dec_sample)) = 4" "\<forall>i < 4. \<not> inUse (codecInstPool (sem dec_sample) ! i)"
    "\<not> api_lock (sem dec_sample)" "pendingInst (sem dec_sample) = None"
    by (auto simp: dec_sample_def free_slot_def numeral_eq_Suc less_Suc_eq)
  from decoder_invariant [OF r this] show ?thesis using r s(2) unfolding Let_def by (metis zero_less_numeral)
qed

text \<open>The hypotheses of the abandoned frame hold on a processor that never finishes.\<close>

definition busy_sample :: dec_lib where
  "busy_sample = dec_sample\<lparr>sem := (sem dec_sample)\<lparr>api_lock := True, pendingInst := Some 0,
     codecInstPool := (codecInstPool (sem dec_sample))[0 := (free_slot 0)\<lparr>inUse := True, codecMode := AVC_DEC\<rparr>]\<rparr>\<rparr>"

theorem abandoned_frame_closes_witness:
  "\<exists>s'. vpu_DecClose wedged_io (Slot 0) busy_sample = Some (RETCODE_SUCCESS, s') \<and> \<not> api_lock (sem s') \<and>
     pendingInst (sem s') = None \<and> \<not> inUse (the_inst s' 0)"
proof (rule abandoned_frame_closes)
  have "1000 \<le> elapsed_ms (clock wedged_io j) (clock wedged_io (Suc j + 0))" for j
    by (simp add: elapsed_ms_def wedged_io_def sample_io_def)
  then show "\<forall>j. \<exists>n. 1000 \<le> elapsed_ms (clock wedged_io j) (clock wedged_io (Suc j + n))" by blast
qed (simp_all add: busy_sample_def dec_sample_def free_slot_def CheckDecInstanceValidity_def CheckInstanceValidity_def
    cpu_is_mx27_def mxc_cpu_def the_inst_def wedged_io_def sample_io_def zero_codec_def codec_inst.defs zero_dec_info_def)

section \<open>The ring of stream bytes\<close>

text \<open>The bytes of the stream between the two pointers.\<close>

definition ring_fill :: "u32 \<Rightarrow> u32 \<Rightarrow> u32 \<Rightarrow> u32 \<Rightarrow> nat" where
  "ring_fill start fin rd wr =
     (if rd \<le> wr then unat wr - unat rd else unat fin - unat start - (unat rd - unat wr))"

definition in_ring :: "u32 \<Rightarrow> u32 \<Rightarrow> u32 \<Rightarrow> bool" where
  "in_ring start fin p \<longleftrightarrow> start \<le> p \<and> p < fin"

lemma in_ring_nat: "in_ring start fin p \<longleftrightarrow> unat start \<le> unat p \<and> unat p < unat fin"
  by (simp add: in_ring_def word_le_nat_alt word_less_nat_alt)

lemma ring_fill_nat:
  "ring_fill start fin rd wr =
     (if unat rd \<le> unat wr then unat wr - unat rd else unat fin - unat start - (unat rd - unat wr))"
  by (simp add: ring_fill_def word_le_nat_alt)

lemma unat_minus: "unat (b :: u32) \<le> unat a \<Longrightarrow> unat (a - b) = unat a - unat b"
  by (simp add: unat_sub word_le_nat_alt)

lemma unat_plus: "unat a + unat (b :: u32) < 2 ^ 32 \<Longrightarrow> unat (a + b) = unat a + unat b"
  by (simp add: unat_word_ariths)

lemma ring_room_fill:
  assumes "in_ring start fin rd" "in_ring start fin wr"
  shows "unat (ring_room start fin rd wr) = unat fin - unat start - 1 - ring_fill start fin rd wr"
proof (cases "wr < rd")
  case True
  then have l: "unat wr < unat rd" by (simp add: word_less_nat_alt)
  have "unat (rd - wr) = unat rd - unat wr" by (rule unat_minus) (use l in simp)
  then have "unat (rd - wr - 1) = unat rd - unat wr - 1" using l by (simp add: unat_minus)
  then show ?thesis using True l assms by (simp add: ring_room_def ring_fill_nat in_ring_nat)
next
  case False
  then have l: "unat rd \<le> unat wr" by (simp add: word_less_nat_alt)
  have fw: "unat (fin - wr) = unat fin - unat wr" using assms by (simp add: unat_minus in_ring_nat)
  have rs: "unat (rd - start) = unat rd - unat start" using assms by (simp add: unat_minus in_ring_nat)
  have "unat fin < 2 ^ 32" using unsigned_less [of fin] by simp
  then have sum: "unat ((fin - wr) + (rd - start)) = (unat fin - unat wr) + (unat rd - unat start)"
    using assms l fw rs by (subst unat_plus) (auto simp: in_ring_nat)
  have "unat ((fin - wr) + (rd - start) - 1) = (unat fin - unat wr) + (unat rd - unat start) - 1"
    using sum assms by (subst unat_minus) (auto simp: in_ring_nat)
  then show ?thesis using False l assms by (simp add: ring_room_def ring_fill_nat in_ring_nat)
qed

lemma ring_advance_fill:
  assumes "in_ring start fin rd" "in_ring start fin wr" "unat fin + (unat fin - unat start) \<le> 2 ^ 32"
    and n: "unat n < unat fin - unat start - ring_fill start fin rd wr"
  shows "\<exists>w. ring_advance False start fin rd wr n = Some w \<and> in_ring start fin w \<and>
    ring_fill start fin rd w = ring_fill start fin rd wr + unat n"
proof -
  note r = assms(1,2) [unfolded in_ring_nat]
  have nn: "unat n < (if unat rd \<le> unat wr then unat fin - unat start - (unat wr - unat rd) else unat rd - unat wr)"
    using n r by (auto simp: ring_fill_nat split: if_splits)
  have "unat wr + unat n < 2 ^ 32" using assms(3) r nn by (auto split: if_splits)
  then have w: "unat (wr + n) = unat wr + unat n" by (rule unat_plus)
  let ?v = "if wr + n > fin then start + (wr + n - fin) else wr + n"
  have v: "unat ?v = (if unat wr + unat n > unat fin then unat start + (unat wr + unat n - unat fin) else unat wr + unat n)"
  proof (cases "wr + n > fin")
    case True
    then have l: "unat fin < unat wr + unat n" using w by (simp add: word_less_nat_alt)
    then have "unat (wr + n - fin) = unat wr + unat n - unat fin" using w by (simp add: unat_minus)
    moreover have "unat start + (unat wr + unat n - unat fin) < 2 ^ 32" using assms(3) r nn l by (auto split: if_splits)
    ultimately have "unat (start + (wr + n - fin)) = unat start + (unat wr + unat n - unat fin)" by (simp add: unat_plus)
    then show ?thesis using True l by simp
  next
    case False
    then show ?thesis using w by (simp add: word_less_nat_alt)
  qed
  define w' where "w' = (if ?v = fin then start else ?v)"
  have uw: "unat w' = (if unat wr + unat n \<ge> unat fin then unat start + (unat wr + unat n - unat fin) else unat wr + unat n)"
    using v nn r unfolding w'_def word_unat_eq_iff by (auto split: if_splits)
  have "\<not> (wr < rd \<and> rd \<le> wr + n)" using nn w by (auto simp: word_less_nat_alt word_le_nat_alt split: if_splits)
  then have "ring_advance False start fin rd wr n = Some w'" by (simp add: ring_advance_def Let_def w'_def)
  moreover have "in_ring start fin w'" using uw nn r by (auto simp: in_ring_nat split: if_splits)
  moreover have "ring_fill start fin rd w' = ring_fill start fin rd wr + unat n"
    using uw nn r by (auto simp: ring_fill_nat split: if_splits)
  ultimately show ?thesis by blast
qed

lemma read_value:
  fixes s :: dec_lib
  assumes "0 \<le> vpu_fd s" "reg_offset_ok a" "\<forall>k. copy_from_ok (ioctl_env e k) \<and> copy_to_left (ioctl_env e k) = 0"
    and "\<And>k m s'. calm s s' \<Longrightarrow> Q (vpu_read (ioctl_env e k) m a, s')"
  shows "ret Q (VpuReadReg e a s)"
  using assms
  by (auto simp: ret_def VpuReadReg_def lib_ioctl_def ioctl_reg_read_def READ_REG_def vpu_clk_force_on_def Let_def calm_def)

lemma ptr_regs_offset: "ptr_regs idx = Some (rd, wr, dis) \<Longrightarrow> reg_offset_ok rd"
proof -
  assume p: "ptr_regs idx = Some (rd, wr, dis)"
  then have "nat idx \<in> {0, 1, 2, 3}" by (auto simp: ptr_regs_def split: if_splits)
  then show "reg_offset_ok rd" using p by (auto simp: ptr_regs_def reg_offset_ok_def split: if_splits)
qed

text \<open>
  An instance whose ring can be filled: the library is set up for it, the kernel copies, and every
  read pointer that the processor reports is in the ring with at most \<open>u\<close> bytes unread.
\<close>

definition ring_ready :: "io_env \<Rightarrow> nat \<Rightarrow> nat \<Rightarrow> dec_lib \<Rightarrow> bool" where
  "ring_ready e i u s \<longleftrightarrow>
     (let d = decInfo (the_inst s i); start = streamBufStartAddr d; fin = streamBufEndAddr d
      in CheckDecInstanceValidity (system_rev s) (codecInstPool (sem s)) (Slot i) = RETCODE_SUCCESS \<and>
         0 \<le> vpu_fd s \<and> length (codecInstPool (sem s)) = 4 \<and>
         ptr_regs (instIndex (the_inst s i)) = Some (streamRdPtrRegAddr d, streamWrPtrRegAddr d, frameDisplayFlagRegAddr d) \<and>
         filePlayEnable d \<noteq> 1 \<and> in_ring start fin (streamWrPtr d) \<and> unat fin + (unat fin - unat start) \<le> 2 ^ 32 \<and>
         (\<forall>k. copy_from_ok (ioctl_env e k) \<and> copy_to_left (ioctl_env e k) = 0) \<and>
         (\<forall>k m. in_ring start fin (vpu_read (ioctl_env e k) m (streamRdPtrRegAddr d)) \<and>
            ring_fill start fin (vpu_read (ioctl_env e k) m (streamRdPtrRegAddr d)) (streamWrPtr d) \<le> u))"

lemma ring_ready_calm: "ring_ready e i u s \<Longrightarrow> calm s s' \<Longrightarrow> ring_ready e i u s'"
  by (simp add: ring_ready_def calm_def the_inst_def Let_def)

lemma ring_get:
  assumes "ring_ready e i u s"
  defines "d \<equiv> decInfo (the_inst s i)"
  shows "ret (\<lambda>((r, x), s'). r = RETCODE_SUCCESS \<and> calm s s' \<and>
      (\<exists>k m. x = Some (vpu_read (ioctl_env e k) m (streamRdPtrRegAddr d), streamWrPtr d,
        ring_room (streamBufStartAddr d) (streamBufEndAddr d) (vpu_read (ioctl_env e k) m (streamRdPtrRegAddr d)) (streamWrPtr d))))
    (vpu_DecGetBitstreamBuffer e (Slot i) True s)"
proof -
  note r = assms(1)[unfolded ring_ready_def Let_def, folded d_def]
  have ok: "reg_offset_ok (streamRdPtrRegAddr d)" using ptr_regs_offset r by blast
  have dd: "decInfo (the_inst s i) = d" "decInfo (codecInstPool (sem s) ! i) = d" by (simp_all add: d_def the_inst_def)
  show ?thesis
    unfolding vpu_DecGetBitstreamBuffer_def dec_call_def conjunct1[OF r] Let_def d_def [symmetric]
    using r ok by (auto intro!: ret_bind IOClkGateSet_ret read_value ret_split ret_Some simp: calm_def dd)
qed

lemma ring_update:
  assumes "ring_ready e i u s" "n \<noteq> 0"
  defines "d \<equiv> decInfo (the_inst s i)"
  assumes "unat n + u < unat (streamBufEndAddr d) - unat (streamBufStartAddr d)"
  shows "ret (\<lambda>(r, s'). r = RETCODE_SUCCESS \<and> (\<exists>w. decInfo (the_inst s' i) = d\<lparr>streamWrPtr := w\<rparr> \<and>
      in_ring (streamBufStartAddr d) (streamBufEndAddr d) w \<and>
      (\<forall>rd. in_ring (streamBufStartAddr d) (streamBufEndAddr d) rd \<and>
         ring_fill (streamBufStartAddr d) (streamBufEndAddr d) rd (streamWrPtr d) \<le> u \<longrightarrow>
         ring_fill (streamBufStartAddr d) (streamBufEndAddr d) rd w =
           ring_fill (streamBufStartAddr d) (streamBufEndAddr d) rd (streamWrPtr d) + unat n)) \<and>
      ring_ready e i (u + unat n) s')
    (vpu_DecUpdateBitstreamBuffer e (Slot i) n s)"
proof -
  let ?start = "streamBufStartAddr d" and ?fin = "streamBufEndAddr d" and ?wr = "streamWrPtr d"
  note r = assms(1)[unfolded ring_ready_def Let_def, folded d_def]
  have ok: "reg_offset_ok (streamRdPtrRegAddr d)" using ptr_regs_offset r by blast
  have i: "i < length (codecInstPool (sem s))"
    using r by (auto simp: CheckDecInstanceValidity_def CheckInstanceValidity_def split: if_splits)
  have adv: "\<exists>w. ring_advance False ?start ?fin rd ?wr n = Some w \<and> in_ring ?start ?fin w \<and>
      ring_fill ?start ?fin rd w = ring_fill ?start ?fin rd ?wr + unat n"
    if "in_ring ?start ?fin rd" "ring_fill ?start ?fin rd ?wr \<le> u" for rd
    using that r assms(4) by (intro ring_advance_fill) auto
  obtain w where w: "\<And>rd. in_ring ?start ?fin rd \<Longrightarrow> ring_fill ?start ?fin rd ?wr \<le> u \<Longrightarrow>
      ring_advance False ?start ?fin rd ?wr n = Some w \<and> in_ring ?start ?fin w \<and>
      ring_fill ?start ?fin rd w = ring_fill ?start ?fin rd ?wr + unat n"
  proof -
    obtain w where "ring_advance False ?start ?fin (vpu_read (ioctl_env e 0) 0 (streamRdPtrRegAddr d)) ?wr n = Some w"
      using adv r by blast
    then have "ring_advance False ?start ?fin rd ?wr n = Some v \<Longrightarrow> v = w" for rd v
      by (auto simp: ring_advance_def Let_def split: if_splits)
    then show thesis using that adv by metis
  qed
  let ?rd = "\<lambda>k m. vpu_read (ioctl_env e k) m (streamRdPtrRegAddr d)"
  have wd: "ring_advance False ?start ?fin (?rd k m) ?wr n = Some w" "in_ring ?start ?fin w"
      "ring_fill ?start ?fin (?rd k m) w \<le> u + unat n" for k m
    using w[of "?rd k m"] r by auto
  have valid: "CheckDecInstanceValidity (system_rev s) ((codecInstPool (sem s))[i := (the_inst s i)\<lparr>decInfo := x\<rparr>]) (Slot i) = RETCODE_SUCCESS"
    for x using r i by (auto simp: CheckDecInstanceValidity_def CheckInstanceValidity_def the_inst_def Let_def split: if_splits)
  have dd: "decInfo (the_inst s i) = d" "decInfo (codecInstPool (sem s) ! i) = d" by (simp_all add: d_def the_inst_def)
  have "ret (\<lambda>(r, s'). r = RETCODE_SUCCESS \<and> vpu_fd s' = vpu_fd s \<and> system_rev s' = system_rev s \<and>
      codecInstPool (sem s') = (codecInstPool (sem s))[i := (the_inst s i)\<lparr>decInfo := d\<lparr>streamWrPtr := w\<rparr>\<rparr>])
      (vpu_DecUpdateBitstreamBuffer e (Slot i) n s)"
    unfolding vpu_DecUpdateBitstreamBuffer_def dec_call_def conjunct1[OF r] Let_def d_def [symmetric]
    using r ok assms(2)
    by (auto intro!: ret_bind stream_end_flag_ret IOClkGateSet_ret read_value ret_split ret_Some VpuWriteReg_ret
        simp: wd calm_def the_inst_def upd_dec_def upd_inst_def dd)
  moreover have "ring_ready e i (u + unat n) s' \<and> decInfo (the_inst s' i) = d\<lparr>streamWrPtr := w\<rparr>"
    if "vpu_fd s' = vpu_fd s" "system_rev s' = system_rev s"
      "codecInstPool (sem s') = (codecInstPool (sem s))[i := (the_inst s i)\<lparr>decInfo := d\<lparr>streamWrPtr := w\<rparr>\<rparr>]" for s'
  proof -
    have in': "the_inst s' i = (the_inst s i)\<lparr>decInfo := d\<lparr>streamWrPtr := w\<rparr>\<rparr>" using that(3) i by (simp add: the_inst_def)
    show ?thesis unfolding ring_ready_def Let_def in' that(1,2) using r wd valid that(3) by simp
  qed
  ultimately show ?thesis using w wd(2) by (fastforce simp: ret_def)
qed

text \<open>
  C13. The ring of stream bytes. \<^verbatim>\<open>vpu_DecGetBitstreamBuffer\<close> tells the caller the bytes that are
  free, one less than the buffer has beside the unread ones. While the processor only consumes,
  \<^verbatim>\<open>vpu_DecUpdateBitstreamBuffer\<close> with at most that many bytes succeeds, keeps the write pointer
  inside the buffer, and has added exactly those bytes to the unread ones, also across the end of
  the buffer.
\<close>

theorem stream_ring:
  fixes s :: dec_lib and i :: nat
  defines "d \<equiv> decInfo (the_inst s i)"
  defines "fill \<equiv> ring_fill (streamBufStartAddr d) (streamBufEndAddr d)"
    and "inside \<equiv> in_ring (streamBufStartAddr d) (streamBufEndAddr d)"
    and "room_of \<equiv> unat (streamBufEndAddr d) - unat (streamBufStartAddr d) - 1"
  assumes h: "CheckDecInstanceValidity (system_rev s) (codecInstPool (sem s)) (Slot i) = RETCODE_SUCCESS"
    and fd: "0 \<le> vpu_fd s" "length (codecInstPool (sem s)) = 4"
    and regs: "ptr_regs (instIndex (the_inst s i)) = Some (streamRdPtrRegAddr d, streamWrPtrRegAddr d, frameDisplayFlagRegAddr d)"
    and mode: "filePlayEnable d \<noteq> 1"
    and ring: "inside (streamWrPtr d)"
      "unat (streamBufEndAddr d) + (unat (streamBufEndAddr d) - unat (streamBufStartAddr d)) \<le> 2 ^ 32"
    and copies: "\<forall>k. copy_from_ok (ioctl_env e k) \<and> copy_to_left (ioctl_env e k) = 0"
    and dev: "\<forall>k m. inside (vpu_read (ioctl_env e k) m (streamRdPtrRegAddr d))"
  shows "\<exists>rd room s1.
    vpu_DecGetBitstreamBuffer e (Slot i) True s = Some ((RETCODE_SUCCESS, Some (rd, streamWrPtr d, room)), s1) \<and>
    (\<exists>k m. rd = vpu_read (ioctl_env e k) m (streamRdPtrRegAddr d)) \<and> unat room = room_of - fill rd (streamWrPtr d) \<and>
    (\<forall>n. n \<noteq> 0 \<and> n \<le> room \<and>
       (\<forall>k m. fill (vpu_read (ioctl_env e k) m (streamRdPtrRegAddr d)) (streamWrPtr d) \<le> fill rd (streamWrPtr d)) \<longrightarrow>
       (\<exists>s2. vpu_DecUpdateBitstreamBuffer e (Slot i) n s1 = Some (RETCODE_SUCCESS, s2) \<and>
         inside (streamWrPtr (decInfo (the_inst s2 i))) \<and>
         fill rd (streamWrPtr (decInfo (the_inst s2 i))) = fill rd (streamWrPtr d) + unat n))"
proof -
  let ?wr = "streamWrPtr d" and ?rd = "\<lambda>k m. vpu_read (ioctl_env e k) m (streamRdPtrRegAddr d)"
  have ready: "ring_ready e i u s" if "\<forall>k m. fill (?rd k m) ?wr \<le> u" for u
    unfolding ring_ready_def Let_def d_def[symmetric] using assms that by (simp add: d_def)
  have less: "fill r ?wr < unat (streamBufEndAddr d) - unat (streamBufStartAddr d)" if "inside r" for r
    using that ring(1) by (auto simp: fill_def inside_def in_ring_nat ring_fill_nat)
  then have "ring_ready e i (unat (streamBufEndAddr d) - unat (streamBufStartAddr d)) s"
    using dev by (intro ready) (simp add: less_imp_le)
  from ring_get[OF this, folded d_def] obtain k m s1 where
    get: "vpu_DecGetBitstreamBuffer e (Slot i) True s =
      Some ((RETCODE_SUCCESS, Some (?rd k m, ?wr, ring_room (streamBufStartAddr d) (streamBufEndAddr d) (?rd k m) ?wr)), s1)"
    and c1: "calm s s1" by (auto simp: ret_def)
  define rd where "rd = ?rd k m"
  have rd: "inside rd" using dev by (simp add: rd_def)
  have room: "unat (ring_room (streamBufStartAddr d) (streamBufEndAddr d) rd ?wr) = room_of - fill rd ?wr"
    using ring_room_fill rd ring(1) unfolding inside_def fill_def room_of_def by blast
  have d1: "decInfo (the_inst s1 i) = d" using c1 by (simp add: calm_def the_inst_def d_def)
  have upd: "\<exists>s2. vpu_DecUpdateBitstreamBuffer e (Slot i) n s1 = Some (RETCODE_SUCCESS, s2) \<and>
      inside (streamWrPtr (decInfo (the_inst s2 i))) \<and> fill rd (streamWrPtr (decInfo (the_inst s2 i))) = fill rd ?wr + unat n"
    if n: "n \<noteq> 0" "n \<le> ring_room (streamBufStartAddr d) (streamBufEndAddr d) rd ?wr" "\<forall>k m. fill (?rd k m) ?wr \<le> fill rd ?wr" for n
  proof -
    have r1: "ring_ready e i (fill rd ?wr) s1" using ready[OF n(3)] c1 by (rule ring_ready_calm)
    have "unat n + fill rd ?wr < unat (streamBufEndAddr d) - unat (streamBufStartAddr d)"
      using n(1,2) room less[OF rd] by (auto simp: word_le_nat_alt room_of_def word_unat_eq_iff)
    from ring_update[OF r1 n(1), unfolded d1, OF this] show ?thesis
      using rd unfolding inside_def fill_def by (auto simp: ret_def)
  qed
  show ?thesis using get room upd unfolding rd_def by blast
qed

definition ring_io :: io_env where
  "ring_io = sample_io\<lparr>ioctl_env := \<lambda>_. idle_env\<lparr>vpu_read := \<lambda>_ _. 0x1010\<rparr>\<rparr>"

definition ring_info :: DecInfo where
  "ring_info = zero_dec_info\<lparr>streamBufStartAddr := 0x1000, streamBufEndAddr := 0x2000, streamWrPtr := 0x1FF0,
     streamRdPtrRegAddr := 0x120, streamWrPtrRegAddr := 0x124, frameDisplayFlagRegAddr := 0x140\<rparr>"

definition ring_sample :: dec_lib where
  "ring_sample = dec_sample\<lparr>sem := (sem dec_sample)\<lparr>codecInstPool := (codecInstPool (sem dec_sample))
     [0 := (free_slot 0)\<lparr>inUse := True, codecMode := AVC_DEC, decInfo := ring_info\<rparr>]\<rparr>\<rparr>"

theorem stream_ring_witness:
  "\<exists>s1 s2. vpu_DecGetBitstreamBuffer ring_io (Slot 0) True ring_sample = Some ((RETCODE_SUCCESS, Some (0x1010, 0x1FF0, 31)), s1) \<and>
     vpu_DecUpdateBitstreamBuffer ring_io (Slot 0) 31 s1 = Some (RETCODE_SUCCESS, s2) \<and>
     in_ring 0x1000 0x2000 (streamWrPtr (decInfo (the_inst s2 0))) \<and>
     ring_fill 0x1000 0x2000 0x1010 (streamWrPtr (decInfo (the_inst s2 0))) = 0xFFF"
proof -
  have inst: "the_inst ring_sample 0 = (free_slot 0)\<lparr>inUse := True, codecMode := AVC_DEC, decInfo := ring_info\<rparr>"
    by (simp add: ring_sample_def the_inst_def dec_sample_def)
  have d: "decInfo (the_inst ring_sample 0) = ring_info"
    by (simp add: inst free_slot_def zero_codec_def codec_inst.defs)
  have f: "filePlayEnable ring_info = 0" "streamBufStartAddr ring_info = 0x1000" "streamBufEndAddr ring_info = 0x2000"
    "streamWrPtr ring_info = 0x1FF0" "streamRdPtrRegAddr ring_info = 0x120" "streamWrPtrRegAddr ring_info = 0x124"
    "frameDisplayFlagRegAddr ring_info = 0x140"
    by (simp_all add: ring_info_def zero_dec_info_def)
  have r: "vpu_read (ioctl_env ring_io k) m a = 0x1010" "copy_from_ok (ioctl_env ring_io k)" "copy_to_left (ioctl_env ring_io k) = 0"
    for k m a by (simp_all add: ring_io_def idle_env_def)
  have h: "CheckDecInstanceValidity (system_rev ring_sample) (codecInstPool (sem ring_sample)) (Slot 0) = RETCODE_SUCCESS"
    by (simp add: ring_sample_def dec_sample_def CheckDecInstanceValidity_def CheckInstanceValidity_def cpu_is_mx27_def mxc_cpu_def
        free_slot_def zero_codec_def codec_inst.defs)
  have p: "ptr_regs (instIndex (the_inst ring_sample 0)) = Some (0x120, 0x124, 0x140)"
    by (simp add: inst free_slot_def zero_codec_def codec_inst.defs ptr_regs_def)
  have o: "0 \<le> vpu_fd ring_sample" "length (codecInstPool (sem ring_sample)) = 4"
    by (simp_all add: ring_sample_def dec_sample_def)
  have "\<exists>rd room s1.
      vpu_DecGetBitstreamBuffer ring_io (Slot 0) True ring_sample = Some ((RETCODE_SUCCESS, Some (rd, 0x1FF0, room)), s1) \<and>
      rd = 0x1010 \<and> unat room = 0xFFF - ring_fill 0x1000 0x2000 rd 0x1FF0 \<and>
      (\<forall>n. n \<noteq> 0 \<and> n \<le> room \<and> ring_fill 0x1000 0x2000 0x1010 0x1FF0 \<le> ring_fill 0x1000 0x2000 rd 0x1FF0 \<longrightarrow>
        (\<exists>s2. vpu_DecUpdateBitstreamBuffer ring_io (Slot 0) n s1 = Some (RETCODE_SUCCESS, s2) \<and>
          in_ring 0x1000 0x2000 (streamWrPtr (decInfo (the_inst s2 0))) \<and>
          ring_fill 0x1000 0x2000 rd (streamWrPtr (decInfo (the_inst s2 0))) = ring_fill 0x1000 0x2000 rd 0x1FF0 + unat n))"
    using stream_ring [of ring_sample 0 ring_io, unfolded d f r, simplified] h p o by (simp add: in_ring_def r(2))
  then obtain room s1 where
      g: "vpu_DecGetBitstreamBuffer ring_io (Slot 0) True ring_sample = Some ((RETCODE_SUCCESS, Some (0x1010, 0x1FF0, room)), s1)"
    and room: "unat room = 0xFFF - ring_fill 0x1000 0x2000 0x1010 0x1FF0"
    and u: "\<And>n. n \<noteq> 0 \<Longrightarrow> n \<le> room \<Longrightarrow> \<exists>s2. vpu_DecUpdateBitstreamBuffer ring_io (Slot 0) n s1 = Some (RETCODE_SUCCESS, s2) \<and>
          in_ring 0x1000 0x2000 (streamWrPtr (decInfo (the_inst s2 0))) \<and>
          ring_fill 0x1000 0x2000 0x1010 (streamWrPtr (decInfo (the_inst s2 0))) = ring_fill 0x1000 0x2000 0x1010 0x1FF0 + unat n"
    by auto
  have full: "ring_fill 0x1000 0x2000 0x1010 0x1FF0 = 0xFE0" by (simp add: ring_fill_def)
  then have "room = 31" using room by (simp add: word_unat_eq_iff)
  then show ?thesis using g u [of 31] full by auto
qed

text \<open>
  Sizes larger than the room are only noticed when the write pointer is behind the read pointer.
  Otherwise the new pointer passes the unread bytes, and from twice the size of the buffer on it
  leaves the buffer.
\<close>

lemma overrun_accepted: "rd \<le> wr \<Longrightarrow> ring_advance False start fin rd wr n \<noteq> None"
  by (auto simp: ring_advance_def Let_def)

lemma overrun_leaves_buffer: "ring_advance False 0x1000 0x2000 0x1000 0x1000 0x3000 = Some 0x3000"
  by (simp add: ring_advance_def)

end
