(* ===== verification/Stream_RTP.thy ===== *)
theory Stream_RTP
  imports Prelude "HOL-Library.Monad_Syntax"
begin

unbundle bit_operations_syntax

text \<open>
  H.264 over RTP in the streaming application (\<^verbatim>\<open>src/apps/vpu_stream.c\<close>, \<^verbatim>\<open>struct
  h264_rtp_state\<close> to \<^verbatim>\<open>handle_rtp_h264\<close>): packets become access units in Annex B form that are
  written to the decoder's input. The arrays \<^verbatim>\<open>fu\<close> and \<^verbatim>\<open>au\<close> with their fill indices \<^verbatim>\<open>fu_len\<close>
  and \<^verbatim>\<open>au_len\<close> are the lists of the bytes filled. Reading a packet outside its length is \<open>None\<close>.
  The three counters that limit the log output are kept, the output is not.
\<close>

record h264_rtp_state =
  fu :: "u8 list"
  au :: "u8 list"
  fu_active :: bool
  au_bad :: bool
  au_has_idr :: bool
  au_have_ts :: bool
  au_ts :: u32
  have_seq :: bool
  last_seq :: u32
  need_idr :: bool
  logs :: u32
  gap_logs :: u32
  resync_logs :: u32

abbreviation (input) FU_SIZE :: nat where "FU_SIZE \<equiv> 128 * 1024"
abbreviation (input) AU_SIZE :: nat where "AU_SIZE \<equiv> 512 * 1024"

definition sc :: "u8 list" where
  "sc = [0, 0, 0, 1]"

section \<open>Output\<close>

text \<open>The file behind \<^verbatim>\<open>out_fd\<close>: what has been written, and how the next \<^verbatim>\<open>write\<close>s behave.\<close>

record out_file =
  sent :: "u8 list"
  writes :: "int list"

definition write_once :: "u8 list \<Rightarrow> out_file \<Rightarrow> int \<times> out_file" where
  "write_once buf' f =
     (case writes f of
        [] \<Rightarrow> (int (length buf'), f\<lparr>sent := sent f @ buf'\<rparr>)
      | n # ns \<Rightarrow>
          (let n = min n (int (length buf'))
           in (n, f\<lparr>sent := sent f @ take (nat n) buf', writes := ns\<rparr>)))"

function write_all :: "u8 list \<Rightarrow> out_file \<Rightarrow> int \<times> out_file" where
  "write_all buf' f =
     (if 0 < length buf'
      then case write_once buf' f of
             (n, f) \<Rightarrow> if n \<le> 0 then (-1, f) else write_all (drop (nat n) buf') f
      else (0, f))"
  by pat_completeness auto
termination
  by (relation "measure (\<lambda>(b, f). length b)") auto

declare write_all.simps [simp del]

section \<open>Access units\<close>

definition rtp_au_reset :: "h264_rtp_state \<Rightarrow> h264_rtp_state" where
  "rtp_au_reset st = st\<lparr>au := [], au_bad := False, au_has_idr := False\<rparr>"

definition rtp_au_append :: "h264_rtp_state \<Rightarrow> u8 list \<Rightarrow> h264_rtp_state" where
  "rtp_au_append st nal =
     (if nal = [] \<or> AU_SIZE < length (au st) + length sc + length nal then st\<lparr>au_bad := True\<rparr>
      else st\<lparr>au := au st @ sc @ nal\<rparr>)"

definition rtp_au_append_bytes :: "h264_rtp_state \<Rightarrow> u8 list \<Rightarrow> h264_rtp_state" where
  "rtp_au_append_bytes st p =
     (if p = [] then st
      else if AU_SIZE < length (au st) + length p then st\<lparr>au_bad := True\<rparr>
      else st\<lparr>au := au st @ p\<rparr>)"

definition rtp_au_flush :: "h264_rtp_state \<Rightarrow> out_file \<Rightarrow> int \<times> h264_rtp_state \<times> out_file" where
  "rtp_au_flush st f =
     (let (rc, st, f) =
        (if 0 < length (au st) \<and> \<not> au_bad st
         then if \<not> need_idr st \<or> au_has_idr st
              then let (rc, f) = write_all (au st) f;
                       st = (if au_has_idr st
                             then (if need_idr st then st\<lparr>resync_logs := resync_logs st + 1\<rparr> else st)\<lparr>need_idr := False\<rparr>
                             else st)
                   in (rc, st, f)
              else let (rc, f) = write_all (au st) f in (rc, st, f)
         else (0, st, f))
      in (rc, rtp_au_reset st, f))"

section \<open>Packets\<close>

definition pkt_at :: "u8 list \<Rightarrow> nat \<Rightarrow> u8 option" where
  "pkt_at pkt i = (if i < length pkt then Some (pkt ! i) else None)"

definition pkt_sub :: "u8 list \<Rightarrow> nat \<Rightarrow> nat \<Rightarrow> u8 list option" where
  "pkt_sub pkt i n = (if i + n \<le> length pkt then Some (take n (drop i pkt)) else None)"

definition rtp_h264_seq_gap :: "h264_rtp_state \<Rightarrow> u8 list \<Rightarrow> (bool \<times> h264_rtp_state) option" where
  "rtp_h264_seq_gap st pkt =
     (if length pkt < 4 then Some (True, st)
      else do {
        h \<leftarrow> pkt_at pkt 2;
        l \<leftarrow> pkt_at pkt 3;
        let seq = (push_bit 8 (ucast h) OR ucast l :: u32);
        if \<not> have_seq st then Some (False, st\<lparr>have_seq := True, last_seq := seq\<rparr>)
        else do {
          let expect = (last_seq st + 1) AND 0xffff;
          let st = st\<lparr>last_seq := seq\<rparr>;
          if seq = expect then Some (False, st)
          else Some (True, st\<lparr>fu_active := False, fu := [], need_idr := True, gap_logs := gap_logs st + 1\<rparr>) } })"

text \<open>The timestamp decides whether a packet starts a new access unit.\<close>

definition rtp_timestamp :: "u8 list \<Rightarrow> u32 option" where
  "rtp_timestamp pkt = do {
     a \<leftarrow> pkt_at pkt 4; b \<leftarrow> pkt_at pkt 5; c \<leftarrow> pkt_at pkt 6; d \<leftarrow> pkt_at pkt 7;
     Some (push_bit 24 (ucast a) OR push_bit 16 (ucast b) OR push_bit 8 (ucast c) OR ucast d) }"

definition rtp_new_au :: "u32 \<Rightarrow> bool \<Rightarrow> h264_rtp_state \<Rightarrow> h264_rtp_state" where
  "rtp_new_au ts seq_gap st =
     (let (new_au, st) =
        (if \<not> au_have_ts st \<or> au_ts st \<noteq> ts
         then let st = (if au_have_ts st \<and> 0 < length (au st) then rtp_au_reset (st\<lparr>need_idr := True\<rparr>) else st)
              in (True, st\<lparr>au_have_ts := True, au_ts := ts\<rparr>)
         else (False, st))
      in if seq_gap \<and> \<not> new_au then st\<lparr>au_bad := True\<rparr> else st)"

text \<open>The offset of the payload; \<open>Some None\<close> when the packet has none.\<close>

definition rtp_payload :: "u8 list \<Rightarrow> nat option option" where
  "rtp_payload pkt = do {
     h \<leftarrow> pkt_at pkt 0;
     let off = 12 + unat (h AND 0x0f) * 4;
     if h AND 0x10 \<noteq> 0 then
       if length pkt < off + 4 then Some None
       else do {
         a \<leftarrow> pkt_at pkt (off + 2);
         b \<leftarrow> pkt_at pkt (off + 3);
         let ext_len = unat a * 256 + unat b;
         let off = off + 4 + ext_len * 4;
         Some (if length pkt \<le> off then None else Some off) }
     else Some (if length pkt \<le> off then None else Some off) }"

text \<open>A whole network abstraction layer unit; an IDR slice is preceded by the parameter sets.\<close>

definition rtp_idr :: "u8 list \<Rightarrow> nat \<Rightarrow> h264_rtp_state \<Rightarrow> h264_rtp_state" where
  "rtp_idr spspps nal_type st =
     (let st = (if nal_type = 5 then st\<lparr>au_has_idr := True\<rparr> else st)
      in if nal_type = 5 \<and> spspps \<noteq> [] then rtp_au_append_bytes st spspps else st)"

definition rtp_skipped :: "h264_rtp_state \<Rightarrow> nat \<Rightarrow> bool" where
  "rtp_skipped st nal_type \<longleftrightarrow> need_idr st \<and> nal_type \<noteq> 5 \<and> nal_type \<noteq> 7 \<and> nal_type \<noteq> 8"

function stap_loop :: "u8 list \<Rightarrow> u8 list \<Rightarrow> nat \<Rightarrow> h264_rtp_state \<Rightarrow> h264_rtp_state option" where
  "stap_loop spspps pkt p st =
     (if p + 2 \<le> length pkt then do {
        a \<leftarrow> pkt_at pkt p;
        b \<leftarrow> pkt_at pkt (p + 1);
        (if unat a * 256 + unat b = 0 \<or> length pkt < p + 2 + (unat a * 256 + unat b) then Some st
         else do {
           h \<leftarrow> pkt_at pkt (p + 2);
           nal \<leftarrow> pkt_sub pkt (p + 2) (unat a * 256 + unat b);
           (if rtp_skipped st (unat (h AND 0x1f)) then stap_loop spspps pkt (p + 2 + (unat a * 256 + unat b)) st
            else stap_loop spspps pkt (p + 2 + (unat a * 256 + unat b))
                   (rtp_au_append (rtp_idr spspps (unat (h AND 0x1f)) st) nal)) }) }
      else Some st)"
  by pat_completeness auto
termination
  by (relation "measure (\<lambda>(sp, pkt, p, st). length pkt - p)") auto

declare stap_loop.simps [simp del]

text \<open>A fragment; the Boolean is false for the early return that skips the flush.\<close>

definition rtp_fragment :: "u8 list \<Rightarrow> u8 list \<Rightarrow> bool \<Rightarrow> h264_rtp_state \<Rightarrow> (bool \<times> h264_rtp_state) option" where
  "rtp_fragment spspps pkt seq_gap st = do {
     a \<leftarrow> pkt_at pkt 0;
     b \<leftarrow> pkt_at pkt 1;
     let start = (b AND 0x80 \<noteq> 0);
     let fin = (b AND 0x40 \<noteq> 0);
     let hdr = (a AND 0xe0) OR (b AND 0x1f);
     let fu_type = unat (hdr AND 0x1f);
     if seq_gap then Some (True, st)
     else if need_idr st \<and> fu_type \<noteq> 5 then Some (True, st)
     else do {
       let st = (if start then (rtp_idr spspps fu_type (st\<lparr>fu := [hdr]\<rparr>))\<lparr>fu_active := True\<rparr> else st);
       if \<not> fu_active st \<or> FU_SIZE < length (fu st) + length pkt - 2 then Some (False, st\<lparr>fu_active := False\<rparr>)
       else do {
         body \<leftarrow> pkt_sub pkt 2 (length pkt - 2);
         let st = st\<lparr>fu := fu st @ body\<rparr>;
         Some (True, if fin then (rtp_au_append st (fu st))\<lparr>fu_active := False, fu := []\<rparr> else st) } } }"

definition maybe_flush :: "bool \<Rightarrow> h264_rtp_state \<Rightarrow> out_file \<Rightarrow> int \<times> h264_rtp_state \<times> out_file" where
  "maybe_flush marker st f = (if marker then rtp_au_flush st f else (0, st, f))"

definition rtp_payload_h264 :: "u8 list \<Rightarrow> u8 list \<Rightarrow> bool \<Rightarrow> h264_rtp_state \<Rightarrow> (bool \<times> h264_rtp_state) option" where
  "rtp_payload_h264 spspps pkt seq_gap st = do {
     h \<leftarrow> pkt_at pkt 0;
     let nal_type = unat (h AND 0x1f);
     let st = st\<lparr>logs := logs st + 1\<rparr>;
     if 1 \<le> nal_type \<and> nal_type \<le> 23 then
       Some (True, if rtp_skipped st nal_type then st else rtp_au_append (rtp_idr spspps nal_type st) pkt)
     else if nal_type = 24 then do { st \<leftarrow> stap_loop spspps pkt 1 st; Some (True, st) }
     else if nal_type = 28 \<and> 2 \<le> length pkt then rtp_fragment spspps pkt seq_gap st
     else Some (True, st) }"

definition handle_rtp_h264 :: "h264_rtp_state \<Rightarrow> out_file \<Rightarrow> u8 list \<Rightarrow> u8 list \<Rightarrow>
    (int \<times> h264_rtp_state \<times> out_file) option" where
  "handle_rtp_h264 st f pkt spspps =
     (if length pkt < 12 then Some (0, st, f)
      else do {
        h0 \<leftarrow> pkt_at pkt 0;
        if drop_bit 6 h0 \<noteq> 2 then Some (0, st, f)
        else do {
          h1 \<leftarrow> pkt_at pkt 1;
          let marker = (h1 AND 0x80 \<noteq> 0);
          ts \<leftarrow> rtp_timestamp pkt;
          (seq_gap, st) \<leftarrow> rtp_h264_seq_gap st pkt;
          let st = rtp_new_au ts seq_gap st;
          off \<leftarrow> rtp_payload pkt;
          case off of
            None \<Rightarrow> Some (0, st, f)
          | Some off \<Rightarrow> do {
              (flush, st) \<leftarrow> rtp_payload_h264 spspps (drop off pkt) seq_gap st;
              Some (if flush then maybe_flush marker st f else (0, st, f)) } } })"

text \<open>The packets of a connection, until a write fails.\<close>

fun rtp_stream :: "u8 list \<Rightarrow> u8 list list \<Rightarrow> h264_rtp_state \<Rightarrow> out_file \<Rightarrow> (int \<times> h264_rtp_state \<times> out_file) option" where
  "rtp_stream spspps [] st f = Some (0, st, f)"
| "rtp_stream spspps (pkt # pkts) st f = do {
     (rc, st, f) \<leftarrow> handle_rtp_h264 st f pkt spspps;
     if rc < 0 then Some (rc, st, f) else rtp_stream spspps pkts st f }"

section \<open>What the packets carry\<close>

text \<open>
  The packets as RFC 3550 and RFC 6184 lay them out, independently of the receiver: a header of 12
  bytes, the contributing sources, an extension, and the payload.
\<close>

definition is_rtp :: "u8 list \<Rightarrow> bool" where
  "is_rtp pkt \<longleftrightarrow> 12 \<le> length pkt \<and> drop_bit 6 (pkt ! 0) = 2"

definition rtp_carries :: "u8 list \<Rightarrow> u8 list \<Rightarrow> bool" where
  "rtp_carries pkt p \<longleftrightarrow> p \<noteq> [] \<and> (\<exists>h cs x. pkt = h @ cs @ x @ p \<and> length h = 12 \<and> length cs = 4 * unat (h ! 0 AND 0x0f) \<and>
     (if h ! 0 AND 0x10 = 0 then x = [] else 4 \<le> length x \<and> length x = 4 + 4 * (256 * unat (x ! 2) + unat (x ! 3))))"

definition seq_of :: "u8 list \<Rightarrow> nat" where
  "seq_of pkt = 256 * unat (pkt ! 2) + unat (pkt ! 3)"

definition stamp_of :: "u8 list \<Rightarrow> u8 list" where
  "stamp_of pkt = take 4 (drop 4 pkt)"

definition follows :: "u8 list list \<Rightarrow> u8 list \<Rightarrow> bool" where
  "follows ps pkt \<longleftrightarrow> ps \<noteq> [] \<and> seq_of pkt = (seq_of (last ps) + 1) mod 65536"

definition type_of :: "u8 \<Rightarrow> nat" where
  "type_of hdr = unat (hdr AND 0x1f)"

text \<open>The units of an aggregation packet, after its first byte.\<close>

function stap_units :: "u8 list \<Rightarrow> u8 list list" where
  "stap_units (a # b # rest) =
     (let n = 256 * unat a + unat b in if n = 0 \<or> length rest < n then [] else take n rest # stap_units (drop n rest))"
| "stap_units [] = []"
| "stap_units [a] = []"
  by pat_completeness auto
termination
  by (relation "measure length") auto

text \<open>A fragment: whether it is the first and the last of its unit, the header of the unit, and its bytes.\<close>

definition fragment :: "u8 list \<Rightarrow> bool \<Rightarrow> bool \<Rightarrow> u8 \<Rightarrow> u8 list \<Rightarrow> bool" where
  "fragment pkt first fin hdr body \<longleftrightarrow> (\<exists>a b. rtp_carries pkt (a # b # body) \<and> type_of a = 28 \<and>
     first = bit b 7 \<and> fin = bit b 6 \<and> hdr = (a AND 0xe0) OR (b AND 0x1f))"

text \<open>
  \<open>partial ps k m part\<close>: the last packets of \<open>ps\<close>, with consecutive numbers, begin with the first
  fragment of a unit, sent at the time \<open>k\<close>, and \<open>part\<close> is the unit so far. No fragment of a unit of its
  type is left out, unless the sender has changed the time in the middle of the unit (\<open>m\<close>).
\<close>

inductive partial :: "u8 list list \<Rightarrow> u8 list \<Rightarrow> bool \<Rightarrow> u8 list \<Rightarrow> bool" where
  first: "fragment pkt True False hdr body \<Longrightarrow> partial (ps @ [pkt]) (stamp_of pkt) False (hdr # body)"
| more: "partial ps k m part \<Longrightarrow> follows ps pkt \<Longrightarrow> fragment pkt False False hdr body \<Longrightarrow>
    partial (ps @ [pkt]) k (m \<or> stamp_of pkt \<noteq> k) (part @ body)"
| other: "partial ps k m part \<Longrightarrow> follows ps pkt \<Longrightarrow>
    m \<or> stamp_of pkt \<noteq> k \<or> (\<forall>s e hdr body. fragment pkt s e hdr body \<longrightarrow> type_of hdr \<noteq> type_of (hd part)) \<Longrightarrow>
    partial (ps @ [pkt]) k (m \<or> stamp_of pkt \<noteq> k) part"

text \<open>The units that a sequence of packets carries: alone, aggregated, or in fragments without a gap.\<close>

inductive carried :: "u8 list list \<Rightarrow> u8 list \<Rightarrow> bool" for ps where
  alone: "pkt \<in> set ps \<Longrightarrow> rtp_carries pkt nal \<Longrightarrow> 1 \<le> type_of (hd nal) \<Longrightarrow> type_of (hd nal) \<le> 23 \<Longrightarrow> carried ps nal"
| aggregated: "pkt \<in> set ps \<Longrightarrow> rtp_carries pkt (a # rest) \<Longrightarrow> type_of a = 24 \<Longrightarrow> nal \<in> set (stap_units rest) \<Longrightarrow> carried ps nal"
| in_one: "pkt \<in> set ps \<Longrightarrow> fragment pkt True True hdr body \<Longrightarrow> carried ps (hdr # body)"
| in_fragments: "ps = qs @ [pkt] @ rs \<Longrightarrow> partial qs k m part \<Longrightarrow> follows qs pkt \<Longrightarrow> fragment pkt False True hdr body \<Longrightarrow>
    carried ps (part @ body)"

lemma carried_mono: "carried ps nal \<Longrightarrow> carried (ps @ qs) nal"
  by (erule carried.cases) (auto intro: carried.intros)

text \<open>A sequence of the parameter sets and of units that the packets carry, each after a start code.\<close>

definition framed :: "u8 list \<Rightarrow> u8 list list \<Rightarrow> u8 list \<Rightarrow> bool" where
  "framed spspps ps bs \<longleftrightarrow> (\<exists>us. bs = concat us \<and> (\<forall>u\<in>set us. u = spspps \<or> (\<exists>nal. carried ps nal \<and> u = sc @ nal)))"

lemma framed_Nil [simp, intro]: "framed sp ps []"
  by (auto simp: framed_def intro: exI[of _ "[]"])

lemma framed_append: "framed sp ps a \<Longrightarrow> framed sp ps b \<Longrightarrow> framed sp ps (a @ b)"
  unfolding framed_def by (elim exE conjE) (rule exI [of _ "us @ vs" for us vs], auto)

lemma framed_sp: "framed sp ps sp"
  by (auto simp: framed_def intro!: exI[of _ "[sp]"])

lemma framed_nal: "carried ps nal \<Longrightarrow> framed sp ps (sc @ nal)"
  by (auto simp: framed_def intro!: exI[of _ "[sc @ nal]"])

lemma framed_mono: "framed sp ps bs \<Longrightarrow> framed sp (ps @ qs) bs"
  unfolding framed_def using carried_mono [of ps _ qs] by blast

section \<open>Packets and offsets\<close>

lemma carries_iff:
  assumes "12 \<le> length pkt"
  shows "\<exists>r. rtp_payload pkt = Some r \<and> (\<forall>p. rtp_carries pkt p \<longleftrightarrow> (\<exists>off < length pkt. r = Some off \<and> p = drop off pkt))"
proof -
  define n where "n = 12 + 4 * unat (pkt ! 0 AND 0x0f)"
  define m where "m = (if pkt ! 0 AND 0x10 = 0 then n else n + 4 + 4 * (256 * unat (pkt ! (n + 2)) + unat (pkt ! (n + 3))))"
  define ok where "ok \<longleftrightarrow> (pkt ! 0 AND 0x10 \<noteq> 0 \<longrightarrow> n + 4 \<le> length pkt) \<and> m < length pkt"
  have r: "rtp_payload pkt = Some (if ok then Some m else None)"
    using assms by (auto simp: rtp_payload_def Let_def pkt_at_def ok_def m_def n_def mult.commute)
  have fwd: "ok \<and> p = drop m pkt" if "rtp_carries pkt p" for p
  proof -
    obtain h cs x where p: "p \<noteq> []" "pkt = h @ cs @ x @ p" "length h = 12" "length cs = 4 * unat (h ! 0 AND 0x0f)"
      and x: "if h ! 0 AND 0x10 = 0 then x = [] else 4 \<le> length x \<and> length x = 4 + 4 * (256 * unat (x ! 2) + unat (x ! 3))"
      using \<open>rtp_carries pkt p\<close> unfolding rtp_carries_def by blast
    have h0: "pkt ! 0 = h ! 0" using p(2,3) by (simp add: nth_append)
    have n: "length (h @ cs) = n" using p h0 by (simp add: n_def)
    have at: "pkt ! (n + i) = x ! i" if "i < length x" for i
      using nth_append_length_plus [of "h @ cs" "x @ p" i] n p(2) that nth_append_left [of i x p] by simp
    have m: "m = length (h @ cs @ x)"
      using x at [of 2] at [of 3] h0 n by (auto simp: m_def split: if_splits)
    show ?thesis using p(1,2) m x n h0 by (auto simp: ok_def split: if_splits)
  qed
  have bwd: "rtp_carries pkt (drop m pkt)" if ok
  proof -
    have l: "n \<le> m" "m < length pkt" using that by (simp_all add: m_def ok_def)
    have cut: "take (j - i) (drop i pkt) @ drop j pkt = drop i pkt" if "i \<le> j" for i j
      using append_take_drop_id [of "j - i" "drop i pkt"] that by simp
    define h cs x where "h = take 12 pkt" and "cs = take (n - 12) (drop 12 pkt)" and "x = take (m - n) (drop n pkt)"
    have e: "pkt = h @ cs @ x @ drop m pkt" using cut [of 12 n] cut [of n m] l by (simp add: h_def cs_def x_def n_def)
    have h: "length h = 12" "h ! 0 = pkt ! 0" using assms by (simp_all add: h_def)
    have cs: "length cs = 4 * unat (pkt ! 0 AND 0x0f)" using l by (simp add: cs_def n_def)
    have x: "length x = m - n" "4 \<le> m - n \<Longrightarrow> x ! 2 = pkt ! (n + 2) \<and> x ! 3 = pkt ! (n + 3)" using l by (simp_all add: x_def)
    have m: "if pkt ! 0 AND 0x10 = 0 then m - n = 0 else m - n = 4 + 4 * (256 * unat (pkt ! (n + 2)) + unat (pkt ! (n + 3)))"
      by (simp add: m_def)
    have "if h ! 0 AND 0x10 = 0 then x = [] else 4 \<le> length x \<and> length x = 4 + 4 * (256 * unat (x ! 2) + unat (x ! 3))"
      using m x h(2) by (auto split: if_splits)
    then show ?thesis unfolding rtp_carries_def using e h cs l by (intro conjI exI [of _ h] exI [of _ cs] exI [of _ x]) simp_all
  qed
  show ?thesis
    using r fwd bwd by (auto simp: ok_def)
qed

lemma payload_ok: "12 \<le> length pkt \<Longrightarrow> \<exists>r. rtp_payload pkt = Some r \<and> (\<forall>off. r = Some off \<longrightarrow> off < length pkt)"
  by (cases pkt) (auto simp: rtp_payload_def Let_def pkt_at_def)

section \<open>Framing and bounds\<close>

text \<open>The bytes collected so far, for the packets \<open>ps\<close>.\<close>

definition au_ok :: "u8 list \<Rightarrow> u8 list list \<Rightarrow> h264_rtp_state \<Rightarrow> bool" where
  "au_ok sp ps st \<longleftrightarrow> length (au st) \<le> AU_SIZE \<and> framed sp ps (au st)"

definition rest_of :: "h264_rtp_state \<Rightarrow> u8 list \<times> bool \<times> bool \<times> u32 \<times> bool \<times> bool \<times> u32" where
  "rest_of st = (fu st, fu_active st, have_seq st, last_seq st, need_idr st, au_have_ts st, au_ts st)"

lemma append_ok: "au_ok sp ps st \<Longrightarrow> carried ps nal \<Longrightarrow> au_ok sp ps (rtp_au_append st nal) \<and> rest_of (rtp_au_append st nal) = rest_of st"
  by (auto simp: au_ok_def rtp_au_append_def rest_of_def intro: framed_append framed_nal)

lemma idr_ok: "au_ok sp ps st \<Longrightarrow> au_ok sp ps (rtp_idr sp t st) \<and> rest_of (rtp_idr sp t st) = rest_of st"
  by (auto simp: au_ok_def rtp_idr_def rtp_au_append_bytes_def rest_of_def Let_def intro: framed_append framed_sp)

lemma unit_ok:
  "au_ok sp ps st \<Longrightarrow> carried ps nal \<Longrightarrow>
    au_ok sp ps (rtp_au_append (rtp_idr sp t st) nal) \<and> rest_of (rtp_au_append (rtp_idr sp t st) nal) = rest_of st"
  using append_ok [of sp ps "rtp_idr sp t st" nal] idr_ok [of sp ps st t] by simp

lemma stap_split:
  assumes "p + 2 \<le> length pkt" "n = unat (pkt ! p) * 256 + unat (pkt ! (p + 1))" "\<not> (n = 0 \<or> length pkt < p + 2 + n)"
  shows "stap_units (drop p pkt) = take n (drop (p + 2) pkt) # stap_units (drop (p + 2 + n) pkt)"
proof -
  have "drop p pkt = pkt ! p # pkt ! (p + 1) # drop (p + 2) pkt"
    using assms(1) by (metis Cons_nth_drop_Suc Suc_eq_plus1 add_2_eq_Suc' add_lessD1 less_eq_Suc_le plus_1_eq_Suc add.commute)
  moreover have "256 * unat (pkt ! p) + unat (pkt ! (p + 1)) = n" using assms(2) by simp
  moreover have "drop n (drop (p + 2) pkt) = drop (p + 2 + n) pkt" by (simp add: add.commute)
  moreover have "n \<noteq> 0" "\<not> length (drop (p + 2) pkt) < n" using assms(1,3) by auto
  ultimately show ?thesis by (simp only: stap_units.simps Let_def) simp
qed

lemma stap_ok:
  assumes "au_ok sp ps st" "\<And>nal. nal \<in> set (stap_units (drop p pkt)) \<Longrightarrow> carried ps nal"
  shows "\<exists>st'. stap_loop sp pkt p st = Some st' \<and> au_ok sp ps st' \<and> rest_of st' = rest_of st"
  using assms
proof (induction sp pkt p st rule: stap_loop.induct)
  case (1 sp pkt p st)
  show ?case
  proof (cases "p + 2 \<le> length pkt")
    case False
    then show ?thesis using 1(3) by (simp add: stap_loop.simps[of _ _ p])
  next
    case True
    define n where "n = unat (pkt ! p) * 256 + unat (pkt ! (p + 1))"
    have at: "pkt_at pkt p = Some (pkt ! p)" "pkt_at pkt (p + 1) = Some (pkt ! (p + 1))"
      using True by (simp_all add: pkt_at_def)
    show ?thesis
    proof (cases "n = 0 \<or> length pkt < p + 2 + n")
      case end': True
      then show ?thesis using 1(3) True at by (simp add: stap_loop.simps[of _ _ p] n_def)
    next
      case False
      have sub: "pkt_at pkt (p + 2) = Some (pkt ! (p + 2))" "pkt_sub pkt (p + 2) n = Some (take n (drop (p + 2) pkt))"
        using False by (auto simp: pkt_at_def pkt_sub_def)
      define t where "t = unat (pkt ! (p + 2) AND 0x1f)"
      define st2 where "st2 = (if rtp_skipped st t then st else rtp_au_append (rtp_idr sp t st) (take n (drop (p + 2) pkt)))"
      have eq: "stap_loop sp pkt p st = stap_loop sp pkt (p + 2 + n) st2"
        using True False at sub by (auto simp: stap_loop.simps[of _ _ p] n_def t_def st2_def)
      note us = stap_split [OF True n_def False]
      have c: "carried ps (take n (drop (p + 2) pkt))" "\<And>nal. nal \<in> set (stap_units (drop (p + 2 + n) pkt)) \<Longrightarrow> carried ps nal"
        using 1(4) us by simp_all
      have "au_ok sp ps st2 \<and> rest_of st2 = rest_of st" using 1(3) unit_ok [OF 1(3) c(1)] by (simp add: st2_def)
      then show ?thesis unfolding eq
        using 1(1)[OF True at(1,2) _ sub(1)] 1(2)[OF True at(1,2) _ sub(1)] False sub(2) c(2)
        by (auto simp: st2_def n_def t_def split: if_splits)
    qed
  qed
qed

text \<open>The receiver after the packets \<open>ps\<close>: bounds, the units collected, and the fragments at hand.\<close>

definition stamp_val :: "u8 list \<Rightarrow> u32 option" where
  "stamp_val k = rtp_timestamp ([0, 0, 0, 0] @ k)"

definition gathers :: "u8 list list \<Rightarrow> h264_rtp_state \<Rightarrow> bool" where
  "gathers ps st \<longleftrightarrow> (\<exists>k m. partial ps k m (fu st) \<and> (need_idr st \<longrightarrow> m \<or> type_of (hd (fu st)) = 5) \<and>
     (\<not> m \<longrightarrow> au_have_ts st \<and> stamp_val k = Some (au_ts st)))"

definition rtp_ok :: "u8 list \<Rightarrow> u8 list list \<Rightarrow> h264_rtp_state \<Rightarrow> bool" where
  "rtp_ok sp ps st \<longleftrightarrow> length (fu st) \<le> FU_SIZE \<and> au_ok sp ps st \<and> (have_seq st \<longleftrightarrow> ps \<noteq> []) \<and>
     (ps \<noteq> [] \<longrightarrow> unat (last_seq st) = seq_of (last ps)) \<and> (fu_active st \<longrightarrow> gathers ps st)"

text \<open>The same while the packet \<open>pkt\<close> is handled; \<open>g\<close> tells whether it comes after a gap.\<close>

definition arriving :: "u8 list \<Rightarrow> u8 list list \<Rightarrow> u8 list \<Rightarrow> bool \<Rightarrow> h264_rtp_state \<Rightarrow> bool" where
  "arriving sp ps pkt g st \<longleftrightarrow> length (fu st) \<le> FU_SIZE \<and> au_ok sp (ps @ [pkt]) st \<and> have_seq st \<and> unat (last_seq st) = seq_of pkt \<and>
     au_have_ts st \<and> stamp_val (stamp_of pkt) = Some (au_ts st) \<and> (g \<longrightarrow> \<not> fu_active st) \<and>
     (fu_active st \<longrightarrow> follows ps pkt \<and> (\<exists>k m. partial ps k m (fu st) \<and>
        (need_idr st \<longrightarrow> m \<or> stamp_of pkt \<noteq> k \<or> type_of (hd (fu st)) = 5)))"

lemma stamp_eq: "12 \<le> length pkt \<Longrightarrow> rtp_timestamp pkt = stamp_val (stamp_of pkt)"
  by (auto simp: stamp_val_def stamp_of_def rtp_timestamp_def pkt_at_def nth_append)

lemma seq_word: "unat (push_bit 8 (ucast (h :: u8)) OR ucast (l :: u8) :: u32) = 256 * unat h + unat l"
proof -
  have "push_bit 8 (ucast h) OR ucast l = (push_bit 8 (ucast h) + ucast l :: u32)"
    by (rule disjunctive_add [symmetric]) (auto simp: bit_simps dest: bit_imp_le_length)
  also have "\<dots> = of_nat (256 * unat h + unat l)"
    by (simp add: push_bit_eq_mult)
  finally have e: "push_bit 8 (ucast h) OR ucast l = (of_nat (256 * unat h + unat l) :: u32)" .
  have "unat h < 256" "unat l < 256" using unsigned_less [of h] unsigned_less [of l] by simp_all
  then have "256 * unat h + unat l < 2 ^ LENGTH(32)" by simp
  then show ?thesis by (simp only: e unsigned_of_nat take_bit_nat_eq_self of_nat_id)
qed

lemma seq_next:
  fixes a b :: u32
  assumes "unat a < 65536" "unat b < 65536"
  shows "b = (a + 1) AND 0xffff \<longleftrightarrow> unat b = (unat a + 1) mod 65536"
proof -
  have "(a + 1) AND 0xffff = take_bit 16 (a + 1)" by (simp add: take_bit_eq_mask mask_eq_exp_minus_1)
  moreover have "unat (a + 1) = unat a + 1" using assms(1) by (simp add: unat_word_ariths)
  ultimately have "unat ((a + 1) AND 0xffff) = (unat a + 1) mod 65536" by (simp add: unsigned_take_bit_eq take_bit_nat_def)
  then show ?thesis by (metis unsigned_word_eqI)
qed

lemma seq_of_less: "seq_of pkt < 65536"
proof -
  have "unat (pkt ! 2) < 256" "unat (pkt ! 3) < 256" using unsigned_less [of "pkt ! 2"] unsigned_less [of "pkt ! 3"] by simp_all
  then show ?thesis by (simp add: seq_of_def)
qed

lemma gap_arriving:
  assumes ok: "rtp_ok sp ps st" and len: "12 \<le> length pkt"
  shows "\<exists>g st'. rtp_h264_seq_gap st pkt = Some (g, st') \<and> have_seq st' \<and> unat (last_seq st') = seq_of pkt \<and>
    au st' = au st \<and> au_have_ts st' = au_have_ts st \<and> au_ts st' = au_ts st \<and> length (fu st') \<le> FU_SIZE \<and>
    (g \<longrightarrow> \<not> fu_active st') \<and> (fu_active st' \<longrightarrow> follows ps pkt \<and> fu st' = fu st \<and> fu_active st \<and> need_idr st' = need_idr st)"
proof -
  have at: "pkt_at pkt 2 = Some (pkt ! 2)" "pkt_at pkt 3 = Some (pkt ! 3)" using len by (simp_all add: pkt_at_def)
  define q where "q = (push_bit 8 (ucast (pkt ! 2)) OR ucast (pkt ! 3) :: u32)"
  have q: "unat q = seq_of pkt" by (simp add: q_def seq_word seq_of_def)
  have no: "\<not> fu_active st" if "ps = []"
    using ok that by (auto simp: rtp_ok_def gathers_def elim: partial.cases)
  have nx: "q = (last_seq st + 1) AND 0xffff \<longleftrightarrow> follows ps pkt" if "ps \<noteq> []"
    using seq_next [of "last_seq st" q] ok that seq_of_less [of pkt] seq_of_less [of "last ps"] q by (simp add: rtp_ok_def follows_def)
  have r: "rtp_h264_seq_gap st pkt =
    (if \<not> have_seq st then Some (False, st\<lparr>have_seq := True, last_seq := q\<rparr>)
     else if q = (last_seq st + 1) AND 0xffff then Some (False, st\<lparr>last_seq := q\<rparr>)
     else Some (True, st\<lparr>last_seq := q, fu_active := False, fu := [], need_idr := True, gap_logs := gap_logs st + 1\<rparr>))"
    using len by (simp add: rtp_h264_seq_gap_def at Let_def q_def [symmetric])
  show ?thesis using ok q no nx unfolding r by (auto simp: rtp_ok_def)
qed

lemma new_au_arriving:
  assumes ok: "rtp_ok sp ps st" and len: "12 \<le> length pkt"
  shows "\<exists>g st1 ts. rtp_h264_seq_gap st pkt = Some (g, st1) \<and> rtp_timestamp pkt = Some ts \<and> arriving sp ps pkt g (rtp_new_au ts g st1)"
proof -
  obtain g st1 where g: "rtp_h264_seq_gap st pkt = Some (g, st1)" "have_seq st1" "unat (last_seq st1) = seq_of pkt"
    "au st1 = au st" "au_have_ts st1 = au_have_ts st" "au_ts st1 = au_ts st" "length (fu st1) \<le> FU_SIZE" "g \<longrightarrow> \<not> fu_active st1"
    "fu_active st1 \<longrightarrow> follows ps pkt \<and> fu st1 = fu st \<and> fu_active st \<and> need_idr st1 = need_idr st"
    using gap_arriving [OF assms] by blast
  obtain ts where ts: "rtp_timestamp pkt = Some ts" using len by (simp add: rtp_timestamp_def pkt_at_def)
  then have sv: "stamp_val (stamp_of pkt) = Some ts" using stamp_eq [OF len] by simp
  define nst where "nst = rtp_new_au ts g st1"
  have au: "au nst = au st \<or> au nst = []" and keep: "have_seq nst" "last_seq nst = last_seq st1" "fu nst = fu st1" "fu_active nst = fu_active st1"
    "au_have_ts nst" "au_ts nst = ts" and idr: "need_idr nst \<longrightarrow> need_idr st1 \<or> au_have_ts st \<and> au_ts st \<noteq> ts"
    using g by (auto simp: nst_def rtp_new_au_def Let_def rtp_au_reset_def)
  have "au_ok sp ps st" using ok by (simp add: rtp_ok_def)
  then have "au_ok sp (ps @ [pkt]) nst" using au framed_mono [of sp ps "au st" "[pkt]"] by (auto simp: au_ok_def)
  moreover have "\<exists>k m. partial ps k m (fu st) \<and> (need_idr nst \<longrightarrow> m \<or> stamp_of pkt \<noteq> k \<or> type_of (hd (fu st)) = 5)" if act: "fu_active st1"
  proof -
    obtain k m where k: "partial ps k m (fu st)" "need_idr st \<longrightarrow> m \<or> type_of (hd (fu st)) = 5"
      "\<not> m \<longrightarrow> au_have_ts st \<and> stamp_val k = Some (au_ts st)"
      using ok g(9) act by (auto simp: rtp_ok_def gathers_def)
    then show ?thesis using idr sv g(9) act by (intro exI [of _ k] exI [of _ m]) auto
  qed
  ultimately have "arriving sp ps pkt g nst" using keep g sv by (simp add: arriving_def)
  then show ?thesis using g(1) ts unfolding nst_def by blast
qed

lemma arriving_pass:
  assumes a: "arriving sp ps pkt g st" and n: "\<And>s e hdr body. fragment pkt s e hdr body \<Longrightarrow> need_idr st \<and> type_of hdr \<noteq> 5 \<or> \<not> fu_active st"
  shows "rtp_ok sp (ps @ [pkt]) st"
proof -
  have "gathers (ps @ [pkt]) st" if act: "fu_active st"
  proof -
    obtain k m where k: "follows ps pkt" "partial ps k m (fu st)" "need_idr st \<longrightarrow> m \<or> stamp_of pkt \<noteq> k \<or> type_of (hd (fu st)) = 5"
      using a act by (auto simp: arriving_def)
    have "m \<or> stamp_of pkt \<noteq> k \<or> (\<forall>s e hdr body. fragment pkt s e hdr body \<longrightarrow> type_of hdr \<noteq> type_of (hd (fu st)))"
      using k(3) n act by metis
    then have "partial (ps @ [pkt]) k (m \<or> stamp_of pkt \<noteq> k) (fu st)" by (rule partial.other [OF k(2,1)])
    then show ?thesis using k(3) a unfolding gathers_def arriving_def by blast
  qed
  then show ?thesis using a by (simp add: rtp_ok_def arriving_def)
qed

lemma arriving_same: "arriving sp ps pkt g st \<Longrightarrow> au_ok sp (ps @ [pkt]) st' \<Longrightarrow> rest_of st' = rest_of st \<Longrightarrow> arriving sp ps pkt g st'"
  by (simp add: arriving_def rest_of_def)

lemma hdr_type: "type_of ((a AND 0xe0) OR (b AND 0x1f)) = type_of b" for a b :: u8
proof -
  have "((a AND 0xe0) OR (b AND 0x1f)) AND 0x1f = b AND 0x1f" by (simp add: bit.conj_disj_distrib2 and.assoc)
  then show ?thesis by (simp add: type_of_def)
qed

lemma flag_bits: "b AND 0x80 \<noteq> 0 \<longleftrightarrow> bit b 7" "b AND 0x40 \<noteq> 0 \<longleftrightarrow> bit b 6" for b :: u8
proof -
  have "b AND push_bit n 1 \<noteq> 0 \<longleftrightarrow> bit b n" if "n < 8" for n
    using that by (simp add: bit_iff_and_push_bit_not_eq_0)
  from this [of 7] this [of 6] show "b AND 0x80 \<noteq> 0 \<longleftrightarrow> bit b 7" "b AND 0x40 \<noteq> 0 \<longleftrightarrow> bit b 6" by simp_all
qed

text \<open>The first fragment of a unit opens it, whatever was there before.\<close>

definition fu_open :: "u8 list \<Rightarrow> u8 \<Rightarrow> bool \<Rightarrow> h264_rtp_state \<Rightarrow> h264_rtp_state" where
  "fu_open sp hdr start st = (if start then (rtp_idr sp (type_of hdr) (st\<lparr>fu := [hdr]\<rparr>))\<lparr>fu_active := True\<rparr> else st)"

lemma fu_open_fields:
  assumes "au_ok sp qs st"
  shows "au_ok sp qs (fu_open sp hdr start st)" "fu (fu_open sp hdr start st) = (if start then [hdr] else fu st)"
    "fu_active (fu_open sp hdr start st) \<longleftrightarrow> start \<or> fu_active st" "have_seq (fu_open sp hdr start st) = have_seq st"
    "last_seq (fu_open sp hdr start st) = last_seq st" "need_idr (fu_open sp hdr start st) = need_idr st"
    "au_have_ts (fu_open sp hdr start st) = au_have_ts st" "au_ts (fu_open sp hdr start st) = au_ts st"
  using idr_ok [of sp qs "st\<lparr>fu := [hdr]\<rparr>" "type_of hdr"] assms by (simp_all add: fu_open_def au_ok_def rest_of_def)

lemma carries_unique: "rtp_carries pkt p \<Longrightarrow> rtp_carries pkt q \<Longrightarrow> p = q"
proof -
  assume p: "rtp_carries pkt p" "rtp_carries pkt q"
  then have "12 \<le> length pkt" by (auto simp: rtp_carries_def)
  from carries_iff [OF this] p show "p = q" by auto
qed

lemma partial_Cons: "partial ps k m part \<Longrightarrow> part \<noteq> [] \<and> ps \<noteq> []"
  by (induction rule: partial.induct) auto

lemma fragment_ok:
  assumes a: "arriving sp ps pkt g st" and c: "rtp_carries pkt p" "p = x # b # body" "type_of x = 28"
  shows "\<exists>r st'. rtp_fragment sp p g st = Some (r, st') \<and> rtp_ok sp (ps @ [pkt]) st'"
proof -
  define h where "h = (x AND 0xe0) OR (b AND 0x1f)"
  define st2 where "st2 = fu_open sp h (bit b 7) st"
  have fr: "fragment pkt s e hdr bd \<Longrightarrow> hdr = h" for s e hdr bd
    using carries_unique [OF c(1)] c(2) by (auto simp: fragment_def h_def)
  have f: "fragment pkt (bit b 7) (bit b 6) h body" using c by (auto simp: fragment_def h_def)
  have t: "unat (h AND 0x1f) = type_of h" by (simp add: type_of_def)
  have at: "pkt_at p 0 = Some x" "pkt_at p 1 = Some b" "pkt_sub p 2 (length p - 2) = Some body"
    using c(2) by (simp_all add: pkt_at_def pkt_sub_def)
  have eq: "rtp_fragment sp p g st =
    (if g \<or> need_idr st \<and> type_of h \<noteq> 5 then Some (True, st)
     else if \<not> fu_active st2 \<or> FU_SIZE < length (fu st2) + length p - 2 then Some (False, st2\<lparr>fu_active := False\<rparr>)
     else let st3 = st2\<lparr>fu := fu st2 @ body\<rparr>
          in Some (True, if bit b 6 then (rtp_au_append st3 (fu st3))\<lparr>fu_active := False, fu := []\<rparr> else st3))"
    unfolding rtp_fragment_def at bind.bind_lunit Let_def h_def [symmetric] t flag_bits fu_open_def [symmetric] st2_def [symmetric] by auto
  show ?thesis
  proof (cases "g \<or> need_idr st \<and> type_of h \<noteq> 5")
    case True
    then have "rtp_ok sp (ps @ [pkt]) st" using a fr by (intro arriving_pass [OF a]) (auto simp: arriving_def)
    then show ?thesis using eq True by auto
  next
    case take: False
    have au: "au_ok sp (ps @ [pkt]) st" using a by (simp add: arriving_def)
    note st2 = fu_open_fields [OF au, of h "bit b 7", folded st2_def]
    show ?thesis
    proof (cases "\<not> fu_active st2 \<or> FU_SIZE < length (fu st2) + length p - 2")
      case True
      have "rtp_ok sp (ps @ [pkt]) (st2\<lparr>fu_active := False\<rparr>)"
        using a st2 by (auto simp: rtp_ok_def arriving_def au_ok_def)
      then show ?thesis using eq take True by auto
    next
      case False
      define st3 where "st3 = st2\<lparr>fu := fu st2 @ body\<rparr>"
      have fits: "length (fu st3) \<le> FU_SIZE" using False c(2) by (simp add: st3_def)
      have old: "\<not> bit b 7 \<Longrightarrow> follows ps pkt \<and> (\<exists>k m. partial ps k m (fu st) \<and>
          (need_idr st \<longrightarrow> m \<or> stamp_of pkt \<noteq> k \<or> type_of (hd (fu st)) = 5))"
        using a False st2(3) by (auto simp: arriving_def)
      have fu: "fu st3 = (if bit b 7 then h # body else fu st @ body)" using st2(2) by (simp add: st3_def)
      have whole: "carried (ps @ [pkt]) (fu st3)" if "bit b 6"
      proof (cases "bit b 7")
        case True
        then show ?thesis using f that fu by (auto intro: carried.in_one [of pkt])
      next
        case False
        then show ?thesis using old f that fu by (auto intro: carried.in_fragments [where rs = "[]"])
      qed
      have more: "gathers (ps @ [pkt]) st3" if "\<not> bit b 6"
      proof (cases "bit b 7")
        case True
        then have "partial (ps @ [pkt]) (stamp_of pkt) False (fu st3)" using f that fu by (auto intro: partial.first)
        then show ?thesis using True take a fu st2 unfolding gathers_def
          by (intro exI [of _ "stamp_of pkt"] exI [of _ False]) (auto simp: st3_def arriving_def)
      next
        case False
        obtain k m where k: "follows ps pkt" "partial ps k m (fu st)" "need_idr st \<longrightarrow> m \<or> stamp_of pkt \<noteq> k \<or> type_of (hd (fu st)) = 5"
          using old False by blast
        have "partial (ps @ [pkt]) k (m \<or> stamp_of pkt \<noteq> k) (fu st3)" using partial.more [OF k(2,1)] f that fu False by auto
        moreover have "hd (fu st3) = hd (fu st)" using partial_Cons [OF k(2)] fu False by simp
        ultimately show ?thesis using k(3) a st2 unfolding gathers_def
          by (intro exI [of _ k] exI [of _ "m \<or> stamp_of pkt \<noteq> k"]) (auto simp: st3_def arriving_def)
      qed
      have ok3: "au_ok sp (ps @ [pkt]) st3" using st2(1) by (simp add: st3_def au_ok_def)
      have "rtp_ok sp (ps @ [pkt]) (if bit b 6 then (rtp_au_append st3 (fu st3))\<lparr>fu_active := False, fu := []\<rparr> else st3)"
        using append_ok [OF ok3] whole more fits ok3 a st2
        by (auto simp: rtp_ok_def arriving_def au_ok_def rest_of_def st3_def)
      then show ?thesis using eq take False by (auto simp: st3_def [symmetric] Let_def)
    qed
  qed
qed

lemma write_all_result:
  assumes "write_all b f = (rc, f')"
  shows "rc = 0 \<and> sent f' = sent f @ b \<or> rc = -1 \<and> (\<exists>k. sent f' = sent f @ take k b)"
  using assms
proof (induction b f rule: write_all.induct)
  case (1 b f)
  obtain n g where w: "write_once b f = (n, g)" by (cases "write_once b f")
  have g: "sent g = sent f @ take (nat n) b"
    using w by (auto simp: write_once_def Let_def split: list.splits)
  consider "b = []" | "b \<noteq> []" "n \<le> 0" | "b \<noteq> []" "\<not> n \<le> 0" by blast
  then show ?case
  proof cases
    case 1
    then show ?thesis using "1.prems" by (simp add: write_all.simps)
  next
    case 2
    then have "rc = -1" "f' = g" using "1.prems" w by (simp_all add: write_all.simps)
    then show ?thesis using g by blast
  next
    case 3
    then have "write_all (drop (nat n) b) g = (rc, f')" using "1.prems" w by (simp add: write_all.simps[of b])
    from "1.IH"[OF _ w[symmetric] _ this] 3
    have "rc = 0 \<and> sent f' = sent g @ drop (nat n) b \<or> rc = -1 \<and> (\<exists>k. sent f' = sent g @ take k (drop (nat n) b))"
      by simp
    then show ?thesis
    proof
      assume "rc = -1 \<and> (\<exists>k. sent f' = sent g @ take k (drop (nat n) b))"
      then obtain k where "rc = -1" "sent f' = sent f @ take (nat n + k) b" using g by (auto simp: take_add)
      then show ?thesis by blast
    qed (simp add: g)
  qed
qed

lemma flush_result:
  assumes "rtp_ok sp ps st"
  shows "\<exists>rc st' f'. rtp_au_flush st f = (rc, st', f') \<and> rtp_ok sp ps st' \<and>
    (rc = 0 \<and> (sent f' = sent f \<or> sent f' = sent f @ au st) \<or> rc = -1 \<and> (\<exists>k. sent f' = sent f @ take k (au st)))"
proof -
  obtain rc f' where w: "write_all (au st) f = (rc, f')" by (cases "write_all (au st) f")
  show ?thesis using assms write_all_result[OF w]
    by (auto simp: rtp_au_flush_def Let_def w rtp_au_reset_def rtp_ok_def au_ok_def gathers_def)
qed

lemma payload_h264_ok:
  assumes a: "arriving sp ps pkt g st" and c: "rtp_carries pkt p"
  shows "\<exists>b st'. rtp_payload_h264 sp p g st = Some (b, st') \<and> rtp_ok sp (ps @ [pkt]) st'"
proof -
  obtain x xs where p: "p = x # xs" using c by (cases p) (auto simp: rtp_carries_def)
  have h: "pkt_at p 0 = Some x" by (simp add: pkt_at_def p)
  define st2 where "st2 = st\<lparr>logs := logs st + 1\<rparr>"
  have 2: "arriving sp ps pkt g st2" "au_ok sp (ps @ [pkt]) st2" using a by (simp_all add: st2_def arriving_def au_ok_def)
  have frag: "type_of x = 28 \<and> xs \<noteq> []" if "fragment pkt s e hdr body" for s e hdr body
    using that carries_unique [OF c] p by (auto simp: fragment_def)
  have pass: "rtp_ok sp (ps @ [pkt]) st'" if "type_of x \<noteq> 28 \<or> xs = []" "au_ok sp (ps @ [pkt]) st'" "rest_of st' = rest_of st2" for st'
    by (rule arriving_pass [OF arriving_same [OF 2(1) that(2,3)]]) (use frag that(1) in blast)
  have t: "unat (x AND 0x1f) = type_of x" by (simp add: type_of_def)
  have single: "carried (ps @ [pkt]) p" if "1 \<le> type_of x" "type_of x \<le> 23" using c p that by (intro carried.alone [of pkt]) auto
  have stap: "carried (ps @ [pkt]) nal" if "type_of x = 24" "nal \<in> set (stap_units (drop 1 p))" for nal
    using c p that by (intro carried.aggregated [of pkt _ x xs]) auto
  consider "1 \<le> type_of x" "type_of x \<le> 23" | "type_of x = 24" | "type_of x = 28" "2 \<le> length p" |
    "\<not> (1 \<le> type_of x \<and> type_of x \<le> 23)" "type_of x \<noteq> 24" "\<not> (type_of x = 28 \<and> 2 \<le> length p)" by blast
  then show ?thesis
  proof cases
    case 1
    have "rtp_ok sp (ps @ [pkt]) (if rtp_skipped st2 (type_of x) then st2 else rtp_au_append (rtp_idr sp (type_of x) st2) p)"
      using 1 unit_ok [OF 2(2) single [OF 1]] by (intro pass) (auto simp: 2(2))
    then show ?thesis using 1 unfolding rtp_payload_h264_def h bind.bind_lunit Let_def t st2_def [symmetric] by auto
  next
    case 2
    then obtain st' where s: "stap_loop sp p 1 st2 = Some st'" "au_ok sp (ps @ [pkt]) st'" "rest_of st' = rest_of st2"
      using stap_ok [OF \<open>au_ok sp (ps @ [pkt]) st2\<close>, of 1 p] stap by blast
    then have "rtp_ok sp (ps @ [pkt]) st'" using 2 by (intro pass) auto
    then show ?thesis using 2 s unfolding rtp_payload_h264_def h bind.bind_lunit Let_def t st2_def [symmetric] by auto
  next
    case 3
    then obtain b body where "p = x # b # body" using p by (cases xs) auto
    then obtain r st' where "rtp_fragment sp p g st2 = Some (r, st')" "rtp_ok sp (ps @ [pkt]) st'"
      using fragment_ok [OF 2(1) c] 3(1) by blast
    then show ?thesis using 3 unfolding rtp_payload_h264_def h bind.bind_lunit Let_def t st2_def [symmetric] by auto
  next
    case 4
    then have "rtp_ok sp (ps @ [pkt]) st2" using p 2(2) by (intro pass) (auto simp: Suc_le_eq)
    then show ?thesis using 4 unfolding rtp_payload_h264_def h bind.bind_lunit Let_def t st2_def [symmetric] by auto
  qed
qed

lemma handle_ok:
  assumes "rtp_ok sp ps st"
  shows "\<exists>rc st' f'. handle_rtp_h264 st f pkt sp = Some (rc, st', f') \<and> rtp_ok sp (ps @ filter is_rtp [pkt]) st' \<and>
    (\<exists>u. framed sp (ps @ filter is_rtp [pkt]) u \<and> (rc = 0 \<and> sent f' = sent f @ u \<or> rc = -1 \<and> (\<exists>k. sent f' = sent f @ take k u)))"
proof (cases "is_rtp pkt")
  case False
  then have "handle_rtp_h264 st f pkt sp = Some (0, st, f)" by (cases "length pkt < 12") (auto simp: handle_rtp_h264_def is_rtp_def pkt_at_def)
  then show ?thesis using assms False by (auto intro!: exI[of _ "[] :: u8 list"])
next
  case True
  then have len: "12 \<le> length pkt" and v: "drop_bit 6 (pkt ! 0) = 2" by (simp_all add: is_rtp_def)
  have at: "pkt_at pkt i = Some (pkt ! i)" if "i < 12" for i using len that by (simp add: pkt_at_def)
  obtain g st1 ts where g: "rtp_h264_seq_gap st pkt = Some (g, st1)" "rtp_timestamp pkt = Some ts" "arriving sp ps pkt g (rtp_new_au ts g st1)"
    using new_au_arriving [OF assms len] by blast
  obtain r where r: "rtp_payload pkt = Some r" "\<And>p. rtp_carries pkt p \<longleftrightarrow> (\<exists>off < length pkt. r = Some off \<and> p = drop off pkt)"
    using carries_iff [OF len] by auto
  define st2 where "st2 = rtp_new_au ts g st1"
  have eq: "handle_rtp_h264 st f pkt sp =
    (case r of None \<Rightarrow> Some (0, st2, f)
     | Some off \<Rightarrow> do { (b, st3) \<leftarrow> rtp_payload_h264 sp (drop off pkt) g st2;
         Some (if b then maybe_flush (pkt ! Suc 0 AND 0x80 \<noteq> 0) st3 f else (0, st3, f)) })"
    using len v unfolding st2_def by (cases r) (simp_all add: handle_rtp_h264_def at g(1,2) r(1) Let_def)
  have none: "\<exists>u. framed sp (ps @ [pkt]) u \<and> (sent f = sent f @ u)" by (rule exI[of _ "[]"]) simp
  show ?thesis
  proof (cases "\<exists>off < length pkt. r = Some off")
    case False
    then have "rtp_ok sp (ps @ [pkt]) st2" using g(3) r(2) unfolding st2_def by (intro arriving_pass) (auto simp: fragment_def)
    moreover have "r = None" using False r(1) payload_ok [OF len] by (cases r) auto
    ultimately show ?thesis using True none unfolding eq by auto
  next
    case some: True
    then obtain off where off: "r = Some off" "rtp_carries pkt (drop off pkt)" using r(2) by blast
    obtain b st3 where p: "rtp_payload_h264 sp (drop off pkt) g st2 = Some (b, st3)" "rtp_ok sp (ps @ [pkt]) st3"
      using payload_h264_ok [OF g(3) off(2)] unfolding st2_def by blast
    obtain rc st' f' where fl: "rtp_au_flush st3 f = (rc, st', f')" "rtp_ok sp (ps @ [pkt]) st'"
      "rc = 0 \<and> (sent f' = sent f \<or> sent f' = sent f @ au st3) \<or> rc = -1 \<and> (\<exists>k. sent f' = sent f @ take k (au st3))"
      using flush_result[OF p(2)] by blast
    have au: "framed sp (ps @ [pkt]) (au st3)" using p(2) by (simp add: rtp_ok_def au_ok_def)
    show ?thesis using True p fl none au off(1) unfolding eq
      by (cases "b \<and> pkt ! Suc 0 AND 0x80 \<noteq> 0") (auto simp: maybe_flush_def)
  qed
qed

lemma stream_ok:
  assumes "rtp_ok sp ps st"
  shows "\<exists>rc st' f' u. rtp_stream sp pkts st f = Some (rc, st', f') \<and> length (fu st') \<le> FU_SIZE \<and> length (au st') \<le> AU_SIZE \<and>
    framed sp (ps @ filter is_rtp pkts) u \<and> (rc = 0 \<and> sent f' = sent f @ u \<or> rc = -1 \<and> (\<exists>k. sent f' = sent f @ take k u))"
  using assms
proof (induction pkts arbitrary: ps st f)
  case Nil
  then show ?case by (auto simp: rtp_ok_def au_ok_def)
next
  case (Cons pkt pkts)
  let ?ps = "ps @ filter is_rtp [pkt]"
  obtain rc st1 f1 u where h: "handle_rtp_h264 st f pkt sp = Some (rc, st1, f1)" "rtp_ok sp ?ps st1" "framed sp ?ps u"
    "rc = 0 \<and> sent f1 = sent f @ u \<or> rc = -1 \<and> (\<exists>k. sent f1 = sent f @ take k u)"
    using handle_ok[OF Cons.prems] by blast
  have all: "?ps @ filter is_rtp pkts = ps @ filter is_rtp (pkt # pkts)" by simp
  have u: "framed sp (ps @ filter is_rtp (pkt # pkts)) u" using framed_mono [OF h(3)] unfolding all [symmetric] .
  show ?case
  proof (cases "rc = 0")
    case False
    then show ?thesis using h u by (auto simp: rtp_ok_def au_ok_def)
  next
    case True
    obtain rc' st' f' v where r: "rtp_stream sp pkts st1 f1 = Some (rc', st', f')" "length (fu st') \<le> FU_SIZE" "length (au st') \<le> AU_SIZE"
      "framed sp (ps @ filter is_rtp (pkt # pkts)) v" "rc' = 0 \<and> sent f' = sent f1 @ v \<or> rc' = -1 \<and> (\<exists>k. sent f' = sent f1 @ take k v)"
      using Cons.IH[OF h(2)] unfolding all by blast
    have k: "\<exists>k'. sent f' = sent f @ take k' (u @ v)" if "sent f' = sent f1 @ take k v" for k
      using that h(4) True by (intro exI[of _ "length u + k"]) simp
    have "rtp_stream sp (pkt # pkts) st f = Some (rc', st', f')" using h(1) r(1) True by simp
    then show ?thesis using r framed_append[OF u r(4)] k h(4) True
      by (intro exI[of _ rc'] exI[of _ st'] exI[of _ f'] exI[of _ "u @ v"]) auto
  qed
qed

definition rtp_zero :: h264_rtp_state where
  "rtp_zero = \<lparr>fu = [], au = [], fu_active = False, au_bad = False, au_has_idr = False, au_have_ts = False, au_ts = 0,
     have_seq = False, last_seq = 0, need_idr = False, logs = 0, gap_logs = 0, resync_logs = 0\<rparr>"

lemma zero_ok: "rtp_ok sp [] rtp_zero"
  by (simp add: rtp_ok_def au_ok_def rtp_zero_def)


text \<open>An IDR slice in one packet, one that is too short, and a fragment after a gap.\<close>

definition sample_packets :: "u8 list list" where
  "sample_packets =
     [[0x80, 0xE0, 0, 7, 0, 0, 0, 1, 0, 0, 0, 0, 0x65, 0x88, 0x84], [0x80, 0x60],
      [0x80, 0xE0, 0, 9, 0, 0, 0, 2, 0, 0, 0, 0, 0x7C, 0x41, 0x9A]]"

lemma sample_run:
  "map_option (\<lambda>(rc, st, f). (rc, need_idr st, sent f)) (rtp_stream [] sample_packets rtp_zero \<lparr>sent = [], writes = [2]\<rparr>) =
   Some (0, True, [0, 0, 0, 1, 0x65, 0x88, 0x84])"
  by (simp add: sample_packets_def rtp_zero_def handle_rtp_h264_def pkt_at_def pkt_sub_def rtp_timestamp_def
    rtp_h264_seq_gap_def rtp_new_au_def rtp_payload_def rtp_payload_h264_def rtp_fragment_def rtp_skipped_def rtp_idr_def
    rtp_au_append_def rtp_au_flush_def maybe_flush_def rtp_au_reset_def write_all.simps write_once_def sc_def Let_def)


end
