(* ===== verification/Stream_Ring.thy ===== *)
theory Stream_Ring
  imports Vpu_Dec_Live Stream_RTP
begin

unbundle bit_operations_syntax

text \<open>
  How the streaming application (\<^verbatim>\<open>src/apps/vpu_stream.c\<close>) fills the bitstream ring of the
  decoder: from a TCP connection (\<^verbatim>\<open>feed\<close>, \<^verbatim>\<open>feed_until_watermark\<close>, \<^verbatim>\<open>feed_skip_to_latest\<close>,
  \<^verbatim>\<open>bs_ring_write\<close>) and directly from RTP packets (\<^verbatim>\<open>rtp_direct_append\<close> to
  \<^verbatim>\<open>rtp_feed_direct\<close>). The three library calls that the code makes with its handle are the record
  \<open>port\<close>; \<open>dec_port\<close> is the one of the library model. The mapped buffer is a function from offsets
  to bytes; copying outside its \<^verbatim>\<open>STREAM_BUF_SIZE\<close> bytes is \<open>None\<close>.
\<close>

section \<open>State\<close>

record 's port =
  get_buffer :: "'s \<Rightarrow> ((RetCode \<times> (u32 \<times> u32 \<times> u32) option) \<times> 's) option"
  update_buffer :: "u32 \<Rightarrow> 's \<Rightarrow> (RetCode \<times> 's) option"
  flush_buffer :: "'s \<Rightarrow> (RetCode \<times> 's) option"

definition dec_port :: "io_env \<Rightarrow> handle \<Rightarrow> dec_lib port" where
  "dec_port e h = \<lparr>get_buffer = vpu_DecGetBitstreamBuffer e h True, update_buffer = vpu_DecUpdateBitstreamBuffer e h,
     flush_buffer = vpu_DecBitBufferFlush e h\<rparr>"

text \<open>What the socket has to offer: data, the end of the connection, or nothing for now.\<close>

datatype rx = Data "u8 list" | Closed | NoData

record 's app =
  lib :: 's
  bs_mem :: "nat \<Rightarrow> u8"
  bs_phy :: u32
  sock :: "rx list"

abbreviation (input) STREAM_BUF_SIZE :: int where "STREAM_BUF_SIZE \<equiv> 1 * 1024 * 1024"
abbreviation (input) DRAIN_BUF_SIZE :: int where "DRAIN_BUF_SIZE \<equiv> 256 * 1024"
abbreviation (input) FEED_CHUNK_SIZE :: int where "FEED_CHUNK_SIZE \<equiv> 32 * 1024"

definition mem_put :: "nat \<Rightarrow> u8 list \<Rightarrow> (nat \<Rightarrow> u8) \<Rightarrow> (nat \<Rightarrow> u8) option" where
  "mem_put off p m =
     (if int (off + length p) \<le> STREAM_BUF_SIZE
      then Some (\<lambda>i. if off \<le> i \<and> i < off + length p then p ! (i - off) else m i) else None)"

text \<open>\<^verbatim>\<open>recv\<close> of at most \<open>n\<close> bytes: the result and what it stores.\<close>

definition recv :: "nat \<Rightarrow> rx list \<Rightarrow> int \<times> u8 list \<times> rx list" where
  "recv n rs =
     (case rs of
        Data bs # rs \<Rightarrow> (int (length (take n bs)), take n bs, if n < length bs then Data (drop n bs) # rs else rs)
      | Closed # rs \<Rightarrow> (0, [], Closed # rs)
      | NoData # rs \<Rightarrow> (-1, [], rs)
      | [] \<Rightarrow> (-1, [], []))"

section \<open>The ring\<close>

function ring_copy :: "int \<Rightarrow> u8 list \<Rightarrow> (nat \<Rightarrow> u8) \<Rightarrow> (nat \<Rightarrow> u8) option" where
  "ring_copy off p m =
     (if p = [] then Some m
      else if off < 0 \<or> STREAM_BUF_SIZE < off then None
      else do {
        m \<leftarrow> mem_put (nat off) (take (nat (min (STREAM_BUF_SIZE - off) (int (length p)))) p) m;
        ring_copy 0 (drop (nat (min (STREAM_BUF_SIZE - off) (int (length p)))) p) m })"
  by pat_completeness auto
termination
  by (relation "measure (\<lambda>(off, p, m). 2 * length p + (if off \<noteq> 0 then 1 else 0))") (auto simp: min_def)

declare ring_copy.simps [simp del]

definition bs_ring_write :: "'s port \<Rightarrow> u8 list \<Rightarrow> 's app \<Rightarrow> (int \<times> 's app) option" where
  "bs_ring_write P p a =
     (if p = [] then Some (0, a)
      else do {
        (r, s) \<leftarrow> get_buffer P (lib a);
        let a = a\<lparr>lib := s\<rparr>;
        case r of
          (RETCODE_SUCCESS, Some (rd, wr, space)) \<Rightarrow> do {
            let p = (if sint space < int (length p) then take (nat (sint space)) p else p);
            let off = sint (wr - bs_phy a);
            m \<leftarrow> ring_copy off p (bs_mem a);
            let a = a\<lparr>bs_mem := m\<rparr>;
            if p \<noteq> [] then do {
              (_, s) \<leftarrow> update_buffer P (of_nat (length p)) (lib a);
              Some (int (length p), a\<lparr>lib := s\<rparr>) }
            else Some (0, a) }
        | _ \<Rightarrow> Some (-1, a) })"

definition feed :: "'s port \<Rightarrow> bool \<Rightarrow> 's app \<Rightarrow> (int \<times> 's app) option" where
  "feed P block a = do {
     (r, s) \<leftarrow> get_buffer P (lib a);
     let a = a\<lparr>lib := s\<rparr>;
     case r of
       (RETCODE_SUCCESS, Some (rd, wr, space)) \<Rightarrow>
         if space < 512 then Some (-1, a)
         else do {
           let off = sint (wr - bs_phy a);
           let chunk = STREAM_BUF_SIZE - off;
           let chunk = (if sint space < chunk then sint space else chunk);
           let chunk = (if FEED_CHUNK_SIZE < chunk then FEED_CHUNK_SIZE else chunk);
           if block \<and> (case sock a of NoData # _ \<Rightarrow> True | [] \<Rightarrow> True | _ \<Rightarrow> False)
           then Some (-2, a\<lparr>sock := tl (sock a)\<rparr>)
           else if off < 0 \<or> chunk < 0 then None
           else do {
             let (n, bs, rest) = recv (nat chunk) (sock a);
             let a = a\<lparr>sock := rest\<rparr>;
             m \<leftarrow> mem_put (nat off) bs (bs_mem a);
             let a = a\<lparr>bs_mem := m\<rparr>;
             if 0 < n then do {
               (_, s) \<leftarrow> update_buffer P (of_int n) (lib a);
               Some (n, a\<lparr>lib := s\<rparr>) }
             else if n = 0 then Some (0, a)
             else Some (-1, a) } }
     | _ \<Rightarrow> Some (-1, a) }"

definition bitstream_used :: "'s port \<Rightarrow> 's app \<Rightarrow> (int \<times> 's app) option" where
  "bitstream_used P a = do {
     (r, s) \<leftarrow> get_buffer P (lib a);
     let a = a\<lparr>lib := s\<rparr>;
     case r of
       (RETCODE_SUCCESS, Some (rd, wr, space)) \<Rightarrow> Some (STREAM_BUF_SIZE - sint space - 1, a)
     | _ \<Rightarrow> Some (STREAM_BUF_SIZE, a) }"

fun watermark_loop :: "'s port \<Rightarrow> int \<Rightarrow> nat \<Rightarrow> int \<Rightarrow> 's app \<Rightarrow> (int \<times> 's app) option" where
  "watermark_loop P target 0 acc a = Some (if 0 < acc then acc else -1, a)"
| "watermark_loop P target (Suc reads) acc a = do {
     (used, a) \<leftarrow> bitstream_used P a;
     if target \<le> used then Some (if 0 < acc then acc else -1, a)
     else do {
       (n, a) \<leftarrow> feed P False a;
       if 0 < n then watermark_loop P target reads (acc + n) a
       else if n = 0 then Some (if 0 < acc then acc else 0, a)
       else Some (if 0 < acc then acc else -1, a) } }"

definition feed_until_watermark :: "'s port \<Rightarrow> int \<Rightarrow> int \<Rightarrow> 's app \<Rightarrow> (int \<times> 's app) option" where
  "feed_until_watermark P target_used max_reads a = watermark_loop P target_used (nat max_reads) 0 a"

section \<open>Skipping a backlog\<close>

abbreviation (input) STD_MPEG4 :: int where "STD_MPEG4 \<equiv> 0"
abbreviation (input) STD_AVC :: int where "STD_AVC \<equiv> 2"

definition start_code_len :: "u8 list \<Rightarrow> nat \<Rightarrow> nat" where
  "start_code_len p i =
     (if i + 3 < length p \<and> p ! i = 0 \<and> p ! (i + 1) = 0 \<and> p ! (i + 2) = 0 \<and> p ! (i + 3) = 1 then 4
      else if i + 2 < length p \<and> p ! i = 0 \<and> p ! (i + 1) = 0 \<and> p ! (i + 2) = 1 then 3 else 0)"

definition avc_step :: "u8 list \<Rightarrow> nat \<Rightarrow> int \<times> int \<Rightarrow> int \<times> int" where
  "avc_step p i = (\<lambda>(param, start_at).
     let sc' = start_code_len p i
     in if sc' = 0 \<or> length p \<le> i + sc' then (param, start_at)
        else let nal = unat (p ! (i + sc') AND 0x1f)
             in if nal = 7 \<or> nal = 8 then (int i, start_at)
                else if nal = 5 then (param, if 0 \<le> param then param else int i)
                else (param, start_at))"

text \<open>An MPEG-4 video object plane that is coded on its own.\<close>

definition i_vop_at :: "u8 list \<Rightarrow> nat \<Rightarrow> bool" where
  "i_vop_at p i \<longleftrightarrow> p ! i = 0 \<and> p ! (i + 1) = 0 \<and> p ! (i + 2) = 1 \<and> p ! (i + 3) = 0xB6 \<and> p ! (i + 4) AND 0xC0 = 0"

fun i_vop_back :: "u8 list \<Rightarrow> nat \<Rightarrow> int" where
  "i_vop_back p 0 = -1"
| "i_vop_back p (Suc i) = (if i_vop_at p i then int i else i_vop_back p i)"

definition find_resync_start :: "int \<Rightarrow> u8 list \<Rightarrow> int" where
  "find_resync_start codec p =
     (if codec = STD_AVC then snd (fold (avc_step p) [0..<length p - 4] (-1, -1))
      else i_vop_back p (length p - 4))"

fun drain :: "nat \<Rightarrow> u8 list \<Rightarrow> rx list \<Rightarrow> u8 list \<times> rx list" where
  "drain 0 tmp rs = (tmp, rs)"
| "drain (Suc k) tmp rs =
     (if int (length tmp) < DRAIN_BUF_SIZE
      then case recv (nat DRAIN_BUF_SIZE - length tmp) rs of
             (n, bs, rs) \<Rightarrow> if n \<le> 0 then (tmp, rs) else drain k (tmp @ bs) rs
      else (tmp, rs))"

text \<open>
  \<open>queued\<close> is what \<^verbatim>\<open>FIONREAD\<close> reports, \<open>None\<close> when it fails. A read of the draining loop returns
  at least one byte or ends it, so \<^verbatim>\<open>DRAIN_BUF_SIZE\<close> rounds are enough.
\<close>

definition feed_skip_to_latest :: "'s port \<Rightarrow> int \<Rightarrow> int option \<Rightarrow> 's app \<Rightarrow> (int \<times> 's app) option" where
  "feed_skip_to_latest P codec queued a =
     (if codec = STD_AVC then Some (0, a)
      else case queued of
        None \<Rightarrow> Some (0, a)
      | Some queued \<Rightarrow> do {
          (used, a) \<leftarrow> bitstream_used P a;
          if queued < 32768 \<and> used < 256 * 1024 then Some (0, a)
          else do {
            let (tmp, rest) = drain (nat DRAIN_BUF_SIZE) [] (sock a);
            let a = a\<lparr>sock := rest\<rparr>;
            if tmp = [] then Some (0, a)
            else do {
              let start_at = find_resync_start codec tmp;
              if start_at < 0 then bs_ring_write P tmp a
              else do {
                (_, s) \<leftarrow> flush_buffer P (lib a);
                bs_ring_write P (drop (nat start_at) tmp) (a\<lparr>lib := s\<rparr>) } } } })"

section \<open>RTP into the ring\<close>

text \<open>
  With direct input \<^verbatim>\<open>au_len\<close> counts the bytes put behind the write pointer, not those in the array
  \<^verbatim>\<open>au\<close>; the model keeps them as the list \<open>au\<close>.
\<close>

definition rtp_direct_reset :: "h264_rtp_state \<Rightarrow> h264_rtp_state" where
  "rtp_direct_reset st = st\<lparr>au := [], au_bad := False, au_has_idr := False\<rparr>"

definition c_rem :: "int \<Rightarrow> int \<Rightarrow> int" where
  "c_rem x y = (if 0 \<le> x then x mod y else - ((- x) mod y))"

definition rtp_direct_append :: "'s port \<Rightarrow> u8 list \<Rightarrow> h264_rtp_state \<Rightarrow> 's app \<Rightarrow> (int \<times> h264_rtp_state \<times> 's app) option" where
  "rtp_direct_append P p st a =
     (if p = [] then Some (0, st, a)
      else do {
        (r, s) \<leftarrow> get_buffer P (lib a);
        let a = a\<lparr>lib := s\<rparr>;
        case r of
          (RETCODE_SUCCESS, Some (rd, wr, space)) \<Rightarrow>
            if sint space \<le> int (length (au st)) + int (length p) + 512 then Some (-1, st\<lparr>au_bad := True\<rparr>, a)
            else do {
              let base = sint (wr - bs_phy a);
              let pos = c_rem (base + int (length (au st))) STREAM_BUF_SIZE;
              let first = min (STREAM_BUF_SIZE - pos) (int (length p));
              if pos < 0 then None
              else do {
                m \<leftarrow> mem_put (nat pos) (take (nat first) p) (bs_mem a);
                m \<leftarrow> (if first < int (length p) then mem_put 0 (drop (nat first) p) m else Some m);
                Some (0, st\<lparr>au := au st @ p\<rparr>, a\<lparr>bs_mem := m\<rparr>) } }
        | _ \<Rightarrow> Some (-1, st\<lparr>au_bad := True\<rparr>, a) })"

definition rtp_direct_append_nal :: "'s port \<Rightarrow> u8 list \<Rightarrow> h264_rtp_state \<Rightarrow> 's app \<Rightarrow> (int \<times> h264_rtp_state \<times> 's app) option" where
  "rtp_direct_append_nal P nal st a = do {
     (r, st, a) \<leftarrow> rtp_direct_append P sc st a;
     if r < 0 then Some (-1, st, a) else rtp_direct_append P nal st a }"

definition rtp_direct_flush :: "'s port \<Rightarrow> h264_rtp_state \<Rightarrow> 's app \<Rightarrow> (int \<times> h264_rtp_state \<times> 's app) option" where
  "rtp_direct_flush P st a =
     (if au st \<noteq> [] \<and> \<not> au_bad st then do {
        (r, s) \<leftarrow> update_buffer P (of_nat (length (au st))) (lib a);
        let committed = (if r = RETCODE_SUCCESS then int (length (au st)) else 0);
        let st = (if (\<not> need_idr st \<or> au_has_idr st) \<and> au_has_idr st
                  then (if need_idr st then st\<lparr>resync_logs := resync_logs st + 1\<rparr> else st)\<lparr>need_idr := False\<rparr> else st);
        Some (committed, rtp_direct_reset st, a\<lparr>lib := s\<rparr>) }
      else Some (0, rtp_direct_reset st, a))"

definition direct_idr :: "'s port \<Rightarrow> u8 list \<Rightarrow> nat \<Rightarrow> h264_rtp_state \<Rightarrow> 's app \<Rightarrow> (h264_rtp_state \<times> 's app) option" where
  "direct_idr P spspps nal_type st a =
     (let st = (if nal_type = 5 then st\<lparr>au_has_idr := True\<rparr> else st)
      in if nal_type = 5 \<and> spspps \<noteq> [] then do { (_, st, a) \<leftarrow> rtp_direct_append P spspps st a; Some (st, a) }
         else Some (st, a))"

definition direct_unit :: "'s port \<Rightarrow> u8 list \<Rightarrow> nat \<Rightarrow> u8 list \<Rightarrow> h264_rtp_state \<Rightarrow> 's app \<Rightarrow> (h264_rtp_state \<times> 's app) option" where
  "direct_unit P spspps nal_type nal st a = do {
     (st, a) \<leftarrow> direct_idr P spspps nal_type st a;
     (_, st, a) \<leftarrow> rtp_direct_append_nal P nal st a;
     Some (st, a) }"

function direct_stap :: "'s port \<Rightarrow> u8 list \<Rightarrow> u8 list \<Rightarrow> nat \<Rightarrow> h264_rtp_state \<Rightarrow> 's app \<Rightarrow> (h264_rtp_state \<times> 's app) option" where
  "direct_stap P spspps pkt p st a =
     (if p + 2 \<le> length pkt then do {
        x \<leftarrow> pkt_at pkt p;
        y \<leftarrow> pkt_at pkt (p + 1);
        (if unat x * 256 + unat y = 0 \<or> length pkt < p + 2 + (unat x * 256 + unat y) then Some (st, a)
         else do {
           h \<leftarrow> pkt_at pkt (p + 2);
           nal \<leftarrow> pkt_sub pkt (p + 2) (unat x * 256 + unat y);
           (if rtp_skipped st (unat (h AND 0x1f)) then direct_stap P spspps pkt (p + 2 + (unat x * 256 + unat y)) st a
            else do {
              (st, a) \<leftarrow> direct_unit P spspps (unat (h AND 0x1f)) nal st a;
              direct_stap P spspps pkt (p + 2 + (unat x * 256 + unat y)) st a }) }) }
      else Some (st, a))"
  by pat_completeness auto
termination
  by (relation "measure (\<lambda>(P, sp, pkt, p, st, a). length pkt - p)") auto

declare direct_stap.simps [simp del]

definition direct_fragment :: "'s port \<Rightarrow> u8 list \<Rightarrow> u8 list \<Rightarrow> bool \<Rightarrow> h264_rtp_state \<Rightarrow> 's app \<Rightarrow> (h264_rtp_state \<times> 's app) option" where
  "direct_fragment P spspps pkt seq_gap st a = do {
     x \<leftarrow> pkt_at pkt 0;
     y \<leftarrow> pkt_at pkt 1;
     let hdr = (x AND 0xe0) OR (y AND 0x1f);
     let fu_type = unat (hdr AND 0x1f);
     if seq_gap then Some (st, a)
     else if need_idr st \<and> fu_type \<noteq> 5 then Some (st, a)
     else do {
       (st, a) \<leftarrow> (if y AND 0x80 \<noteq> 0 then do {
                     (st, a) \<leftarrow> direct_unit P spspps fu_type [hdr] st a;
                     Some (st\<lparr>fu_active := True\<rparr>, a) }
                   else Some (st, a));
       if \<not> fu_active st then Some (st\<lparr>au_bad := True\<rparr>, a)
       else do {
         body \<leftarrow> pkt_sub pkt 2 (length pkt - 2);
         (_, st, a) \<leftarrow> rtp_direct_append P body st a;
         Some (if y AND 0x40 \<noteq> 0 then st\<lparr>fu_active := False\<rparr> else st, a) } } }"

definition direct_payload :: "'s port \<Rightarrow> u8 list \<Rightarrow> u8 list \<Rightarrow> bool \<Rightarrow> h264_rtp_state \<Rightarrow> 's app \<Rightarrow> (h264_rtp_state \<times> 's app) option" where
  "direct_payload P spspps pkt seq_gap st a = do {
     h \<leftarrow> pkt_at pkt 0;
     let nal_type = unat (h AND 0x1f);
     let st = st\<lparr>logs := logs st + 1\<rparr>;
     if 1 \<le> nal_type \<and> nal_type \<le> 23 then
       if rtp_skipped st nal_type then Some (st, a) else direct_unit P spspps nal_type pkt st a
     else if nal_type = 24 then direct_stap P spspps pkt 1 st a
     else if nal_type = 28 \<and> 2 \<le> length pkt then direct_fragment P spspps pkt seq_gap st a
     else Some (st, a) }"

text \<open>The part that the two direct handlers share: \<open>body\<close> gets the payload and the sequence gap.\<close>

definition direct_packet ::
    "'s port \<Rightarrow> (u8 list \<Rightarrow> bool \<Rightarrow> h264_rtp_state \<Rightarrow> 's app \<Rightarrow> (h264_rtp_state \<times> 's app) option) \<Rightarrow>
     u8 list \<Rightarrow> h264_rtp_state \<Rightarrow> 's app \<Rightarrow> (int \<times> h264_rtp_state \<times> 's app) option" where
  "direct_packet P body pkt st a =
     (if length pkt < 12 then Some (0, st, a)
      else do {
        h0 \<leftarrow> pkt_at pkt 0;
        if drop_bit 6 h0 \<noteq> 2 then Some (0, st, a)
        else do {
          h1 \<leftarrow> pkt_at pkt 1;
          ts \<leftarrow> rtp_timestamp pkt;
          (seq_gap, st) \<leftarrow> rtp_h264_seq_gap st pkt;
          let st = rtp_new_au ts seq_gap st;
          off \<leftarrow> rtp_payload pkt;
          case off of
            None \<Rightarrow> Some (0, st, a)
          | Some off \<Rightarrow> do {
              (st, a) \<leftarrow> body (drop off pkt) seq_gap st a;
              if h1 AND 0x80 \<noteq> 0 then rtp_direct_flush P st a else Some (0, st, a) } } })"

definition handle_rtp_h264_direct :: "'s port \<Rightarrow> u8 list \<Rightarrow> u8 list \<Rightarrow> h264_rtp_state \<Rightarrow> 's app \<Rightarrow>
    (int \<times> h264_rtp_state \<times> 's app) option" where
  "handle_rtp_h264_direct P spspps pkt st a = direct_packet P (direct_payload P spspps) pkt st a"

definition vop_at :: "u8 list \<Rightarrow> nat \<Rightarrow> bool" where
  "vop_at p i \<longleftrightarrow> p ! i = 0 \<and> p ! (i + 1) = 0 \<and> p ! (i + 2) = 1 \<and> p ! (i + 3) = 0xb6"

definition mpeg4_payload_has_i_vop :: "u8 list \<Rightarrow> bool" where
  "mpeg4_payload_has_i_vop p =
     (case find (vop_at p) [0..<length p - 4] of None \<Rightarrow> False | Some i \<Rightarrow> p ! (i + 4) AND 0xc0 = 0)"

definition mpeg4_payload_has_vop :: "u8 list \<Rightarrow> bool" where
  "mpeg4_payload_has_vop p = list_ex (vop_at p) [0..<length p - 3]"

definition mpeg4_payload :: "'s port \<Rightarrow> u8 list \<Rightarrow> bool \<Rightarrow> h264_rtp_state \<Rightarrow> 's app \<Rightarrow> (h264_rtp_state \<times> 's app) option" where
  "mpeg4_payload P p seq_gap st a =
     (let st = st\<lparr>logs := logs st + 1\<rparr>;
          st = (if mpeg4_payload_has_i_vop p
                then (if need_idr st then st\<lparr>resync_logs := resync_logs st + 1\<rparr> else st)\<lparr>au_has_idr := True, need_idr := False\<rparr>
                else st)
      in if need_idr st \<and> mpeg4_payload_has_vop p then Some (st, a)
         else do { (_, st, a) \<leftarrow> rtp_direct_append P p st a; Some (st, a) })"

definition handle_rtp_mpeg4_direct :: "'s port \<Rightarrow> u8 list \<Rightarrow> h264_rtp_state \<Rightarrow> 's app \<Rightarrow> (int \<times> h264_rtp_state \<times> 's app) option" where
  "handle_rtp_mpeg4_direct P pkt st a = direct_packet P (mpeg4_payload P) pkt st a"

text \<open>The datagrams of one call; \<open>k\<close> counts the ones that are left of 256.\<close>

fun feed_direct_loop :: "'s port \<Rightarrow> int \<Rightarrow> u8 list \<Rightarrow> nat \<Rightarrow> int \<Rightarrow> h264_rtp_state \<Rightarrow> 's app \<Rightarrow> (int \<times> h264_rtp_state \<times> 's app) option" where
  "feed_direct_loop P codec spspps 0 committed st a = Some (if 0 < committed then committed else -1, st, a)"
| "feed_direct_loop P codec spspps (Suc k) committed st a =
     (case sock a of
        Data d # rs \<Rightarrow>
          (let pkt = take 65536 d; a = a\<lparr>sock := rs\<rparr>
           in if pkt = [] then Some (0, st, a)
              else do {
                (rc, st, a) \<leftarrow> (if codec = STD_AVC then handle_rtp_h264_direct P spspps pkt st a
                                else handle_rtp_mpeg4_direct P pkt st a);
                feed_direct_loop P codec spspps k (if 0 < rc then committed + rc else committed) st a })
      | Closed # rs \<Rightarrow> Some (0, st, a)
      | NoData # rs \<Rightarrow> Some (if 0 < committed then committed else -1, st, a\<lparr>sock := rs\<rparr>)
      | [] \<Rightarrow> Some (if 0 < committed then committed else -1, st, a))"

definition rtp_feed_direct :: "'s port \<Rightarrow> int \<Rightarrow> u8 list \<Rightarrow> h264_rtp_state \<Rightarrow> 's app \<Rightarrow> (int \<times> h264_rtp_state \<times> 's app) option" where
  "rtp_feed_direct P codec spspps st a = feed_direct_loop P codec spspps 256 0 st a"

end
