(* ===== verification/Stream_Queue.thy ===== *)
theory Stream_Queue
  imports Stream_Ring
begin

unbundle bit_operations_syntax

text \<open>
  The ring as a queue. What the application relies on when it calls the library is the locale
  \<open>stream_port\<close>; the library's calls are an instance of it (\<open>dec\<close>). Every way of filling the
  ring appends to the bytes that the processor has not read yet, and touches none of them.
\<close>

section \<open>Bytes in the ring\<close>

abbreviation (input) ring_size :: nat where "ring_size \<equiv> 1048576"

definition unread :: "u32 \<Rightarrow> u32 \<Rightarrow> (nat \<Rightarrow> u8) \<Rightarrow> u32 \<Rightarrow> u32 \<Rightarrow> u8 list" where
  "unread start fin m rd wr = map (\<lambda>k. m ((unat rd - unat start + k) mod ring_size)) [0..<ring_fill start fin rd wr]"

text \<open>The bytes from offset \<open>off\<close> on, around the end.\<close>

definition around :: "nat \<Rightarrow> nat \<Rightarrow> nat" where
  "around off i = (i + ring_size - off) mod ring_size"

definition placed :: "nat \<Rightarrow> u8 list \<Rightarrow> (nat \<Rightarrow> u8) \<Rightarrow> (nat \<Rightarrow> u8) \<Rightarrow> bool" where
  "placed off p m m' \<longleftrightarrow> (\<forall>i<ring_size. m' i = (if around off i < length p then p ! around off i else m i))"

lemma ring_mod: "x < 2 * ring_size \<Longrightarrow> x mod ring_size = (if x < ring_size then x else x - ring_size)"
  by (simp add: le_mod_geq)

lemma around_less: "off < ring_size \<Longrightarrow> i < ring_size \<Longrightarrow> around off i = (if off \<le> i then i - off else i + ring_size - off)"
  by (simp add: around_def ring_mod)

lemma ring_copy_Nil: "ring_copy off [] = Some"
  by (rule ext) (simp add: ring_copy.simps)

lemma mem_put_Nil: "off < ring_size \<Longrightarrow> mem_put off [] m = Some m"
  by (auto simp: mem_put_def fun_eq_iff)

lemma mem_put_placed:
  "off < ring_size \<Longrightarrow> off + length p \<le> ring_size \<Longrightarrow> \<exists>m'. mem_put off p m = Some m' \<and> placed off p m m'"
  by (auto simp: mem_put_def placed_def around_less)

lemma ring_copy_placed:
  assumes "off < ring_size" "length p \<le> ring_size"
  shows "\<exists>m'. ring_copy (int off) p m = Some m' \<and> placed off p m m'"
proof (cases "p = []")
  case True
  then show ?thesis by (simp add: ring_copy.simps placed_def)
next
  case False
  show ?thesis
  proof (cases "off + length p \<le> ring_size")
    case True
    have "nat (min (1048576 - int off) (int (length p))) = length p" using True by simp
    then have "ring_copy (int off) p m = mem_put off p m"
      using assms False by (simp add: ring_copy.simps[of "int off"] ring_copy_Nil)
    then show ?thesis using True assms mem_put_placed by simp
  next
    case split: False
    define c where "c = ring_size - off"
    have c: "nat (min (1048576 - int off) (int (length p))) = c" "c < length p" "0 < c" "off + c = ring_size"
      using split assms by (auto simp: c_def)
    obtain m1 where m1: "mem_put off (take c p) m = Some m1"
      "\<And>i. i < ring_size \<Longrightarrow> m1 i = (if off \<le> i then p ! (i - off) else m i)"
      using c by (auto simp: mem_put_def)
    have "nat (min 1048576 (int (length p - c))) = length p - c" using assms by auto
    then have "ring_copy 0 (drop c p) m1 = mem_put 0 (drop c p) m1"
      using c by (simp add: ring_copy.simps[of 0] ring_copy_Nil)
    moreover obtain m2 where m2: "mem_put 0 (drop c p) m1 = Some m2"
      "\<And>i. m2 i = (if i < length p - c then p ! (c + i) else m1 i)"
      using assms c by (auto simp: mem_put_def add.commute)
    ultimately have "ring_copy (int off) p m = Some m2"
      using assms False c m1(1) by (simp add: ring_copy.simps[of "int off"])
    moreover have "placed off p m m2"
      unfolding placed_def using m1(2) m2(2) c(2-) assms split by (auto simp: around_less c_def add.commute)
    ultimately show ?thesis by blast
  qed
qed

text \<open>Where the unread bytes lie, counted from the write pointer.\<close>

lemma unread_distance:
  assumes "in_ring start fin rd" "in_ring start fin wr" "unat fin = unat start + ring_size"
  defines "r \<equiv> unat rd - unat start" and "w \<equiv> unat wr - unat start" and "f \<equiv> ring_fill start fin rd wr"
  shows "k < f \<Longrightarrow> around w ((r + k) mod ring_size) = ring_size - (f - k)"
    "f + j < ring_size \<Longrightarrow> around w ((r + (f + j)) mod ring_size) = j"
proof -
  have b: "r < ring_size" "w < ring_size" and f: "f = (if r \<le> w then w - r else ring_size - (r - w))"
    using assms(1-3) by (auto simp: r_def w_def f_def in_ring_nat ring_fill_nat)
  show "k < f \<Longrightarrow> around w ((r + k) mod ring_size) = ring_size - (f - k)"
    using b f by (cases "r \<le> w"; cases "r + k < ring_size") (auto simp: ring_mod around_less)
  show "f + j < ring_size \<Longrightarrow> around w ((r + (f + j)) mod ring_size) = j"
    using b f by (cases "r \<le> w"; cases "r + (f + j) < ring_size") (auto simp: ring_mod around_less)
qed

lemma unread_kept:
  assumes "in_ring start fin rd" "in_ring start fin wr" "unat fin = unat start + ring_size"
    and "\<And>i. i < ring_size \<Longrightarrow> ring_size - ring_fill start fin rd wr \<le> around (unat wr - unat start) i \<Longrightarrow> m' i = m i"
  shows "unread start fin m' rd wr = unread start fin m rd wr"
  unfolding unread_def using unread_distance(1)[OF assms(1-3)] by (auto intro!: assms(4))

lemma unread_placed:
  assumes "in_ring start fin rd" "in_ring start fin wr" "in_ring start fin wr'" "unat fin = unat start + ring_size"
    and "ring_fill start fin rd wr' = ring_fill start fin rd wr + length p" "placed (unat wr - unat start) p m m'"
  shows "unread start fin m' rd wr' = unread start fin m rd wr @ p"
proof -
  define f where "f = ring_fill start fin rd wr"
  have "ring_fill start fin rd wr' < ring_size" using assms(1,3,4) by (auto simp: in_ring_nat ring_fill_nat)
  then have sum: "f + length p < ring_size" using assms(5) by (simp add: f_def)
  note at = assms(6)[unfolded placed_def, rule_format]
  have old: "unread start fin m' rd wr = unread start fin m rd wr"
  proof (rule unread_kept[OF assms(1,2,4)])
    fix i assume i: "i < ring_size" "ring_size - ring_fill start fin rd wr \<le> around (unat wr - unat start) i"
    then have "\<not> around (unat wr - unat start) i < length p" using sum f_def by linarith
    then show "m' i = m i" using at[OF i(1)] by simp
  qed
  have new: "m' ((unat rd - unat start + (f + j)) mod ring_size) = p ! j" if "j < length p" for j
  proof -
    have "around (unat wr - unat start) ((unat rd - unat start + (f + j)) mod ring_size) = j"
      using unread_distance(2)[OF assms(1,2,4), of j, folded f_def] sum that by linarith
    moreover have "(unat rd - unat start + (f + j)) mod ring_size < ring_size" by (rule mod_less_divisor) simp
    ultimately show ?thesis using at that by metis
  qed
  have "[0..<f + length p] = [0..<f] @ map (\<lambda>j. f + j) [0..<length p]"
    by (rule nth_equalityI) (auto simp: nth_append)
  then have "unread start fin m' rd wr' = unread start fin m' rd wr @ map (\<lambda>j. m' ((unat rd - unat start + (f + j)) mod ring_size)) [0..<length p]"
    unfolding unread_def assms(5) f_def[symmetric] by (simp only: map_append map_map comp_def)
  also have "map (\<lambda>j. m' ((unat rd - unat start + (f + j)) mod ring_size)) [0..<length p] = p"
    by (rule nth_equalityI) (simp_all add: new)
  finally show ?thesis unfolding old .
qed

lemma around_shift:
  assumes "w < ring_size" "n < ring_size" "i < ring_size"
  shows "around ((w + n) mod ring_size) i = (if n \<le> around w i then around w i - n else around w i + ring_size - n)"
  using assms by (cases "w + n < ring_size"; cases "w \<le> i") (auto simp: ring_mod around_less)

text \<open>What the socket still has to offer.\<close>

fun offered :: "rx list \<Rightarrow> u8 list" where
  "offered [] = []"
| "offered (Data d # rs) = d @ offered rs"
| "offered (Closed # rs) = offered rs"
| "offered (NoData # rs) = offered rs"

section \<open>What the application relies on\<close>

locale stream_port =
  fixes P :: "'s port" and start fin :: u32 and ready :: "nat \<Rightarrow> 's \<Rightarrow> bool" and wrp :: "'s \<Rightarrow> u32"
  assumes weaken: "ready u s \<Longrightarrow> u \<le> v \<Longrightarrow> ready v s"
    and size: "ready u s \<Longrightarrow> unat fin = unat start + ring_size \<and> in_ring start fin (wrp s)"
    and get: "ready u s \<Longrightarrow> \<exists>rd s'. get_buffer P s =
        Some ((RETCODE_SUCCESS, Some (rd, wrp s, ring_room start fin rd (wrp s))), s') \<and>
      in_ring start fin rd \<and> ring_fill start fin rd (wrp s) \<le> u \<and> ready u s' \<and> wrp s' = wrp s"
    and update: "ready u s \<Longrightarrow> 0 < n \<Longrightarrow> n + u < ring_size \<Longrightarrow>
      \<exists>s'. update_buffer P (of_nat n) s = Some (RETCODE_SUCCESS, s') \<and> ready (u + n) s' \<and>
        (\<forall>rd. in_ring start fin rd \<and> ring_fill start fin rd (wrp s) \<le> u \<longrightarrow>
           ring_fill start fin rd (wrp s') = ring_fill start fin rd (wrp s) + n)"
begin

text \<open>The queue as the processor sees it from \<open>rd\<close>.\<close>

definition queue :: "'s app \<Rightarrow> u32 \<Rightarrow> u8 list" where
  "queue a rd = unread start fin (bs_mem a) rd (wrp (lib a))"

definition app_ready :: "nat \<Rightarrow> 's app \<Rightarrow> bool" where
  "app_ready u a \<longleftrightarrow> ready u (lib a) \<and> bs_phy a = start"

definition appended :: "nat \<Rightarrow> 's app \<Rightarrow> u8 list \<Rightarrow> 's app \<Rightarrow> bool" where
  "appended u a p a' \<longleftrightarrow> app_ready (u + length p) a' \<and>
     (\<forall>rd. in_ring start fin rd \<and> ring_fill start fin rd (wrp (lib a)) \<le> u \<longrightarrow> queue a' rd = queue a rd @ p)"

lemma offset:
  assumes "app_ready u a" "wrp s = wrp (lib a)"
  shows "sint (wrp s - bs_phy a) = int (unat (wrp (lib a)) - unat start)" "unat (wrp (lib a)) - unat start < ring_size"
proof -
  have r: "unat fin = unat start + ring_size" "in_ring start fin (wrp (lib a))" using size assms(1) by (auto simp: app_ready_def)
  then have u: "unat (wrp s - bs_phy a) = unat (wrp (lib a)) - unat start"
    using assms by (simp add: unat_minus in_ring_nat app_ready_def)
  show l: "unat (wrp (lib a)) - unat start < ring_size" using r by (auto simp: in_ring_nat)
  then have "unat (wrp s - bs_phy a) < 2 ^ 31" using u by simp
  from sint_unat[OF this] show "sint (wrp s - bs_phy a) = int (unat (wrp (lib a)) - unat start)" unfolding u .
qed

lemma room:
  assumes "ready u s" "in_ring start fin rd" "ring_fill start fin rd (wrp s) \<le> u"
  shows "sint (ring_room start fin rd (wrp s)) = int (ring_size - 1 - ring_fill start fin rd (wrp s))"
    "unat (ring_room start fin rd (wrp s)) = ring_size - 1 - ring_fill start fin rd (wrp s)"
proof -
  have r: "unat fin = unat start + ring_size" "in_ring start fin (wrp s)" using size assms(1) by auto
  show u: "unat (ring_room start fin rd (wrp s)) = ring_size - 1 - ring_fill start fin rd (wrp s)"
    using ring_room_fill[OF assms(2) r(2)] r(1) by simp
  then have "unat (ring_room start fin rd (wrp s)) < 2 ^ 31" by simp
  from sint_unat[OF this] show "sint (ring_room start fin rd (wrp s)) = int (ring_size - 1 - ring_fill start fin rd (wrp s))" unfolding u .
qed

text \<open>Placing bytes at the write pointer and then advancing it appends them.\<close>

lemma commit:
  assumes "app_ready u a" "p \<noteq> []" "length p + u < ring_size" "placed (unat (wrp (lib a)) - unat start) p (bs_mem a) m"
  shows "\<exists>s'. update_buffer P (of_nat (length p)) (lib a) = Some (RETCODE_SUCCESS, s') \<and>
    appended u a p (a\<lparr>bs_mem := m, lib := s'\<rparr>)"
proof -
  have r: "ready u (lib a)" "bs_phy a = start" using assms(1) by (simp_all add: app_ready_def)
  obtain s' where s': "update_buffer P (of_nat (length p)) (lib a) = Some (RETCODE_SUCCESS, s')" "ready (u + length p) s'"
    "\<And>rd. in_ring start fin rd \<Longrightarrow> ring_fill start fin rd (wrp (lib a)) \<le> u \<Longrightarrow>
       ring_fill start fin rd (wrp s') = ring_fill start fin rd (wrp (lib a)) + length p"
    using update[OF r(1), of "length p"] assms(2,3) by auto
  have "queue (a\<lparr>bs_mem := m, lib := s'\<rparr>) rd = queue a rd @ p"
    if "in_ring start fin rd" "ring_fill start fin rd (wrp (lib a)) \<le> u" for rd
    using unread_placed[OF that(1) _ _ _ s'(3)[OF that] assms(4)] size[OF r(1)] size[OF s'(2)] by (simp add: queue_def)
  then show ?thesis using s'(1,2) r(2) by (auto simp: appended_def app_ready_def)
qed

lemma ring_write:
  assumes "app_ready u a" "p \<noteq> []" "length p + u < ring_size"
  shows "\<exists>a'. bs_ring_write P p a = Some (int (length p), a') \<and> appended u a p a' \<and> sock a' = sock a"
proof -
  obtain rd s1 where g: "get_buffer P (lib a) = Some ((RETCODE_SUCCESS, Some (rd, wrp (lib a), ring_room start fin rd (wrp (lib a)))), s1)"
    "in_ring start fin rd" "ring_fill start fin rd (wrp (lib a)) \<le> u" "ready u s1" "wrp s1 = wrp (lib a)"
    using get assms(1) unfolding app_ready_def by blast
  have sp: "\<not> sint (ring_room start fin rd (wrp (lib a))) < int (length p)"
    using room(1)[OF _ g(2,3)] assms(1,3) g(3) by (simp add: app_ready_def)
  define a1 where "a1 = a\<lparr>lib := s1\<rparr>"
  have a1: "app_ready u a1" "wrp (lib a1) = wrp (lib a)" "bs_mem a1 = bs_mem a" using assms(1) g by (simp_all add: a1_def app_ready_def)
  obtain m where m: "ring_copy (sint (wrp (lib a) - bs_phy a)) p (bs_mem a) = Some m" "placed (unat (wrp (lib a1)) - unat start) p (bs_mem a1) m"
    using ring_copy_placed[of "unat (wrp (lib a)) - unat start" p "bs_mem a"] offset[OF assms(1) refl] assms(3) a1 by auto
  obtain s' where s': "update_buffer P (of_nat (length p)) s1 = Some (RETCODE_SUCCESS, s')" "appended u a1 p (a1\<lparr>bs_mem := m, lib := s'\<rparr>)"
    using commit[OF a1(1) assms(2,3) m(2)] by (auto simp: a1_def)
  have "bs_ring_write P p a = Some (int (length p), a1\<lparr>bs_mem := m, lib := s'\<rparr>)"
    using assms(2) sp by (simp add: bs_ring_write_def g(1) m(1) s'(1) Let_def a1_def)
  moreover have "appended u a p (a1\<lparr>bs_mem := m, lib := s'\<rparr>)" using s'(2) a1 by (simp add: appended_def queue_def)
  ultimately show ?thesis by (simp add: a1_def)
qed

lemma feed_queue:
  assumes "app_ready u a" "32768 + u < ring_size"
  shows "\<exists>n a' bs. feed P block a = Some (n, a') \<and>
    (n \<le> 0 \<and> bs = [] \<and> app_ready u a' \<and> wrp (lib a') = wrp (lib a) \<and> (\<forall>rd. queue a' rd = queue a rd) \<or>
     0 < n \<and> n = int (length bs) \<and> appended u a bs a') \<and>
    length bs \<le> 32768 \<and> offered (sock a) = bs @ offered (sock a')"
proof -
  obtain rd s1 where g: "get_buffer P (lib a) = Some ((RETCODE_SUCCESS, Some (rd, wrp (lib a), ring_room start fin rd (wrp (lib a)))), s1)"
    "in_ring start fin rd" "ring_fill start fin rd (wrp (lib a)) \<le> u" "ready u s1" "wrp s1 = wrp (lib a)"
    using get assms(1) unfolding app_ready_def by blast
  define w where "w = unat (wrp (lib a)) - unat start"
  let ?room = "ring_room start fin rd (wrp (lib a))"
  have rm: "sint ?room = int (ring_size - 1 - ring_fill start fin rd (wrp (lib a)))" "\<not> ?room < 512"
    using room[OF _ g(2,3)] assms g(3) by (auto simp: app_ready_def word_less_nat_alt)
  note off = offset[OF assms(1) refl, folded w_def]
  define a1 where "a1 = a\<lparr>lib := s1\<rparr>"
  have a1: "app_ready u a1" "wrp (lib a1) = wrp (lib a)" "bs_mem a1 = bs_mem a" "sock a1 = sock a"
    using assms(1) g by (simp_all add: a1_def app_ready_def)
  define c where "c = min (min (1048576 - int w) (sint ?room)) 32768"
  have c: "0 < c" "w + nat c \<le> ring_size" "nat c \<le> 32768" using off(2) rm(1) assms(2) g(3) by (auto simp: c_def)
  have same: "queue (a1\<lparr>sock := x\<rparr>) rd = queue a rd" "app_ready u (a1\<lparr>sock := x\<rparr>)" "wrp (lib (a1\<lparr>sock := x\<rparr>)) = wrp (lib a)" for x rd
    using a1 by (simp_all add: queue_def app_ready_def)
  have eq: "feed P block a =
    (if block \<and> (case sock a of NoData # _ \<Rightarrow> True | [] \<Rightarrow> True | _ \<Rightarrow> False) then Some (-2, a1\<lparr>sock := tl (sock a)\<rparr>)
     else let (n, bs, rest) = recv (nat c) (sock a); a = a1\<lparr>sock := rest\<rparr>
          in do { m \<leftarrow> mem_put w bs (bs_mem a);
                  if 0 < n then do { (_, s) \<leftarrow> update_buffer P (of_int n) (lib a); Some (n, a\<lparr>bs_mem := m, lib := s\<rparr>) }
                  else if n = 0 then Some (0, a\<lparr>bs_mem := m\<rparr>) else Some (-1, a\<lparr>bs_mem := m\<rparr>) })"
  proof -
    have ch: "(if 32768 < (if sint ?room < 1048576 - int w then sint ?room else 1048576 - int w) then 32768
        else (if sint ?room < 1048576 - int w then sint ?room else 1048576 - int w)) = c"
      by (auto simp: c_def)
    show ?thesis
      using rm(2) c(1) a1(4)
      by (simp add: feed_def g(1) off(1) ch Let_def a1_def split del: if_split cong: if_cong)
  qed
  consider (empty) "sock a = [] \<or> (\<exists>rs. sock a = NoData # rs)" | (closed) rs where "sock a = Closed # rs"
    | (data) d rs where "sock a = Data d # rs"
    by (cases "sock a"; cases "hd (sock a)") auto
  then show ?thesis
  proof cases
    case empty
    then have "feed P block a = Some (if block then -2 else -1, a1\<lparr>sock := tl (sock a)\<rparr>)"
      unfolding eq by (auto simp: recv_def Let_def mem_put_Nil[OF off(2)])
    moreover have "offered (tl (sock a)) = offered (sock a)" using empty by auto
    ultimately show ?thesis using same
      by (intro exI[of _ "if block then -2 else -1"] exI[of _ "a1\<lparr>sock := tl (sock a)\<rparr>"] exI[of _ "[]"]) simp
  next
    case closed
    then have "feed P block a = Some (0, a1\<lparr>sock := sock a\<rparr>)"
      unfolding eq by (auto simp: recv_def Let_def mem_put_Nil[OF off(2)])
    then show ?thesis using same by (intro exI[of _ 0] exI[of _ "a1\<lparr>sock := sock a\<rparr>"] exI[of _ "[]"]) simp
  next
    case data
    define bs where "bs = take (nat c) d"
    define a2 where "a2 = a1\<lparr>sock := if nat c < length d then Data (drop (nat c) d) # rs else rs\<rparr>"
    have a2: "app_ready u a2" "wrp (lib a2) = wrp (lib a)" "\<And>rd. queue a2 rd = queue a rd" "lib a2 = s1"
      using same a1 by (simp_all add: a2_def, simp add: a1_def)
    have mem2: "bs_mem a2 = bs_mem a1" by (simp add: a2_def)
    have len: "length bs \<le> nat c" by (simp add: bs_def)
    obtain m where m: "mem_put w bs (bs_mem a2) = Some m" "placed w bs (bs_mem a2) m"
      using mem_put_placed[OF off(2), of bs "bs_mem a2"] c(2) len by auto
    have f: "feed P block a = (if bs \<noteq> [] then do { (_, s) \<leftarrow> update_buffer P (of_nat (length bs)) s1; Some (int (length bs), a2\<lparr>bs_mem := m, lib := s\<rparr>) }
        else Some (0, a2\<lparr>bs_mem := m\<rparr>))"
      unfolding eq using data m(1)[unfolded mem2] by (auto simp: recv_def bs_def[symmetric] a2_def[symmetric] a2(4) Let_def)
    show ?thesis
    proof (cases "bs = []")
      case True
      have "m = bs_mem a2" using m(1) True mem_put_Nil[OF off(2)] by simp
      then have "a2\<lparr>bs_mem := m\<rparr> = a2" by simp
      moreover have "d = []" using True c(1) by (simp add: bs_def)
      ultimately show ?thesis using f True a2 data c(1) by (intro exI[of _ 0] exI[of _ a2] exI[of _ "[]"]) (simp add: a2_def)
    next
      case False
      have "length bs + u < ring_size" using len c(3) assms(2) by linarith
      from commit[OF a2(1) False this m(2)[unfolded w_def a2(2)[symmetric]]] obtain s' where
        s': "update_buffer P (of_nat (length bs)) s1 = Some (RETCODE_SUCCESS, s')" "appended u a2 bs (a2\<lparr>bs_mem := m, lib := s'\<rparr>)"
        using a2(4) by auto
      then have ap: "appended u a bs (a2\<lparr>bs_mem := m, lib := s'\<rparr>)" using a2 by (simp add: appended_def)
      have "offered (sock a) = bs @ offered (sock (a2\<lparr>bs_mem := m, lib := s'\<rparr>))"
        using data by (simp add: a2_def bs_def)
      moreover have "feed P block a = Some (int (length bs), a2\<lparr>bs_mem := m, lib := s'\<rparr>)" using f False s'(1) by simp
      ultimately show ?thesis using False ap len c(3)
        by (intro exI[of _ "int (length bs)"] exI[of _ "a2\<lparr>bs_mem := m, lib := s'\<rparr>"] exI[of _ bs]) simp
    qed
  qed
qed

text \<open>Reading from the socket loses nothing.\<close>

definition conserved :: "nat \<Rightarrow> 's app \<Rightarrow> 's app \<Rightarrow> bool" where
  "conserved u a a' \<longleftrightarrow> (\<forall>rd. in_ring start fin rd \<and> ring_fill start fin rd (wrp (lib a)) \<le> u \<longrightarrow>
     queue a' rd @ offered (sock a') = queue a rd @ offered (sock a))"

lemma feed_conserves:
  assumes "app_ready u a" "32768 + u < ring_size"
  shows "\<exists>n a'. feed P block a = Some (n, a') \<and> app_ready (u + 32768) a' \<and> conserved u a a' \<and>
    (\<forall>rd. in_ring start fin rd \<and> ring_fill start fin rd (wrp (lib a)) \<le> u \<longrightarrow> ring_fill start fin rd (wrp (lib a')) \<le> u + 32768)"
proof -
  obtain n a' bs where f: "feed P block a = Some (n, a')" "length bs \<le> 32768" "offered (sock a) = bs @ offered (sock a')"
    "n \<le> 0 \<and> bs = [] \<and> app_ready u a' \<and> wrp (lib a') = wrp (lib a) \<and> (\<forall>rd. queue a' rd = queue a rd) \<or>
     0 < n \<and> n = int (length bs) \<and> appended u a bs a'"
    using feed_queue[OF assms] by blast
  have len: "length (queue b rd) = ring_fill start fin rd (wrp (lib b))" for b rd by (simp add: queue_def unread_def)
  have q: "queue a' rd = queue a rd @ bs" if "in_ring start fin rd" "ring_fill start fin rd (wrp (lib a)) \<le> u" for rd
    using f(4) that by (auto simp: appended_def)
  have "app_ready (u + length bs) a'" using f(4) by (auto simp: appended_def)
  then have "app_ready (u + 32768) a'" using f(2) weaken[of "u + length bs" "lib a'" "u + 32768"] by (simp add: app_ready_def)
  moreover have "ring_fill start fin rd (wrp (lib a')) \<le> u + 32768"
    if "in_ring start fin rd" "ring_fill start fin rd (wrp (lib a)) \<le> u" for rd
    using q[OF that] len[of a' rd] len[of a rd] that(2) f(2) by simp
  ultimately show ?thesis using f(1,3) q by (auto simp: conserved_def)
qed

lemma used_same:
  assumes "app_ready u a"
  shows "\<exists>n s. bitstream_used P a = Some (n, a\<lparr>lib := s\<rparr>) \<and> app_ready u (a\<lparr>lib := s\<rparr>) \<and> wrp s = wrp (lib a)"
proof -
  obtain rd s1 where g: "get_buffer P (lib a) = Some ((RETCODE_SUCCESS, Some (rd, wrp (lib a), ring_room start fin rd (wrp (lib a)))), s1)"
    "ready u s1" "wrp s1 = wrp (lib a)"
    using get assms unfolding app_ready_def by blast
  then show ?thesis using assms
    by (intro exI[of _ "STREAM_BUF_SIZE - sint (ring_room start fin rd (wrp (lib a))) - 1"] exI[of _ s1])
      (simp add: bitstream_used_def Let_def app_ready_def)
qed

lemma watermark_conserves:
  assumes "app_ready u a" "32768 * k + u < ring_size"
  shows "\<exists>n a'. watermark_loop P target k acc a = Some (n, a') \<and> app_ready (u + 32768 * k) a' \<and> conserved u a a'"
  using assms
proof (induction k arbitrary: acc a u)
  case 0
  then show ?case by (simp add: conserved_def)
next
  case (Suc k)
  obtain n s where used: "bitstream_used P a = Some (n, a\<lparr>lib := s\<rparr>)" "app_ready u (a\<lparr>lib := s\<rparr>)" "wrp s = wrp (lib a)"
    using used_same[OF Suc.prems(1)] by blast
  let ?a = "a\<lparr>lib := s\<rparr>"
  have same: "conserved u a ?a" "conserved u ?a b \<Longrightarrow> conserved u a b" for b
    using used(3) by (simp_all add: conserved_def queue_def)
  have up: "app_ready v b \<Longrightarrow> v \<le> u + 32768 * Suc k \<Longrightarrow> app_ready (u + 32768 * Suc k) b" for v b
    using weaken by (auto simp: app_ready_def)
  obtain m b where f: "feed P False ?a = Some (m, b)" "app_ready (u + 32768) b" "conserved u ?a b"
    "\<And>rd. in_ring start fin rd \<Longrightarrow> ring_fill start fin rd (wrp s) \<le> u \<Longrightarrow> ring_fill start fin rd (wrp (lib b)) \<le> u + 32768"
    using feed_conserves[OF used(2), of False] Suc.prems(2) by auto
  obtain n2 a2 where r: "watermark_loop P target k (acc + m) b = Some (n2, a2)" "app_ready (u + 32768 + 32768 * k) a2" "conserved (u + 32768) b a2"
    using Suc.IH[OF f(2), of "acc + m"] Suc.prems(2) by auto
  have tr: "conserved u a a2" using same(2)[OF f(3)] r(3) f(4) used(3) by (simp add: conserved_def)
  show ?case
    using used(1) f(1) r(1) same f(3) tr up[OF used(2)] up[OF f(2)] r(2) by (simp add: add.assoc)
qed

text \<open>Direct input: the bytes of the access unit lie behind the write pointer.\<close>

definition behind :: "h264_rtp_state \<Rightarrow> 's app \<Rightarrow> bool" where
  "behind st a \<longleftrightarrow> (\<forall>i<ring_size. around (unat (wrp (lib a)) - unat start) i < length (au st) \<longrightarrow>
     bs_mem a i = au st ! around (unat (wrp (lib a)) - unat start) i)"

lemma direct_append:
  assumes "app_ready u a" "behind st a" "p \<noteq> []" "length (au st) + length p + 513 + u < ring_size"
  shows "\<exists>a'. rtp_direct_append P p st a = Some (0, st\<lparr>au := au st @ p\<rparr>, a') \<and> app_ready u a' \<and>
    behind (st\<lparr>au := au st @ p\<rparr>) a' \<and> wrp (lib a') = wrp (lib a) \<and> sock a' = sock a \<and>
    (\<forall>rd. in_ring start fin rd \<and> ring_fill start fin rd (wrp (lib a)) \<le> u \<longrightarrow> queue a' rd = queue a rd)"
proof -
  define w where "w = unat (wrp (lib a)) - unat start"
  note off = offset[OF assms(1) refl, folded w_def]
  obtain rd s1 where g: "get_buffer P (lib a) = Some ((RETCODE_SUCCESS, Some (rd, wrp (lib a), ring_room start fin rd (wrp (lib a)))), s1)"
    "in_ring start fin rd" "ring_fill start fin rd (wrp (lib a)) \<le> u" "ready u s1" "wrp s1 = wrp (lib a)"
    using get assms(1) unfolding app_ready_def by blast
  have sp: "\<not> sint (ring_room start fin rd (wrp (lib a))) \<le> int (length (au st)) + int (length p) + 512"
    using room(1)[OF _ g(2,3)] assms(1,4) g(3) by (simp add: app_ready_def)
  define pos where "pos = (w + length (au st)) mod ring_size"
  have pos: "c_rem (int w + int (length (au st))) 1048576 = int pos" "pos < ring_size"
    by (simp_all add: c_rem_def pos_def zmod_int)
  define c where "c = min (ring_size - pos) (length p)"
  have c': "nat (min (STREAM_BUF_SIZE - int pos) (int (length p))) = c" using pos(2) by (auto simp: c_def)
  have c: "nat (min (1048576 - int pos) (int (length p))) = c" "min (1048576 - int pos) (int (length p)) < int (length p) \<longleftrightarrow> c < length p"
    "pos + c \<le> ring_size" "c \<le> length p" "c < length p \<Longrightarrow> length p - c \<le> ring_size"
    using pos(2) assms(4) by (auto simp: c_def)
  have cp: "ring_copy (int pos) p m = do { m \<leftarrow> mem_put pos (take c p) m; if c < length p then mem_put 0 (drop c p) m else Some m }" for m
  proof -
    have "ring_copy 0 (drop c p) m = (if c < length p then mem_put 0 (drop c p) m else Some m)" for m
    proof (cases "c < length p")
      case True
      have "nat (min STREAM_BUF_SIZE (int (length (drop c p)))) = length (drop c p)" using c(5)[OF True] by auto
      then show ?thesis using True by (subst ring_copy.simps) (simp add: ring_copy_Nil)
    qed (simp add: ring_copy_Nil)
    then have "ring_copy 0 (drop c p) = (\<lambda>m. if c < length p then mem_put 0 (drop c p) m else Some m)" by (rule ext)
    then show ?thesis using assms(3) pos(2) by (subst ring_copy.simps) (simp only: c', simp)
  qed
  obtain m where m: "ring_copy (int pos) p (bs_mem a) = Some m" "placed pos p (bs_mem a) m"
    using ring_copy_placed[OF pos(2), of p] assms(4) by auto
  define a' where "a' = a\<lparr>lib := s1, bs_mem := m\<rparr>"
  obtain m1 where m1: "mem_put pos (take c p) (bs_mem a) = Some m1" "(if c < length p then mem_put 0 (drop c p) m1 else Some m1) = Some m"
    using m(1)[unfolded cp] by (auto simp: bind_eq_Some_conv)
  have "rtp_direct_append P p st a = Some (0, st\<lparr>au := au st @ p\<rparr>, a')"
    using assms(3) sp m1 by (cases "c < length p") (simp_all add: rtp_direct_append_def g(1) off(1) pos(1) Let_def c a'_def)
  moreover have "app_ready u a'" using assms(1) g(4) by (simp add: a'_def app_ready_def)
  moreover have wa: "wrp (lib a') = wrp (lib a)" using g(5) by (simp add: a'_def)
  moreover have sum: "length (au st) + length p < ring_size - u" using assms(4) by simp
  have m_at: "m i = (if length (au st) \<le> around w i \<and> around w i < length (au st) + length p
      then p ! (around w i - length (au st)) else bs_mem a i)" if "i < ring_size" for i
    using m(2)[unfolded placed_def, rule_format, OF that] around_shift[OF off(2) _ that, of "length (au st)"] sum
    by (auto simp: pos_def)
  have "behind (st\<lparr>au := au st @ p\<rparr>) a'"
    using assms(2) m_at unfolding behind_def wa w_def[symmetric] by (simp add: a'_def nth_append)
  moreover have "queue a' rd = queue a rd" if "in_ring start fin rd" "ring_fill start fin rd (wrp (lib a)) \<le> u" for rd
  proof -
    have "unread start fin m rd (wrp (lib a)) = unread start fin (bs_mem a) rd (wrp (lib a))"
      using size assms(1) m_at that(2) sum
      by (intro unread_kept[OF that(1)]) (auto simp: app_ready_def w_def[symmetric])
    then show ?thesis using wa by (simp add: queue_def a'_def)
  qed
  ultimately show ?thesis by (auto simp: a'_def)
qed

lemma direct_flush:
  assumes "app_ready u a" "behind st a" "au st \<noteq> []" "\<not> au_bad st" "length (au st) + u < ring_size"
  shows "\<exists>st' a'. rtp_direct_flush P st a = Some (int (length (au st)), st', a') \<and> appended u a (au st) a' \<and>
    au st' = [] \<and> need_idr st' = (need_idr st \<and> \<not> au_has_idr st)"
proof -
  have "placed (unat (wrp (lib a)) - unat start) (au st) (bs_mem a) (bs_mem a)"
    using assms(2) by (simp add: behind_def placed_def)
  then obtain s' where s': "update_buffer P (of_nat (length (au st))) (lib a) = Some (RETCODE_SUCCESS, s')"
    "appended u a (au st) (a\<lparr>bs_mem := bs_mem a, lib := s'\<rparr>)"
    using commit[OF assms(1,3,5)] by blast
  then show ?thesis using assms(3,4) by (auto simp: rtp_direct_flush_def Let_def rtp_direct_reset_def)
qed

end

section \<open>The library provides it\<close>

definition dec_wr :: "nat \<Rightarrow> dec_lib \<Rightarrow> u32" where
  "dec_wr i s = streamWrPtr (decInfo (the_inst s i))"

text \<open>The ring of instance \<open>i\<close> lies at \<open>start\<close>; the processor reports at most \<open>u\<close> bytes as unread.\<close>

definition dec_ready :: "io_env \<Rightarrow> nat \<Rightarrow> u32 \<Rightarrow> u32 \<Rightarrow> nat \<Rightarrow> dec_lib \<Rightarrow> bool" where
  "dec_ready e i start fin u s \<longleftrightarrow> ring_ready e i u s \<and> streamBufStartAddr (decInfo (the_inst s i)) = start \<and>
     streamBufEndAddr (decInfo (the_inst s i)) = fin \<and> unat fin = unat start + ring_size"

lemma ring_ready_weaken: "ring_ready e i u s \<Longrightarrow> u \<le> v \<Longrightarrow> ring_ready e i v s"
  unfolding ring_ready_def Let_def by (meson le_trans)

interpretation dec: stream_port "dec_port e (Slot i)" start fin "dec_ready e i start fin" "dec_wr i" for e i start fin
proof
  fix u s v assume "dec_ready e i start fin u s" "u \<le> v"
  then show "dec_ready e i start fin v s" by (auto simp: dec_ready_def intro: ring_ready_weaken)
next
  fix u s assume r: "dec_ready e i start fin u s"
  then show "unat fin = unat start + ring_size \<and> in_ring start fin (dec_wr i s)"
    by (auto simp: dec_ready_def ring_ready_def Let_def dec_wr_def)
  have rr: "ring_ready e i u s" "streamBufStartAddr (decInfo (the_inst s i)) = start" "streamBufEndAddr (decInfo (the_inst s i)) = fin"
    using r by (auto simp: dec_ready_def)
  obtain k m s' where g: "vpu_DecGetBitstreamBuffer e (Slot i) True s = Some ((RETCODE_SUCCESS,
      Some (vpu_read (ioctl_env e k) m (streamRdPtrRegAddr (decInfo (the_inst s i))), dec_wr i s,
        ring_room start fin (vpu_read (ioctl_env e k) m (streamRdPtrRegAddr (decInfo (the_inst s i)))) (dec_wr i s))), s')" "calm s s'"
    using ring_get[OF rr(1)] rr(2,3) by (auto simp: ret_def dec_wr_def)
  have "the_inst s' i = the_inst s i" using g(2) by (simp add: calm_def the_inst_def)
  then show "\<exists>rd s'. get_buffer (dec_port e (Slot i)) s =
        Some ((RETCODE_SUCCESS, Some (rd, dec_wr i s, ring_room start fin rd (dec_wr i s))), s') \<and>
      in_ring start fin rd \<and> ring_fill start fin rd (dec_wr i s) \<le> u \<and> dec_ready e i start fin u s' \<and> dec_wr i s' = dec_wr i s"
    using g r ring_ready_calm[OF rr(1) g(2)] by (auto simp: dec_port_def dec_ready_def dec_wr_def ring_ready_def Let_def)
next
  fix u s and n :: nat assume r: "dec_ready e i start fin u s" and n: "0 < n" "n + u < ring_size"
  have un: "unat (of_nat n :: u32) = n" "(of_nat n :: u32) \<noteq> 0"
    using n by (simp_all add: unsigned_of_nat take_bit_nat_eq_self word_unat_eq_iff)
  have rr: "ring_ready e i u s" "streamBufStartAddr (decInfo (the_inst s i)) = start" "streamBufEndAddr (decInfo (the_inst s i)) = fin"
    "unat fin - unat start = ring_size" "unat fin = unat start + ring_size"
    using r by (auto simp: dec_ready_def)
  from ring_update[OF rr(1) un(2)] obtain s' w where
    s': "vpu_DecUpdateBitstreamBuffer e (Slot i) (of_nat n) s = Some (RETCODE_SUCCESS, s')"
      "decInfo (the_inst s' i) = (decInfo (the_inst s i))\<lparr>streamWrPtr := w\<rparr>" "ring_ready e i (u + n) s'"
      "\<And>rd. in_ring start fin rd \<Longrightarrow> ring_fill start fin rd (dec_wr i s) \<le> u \<Longrightarrow>
         ring_fill start fin rd w = ring_fill start fin rd (dec_wr i s) + n"
    using n(2) unfolding rr(2,3,4) un(1) by (auto simp: ret_def dec_wr_def)
  then show "\<exists>s'. update_buffer (dec_port e (Slot i)) (of_nat n) s = Some (RETCODE_SUCCESS, s') \<and>
      dec_ready e i start fin (u + n) s' \<and>
      (\<forall>rd. in_ring start fin rd \<and> ring_fill start fin rd (dec_wr i s) \<le> u \<longrightarrow>
         ring_fill start fin rd (dec_wr i s') = ring_fill start fin rd (dec_wr i s) + n)"
    using rr by (auto simp: dec_port_def dec_ready_def dec_wr_def)
qed

section \<open>Properties\<close>

text \<open>
  C4. \<^verbatim>\<open>bs_ring_write\<close> on the decoder's ring: with room for the bytes, all of them are written and
  committed, across the end of the buffer; what the processor reads from any position it may have
  reached is what it would have read before, followed by exactly these bytes.
\<close>

theorem ring_write_appends:
  assumes "dec_ready e i start fin u (lib a)" "bs_phy a = start" "p \<noteq> []" "length p + u < 1048576"
  shows "\<exists>a'. bs_ring_write (dec_port e (Slot i)) p a = Some (int (length p), a') \<and>
    dec_ready e i start fin (u + length p) (lib a') \<and>
    (\<forall>rd. in_ring start fin rd \<and> ring_fill start fin rd (dec_wr i (lib a)) \<le> u \<longrightarrow>
       unread start fin (bs_mem a') rd (dec_wr i (lib a')) = unread start fin (bs_mem a) rd (dec_wr i (lib a)) @ p)"
proof -
  have "dec.app_ready start e i fin u a" using assms(1,2) by (simp add: dec.app_ready_def)
  from dec.ring_write[OF this assms(3,4)] show ?thesis by (auto simp: dec.app_ready_def dec.appended_def dec.queue_def)
qed

definition queue_info :: DecInfo where
  "queue_info = ring_info\<lparr>streamBufEndAddr := 0x101000, streamWrPtr := 0x100FFE\<rparr>"

definition queue_sample :: "dec_lib app" where
  "queue_sample = \<lparr>lib = dec_sample\<lparr>sem := (sem dec_sample)\<lparr>codecInstPool := (codecInstPool (sem dec_sample))
     [0 := (free_slot 0)\<lparr>inUse := True, codecMode := AVC_DEC, decInfo := queue_info\<rparr>]\<rparr>\<rparr>,
     bs_mem = \<lambda>_. 7, bs_phy = 0x1000, sock = [Data [1, 2, 3]]\<rparr>"

definition queue_io :: io_env where
  "queue_io = sample_io\<lparr>ioctl_env := \<lambda>_. idle_env\<lparr>vpu_read := \<lambda>_ _. 0x100FFC\<rparr>\<rparr>"

lemma queue_sample_ready:
  "dec_ready queue_io 0 0x1000 0x101000 2 (lib queue_sample)" "bs_phy queue_sample = 0x1000"
  "dec_wr 0 (lib queue_sample) = 0x100FFE" "bs_mem queue_sample = (\<lambda>_. 7)" "sock queue_sample = [Data [1, 2, 3]]"
proof -
  have inst: "the_inst (lib queue_sample) 0 = (free_slot 0)\<lparr>inUse := True, codecMode := AVC_DEC, decInfo := queue_info\<rparr>"
    by (simp add: queue_sample_def the_inst_def dec_sample_def)
  have d: "decInfo (the_inst (lib queue_sample) 0) = queue_info"
    by (simp add: inst free_slot_def zero_codec_def codec_inst.defs)
  have f: "filePlayEnable queue_info = 0" "streamBufStartAddr queue_info = 0x1000" "streamBufEndAddr queue_info = 0x101000"
    "streamWrPtr queue_info = 0x100FFE" "streamRdPtrRegAddr queue_info = 0x120" "streamWrPtrRegAddr queue_info = 0x124"
    "frameDisplayFlagRegAddr queue_info = 0x140"
    by (simp_all add: queue_info_def ring_info_def zero_dec_info_def)
  have h: "CheckDecInstanceValidity (system_rev (lib queue_sample)) (codecInstPool (sem (lib queue_sample))) (Slot 0) = RETCODE_SUCCESS"
    by (simp add: queue_sample_def dec_sample_def CheckDecInstanceValidity_def CheckInstanceValidity_def cpu_is_mx27_def mxc_cpu_def
        free_slot_def zero_codec_def codec_inst.defs)
  have p: "ptr_regs (instIndex (the_inst (lib queue_sample) 0)) = Some (0x120, 0x124, 0x140)"
    by (simp add: inst free_slot_def zero_codec_def codec_inst.defs ptr_regs_def)
  have o: "0 \<le> vpu_fd (lib queue_sample)" "length (codecInstPool (sem (lib queue_sample))) = 4"
    by (simp_all add: queue_sample_def dec_sample_def)
  have r: "vpu_read (ioctl_env queue_io k) m x = 0x100FFC" "copy_from_ok (ioctl_env queue_io k)" "copy_to_left (ioctl_env queue_io k) = 0"
    for k m x by (simp_all add: queue_io_def idle_env_def)
  show "dec_ready queue_io 0 0x1000 0x101000 2 (lib queue_sample)"
    unfolding dec_ready_def ring_ready_def Let_def d f r p h using o r by (simp add: in_ring_def ring_fill_def)
  show "bs_phy queue_sample = 0x1000" "dec_wr 0 (lib queue_sample) = 0x100FFE" "bs_mem queue_sample = (\<lambda>_. 7)"
    "sock queue_sample = [Data [1, 2, 3]]"
    using d f by (simp_all add: dec_wr_def queue_sample_def)
qed

lemma queue_sample_unread:
  "in_ring 0x1000 0x101000 0x100FFC" "ring_fill 0x1000 0x101000 0x100FFC (dec_wr 0 (lib queue_sample)) = 2"
  "unread 0x1000 0x101000 (bs_mem queue_sample) 0x100FFC (dec_wr 0 (lib queue_sample)) = [7, 7]"
proof -
  show "in_ring 0x1000 0x101000 0x100FFC" by (simp add: in_ring_def)
  show f: "ring_fill 0x1000 0x101000 0x100FFC (dec_wr 0 (lib queue_sample)) = 2"
    unfolding queue_sample_ready by (simp add: ring_fill_def)
  show "unread 0x1000 0x101000 (bs_mem queue_sample) 0x100FFC (dec_wr 0 (lib queue_sample)) = [7, 7]"
    unfolding unread_def f by (simp add: queue_sample_ready map_replicate_const numeral_2_eq_2)
qed

theorem ring_write_appends_witness:
  "\<exists>a'. bs_ring_write (dec_port queue_io (Slot 0)) [1, 2, 3] queue_sample = Some (3, a') \<and>
     unread 0x1000 0x101000 (bs_mem a') 0x100FFC (dec_wr 0 (lib a')) = [7, 7, 1, 2, 3]"
proof -
  obtain a' where a': "bs_ring_write (dec_port queue_io (Slot 0)) [1, 2, 3] queue_sample = Some (int (length [1, 2, 3 :: u8]), a')"
    "\<forall>rd. in_ring 0x1000 0x101000 rd \<and> ring_fill 0x1000 0x101000 rd (dec_wr 0 (lib queue_sample)) \<le> 2 \<longrightarrow>
       unread 0x1000 0x101000 (bs_mem a') rd (dec_wr 0 (lib a')) =
       unread 0x1000 0x101000 (bs_mem queue_sample) rd (dec_wr 0 (lib queue_sample)) @ [1, 2, 3]"
    using ring_write_appends[where p = "[1, 2, 3]", OF queue_sample_ready(1,2)] by auto
  then show ?thesis using a'(2) queue_sample_unread by simp
qed

text \<open>
  C11. Filling the ring from a TCP connection loses, duplicates and reorders nothing: after
  \<^verbatim>\<open>feed_until_watermark\<close>, the unread bytes of the ring followed by what the socket still has are
  what they were before, for every sequence of partial reads, empty reads and the end of the
  connection.
\<close>

theorem watermark_lossless:
  assumes "dec_ready e i start fin u (lib a)" "bs_phy a = start" "32768 * nat max_reads + u < 1048576"
  shows "\<exists>n a'. feed_until_watermark (dec_port e (Slot i)) target_used max_reads a = Some (n, a') \<and>
    dec_ready e i start fin (u + 32768 * nat max_reads) (lib a') \<and>
    (\<forall>rd. in_ring start fin rd \<and> ring_fill start fin rd (dec_wr i (lib a)) \<le> u \<longrightarrow>
       unread start fin (bs_mem a') rd (dec_wr i (lib a')) @ offered (sock a') =
       unread start fin (bs_mem a) rd (dec_wr i (lib a)) @ offered (sock a))"
proof -
  have "dec.app_ready start e i fin u a" using assms(1,2) by (simp add: dec.app_ready_def)
  from dec.watermark_conserves[OF this assms(3), of target_used 0] show ?thesis
    by (auto simp: dec.app_ready_def dec.conserved_def dec.queue_def feed_until_watermark_def)
qed

theorem watermark_lossless_witness:
  "\<exists>n a'. feed_until_watermark (dec_port queue_io (Slot 0)) 4096 8 queue_sample = Some (n, a') \<and>
     unread 0x1000 0x101000 (bs_mem a') 0x100FFC (dec_wr 0 (lib a')) @ offered (sock a') = [7, 7, 1, 2, 3]"
proof -
  obtain n a' where a': "feed_until_watermark (dec_port queue_io (Slot 0)) 4096 8 queue_sample = Some (n, a')"
    "\<forall>rd. in_ring 0x1000 0x101000 rd \<and> ring_fill 0x1000 0x101000 rd (dec_wr 0 (lib queue_sample)) \<le> 2 \<longrightarrow>
       unread 0x1000 0x101000 (bs_mem a') rd (dec_wr 0 (lib a')) @ offered (sock a') =
       unread 0x1000 0x101000 (bs_mem queue_sample) rd (dec_wr 0 (lib queue_sample)) @ offered (sock queue_sample)"
    using watermark_lossless[where max_reads = 8 and target_used = 4096, OF queue_sample_ready(1,2)] by auto
  then show ?thesis using a'(2) queue_sample_unread queue_sample_ready(5) by simp
qed

section \<open>Finding a random access point\<close>

text \<open>
  C37. \<^verbatim>\<open>find_resync_start\<close> for MPEG-4 is the last position in the drained bytes at which an intra
  coded picture starts, and \<open>-1\<close> exactly when there is none.
\<close>

theorem resync_last_i_vop:
  assumes "codec \<noteq> STD_AVC"
  shows "find_resync_start codec p =
    (let S = {i. i + 4 < length p \<and> i_vop_at p i} in if S = {} then -1 else int (Max S))"
proof -
  have "i_vop_back p n = (let S = {i. i < n \<and> i_vop_at p i} in if S = {} then -1 else int (Max S))" for n
  proof (induction n)
    case (Suc n)
    show ?case
    proof (cases "i_vop_at p n")
      case True
      then have "Max {i. i < Suc n \<and> i_vop_at p i} = n" by (intro Max_eqI) auto
      then show ?thesis using True by (auto simp: Let_def)
    next
      case False
      then have "{i. i < Suc n \<and> i_vop_at p i} = {i. i < n \<and> i_vop_at p i}" by (auto simp: less_Suc_eq)
      then show ?thesis using False Suc by simp
    qed
  qed simp
  moreover have "i < length p - 4 \<longleftrightarrow> i + 4 < length p" for i by linarith
  ultimately show ?thesis using assms by (simp add: find_resync_start_def)
qed

theorem resync_last_i_vop_witness: "find_resync_start STD_MPEG4 [0, 0, 1, 0xB6, 0x10, 0, 0, 1, 0xB6, 0x50, 9] = 0"
proof -
  let ?p = "[0, 0, 1, 0xB6, 0x10, 0, 0, 1, 0xB6, 0x50, 9] :: u8 list"
  have "{i. i + 4 < length ?p \<and> i_vop_at ?p i} = {0}"
  proof -
    have "\<forall>i\<in>set [0..<7]. i_vop_at ?p i \<longleftrightarrow> i = 0" by code_simp
    then have "i_vop_at ?p i \<longleftrightarrow> i = 0" if "i < 7" for i using that by simp
    then show ?thesis by auto
  qed
  then show ?thesis using resync_last_i_vop[of STD_MPEG4 ?p] by simp
qed

end
