(* ===== verification/Stream_MD5.thy ===== *)
theory Stream_MD5
  imports Prelude
begin

unbundle bit_operations_syntax

text \<open>
  The MD5 digest of the streaming application (\<^verbatim>\<open>src/apps/vpu_stream.c\<close>: \<^verbatim>\<open>md5_block\<close>,
  \<^verbatim>\<open>md5_update\<close>, \<^verbatim>\<open>md5_final\<close>), with the proof that it is the digest of RFC 1321 for any way of
  cutting the message into updates. The fields of \<^verbatim>\<open>struct md5_ctx\<close> carry the prefix \<open>md5_\<close>.
\<close>

section \<open>MD5\<close>

record md5_ctx =
  md5_a :: u32
  md5_b :: u32
  md5_c :: u32
  md5_d :: u32
  md5_bytes :: "64 word"
  md5_buf :: "u8 list"

definition md5_rol :: "u32 \<Rightarrow> nat \<Rightarrow> u32" where
  "md5_rol v s = push_bit s v OR drop_bit (32 - s) v"

definition md5_k :: "u32 list" where
  "md5_k =
     [0xd76aa478, 0xe8c7b756, 0x242070db, 0xc1bdceee, 0xf57c0faf, 0x4787c62a, 0xa8304613, 0xfd469501,
      0x698098d8, 0x8b44f7af, 0xffff5bb1, 0x895cd7be, 0x6b901122, 0xfd987193, 0xa679438e, 0x49b40821,
      0xf61e2562, 0xc040b340, 0x265e5a51, 0xe9b6c7aa, 0xd62f105d, 0x02441453, 0xd8a1e681, 0xe7d3fbc8,
      0x21e1cde6, 0xc33707d6, 0xf4d50d87, 0x455a14ed, 0xa9e3e905, 0xfcefa3f8, 0x676f02d9, 0x8d2a4c8a,
      0xfffa3942, 0x8771f681, 0x6d9d6122, 0xfde5380c, 0xa4beea44, 0x4bdecfa9, 0xf6bb4b60, 0xbebfbc70,
      0x289b7ec6, 0xeaa127fa, 0xd4ef3085, 0x04881d05, 0xd9d4d039, 0xe6db99e5, 0x1fa27cf8, 0xc4ac5665,
      0xf4292244, 0x432aff97, 0xab9423a7, 0xfc93a039, 0x655b59c3, 0x8f0ccc92, 0xffeff47d, 0x85845dd1,
      0x6fa87e4f, 0xfe2ce6e0, 0xa3014314, 0x4e0811a1, 0xf7537e82, 0xbd3af235, 0x2ad7d2bb, 0xeb86d391]"

definition md5_s :: "nat list" where
  "md5_s =
     [7, 12, 17, 22, 7, 12, 17, 22, 7, 12, 17, 22, 7, 12, 17, 22,
      5, 9, 14, 20, 5, 9, 14, 20, 5, 9, 14, 20, 5, 9, 14, 20,
      4, 11, 16, 23, 4, 11, 16, 23, 4, 11, 16, 23, 4, 11, 16, 23,
      6, 10, 15, 21, 6, 10, 15, 21, 6, 10, 15, 21, 6, 10, 15, 21]"

definition md5_words :: "u8 list \<Rightarrow> u32 list" where
  "md5_words p =
     map (\<lambda>i. ucast (p ! (i * 4)) OR push_bit 8 (ucast (p ! (i * 4 + 1))) OR
              push_bit 16 (ucast (p ! (i * 4 + 2))) OR push_bit 24 (ucast (p ! (i * 4 + 3)))) [0..<16]"

definition md5_step :: "u32 list \<Rightarrow> nat \<Rightarrow> u32 \<times> u32 \<times> u32 \<times> u32 \<Rightarrow> u32 \<times> u32 \<times> u32 \<times> u32" where
  "md5_step x i = (\<lambda>(a, b, c, d).
     let (f, g) =
           (if i < 16 then ((b AND c) OR (NOT b AND d), i)
            else if i < 32 then ((d AND b) OR (NOT d AND c), (5 * i + 1) AND 15)
            else if i < 48 then (b XOR c XOR d, (3 * i + 5) AND 15)
            else (c XOR (b OR NOT d), (7 * i) AND 15))
     in (d, b + md5_rol (a + f + md5_k ! i + x ! g) (md5_s ! i), b, c))"

definition md5_block :: "md5_ctx \<Rightarrow> u8 list \<Rightarrow> md5_ctx" where
  "md5_block ctx p =
     (let (a, b, c, d) = fold (md5_step (md5_words p)) [0..<64] (md5_a ctx, md5_b ctx, md5_c ctx, md5_d ctx)
      in ctx\<lparr>md5_a := md5_a ctx + a, md5_b := md5_b ctx + b, md5_c := md5_c ctx + c, md5_d := md5_d ctx + d\<rparr>)"

definition md5_init :: "md5_ctx \<Rightarrow> md5_ctx" where
  "md5_init ctx = ctx\<lparr>md5_a := 0x67452301, md5_b := 0xefcdab89, md5_c := 0x98badcfe, md5_d := 0x10325476, md5_bytes := 0\<rparr>"

text \<open>The loop over whole blocks; it returns the bytes that are left. \<^verbatim>\<open>memcpy\<close> is \<open>put_buf\<close>.\<close>

definition put_buf :: "nat \<Rightarrow> u8 list \<Rightarrow> md5_ctx \<Rightarrow> md5_ctx" where
  "put_buf at' p ctx = ctx\<lparr>md5_buf := take at' (md5_buf ctx) @ p @ drop (at' + length p) (md5_buf ctx)\<rparr>"

fun md5_whole :: "md5_ctx \<Rightarrow> u8 list \<Rightarrow> md5_ctx \<times> u8 list" where
  "md5_whole ctx p = (if 64 \<le> length p then md5_whole (md5_block ctx p) (drop 64 p) else (ctx, p))"

declare md5_whole.simps [simp del]

definition md5_update :: "md5_ctx \<Rightarrow> u8 list \<Rightarrow> md5_ctx" where
  "md5_update ctx data =
     (let used = unat (md5_bytes ctx AND 63);
          ctx = ctx\<lparr>md5_bytes := md5_bytes ctx + of_nat (length data)\<rparr>;
          (ctx, p) =
            (if used \<noteq> 0
             then let n = min (64 - used) (length data);
                      ctx = put_buf used (take n data) ctx
                  in (if used + n = 64 then md5_block ctx (md5_buf ctx) else ctx, drop n data)
             else (ctx, data));
          (ctx, p) = md5_whole ctx p
      in if 0 < length p then put_buf 0 p ctx else ctx)"

definition le_bytes :: "u32 \<Rightarrow> u8 list" where
  "le_bytes v = [ucast (v AND 0xff), ucast (drop_bit 8 v AND 0xff), ucast (drop_bit 16 v AND 0xff), ucast (drop_bit 24 v AND 0xff)]"

definition md5_final :: "md5_ctx \<Rightarrow> u8 list" where
  "md5_final ctx =
     (let bit_len = md5_bytes ctx * 8;
          used = unat (md5_bytes ctx AND 63);
          pad_len = (if used < 56 then 56 - used else 120 - used);
          bits = map (\<lambda>i. ucast (drop_bit (8 * i) bit_len) :: u8) [0..<8];
          ctx = md5_update ctx (take pad_len (0x80 # replicate 63 0));
          ctx = md5_update ctx bits
      in le_bytes (md5_a ctx) @ le_bytes (md5_b ctx) @ le_bytes (md5_c ctx) @ le_bytes (md5_d ctx))"

definition hex_digits_of :: "u8 \<Rightarrow> string" where
  "hex_digits_of b = [''0123456789abcdef'' ! unat (drop_bit 4 b), ''0123456789abcdef'' ! unat (b AND 15)]"

text \<open>The context is an uninitialised local: \<open>ctx\<close> is whatever the stack holds.\<close>

definition md5_hex :: "md5_ctx \<Rightarrow> string \<Rightarrow> string" where
  "md5_hex ctx s = concat (map hex_digits_of (md5_final (md5_update (md5_init ctx) (map of_char s))))"

section \<open>MD5 of RFC 1321\<close>

definition rfc_F :: "u32 \<Rightarrow> u32 \<Rightarrow> u32 \<Rightarrow> u32" where "rfc_F X Y Z = (X AND Y) OR (NOT X AND Z)"
definition rfc_G :: "u32 \<Rightarrow> u32 \<Rightarrow> u32 \<Rightarrow> u32" where "rfc_G X Y Z = (X AND Z) OR (Y AND NOT Z)"
definition rfc_H :: "u32 \<Rightarrow> u32 \<Rightarrow> u32 \<Rightarrow> u32" where "rfc_H X Y Z = X XOR Y XOR Z"
definition rfc_I :: "u32 \<Rightarrow> u32 \<Rightarrow> u32 \<Rightarrow> u32" where "rfc_I X Y Z = Y XOR (X OR NOT Z)"

text \<open>One operation \<open>[abcd k s i]\<close> on the registers \<open>A\<close>, \<open>B\<close>, \<open>C\<close>, \<open>D\<close>; \<open>j\<close> is the one it updates.\<close>

definition rfc_op :: "(u32 \<Rightarrow> u32 \<Rightarrow> u32 \<Rightarrow> u32) \<Rightarrow> u32 list \<Rightarrow> nat \<Rightarrow> nat \<times> nat \<times> u32 \<Rightarrow> u32 list \<Rightarrow> u32 list" where
  "rfc_op f X j = (\<lambda>(k, s, t) R.
     let b = R ! ((j + 1) mod 4)
     in R[j := b + word_rotl s (R ! j + f b (R ! ((j + 2) mod 4)) (R ! ((j + 3) mod 4)) + X ! k + t)])"

fun rfc_four :: "(u32 \<Rightarrow> u32 \<Rightarrow> u32 \<Rightarrow> u32) \<Rightarrow> u32 list \<Rightarrow> (nat \<times> nat \<times> u32) list \<Rightarrow> u32 list \<Rightarrow> u32 list" where
  "rfc_four f X (p # q # r # s # ops) R =
     rfc_four f X ops (rfc_op f X 1 s (rfc_op f X 2 r (rfc_op f X 3 q (rfc_op f X 0 p R))))"
| "rfc_four f X ops R = R"

definition rfc_compress :: "u32 list \<Rightarrow> u32 list \<Rightarrow> u32 list" where
  "rfc_compress R X =
     (let T = \<lambda>n. take 16 (drop n md5_k);
          shifts = \<lambda>l. concat (replicate 4 l);
          r1 = rfc_four rfc_F X (zip [0,1,2,3,4,5,6,7,8,9,10,11,12,13,14,15] (zip (shifts [7,12,17,22]) (T 0))) R;
          r2 = rfc_four rfc_G X (zip [1,6,11,0,5,10,15,4,9,14,3,8,13,2,7,12] (zip (shifts [5,9,14,20]) (T 16))) r1;
          r3 = rfc_four rfc_H X (zip [5,8,11,14,1,4,7,10,13,0,3,6,9,12,15,2] (zip (shifts [4,11,16,23]) (T 32))) r2;
          r4 = rfc_four rfc_I X (zip [0,7,14,5,12,3,10,1,8,15,6,13,4,11,2,9] (zip (shifts [6,10,15,21]) (T 48))) r3
      in map2 (+) R r4)"

definition rfc_pad :: "u8 list \<Rightarrow> u8 list" where
  "rfc_pad m = m @ 0x80 # replicate ((119 - length m mod 64) mod 64) 0 @
     map (\<lambda>i. of_nat (8 * length m div 256 ^ i)) [0..<8]"

definition le_word :: "u8 list \<Rightarrow> nat \<Rightarrow> u32" where
  "le_word p i = (\<Sum>j<4. of_nat (unat (p ! (4 * i + j)) * 256 ^ j))"

definition rfc_init :: "u32 list" where
  "rfc_init = [0x67452301, 0xefcdab89, 0x98badcfe, 0x10325476]"

fun rfc_hash :: "u32 list \<Rightarrow> u8 list \<Rightarrow> u32 list" where
  "rfc_hash R m = (if length m < 64 then R else rfc_hash (rfc_compress R (map (le_word m) [0..<16])) (drop 64 m))"

declare rfc_hash.simps [simp del]

lemma md5_rol_rotl: "0 < s \<Longrightarrow> s < 32 \<Longrightarrow> md5_rol v s = word_rotl s v"
proof (rule bit_word_eqI)
  fix n assume s: "0 < s" "s < 32" and "n < LENGTH(32)"
  then have n: "n < 32" by simp
  show "bit (md5_rol v s) n = bit (word_rotl s v) n"
  proof (cases "s \<le> n")
    case True
    then have "(n + 32 - s) mod 32 = n - s" "\<not> bit v (32 + n - s)"
      using s n bit_imp_le_length[of v "32 + n - s"] by (auto simp: mod_if)
    then show ?thesis using s n True by (simp add: md5_rol_def bit_simps)
  next
    case False
    then have "(n + 32 - s) mod 32 = 32 + n - s" using s n by simp
    then show ?thesis using s n False by (simp add: md5_rol_def bit_simps)
  qed
qed

text \<open>The code renames its variables where the standard moves to the next register.\<close>

definition code_op :: "nat \<Rightarrow> nat \<times> nat \<times> u32" where
  "code_op i =
     (if i < 16 then i else if i < 32 then (5 * i + 1) AND 15 else if i < 48 then (3 * i + 5) AND 15 else (7 * i) AND 15,
      md5_s ! i, md5_k ! i)"

definition reg_view :: "nat \<Rightarrow> u32 list \<Rightarrow> u32 \<times> u32 \<times> u32 \<times> u32" where
  "reg_view j R = (R ! j, R ! ((j + 1) mod 4), R ! ((j + 2) mod 4), R ! ((j + 3) mod 4))"

lemma md5_step_op:
  assumes "i < 64" "code_op i = (k, s, t)"
  shows "md5_step x i (a, b, c, d) =
    (d, b + word_rotl s (a + (if i < 16 then rfc_F else if i < 32 then rfc_G else if i < 48 then rfc_H else rfc_I) b c d
       + x ! k + t), b, c)"
proof -
  have "\<forall>i\<in>set [0..<64]. 0 < md5_s ! i \<and> md5_s ! i < 32" by code_simp
  then have "0 < md5_s ! i \<and> md5_s ! i < 32" using assms(1) by simp
  then show ?thesis using assms(2)
    by (auto simp: code_op_def md5_step_def md5_rol_rotl rfc_F_def rfc_G_def rfc_H_def rfc_I_def ac_simps)
qed

lemma length_rfc_op [simp]: "length (rfc_op f x j p R) = length R"
  by (simp add: rfc_op_def Let_def split: prod.splits)

lemma step_view:
  assumes "j < 4" "length R = 4"
    and "\<And>a b c d. step (a, b, c, d) = (d, b + word_rotl s (a + f b c d + x ! k + t), b, c)"
  shows "step (reg_view j R) = reg_view ((j + 3) mod 4) (rfc_op f x j (k, s, t) R)"
proof -
  obtain A B C D where R: "R = [A, B, C, D]" using assms(2) by (auto simp: length_Suc_conv eval_nat_numeral)
  consider "j = 0" | "j = 1" | "j = 2" | "j = 3" using assms(1) by linarith
  then show ?thesis by cases (simp_all add: assms(3) R rfc_op_def Let_def reg_view_def)
qed

lemma round_view:
  assumes "length R = 4" "length is = 4 * n"
    and "\<And>i a b c d. i \<in> set is \<Longrightarrow> md5_step x i (a, b, c, d) =
      (case code_op i of (k, s, t) \<Rightarrow> (d, b + word_rotl s (a + f b c d + x ! k + t), b, c))"
  shows "fold (md5_step x) is (reg_view 0 R) = reg_view 0 (rfc_four f x (map code_op is) R) \<and>
    length (rfc_four f x (map code_op is) R) = 4"
  using assms
proof (induction n arbitrary: "is" R)
  case 0
  then show ?case by simp
next
  case (Suc n)
  from Suc.prems(2) obtain i1 i2 i3 i4 js where "is": "is = [i1, i2, i3, i4] @ js" and n: "length js = 4 * n"
    by (auto simp: length_Suc_conv numeral_eq_Suc)
  have st: "md5_step x i (reg_view j R') = reg_view ((j + 3) mod 4) (rfc_op f x j (code_op i) R')"
    if "j < 4" "length R' = 4" "i \<in> set is" for i j R'
  proof (cases "code_op i")
    case (fields k s t)
    then show ?thesis using step_view[OF that(1,2), of "md5_step x i" s f x k t] Suc.prems(3)[OF that(3)] by simp
  qed
  have "fold (md5_step x) [i1, i2, i3, i4] (reg_view 0 R) =
    reg_view 0 (rfc_op f x 1 (code_op i4) (rfc_op f x 2 (code_op i3) (rfc_op f x 3 (code_op i2) (rfc_op f x 0 (code_op i1) R))))"
    using Suc.prems(1) by (simp add: st "is")
  then show ?case using Suc.IH[OF _ n] Suc.prems(1,3) by (simp add: "is")
qed

definition regs :: "md5_ctx \<Rightarrow> u32 list" where
  "regs ctx = [md5_a ctx, md5_b ctx, md5_c ctx, md5_d ctx]"

lemma code_rounds:
  "map code_op [0..<16] = zip [0,1,2,3,4,5,6,7,8,9,10,11,12,13,14,15] (zip (concat (replicate 4 [7,12,17,22])) (take 16 (drop 0 md5_k)))"
  "map code_op [16..<32] = zip [1,6,11,0,5,10,15,4,9,14,3,8,13,2,7,12] (zip (concat (replicate 4 [5,9,14,20])) (take 16 (drop 16 md5_k)))"
  "map code_op [32..<48] = zip [5,8,11,14,1,4,7,10,13,0,3,6,9,12,15,2] (zip (concat (replicate 4 [4,11,16,23])) (take 16 (drop 32 md5_k)))"
  "map code_op [48..<64] = zip [0,7,14,5,12,3,10,1,8,15,6,13,4,11,2,9] (zip (concat (replicate 4 [6,10,15,21])) (take 16 (drop 48 md5_k)))"
  by code_simp+

lemma fold_rounds: "fold f [0..<64] r = fold f [48..<64] (fold f [32..<48] (fold f [16..<32] (fold f [0..<16] r)))"
proof -
  have "[0..<64] = [0..<16] @ [16..<32] @ [32..<48] @ [48..<64]" by code_simp
  then show ?thesis by simp
qed

lemma md5_round:
  assumes "length R = 4"
  shows "fold (md5_step x) [0..<16] (reg_view 0 R) = reg_view 0 (rfc_four rfc_F x (map code_op [0..<16]) R) \<and>
      length (rfc_four rfc_F x (map code_op [0..<16]) R) = 4"
    "fold (md5_step x) [16..<32] (reg_view 0 R) = reg_view 0 (rfc_four rfc_G x (map code_op [16..<32]) R) \<and>
      length (rfc_four rfc_G x (map code_op [16..<32]) R) = 4"
    "fold (md5_step x) [32..<48] (reg_view 0 R) = reg_view 0 (rfc_four rfc_H x (map code_op [32..<48]) R) \<and>
      length (rfc_four rfc_H x (map code_op [32..<48]) R) = 4"
    "fold (md5_step x) [48..<64] (reg_view 0 R) = reg_view 0 (rfc_four rfc_I x (map code_op [48..<64]) R) \<and>
      length (rfc_four rfc_I x (map code_op [48..<64]) R) = 4"
  by (rule round_view[OF assms, where n = 4]; auto simp: md5_step_op split: prod.splits)+

lemma fold_compress:
  assumes "length R = 4"
  shows "\<exists>a b c d. fold (md5_step x) [0..<64] (reg_view 0 R) = (a, b, c, d) \<and>
    rfc_compress R x = [R ! 0 + a, R ! 1 + b, R ! 2 + c, R ! 3 + d]"
proof -
  define r1 where "r1 = rfc_four rfc_F x (map code_op [0..<16]) R"
  define r2 where "r2 = rfc_four rfc_G x (map code_op [16..<32]) r1"
  define r3 where "r3 = rfc_four rfc_H x (map code_op [32..<48]) r2"
  define r4 where "r4 = rfc_four rfc_I x (map code_op [48..<64]) r3"
  note r1 = md5_round(1)[OF assms, of x, folded r1_def]
  note r2 = md5_round(2)[OF conjunct2[OF r1], of x, folded r2_def]
  note r3 = md5_round(3)[OF conjunct2[OF r2], of x, folded r3_def]
  note r4 = md5_round(4)[OF conjunct2[OF r3], of x, folded r4_def]
  have "fold (md5_step x) [0..<64] (reg_view 0 R) = reg_view 0 r4"
    using r1 r2 r3 r4 by (simp only: fold_rounds)
  moreover have "rfc_compress R x = map2 (+) R r4"
    unfolding rfc_compress_def Let_def r4_def r3_def r2_def r1_def code_rounds by (rule refl)
  moreover obtain a b c d where "r4 = [a, b, c, d]" using conjunct2[OF r4] by (auto simp: length_Suc_conv numeral_eq_Suc)
  moreover obtain A B C D where "R = [A, B, C, D]" using assms by (auto simp: length_Suc_conv numeral_eq_Suc)
  ultimately show ?thesis by (simp add: reg_view_def)
qed

lemma le_word_or:
  fixes a b c d :: u8
  shows "ucast a OR push_bit 8 (ucast b) OR push_bit 16 (ucast c) OR push_bit 24 (ucast d) =
    (of_nat (unat a) + of_nat (unat b * 256) + of_nat (unat c * 65536) + of_nat (unat d * 16777216) :: u32)"
proof -
  have high: "8 \<le> n \<Longrightarrow> \<not> bit w n" for w :: u8 and n
    using bit_imp_le_length[of w n] by auto
  have add: "x AND y = 0 \<Longrightarrow> x OR y = x + y" for x y :: u32
    using word_plus_and_or[of x y] by simp
  have 1: "push_bit 16 (ucast c) OR push_bit 24 (ucast d) = (push_bit 16 (ucast c) + push_bit 24 (ucast d) :: u32)"
    by (rule add, rule bit_word_eqI) (auto simp: bit_simps high)
  have 2: "push_bit 8 (ucast b) OR (push_bit 16 (ucast c) OR push_bit 24 (ucast d)) =
      (push_bit 8 (ucast b) + (push_bit 16 (ucast c) OR push_bit 24 (ucast d)) :: u32)"
    by (rule add, rule bit_word_eqI) (auto simp: bit_simps high)
  have 3: "ucast a OR (push_bit 8 (ucast b) OR (push_bit 16 (ucast c) OR push_bit 24 (ucast d))) =
      (ucast a + (push_bit 8 (ucast b) OR (push_bit 16 (ucast c) OR push_bit 24 (ucast d))) :: u32)"
    by (rule add, rule bit_word_eqI) (auto simp: bit_simps high)
  note 12 = 2[unfolded 1]
  note 123 = 3[unfolded 1, unfolded 12]
  show ?thesis unfolding 1 12 123 by (simp add: push_bit_eq_mult)
qed

lemma md5_words_le: "md5_words p = map (le_word p) [0..<16]"
proof -
  have "{..<4::nat} = {0, 1, 2, 3}" by auto
  then have "le_word p i = of_nat (unat (p ! (4 * i))) + of_nat (unat (p ! (4 * i + 1)) * 256) +
      of_nat (unat (p ! (4 * i + 2)) * 65536) + of_nat (unat (p ! (4 * i + 3)) * 16777216)" for i
    by (simp add: le_word_def)
  then show ?thesis unfolding md5_words_def le_word_or by (simp add: mult.commute)
qed

lemma md5_block_compress:
  "regs (md5_block ctx p) = rfc_compress (regs ctx) (map (le_word p) [0..<16]) \<and>
   md5_bytes (md5_block ctx p) = md5_bytes ctx \<and> md5_buf (md5_block ctx p) = md5_buf ctx"
proof -
  have "reg_view 0 (regs ctx) = (md5_a ctx, md5_b ctx, md5_c ctx, md5_d ctx)" by (simp add: reg_view_def regs_def)
  moreover obtain a b c d where "fold (md5_step (md5_words p)) [0..<64] (reg_view 0 (regs ctx)) = (a, b, c, d)"
    "rfc_compress (regs ctx) (md5_words p) = [md5_a ctx + a, md5_b ctx + b, md5_c ctx + c, md5_d ctx + d]"
    using fold_compress[of "regs ctx" "md5_words p"] by (auto simp: regs_def)
  ultimately show ?thesis by (simp add: md5_block_def regs_def md5_words_le)
qed

section \<open>Streaming\<close>

lemma hash_short: "length m < 64 \<Longrightarrow> rfc_hash R m = R"
  by (simp add: rfc_hash.simps)

lemma hash_append: "length m mod 64 = 0 \<Longrightarrow> rfc_hash R (m @ n) = rfc_hash (rfc_hash R m) n"
proof (induction R m rule: rfc_hash.induct)
  case (1 R m)
  show ?case
  proof (cases "length m < 64")
    case True
    then have "m = []" using 1(2) by simp
    then show ?thesis by (simp add: hash_short)
  next
    case False
    have eq: "map (le_word (m @ n)) [0..<16] = map (le_word m) [0..<16]"
      using False by (auto simp: le_word_def nth_append)
    have "rfc_hash R (m @ n) = rfc_hash (rfc_compress R (map (le_word m) [0..<16])) (drop 64 m @ n)"
      unfolding eq[symmetric] using False by (simp add: rfc_hash.simps[of R])
    then show ?thesis using False 1(1)[OF False] 1(2) by (simp add: rfc_hash.simps[of R m] le_mod_geq)
  qed
qed

text \<open>The context after the message \<open>m\<close>.\<close>

definition md5_ok :: "u8 list \<Rightarrow> md5_ctx \<Rightarrow> bool" where
  "md5_ok m ctx \<longleftrightarrow>
     regs ctx = rfc_hash rfc_init m \<and>
     md5_bytes ctx = of_nat (length m) \<and> length (md5_buf ctx) = 64 \<and>
     take (length m mod 64) (md5_buf ctx) = drop (length m - length m mod 64) m"

lemma whole_hash:
  assumes "md5_whole ctx p = (ctx', p')"
  shows "regs ctx' = rfc_hash (regs ctx) p" "md5_bytes ctx' = md5_bytes ctx" "md5_buf ctx' = md5_buf ctx"
    "p' = drop (length p - length p mod 64) p"
proof -
  have "regs ctx' = rfc_hash (regs ctx) p \<and> md5_bytes ctx' = md5_bytes ctx \<and> md5_buf ctx' = md5_buf ctx \<and>
    p' = drop (length p - length p mod 64) p"
    using assms
  proof (induction ctx p rule: md5_whole.induct)
    case (1 ctx p)
    show ?case
    proof (cases "64 \<le> length p")
      case True
      have "md5_whole (md5_block ctx p) (drop 64 p) = (ctx', p')" using 1(2) True by (simp add: md5_whole.simps[of ctx])
      note IH = 1(1)[OF True this]
      have "drop (length p - length p mod 64) p = drop (length (drop 64 p) - length (drop 64 p) mod 64) (drop 64 p)"
        using True by (simp add: le_mod_geq mod_le_divisor) 
      then show ?thesis using IH True md5_block_compress[of ctx p] by (simp add: rfc_hash.simps[of _ p])
    next
      case False
      then have "ctx' = ctx" "p' = p" "length p mod 64 = length p" using 1(2) by (simp_all add: md5_whole.simps[of ctx])
      then show ?thesis using False by (simp add: hash_short)
    qed
  qed
  then show "regs ctx' = rfc_hash (regs ctx) p" "md5_bytes ctx' = md5_bytes ctx" "md5_buf ctx' = md5_buf ctx"
    "p' = drop (length p - length p mod 64) p" by auto
qed

lemma put_buf_simps [simp]:
  "regs (put_buf i p ctx) = regs ctx" "md5_bytes (put_buf i p ctx) = md5_bytes ctx"
  "md5_buf (put_buf i p ctx) = take i (md5_buf ctx) @ p @ drop (i + length p) (md5_buf ctx)"
  by (simp_all add: put_buf_def regs_def)

lemma aligned_mod: "a mod 64 = 0 \<Longrightarrow> (a + b) mod 64 = b mod 64" for a b :: nat
  using mod_add_left_eq[of a 64 b] by simp

text \<open>From a block boundary on.\<close>

lemma aligned_update:
  assumes "length m mod 64 = 0" "regs ctx = rfc_hash rfc_init m"
    "md5_bytes ctx = of_nat (length (m @ p))" "length (md5_buf ctx) = 64"
  shows "md5_ok (m @ p) (case md5_whole ctx p of (ctx', p') \<Rightarrow> if 0 < length p' then put_buf 0 p' ctx' else ctx')"
proof -
  obtain ctx' p' where w: "md5_whole ctx p = (ctx', p')" by (cases "md5_whole ctx p")
  note h = whole_hash[OF w]
  have len: "length p' = length p mod 64" unfolding h(4) by simp
  have mod: "length (m @ p) mod 64 = length p mod 64" using aligned_mod[OF assms(1)] by simp
  have drp: "drop (length (m @ p) - length p mod 64) (m @ p) = p'"
  proof -
    have "length (m @ p) - length p mod 64 = length m + (length p - length p mod 64)"
      using mod_less_eq_dividend[of "length p" 64] by (simp only: length_append)
    then show ?thesis unfolding h(4) by (simp only: drop_append) simp
  qed
  define c where "c = (if 0 < length p' then put_buf 0 p' ctx' else ctx')"
  have "length p' < 64" using len by simp
  then have c: "regs c = regs ctx'" "md5_bytes c = md5_bytes ctx'" "length (md5_buf c) = 64" "take (length p') (md5_buf c) = p'"
    using h(3) assms(4) by (simp_all add: c_def)
  have "regs ctx' = rfc_hash rfc_init (m @ p)"
    using h(1) assms(1,2) by (simp add: hash_append)
  then show ?thesis unfolding w prod.case c_def[symmetric] md5_ok_def mod drp
    using h(2) assms(3) c unfolding len by simp
qed

lemma used_bytes: "unat (of_nat n AND 63 :: 64 word) = n mod 64"
proof -
  have "(of_nat n AND 63 :: 64 word) = take_bit 6 (of_nat n)" by (simp add: take_bit_eq_mask mask_eq_exp_minus_1)
  then show ?thesis by (simp add: unat_mod unsigned_of_nat take_bit_eq_mod mod_mod_cancel)
qed

lemma update_ok:
  assumes "md5_ok m ctx"
  shows "md5_ok (m @ d) (md5_update ctx d)"
proof -
  let ?init = "rfc_init"
  define u where "u = length m mod 64"
  define c where "c = ctx\<lparr>md5_bytes := md5_bytes ctx + of_nat (length d)\<rparr>"
  define w where "w = take (length m - u) m"
  define t where "t = drop (length m - u) m"
  note ok = assms[unfolded md5_ok_def, folded u_def t_def]
  have m: "m = w @ t" and u: "u < 64" "length t = u" and w: "length w mod 64 = 0"
    by (simp_all add: w_def t_def u_def)
  have c: "regs c = rfc_hash ?init m" "md5_bytes c = of_nat (length (m @ d))" "md5_buf c = md5_buf ctx"
    using ok by (simp_all add: c_def regs_def)
  have used: "unat (md5_bytes ctx AND 63) = u" using ok by (simp add: used_bytes u_def)
  consider "u = 0" | "u \<noteq> 0" "u + length d < 64" | "u \<noteq> 0" "64 \<le> u + length d" by linarith
  then show ?thesis
  proof cases
    case 1
    then have "md5_update ctx d = (case md5_whole c d of (c', p) \<Rightarrow> if 0 < length p then put_buf 0 p c' else c')"
      by (simp add: md5_update_def used c_def)
    then show ?thesis using aligned_update[of m c d] 1 c ok by (simp add: u_def)
  next
    case 2
    then have "md5_update ctx d = put_buf u d c"
      by (simp add: md5_update_def used c_def md5_whole.simps)
    moreover have "rfc_hash ?init (m @ d) = rfc_hash ?init m"
      using 2 u w by (simp add: m hash_append hash_short)
    moreover have "length (m @ d) mod 64 = u + length d" "length (m @ d) - (u + length d) = length w"
      using 2 u aligned_mod[OF w, of "u + length d"] by (simp_all add: m add.assoc)
    ultimately show ?thesis using c ok 2 u by (simp add: md5_ok_def m)
  next
    case 3
    define n where "n = 64 - u"
    define c1 where "c1 = put_buf u (take n d) c"
    have n: "n \<le> length d" "min n (length d) = n" "u + n = 64" using 3 u by (simp_all add: n_def)
    have "md5_update ctx d =
      (case md5_whole (md5_block c1 (md5_buf c1)) (drop n d) of (c', p) \<Rightarrow> if 0 < length p then put_buf 0 p c' else c')"
      using 3 n by (simp add: md5_update_def used c_def[symmetric] n_def[symmetric] c1_def[symmetric] Let_def)
    moreover have "length ((m @ take n d)) mod 64 = 0" using n u aligned_mod[OF w, of 64] by (simp add: m add.assoc)
    moreover have "regs (md5_block c1 (md5_buf c1)) = rfc_hash ?init (m @ take n d)"
    proof -
      have b: "md5_buf c1 = t @ take n d" using ok c n u by (simp add: c1_def)
      have "rfc_hash ?init (m @ take n d) = rfc_hash (rfc_hash ?init w) (t @ take n d)"
        using w by (simp add: m hash_append)
      also have "rfc_hash ?init w = regs c1" using c w u by (simp add: c1_def m hash_append hash_short)
      finally show ?thesis using md5_block_compress[of c1 "md5_buf c1"] b n u
        by (simp add: rfc_hash.simps[of "regs c1"] hash_short)
    qed
    moreover have "length (md5_buf (md5_block c1 (md5_buf c1))) = 64"
      "md5_bytes (md5_block c1 (md5_buf c1)) = of_nat (length (m @ d))"
      using md5_block_compress[of c1 "md5_buf c1"] ok c n u by (simp_all add: c1_def)
    ultimately show ?thesis
      using aligned_update[of "m @ take n d" "md5_block c1 (md5_buf c1)" "drop n d"] by simp
  qed
qed

lemma updates_ok: "md5_ok m ctx \<Longrightarrow> md5_ok (m @ concat ds) (fold (\<lambda>d c. md5_update c d) ds ctx)"
proof (induction ds arbitrary: m ctx)
  case (Cons d ds)
  then show ?case using Cons.IH[OF update_ok[OF Cons.prems], of d] by simp
qed simp

lemma init_ok: "length (md5_buf ctx) = 64 \<Longrightarrow> md5_ok [] (md5_init ctx)"
  by (simp add: md5_ok_def md5_init_def regs_def rfc_hash.simps rfc_init_def)

definition rfc_bytes :: "u32 \<Rightarrow> u8 list" where
  "rfc_bytes w = map (\<lambda>j. of_nat (unat w div 256 ^ j)) [0..<4]"

lemma le_bytes_rfc: "le_bytes w = rfc_bytes w"
proof -
  have byte: "ucast (drop_bit (8 * j) w AND 0xff) = (of_nat (unat w div 256 ^ j) :: u8)" for j
  proof -
    have "v AND 0xff = take_bit 8 v" for v :: u32 by (simp add: take_bit_eq_mask mask_eq_exp_minus_1)
    then have "ucast (drop_bit (8 * j) w AND 0xff) = (ucast (drop_bit (8 * j) w) :: u8)"
      by (intro bit_word_eqI) (auto simp: bit_simps)
    also have "\<dots> = of_nat (unat (drop_bit (8 * j) w))" by simp
    also have "unat (drop_bit (8 * j) w) = unat w div 256 ^ j"
    proof -
      have "take_bit 32 (unat w) = unat w" using unsigned_less[of w, where ?'a = nat] by (intro take_bit_nat_eq_self) simp
      then show ?thesis by (simp only: unsigned_drop_bit_eq) (simp add: drop_bit_eq_div power_mult)
    qed
    finally show ?thesis .
  qed
  show ?thesis using byte[of 0] byte[of 1] byte[of 2] byte[of 3]
    by (simp add: le_bytes_def rfc_bytes_def upt_rec[of _ 4])
qed

lemma length_byte: "ucast (drop_bit (8 * i) (of_nat n * 8 :: 64 word)) = (of_nat (8 * n div 256 ^ i) :: u8)" if "i < 8"
proof (rule bit_word_eqI)
  fix k assume "k < LENGTH(8)"
  then have k: "k < 8" by simp
  have "(of_nat n * 8 :: 64 word) = of_nat (8 * n)" by simp
  moreover have "8 * n div 256 ^ i = drop_bit (8 * i) (8 * n)" by (simp add: drop_bit_eq_div power_mult)
  ultimately show "bit (ucast (drop_bit (8 * i) (of_nat n * 8 :: 64 word)) :: u8) k = bit (of_nat (8 * n div 256 ^ i) :: u8) k"
    using that k by (simp only:) (simp add: bit_simps bit_of_nat_iff del: of_nat_mult)
qed

lemma final_rfc:
  assumes "md5_ok m ctx"
  shows "md5_final ctx = concat (map rfc_bytes (rfc_hash rfc_init (rfc_pad m)))"
proof -
  define u where "u = length m mod 64"
  define pad where "pad = take (if u < 56 then 56 - u else 120 - u) (0x80 # replicate 63 0 :: u8 list)"
  define bits where "bits = map (\<lambda>i. ucast (drop_bit (8 * i) (md5_bytes ctx * 8)) :: u8) [0..<8]"
  define c where "c = md5_update (md5_update ctx pad) bits"
  have b: "md5_bytes ctx = of_nat (length m)" using assms by (simp add: md5_ok_def)
  then have used: "unat (md5_bytes ctx AND 63) = u" by (simp add: used_bytes u_def)
  have u: "u < 64" by (simp add: u_def)
  have "bits = map (\<lambda>i. of_nat (8 * length m div 256 ^ i)) [0..<8]"
    using length_byte by (simp add: bits_def b)
  moreover have "pad = 0x80 # replicate ((119 - u) mod 64) 0"
    using u by (auto simp: pad_def take_Cons' mod_if)
  ultimately have "rfc_pad m = m @ pad @ bits" by (simp add: rfc_pad_def u_def)
  moreover have "md5_ok ((m @ pad) @ bits) c" unfolding c_def by (intro update_ok assms)
  ultimately have "regs c = rfc_hash rfc_init (rfc_pad m)" by (simp add: md5_ok_def)
  moreover have "md5_final ctx = concat (map le_bytes (regs c))"
    unfolding md5_final_def Let_def used pad_def[symmetric] bits_def[symmetric] c_def[symmetric] by (simp add: regs_def)
  ultimately show ?thesis by (simp add: le_bytes_rfc[abs_def])
qed

definition stack_ctx :: md5_ctx where
  "stack_ctx = \<lparr>md5_a = 1, md5_b = 2, md5_c = 3, md5_d = 4, md5_bytes = 5, md5_buf = replicate 64 0xAA\<rparr>"

text \<open>
  C34. The digest is the one of RFC 1321: however the message is cut into updates, the sixteen bytes
  are the registers that the rounds of the standard, in its in-place notation, leave on the padded
  message. (The sine table is the one of the code; the witness is a test vector of the standard.)
\<close>

theorem md5_correct:
  assumes "length (md5_buf ctx) = 64"
  shows "md5_final (fold (\<lambda>d c. md5_update c d) ds (md5_init ctx)) =
    concat (map rfc_bytes (rfc_hash rfc_init (rfc_pad (concat ds))))"
  using final_rfc[OF updates_ok[OF init_ok[OF assms]]] by simp

lemma digest_abc: "md5_final (md5_update (md5_update (md5_init stack_ctx) [97]) [98, 99]) =
  [0x90, 0x01, 0x50, 0x98, 0x3c, 0xd2, 0x4f, 0xb0, 0xd6, 0x96, 0x3f, 0x7d, 0x28, 0xe1, 0x7f, 0x72]"
  by code_simp

theorem md5_correct_witness:
  "concat (map rfc_bytes (rfc_hash rfc_init (rfc_pad [97, 98, 99]))) =
   [0x90, 0x01, 0x50, 0x98, 0x3c, 0xd2, 0x4f, 0xb0, 0xd6, 0x96, 0x3f, 0x7d, 0x28, 0xe1, 0x7f, 0x72]"
proof -
  have "length (md5_buf stack_ctx) = 64" by (simp add: stack_ctx_def)
  from md5_correct[OF this, of "[[97], [98, 99]]"] digest_abc show ?thesis by simp
qed

end
