(* ===== verification/Stream_Auth.thy ===== *)
theory Stream_Auth
  imports Vpu_IO Stream_MD5
begin

unbundle bit_operations_syntax

text \<open>
  The text codings of the streaming application (\<^verbatim>\<open>src/apps/vpu_stream.c\<close>): base64 and
  the addresses and credentials of an RTSP source. A C string is the list of its
  characters before the terminating NUL; binary data are lists of bytes. An array that a function
  fills up to an index is the list of the elements filled.
\<close>

section \<open>Base64\<close>

definition b64_value :: "int \<Rightarrow> int" where
  "b64_value c =
     (if of_char (CHR ''A'') \<le> c \<and> c \<le> of_char (CHR ''Z'') then c - of_char (CHR ''A'')
      else if of_char (CHR ''a'') \<le> c \<and> c \<le> of_char (CHR ''z'') then c - of_char (CHR ''a'') + 26
      else if of_char (CHR ''0'') \<le> c \<and> c \<le> of_char (CHR ''9'') then c - of_char (CHR ''0'') + 52
      else if c = of_char (CHR ''+'') then 62
      else if c = of_char (CHR ''/'') then 63
      else -1)"

text \<open>
  The accumulator \<^verbatim>\<open>int val\<close> is shifted until its upper bits overflow; the model keeps the 32
  bits that the two's complement target keeps. The result \<open>None\<close> is the return of \<open>-1\<close>.
\<close>

fun b64_loop :: "string \<Rightarrow> u32 \<Rightarrow> int \<Rightarrow> u8 list \<Rightarrow> int \<Rightarrow> u8 list option" where
  "b64_loop [] val valb out out_max = Some out"
| "b64_loop (ch # in') val valb out out_max =
     (if ch = CHR '','' \<or> ch = CHR '';'' \<or> ch = CHR 0x0D \<or> ch = CHR 0x0A then Some out
      else if ch = CHR ''='' then Some out
      else let c = b64_value (of_char ch) in
        if c < 0 then b64_loop in' val valb out out_max
        else let val = push_bit 6 val OR word_of_int c; valb = valb + 6 in
          if 0 \<le> valb then
            if out_max \<le> int (length out) then None
            else b64_loop in' val (valb - 8) (out @ [ucast (drop_bit (nat valb) val AND 0xff)]) out_max
          else b64_loop in' val valb out out_max)"

definition b64_decode :: "string \<Rightarrow> int \<Rightarrow> u8 list option" where
  "b64_decode in' out_max = b64_loop in' 0 (- 8) [] out_max"

definition b64_tbl :: string where
  "b64_tbl = ''ABCDEFGHIJKLMNOPQRSTUVWXYZabcdefghijklmnopqrstuvwxyz0123456789+/''"

definition b64_block :: "string \<Rightarrow> string" where
  "b64_block in' =
     (let rem = length in';
          v = push_bit 16 (of_char (in' ! 0)) :: u32;
          v = (if 1 < rem then v OR push_bit 8 (of_char (in' ! 1)) else v);
          v = (if 2 < rem then v OR of_char (in' ! 2) else v)
      in [b64_tbl ! unat (drop_bit 18 v AND 63), b64_tbl ! unat (drop_bit 12 v AND 63),
          if 1 < rem then b64_tbl ! unat (drop_bit 6 v AND 63) else CHR ''='',
          if 2 < rem then b64_tbl ! unat (v AND 63) else CHR ''=''])"

fun b64_encode_loop :: "string \<Rightarrow> string \<Rightarrow> int \<Rightarrow> string" where
  "b64_encode_loop in' out out_max =
     (if in' \<noteq> [] \<and> int (length out) + 4 < out_max
      then b64_encode_loop (drop 3 in') (out @ b64_block in') out_max
      else out)"

definition b64_encode_basic :: "string \<Rightarrow> int \<Rightarrow> string" where
  "b64_encode_basic in' out_max = b64_encode_loop in' [] out_max"

declare b64_encode_loop.simps [simp del]

section \<open>Base64 decodes what it encoded\<close>

lemma b64_tbl_value: "n < 64 \<Longrightarrow> b64_value (of_char (b64_tbl ! n)) = int n"
proof -
  have "\<forall>n\<in>set [0..<64]. b64_value (of_char (b64_tbl ! n)) = int n" by code_simp
  then show "n < 64 \<Longrightarrow> ?thesis" by auto
qed

lemma tbl_plain:
  assumes "n < 64"
  shows "b64_tbl ! n \<notin> {CHR '','', CHR '';'', CHR 0x0D, CHR 0x0A, CHR ''=''}"
proof -
  have "\<forall>n\<in>set [0..<64]. b64_tbl ! n \<noteq> CHR '','' \<and> b64_tbl ! n \<noteq> CHR '';'' \<and> b64_tbl ! n \<noteq> CHR 0x0D \<and> b64_tbl ! n \<noteq> CHR 0x0A \<and> b64_tbl ! n \<noteq> CHR ''=''"
    by code_simp
  then show ?thesis using assms by auto
qed

lemma sextet_less: "unat (w AND 63 :: u32) < 64"
proof -
  have "w AND 63 \<le> (63::u32)" by (rule word_and_le1)
  then show ?thesis by (simp add: word_le_nat_alt)
qed

lemma b64_loop_sextet:
  "b64_loop (b64_tbl ! unat (w AND 63) # in') val valb out m =
     (let val = push_bit 6 val OR (w AND 63); valb = valb + 6 in
      if 0 \<le> valb then
        if m \<le> int (length out) then None
        else b64_loop in' val (valb - 8) (out @ [ucast (drop_bit (nat valb) val AND 0xff)]) m
      else b64_loop in' val valb out m)"
  using tbl_plain[OF sextet_less, of w] b64_tbl_value[OF sextet_less, of w] by (simp add: Let_def)

lemma byte_pieces:
  fixes x y z :: u8 and val :: u32
  defines "v \<equiv> push_bit 16 (ucast x) OR push_bit 8 (ucast y) OR ucast z :: u32"
  defines "v2 \<equiv> push_bit 6 (push_bit 6 val OR (drop_bit 18 v AND 63)) OR (drop_bit 12 v AND 63)"
  defines "v3 \<equiv> push_bit 6 v2 OR (drop_bit 6 v AND 63)"
  defines "v4 \<equiv> push_bit 6 v3 OR (v AND 63)"
  shows "ucast (drop_bit 4 v2 AND 0xff) = x" "ucast (drop_bit 2 v3 AND 0xff) = y" "ucast (v4 AND 0xff) = z"
proof -
  have six: "w AND 63 = take_bit 6 w" and eight: "w AND 0xff = take_bit 8 w" for w :: u32
    by (simp_all add: take_bit_eq_mask mask_eq_exp_minus_1)
  have high: "8 \<le> n \<Longrightarrow> \<not> bit w n" for w :: u8 and n
    using bit_imp_le_length[of w n] by auto
  have two: "2 \<le> n \<Longrightarrow> Suc (Suc (n - 2)) = n" for n :: nat by simp
  note defs = v_def v2_def v3_def v4_def six eight
  show "ucast (drop_bit 4 v2 AND 0xff) = x"
    unfolding defs by (rule bit_word_eqI) (auto simp: bit_simps not_less high two)
  show "ucast (drop_bit 2 v3 AND 0xff) = y"
    unfolding defs by (rule bit_word_eqI) (auto simp: bit_simps not_less high two)
  show "ucast (v4 AND 0xff) = z"
    unfolding defs by (rule bit_word_eqI) (auto simp: bit_simps not_less high two)
qed


lemma of_char_ucast: "(of_char c :: u32) = ucast (of_char c :: u8)"
proof -
  have "(of_char c :: u32) = of_nat (of_char c)" "(of_char c :: u8) = of_nat (of_char c)"
    by (simp_all only: of_nat_of_char)
  moreover have "(of_char c :: nat) < 256" by simp
  ultimately show ?thesis by (simp add: unsigned_of_nat take_bit_nat_eq_self del: of_nat_of_char)
qed

lemma decode_two:
  "int (length out) < m \<Longrightarrow>
   b64_loop (b64_tbl ! unat (w1 AND 63) # b64_tbl ! unat (w2 AND 63) # r) val (-8) out m =
     (let v = push_bit 6 (push_bit 6 val OR (w1 AND 63)) OR (w2 AND 63)
      in b64_loop r v (-4) (out @ [ucast (drop_bit 4 v AND 0xff)]) m)"
  by (simp only: b64_loop_sextet Let_def) simp

lemma decode_third:
  "int (length out) < m \<Longrightarrow>
   b64_loop (b64_tbl ! unat (w AND 63) # r) val (-4) out m =
     (let v = push_bit 6 val OR (w AND 63) in b64_loop r v (-6) (out @ [ucast (drop_bit 2 v AND 0xff)]) m)"
  by (simp only: b64_loop_sextet Let_def) simp

lemma decode_fourth:
  "int (length out) < m \<Longrightarrow>
   b64_loop (b64_tbl ! unat (w AND 63) # r) val (-6) out m =
     (let v = push_bit 6 val OR (w AND 63) in b64_loop r v (-8) (out @ [ucast (v AND 0xff)]) m)"
  by (simp only: b64_loop_sextet Let_def) simp

lemma decode_pad: "b64_loop (CHR ''='' # r) val valb out m = Some out"
  by simp

lemma decode_block:
  assumes "s \<noteq> []" and "int (length out) + int (length (take 3 s)) \<le> m"
  shows "\<exists>val'. b64_loop (b64_block s @ r) val (-8) out m =
    (if 3 \<le> length s then b64_loop r val' (-8) (out @ map of_char (take 3 s)) m
     else Some (out @ map of_char s))"
proof -
  consider x where "s = [x]" | x y where "s = [x, y]" | x y z t where "s = x # y # z # t"
    using assms(1) by (metis list.exhaust)
  then show ?thesis
  proof cases
    case 1
    define v :: u32 where "v = push_bit 16 (of_char x)"
    have "b64_block s = [b64_tbl ! unat (drop_bit 18 v AND 63), b64_tbl ! unat (drop_bit 12 v AND 63), CHR ''='', CHR ''='']"
      using 1 by (simp add: b64_block_def v_def Let_def)
    moreover have "int (length out) < m" using 1 assms(2) by simp
    moreover have "v = push_bit 16 (ucast (of_char x :: u8)) OR push_bit 8 (ucast (0 :: u8)) OR ucast (0 :: u8)"
      by (simp add: v_def of_char_ucast)
    ultimately show ?thesis using 1 byte_pieces(1)[of val "of_char x" 0 0]
      by (simp only: append_Cons append_Nil decode_two Let_def decode_pad) simp
  next
    case 2
    define v :: u32 where "v = push_bit 16 (of_char x) OR push_bit 8 (of_char y)"
    have "b64_block s = [b64_tbl ! unat (drop_bit 18 v AND 63), b64_tbl ! unat (drop_bit 12 v AND 63),
      b64_tbl ! unat (drop_bit 6 v AND 63), CHR ''='']"
      using 2 by (simp add: b64_block_def v_def Let_def)
    moreover have "int (length out) < m" "int (length (out @ [a])) < m" for a :: u8 using 2 assms(2) by simp_all
    moreover have "v = push_bit 16 (ucast (of_char x :: u8)) OR push_bit 8 (ucast (of_char y :: u8)) OR ucast (0 :: u8)"
      by (simp add: v_def of_char_ucast)
    ultimately show ?thesis using 2 byte_pieces(1,2)[of val "of_char x" "of_char y" 0]
      by (simp only: append_Cons append_Nil decode_two decode_third Let_def decode_pad) simp
  next
    case 3
    define v :: u32 where "v = push_bit 16 (of_char x) OR push_bit 8 (of_char y) OR of_char z"
    have "b64_block s = [b64_tbl ! unat (drop_bit 18 v AND 63), b64_tbl ! unat (drop_bit 12 v AND 63),
      b64_tbl ! unat (drop_bit 6 v AND 63), b64_tbl ! unat (v AND 63)]"
      using 3 by (simp add: b64_block_def v_def Let_def or.assoc)
    moreover have "int (length out) < m" "int (length (out @ [a])) < m" "int (length ((out @ [a]) @ [b])) < m" for a b :: u8
      using 3 assms(2) by simp_all
    moreover have "v = push_bit 16 (ucast (of_char x :: u8)) OR push_bit 8 (ucast (of_char y :: u8)) OR ucast (of_char z :: u8)"
      by (simp add: v_def of_char_ucast)
    ultimately show ?thesis using 3 byte_pieces[of val "of_char x" "of_char y" "of_char z"]
      by (simp only: append_Cons append_Nil decode_two decode_third decode_fourth Let_def) auto
  qed
qed

lemma length_b64_block [simp]: "length (b64_block s) = 4"
  by (simp add: b64_block_def Let_def)

lemma encode_loop_out: "b64_encode_loop s out m = out @ b64_encode_basic s (m - int (length out))"
proof (induction "length s" arbitrary: s out m rule: less_induct)
  case less
  show ?case
  proof (cases "s \<noteq> [] \<and> int (length out) + 4 < m")
    case True
    then have "length (drop 3 s) < length s" by simp
    note IH = less[OF this]
    have "b64_encode_loop s out m = b64_encode_loop (drop 3 s) (out @ b64_block s) m"
      using True by (simp add: b64_encode_loop.simps[of s])
    moreover have "b64_encode_loop s [] (m - int (length out)) = b64_encode_loop (drop 3 s) (b64_block s) (m - int (length out))"
      using True by (simp add: b64_encode_loop.simps[of s])
    ultimately show ?thesis
      using IH[of "out @ b64_block s" m] IH[of "b64_block s" "m - int (length out)"]
      unfolding b64_encode_basic_def[of s] by (simp add: diff_diff_eq)
  next
    case False
    then show ?thesis by (auto simp: b64_encode_basic_def b64_encode_loop.simps[of s])
  qed
qed

lemma encode_basic_rec:
  "b64_encode_basic s m = (if s \<noteq> [] \<and> 4 < m then b64_block s @ b64_encode_basic (drop 3 s) (m - 4) else [])"
  using encode_loop_out[of "drop 3 s" "b64_block s" m] by (simp add: b64_encode_basic_def b64_encode_loop.simps[of s])

lemma decode_encode:
  assumes "int (length out) + int (length s) \<le> n"
  shows "b64_loop (b64_encode_basic s m) val (-8) out n = Some (out @ map of_char (take (3 * nat ((m - 1) div 4)) s))"
  using assms
proof (induction "length s" arbitrary: s out m val rule: less_induct)
  case less
  show ?case
  proof (cases "s \<noteq> [] \<and> 4 < m")
    case False
    then show ?thesis by (auto simp: encode_basic_rec[of s] nat_eq_iff2 div_neg_pos_less0) 
  next
    case True
    define k where "k = nat ((m - 4 - 1) div 4)"
    have k: "nat ((m - 1) div 4) = Suc k"
    proof -
      have "(m - 1) div 4 = (m - 4 - 1) div 4 + 1" using div_mult_self1[of 4 "m - 4 - 1" 1] by simp
      moreover have "0 \<le> (m - 4 - 1) div 4" using True by (intro div_int_pos_iff[THEN iffD2]) simp
      ultimately show ?thesis by (simp add: k_def nat_add_distrib)
    qed
    have room: "int (length out) + int (length (take 3 s)) \<le> n" using less.prems by (simp add: min_def)
    obtain val' where *: "b64_loop (b64_block s @ b64_encode_basic (drop 3 s) (m - 4)) val (-8) out n =
      (if 3 \<le> length s then b64_loop (b64_encode_basic (drop 3 s) (m - 4)) val' (-8) (out @ map of_char (take 3 s)) n
       else Some (out @ map of_char s))"
      using decode_block[OF _ room, of "b64_encode_basic (drop 3 s) (m - 4)" val] True by metis
    show ?thesis
    proof (cases "3 \<le> length s")
      case False
      then show ?thesis using * True by (simp add: encode_basic_rec[of s] k)
    next
      case long: True
      have "b64_loop (b64_encode_basic (drop 3 s) (m - 4)) val' (-8) (out @ map of_char (take 3 s)) n =
        Some ((out @ map of_char (take 3 s)) @ map of_char (take (3 * k) (drop 3 s)))"
        unfolding k_def by (rule less.hyps) (use long less.prems in auto)
      moreover have "take (3 * Suc k) s = take 3 s @ take (3 * k) (drop 3 s)"
        by (simp add: take_add)
      ultimately show ?thesis using * True long by (simp add: encode_basic_rec[of s] k)
    qed
  qed
qed

lemma encode_length: "0 < m \<Longrightarrow> int (length (b64_encode_basic s m)) < m"
proof (induction "length s" arbitrary: s m rule: less_induct)
  case less
  have "int (length (b64_encode_basic (drop 3 s) (m - 4))) < m - 4" if "s \<noteq> []" "4 < m"
    using that by (intro less.hyps) auto
  then show ?case using less.prems by (subst encode_basic_rec) fastforce
qed

text \<open>
  C35. Base64 round trip: whatever the size of the output buffer, the encoder stays inside it with
  its terminating NUL, and the decoder recovers exactly the first \<open>3 * ((m - 1) div 4)\<close>
  characters, all of them when the buffer is large enough. Credentials beyond that length (141
  characters for the buffer of 192 that \<^verbatim>\<open>parse_rtsp_url\<close> uses) are cut off silently.
\<close>

theorem b64_roundtrip:
  assumes "0 < m" and "int (length s) \<le> n"
  shows "b64_decode (b64_encode_basic s m) n = Some (map of_char (take (3 * nat ((m - 1) div 4)) s)) \<and>
    int (length (b64_encode_basic s m)) < m"
  using decode_encode[of "[]" s n m 0] encode_length[OF assms(1), of s] assms(2) by (simp add: b64_decode_def)

theorem b64_roundtrip_witness:
  "b64_decode (b64_encode_basic ''user:pass'' 192) 192 = Some [117, 115, 101, 114, 58, 112, 97, 115, 115] \<and>
   b64_decode (b64_encode_basic ''user:pass'' 8) 192 = Some [117, 115, 101]"
  using b64_roundtrip[of 192 "''user:pass''" 192] b64_roundtrip[of 8 "''user:pass''" 192] by (simp add: numeral_3_eq_3)

end
