(* ===== verification/Stream_RTSP.thy ===== *)
theory Stream_RTSP
  imports Stream_Auth Stream_RTP
begin

unbundle bit_operations_syntax

text \<open>
  The RTSP client of the streaming application (\<^verbatim>\<open>src/apps/vpu_stream.c\<close>, \<^verbatim>\<open>parse_rtsp_url\<close> to
  \<^verbatim>\<open>rtsp_thread_main\<close>): the address of the source, the requests with their authorisation, the
  answers, the session description, and the loop that takes RTP packets out of the connection. C
  strings are lists of characters, a pointer into a string is an index or the rest of the string,
  and \<^verbatim>\<open>snprintf\<close> into an array of \<open>n\<close> bytes keeps \<open>n - 1\<close> characters. The log output is left out.
\<close>

section \<open>Text functions of the C library\<close>

definition crlf :: string where
  "crlf = [CHR 0x0D, CHR 0x0A]"

definition quoted :: "string \<Rightarrow> string" where
  "quoted s = CHR 0x22 # s @ [CHR 0x22]"

definition lower :: "char \<Rightarrow> char" where
  "lower c = (let n = of_char c :: nat in if 65 \<le> n \<and> n \<le> 90 then char_of (n + 32) else c)"

fun strcasestr :: "string \<Rightarrow> string \<Rightarrow> string option" where
  "strcasestr [] needle = (if needle = [] then Some [] else None)"
| "strcasestr (c # cs) needle =
     (if map lower (take (length needle) (c # cs)) = map lower needle then Some (c # cs) else strcasestr cs needle)"

text \<open>Searching from an index on, and the part of a string before the first of some characters.\<close>

definition find_from :: "string \<Rightarrow> string \<Rightarrow> nat \<Rightarrow> nat option" where
  "find_from s needle i = map_option (\<lambda>t. length s - length t) (str_find (drop i s) needle)"

definition case_from :: "string \<Rightarrow> string \<Rightarrow> nat \<Rightarrow> nat option" where
  "case_from s needle i = map_option (\<lambda>t. length s - length t) (strcasestr (drop i s) needle)"

definition upto_any :: "string \<Rightarrow> string \<Rightarrow> string" where
  "upto_any stops s = takeWhile (\<lambda>c. c \<notin> set stops) s"

definition skip_blanks :: "string \<Rightarrow> string" where
  "skip_blanks s = dropWhile (\<lambda>c. c = CHR '' '' \<or> c = CHR 0x09) s"

lemma skip_blanks_drop:
  "i < k \<Longrightarrow> k \<le> length s \<Longrightarrow> i < length s - length (skip_blanks (drop k s))"
  "0 < k \<Longrightarrow> k \<le> length s \<Longrightarrow> length (skip_blanks (drop k s)) < length s"
  using length_dropWhile_le[of "\<lambda>c. c = CHR '' '' \<or> c = CHR 0x09" "drop k s"] by (simp_all add: skip_blanks_def)

definition clip :: "nat \<Rightarrow> string \<Rightarrow> string" where
  "clip n s = take (n - 1) s"

definition cstr :: "u8 list \<Rightarrow> string" where
  "cstr bs = takeWhile (\<lambda>c. c \<noteq> CHR 0x00) (map (\<lambda>b. char_of (unat b)) bs)"

definition is_digit :: "char \<Rightarrow> bool" where
  "is_digit c \<longleftrightarrow> 48 \<le> (of_char c :: nat) \<and> (of_char c :: nat) \<le> 57"

definition digits_value :: "string \<Rightarrow> int" where
  "digits_value s = foldl (\<lambda>n c. 10 * n + (of_char c - 48)) 0 (takeWhile is_digit s)"

text \<open>\<^verbatim>\<open>atoi\<close> is \<^verbatim>\<open>strtol\<close> on the 32-bit target, which saturates.\<close>

definition atoi :: "string \<Rightarrow> int" where
  "atoi s =
     (let s = dropWhile is_space s;
          neg = (case s of c # _ \<Rightarrow> c = CHR ''-'' | [] \<Rightarrow> False);
          s = (case s of c # t \<Rightarrow> if c = CHR ''-'' \<or> c = CHR ''+'' then t else s | [] \<Rightarrow> s);
          n = (if neg then - digits_value s else digits_value s)
      in max (- (2 ^ 31)) (min (2 ^ 31 - 1) n))"

fun dec_nat :: "nat \<Rightarrow> string" where
  "dec_nat n = (if n < 10 then [char_of (48 + n)] else dec_nat (n div 10) @ [char_of (48 + n mod 10)])"

declare dec_nat.simps [simp del]

definition dec_int :: "int \<Rightarrow> string" where
  "dec_int n = (if n < 0 then CHR ''-'' # dec_nat (nat (- n)) else dec_nat (nat n))"

section \<open>The address of the source\<close>

record rtsp_url =
  host :: string
  path :: string
  auth :: string
  user :: string
  pass :: string
  realm :: string
  nonce :: string
  rtsp_port :: int

definition no_url :: rtsp_url where
  "no_url = \<lparr>host = [], path = [], auth = [], user = [], pass = [], realm = [], nonce = [], rtsp_port = 554\<rparr>"

definition rtsp_credentials :: "string \<Rightarrow> rtsp_url \<Rightarrow> rtsp_url option" where
  "rtsp_credentials userpass u =
     (if 192 \<le> length userpass then None
      else let u = u\<lparr>auth := b64_encode_basic (clip 192 userpass) 192\<rparr>
           in case str_index userpass (CHR '':'') of
                None \<Rightarrow> Some u
              | Some colon \<Rightarrow>
                  let user_len = length userpass - length colon; pass_len = length colon - 1
                  in if user_len = 0 \<or> 96 \<le> user_len \<or> 96 \<le> pass_len then None
                     else Some (u\<lparr>user := take user_len userpass, pass := tl colon\<rparr>))"

text \<open>The last colon separates the port.\<close>

definition rtsp_hostport :: "string \<Rightarrow> rtsp_url \<Rightarrow> rtsp_url option" where
  "rtsp_hostport hostport u =
     (if hostport = [] \<or> 160 \<le> length hostport then None
      else let (name, u) =
             (case str_index (rev hostport) (CHR '':'') of
                None \<Rightarrow> (hostport, u)
              | Some before \<Rightarrow> (rev (tl before), u\<lparr>rtsp_port := atoi (drop (length before) hostport)\<rparr>))
           in if 128 \<le> length name then None else Some (u\<lparr>host := name\<rparr>))"

definition parse_rtsp_url :: "string \<Rightarrow> rtsp_url option" where
  "parse_rtsp_url url =
     (if str_find url ''rtsp://'' \<noteq> Some url then None
      else do {
        let p = drop 7 url;
        slash \<leftarrow> str_index p (CHR ''/'');
        let before = take (length p - length slash) p;
        (hostpart, u) \<leftarrow>
          (case str_index before (CHR ''@'') of
             None \<Rightarrow> Some (before, no_url)
           | Some at' \<Rightarrow> do {
               u \<leftarrow> rtsp_credentials (take (length before - length at') before) no_url;
               Some (tl at', u) });
        u \<leftarrow> rtsp_hostport hostpart u;
        Some (u\<lparr>path := clip 256 slash\<rparr>) })"

section \<open>Requests\<close>

text \<open>
  The authorisation: 0 when there is no challenge to answer, -1 when an array is too small. \<open>ctx\<close> is
  the uninitialised buffer of the digest.
\<close>

definition rtsp_make_digest_auth :: "md5_ctx \<Rightarrow> nat \<Rightarrow> string \<Rightarrow> rtsp_url \<Rightarrow> string \<Rightarrow> int \<times> string" where
  "rtsp_make_digest_auth ctx dst_len url u method =
     (if user u = [] \<or> nonce u = [] \<or> realm u = [] then (0, [])
      else let a1 = user u @ '':'' @ realm u @ '':'' @ pass u; a2 = method @ '':'' @ url
           in if 384 \<le> length a1 \<or> 640 \<le> length a2 then (-1, [])
              else let resp_in = md5_hex ctx a1 @ '':'' @ nonce u @ '':'' @ md5_hex ctx a2
                   in if 256 \<le> length resp_in then (-1, [])
                      else let dst = ''Authorization: Digest username='' @ quoted (user u) @ '', realm='' @ quoted (realm u) @
                                 '', nonce='' @ quoted (nonce u) @ '', uri='' @ quoted url @ '', response='' @
                                 quoted (md5_hex ctx resp_in) @ crlf
                           in if length dst < dst_len then (1, dst) else (-1, clip dst_len dst))"

text \<open>A connection: the segments of bytes that will arrive, what has been sent, and \<^verbatim>\<open>cseq\<close>.\<close>

record rtsp_conn =
  rxs :: "u8 list list"
  tx :: out_file
  cseq :: int

definition rtsp_send :: "md5_ctx \<Rightarrow> string \<Rightarrow> rtsp_url \<Rightarrow> string \<Rightarrow> string \<Rightarrow> rtsp_conn \<Rightarrow> int \<times> rtsp_conn" where
  "rtsp_send ctx url u method extra c =
     (let (auth_type, a) = rtsp_make_digest_auth ctx 1200 url u method
      in if auth_type < 0 then (-1, c)
         else let a = (if auth_type = 0 \<and> auth u \<noteq> [] then ''Authorization: Basic '' @ auth u @ crlf else a)
              in if auth_type = 0 \<and> auth u \<noteq> [] \<and> 1200 \<le> length a then (-1, c)
                 else let req = method @ '' '' @ url @ '' RTSP/1.0'' @ crlf @ ''CSeq: '' @ dec_int (cseq c) @ crlf @
                            ''User-Agent: toon-vpu-stream'' @ crlf @ a @ extra @ crlf;
                          c = c\<lparr>cseq := cseq c + 1\<rparr>
                      in if 3072 \<le> length req then (-1, c)
                         else let (rc, f) = write_all (map of_char req) (tx c) in (rc, c\<lparr>tx := f\<rparr>))"

section \<open>Reading\<close>

text \<open>
  \<^verbatim>\<open>read\<close> returns what has arrived, at most one segment; an empty result is the end of the
  connection or an error.
\<close>

definition sock_read :: "nat \<Rightarrow> u8 list list \<Rightarrow> u8 list \<times> u8 list list" where
  "sock_read n segs =
     (case segs of
        [] \<Rightarrow> ([], [])
      | seg # rest \<Rightarrow> (take n seg, if n < length seg then drop n seg # rest else rest))"

lemma sock_read_le: "sock_read n segs = (bs, rest) \<Longrightarrow> length (concat rest) \<le> length (concat segs)"
  by (auto simp: sock_read_def split: list.splits if_splits)

lemma sock_read_less: "sock_read n segs = (bs, rest) \<Longrightarrow> bs \<noteq> [] \<Longrightarrow> length (concat rest) < length (concat segs)"
  by (auto simp: sock_read_def split: list.splits if_splits)

lemma sock_read_Cons: "sock_read n segs = (b # bs, rest) \<Longrightarrow> length (concat rest) < length (concat segs)"
  by (rule sock_read_less) auto

text \<open>The loop of \<^verbatim>\<open>rtsp_read_full\<close> and of the body in \<^verbatim>\<open>rtsp_read_response\<close>: \<open>got\<close> has arrived already.\<close>

function read_loop :: "nat \<Rightarrow> u8 list \<Rightarrow> u8 list list \<Rightarrow> bool \<times> u8 list \<times> u8 list list" where
  "read_loop len got segs =
     (if length got < len
      then case sock_read (len - length got) segs of
             (bs, segs) \<Rightarrow> if bs = [] then (False, got, segs) else read_loop len (got @ bs) segs
      else (True, got, segs))"
  by pat_completeness auto
termination
  by (relation "measure (\<lambda>(len, got, segs). len - length got)") (auto intro!: diff_less_mono2)

declare read_loop.simps [simp del]

definition rtsp_read_full :: "nat \<Rightarrow> u8 list list \<Rightarrow> bool \<times> u8 list \<times> u8 list list" where
  "rtsp_read_full len segs = read_loop len [] segs"

fun discard_loop :: "nat \<Rightarrow> u8 list list \<Rightarrow> bool \<times> u8 list list" where
  "discard_loop len segs =
     (if 0 < len
      then case rtsp_read_full (min len 512) segs of
             (ok, _, segs) \<Rightarrow> if \<not> ok then (False, segs) else discard_loop (len - min len 512) segs
      else (True, segs))"

declare discard_loop.simps [simp del]

definition rtsp_discard_interleaved :: "u8 list list \<Rightarrow> bool \<times> u8 list list" where
  "rtsp_discard_interleaved segs =
     (case rtsp_read_full 3 segs of
        (ok, h, segs) \<Rightarrow> if \<not> ok then (False, segs) else discard_loop (unat (h ! 1) * 256 + unat (h ! 2)) segs)"

lemma read_loop_le: "read_loop len got segs = (ok, bs, rest) \<Longrightarrow> length (concat rest) \<le> length (concat segs)"
proof (induction len got segs rule: read_loop.induct)
  case (1 len got segs)
  obtain xs r where x: "sock_read (len - length got) segs = (xs, r)" by (cases "sock_read (len - length got) segs")
  then have "length (concat r) \<le> length (concat segs)" by (rule sock_read_le)
  then show ?case using 1 x by (auto simp: read_loop.simps[of len got segs] split: if_splits)
qed

lemma discard_le: "discard_loop len segs = (ok, rest) \<Longrightarrow> length (concat rest) \<le> length (concat segs)"
proof (induction len segs rule: discard_loop.induct)
  case (1 len segs)
  obtain o' xs r where x: "rtsp_read_full (min len 512) segs = (o', xs, r)" by (cases "rtsp_read_full (min len 512) segs")
  have le: "length (concat r) \<le> length (concat segs)" using x read_loop_le by (auto simp: rtsp_read_full_def)
  show ?case
  proof (cases "0 < len \<and> o'")
    case True
    then have "discard_loop (len - min len 512) r = (ok, rest)" using 1(2) x by (simp add: discard_loop.simps[of len segs])
    from 1(1)[OF conjunct1[OF True] x[symmetric] refl _ this] True show ?thesis using le by simp
  qed (use 1(2) x le in \<open>auto simp: discard_loop.simps[of len segs] split: if_splits\<close>)
qed

lemma interleaved_le: "rtsp_discard_interleaved segs = (ok, rest) \<Longrightarrow> length (concat rest) \<le> length (concat segs)"
proof -
  assume a: "rtsp_discard_interleaved segs = (ok, rest)"
  obtain o' h r where x: "rtsp_read_full 3 segs = (o', h, r)" by (cases "rtsp_read_full 3 segs")
  then have "length (concat r) \<le> length (concat segs)" using read_loop_le unfolding rtsp_read_full_def by blast
  then show "length (concat rest) \<le> length (concat segs)"
    using a x discard_le[of "unat (h ! 1) * 256 + unat (h ! 2)" r ok rest] by (auto simp: rtsp_discard_interleaved_def split: if_splits)
qed

definition DOLLAR :: u8 where "DOLLAR = of_char (CHR ''$'')"
definition LETTER_R :: u8 where "LETTER_R = of_char (CHR ''R'')"

definition blank_line :: "u8 list" where
  "blank_line = map of_char (crlf @ crlf)"

text \<open>The header, byte by byte; packets of a running stream before it are skipped.\<close>

function header_loop :: "nat \<Rightarrow> u8 list \<Rightarrow> u8 list list \<Rightarrow> bool \<times> u8 list \<times> u8 list list" where
  "header_loop hdr_max hdr segs =
     (if length hdr < hdr_max - 1
      then case sock_read 1 segs of
             ([], segs) \<Rightarrow> (False, hdr, segs)
           | (ch # _, segs) \<Rightarrow>
               if hdr = [] \<and> ch = DOLLAR
               then case rtsp_discard_interleaved segs of
                      (ok, segs) \<Rightarrow> if \<not> ok then (False, hdr, segs) else header_loop hdr_max hdr segs
               else if hdr = [] \<and> ch \<noteq> LETTER_R then header_loop hdr_max hdr segs
               else if 4 \<le> length (hdr @ [ch]) \<and> drop (length (hdr @ [ch]) - 4) (hdr @ [ch]) = blank_line
               then (True, hdr @ [ch], segs)
               else header_loop hdr_max (hdr @ [ch]) segs
      else (True, hdr, segs))"
  by pat_completeness auto
termination
  by (relation "measure (\<lambda>(m, h, segs). length (concat segs))")
    (auto dest!: sock_read_less[OF sym] dest: interleaved_le[OF sym] intro: le_less_trans)

declare header_loop.simps [simp del]

definition content_length :: "string \<Rightarrow> int" where
  "content_length hdr = (case strcasestr hdr ''Content-Length:'' of None \<Rightarrow> 0 | Some p \<Rightarrow> atoi (drop 15 p))"

definition rtsp_read_response :: "nat \<Rightarrow> nat \<Rightarrow> u8 list list \<Rightarrow> bool \<times> string \<times> string \<times> u8 list list" where
  "rtsp_read_response hdr_max body_max segs =
     (case header_loop hdr_max [] segs of
        (ok, h, segs) \<Rightarrow>
          let hdr = cstr h; n = content_length hdr
          in if \<not> ok then (False, hdr, [], segs)
             else if int body_max - 1 < n then (False, hdr, [], segs)
             else case read_loop (nat n) [] segs of
                    (ok, b, segs) \<Rightarrow> (ok \<and> str_find hdr ''RTSP/1.0 200'' \<noteq> None, hdr, cstr b, segs))"

section \<open>Challenges, descriptions and sessions\<close>

text \<open>
  A parameter of a challenge. The search goes on after an occurrence of the name inside a word or
  without an equals sign. The names are not empty, so that the index grows.
\<close>

definition is_word :: "char \<Rightarrow> bool" where
  "is_word c \<longleftrightarrow> is_digit c \<or> 97 \<le> (of_char (lower c) :: nat) \<and> (of_char (lower c) :: nat) \<le> 122 \<or> c = CHR ''_''"

definition param_value :: "nat \<Rightarrow> string \<Rightarrow> string option" where
  "param_value out_len q =
     (if take 1 q = [CHR 0x22]
      then case str_index (tl q) (CHR 0x22) of
             None \<Rightarrow> None
           | Some e \<Rightarrow> (let out = clip out_len (take (length (tl q) - length e) (tl q)) in if out = [] then None else Some out)
      else let out = clip out_len (upto_any ('', '' @ [CHR 0x09] @ crlf) q) in if out = [] then None else Some out)"

function param_loop :: "string \<Rightarrow> string \<Rightarrow> nat \<Rightarrow> nat \<Rightarrow> string option" where
  "param_loop s name out_len i =
     (case case_from s name i of
        None \<Rightarrow> None
      | Some p \<Rightarrow>
          let q = p + length name;
              q' = length s - length (skip_blanks (drop q s))
          in if name = [] \<or> length s < q \<or> p < i then None
             else if p \<noteq> 0 \<and> is_word (s ! (p - 1)) then param_loop s name out_len q
             else if take 1 (drop q' s) \<noteq> ''='' then param_loop s name out_len q'
             else param_value out_len (skip_blanks (drop (q' + 1) s)))"
  by pat_completeness auto
termination
  by (relation "measure (\<lambda>(s, name, n, i). length s - i)")
    (auto simp: not_le not_less neq_Nil_conv intro!: diff_less_mono2 skip_blanks_drop)

declare param_loop.simps [simp del]

definition rtsp_digest_param :: "string \<Rightarrow> string \<Rightarrow> nat \<Rightarrow> string option" where
  "rtsp_digest_param s name out_len = param_loop s name out_len 0"

definition rtsp_parse_digest_challenge :: "string \<Rightarrow> rtsp_url \<Rightarrow> rtsp_url option" where
  "rtsp_parse_digest_challenge hdr u = do {
     a \<leftarrow> strcasestr hdr ''WWW-Authenticate:'';
     _ \<leftarrow> strcasestr a ''Digest'';
     r \<leftarrow> rtsp_digest_param a ''realm'' 128;
     n \<leftarrow> rtsp_digest_param a ''nonce'' 128;
     Some (u\<lparr>realm := r, nonce := n\<rparr>) }"

definition rtsp_abs_url :: "nat \<Rightarrow> string \<Rightarrow> string \<Rightarrow> string" where
  "rtsp_abs_url dst_len base control =
     (if control = [] \<or> control = ''*'' then clip dst_len base
      else if take 7 control = ''rtsp://'' then clip dst_len control
      else if dst_len < length base + 1 + length control + 1 then []
      else base @ ''/'' @ control)"

text \<open>The last control attribute before \<open>fin\<close>, from the one at \<open>p\<close> on.\<close>

function last_control :: "string \<Rightarrow> nat \<Rightarrow> nat \<Rightarrow> nat" where
  "last_control sdp fin p =
     (case find_from sdp ''a=control:'' (p + 1) of
        None \<Rightarrow> p
      | Some next \<Rightarrow> if p < next \<and> next < fin then last_control sdp fin next else p)"
  by pat_completeness auto
termination
  by (relation "measure (\<lambda>(sdp, fin, p). fin - p)") auto

declare last_control.simps [simp del]

definition sdp_control :: "nat \<Rightarrow> string \<Rightarrow> string" where
  "sdp_control control_len sdp =
     (let (start, fin) =
        (case find_from sdp ''m=video'' 0 of
           None \<Rightarrow> (0, length sdp)
         | Some p \<Rightarrow> (p, case find_from sdp (CHR 0x0A # ''m='') (p + 1) of None \<Rightarrow> length sdp | Some n \<Rightarrow> n))
      in case find_from sdp ''a=control:'' start of
           None \<Rightarrow> []
         | Some p \<Rightarrow>
             let p = (if p < fin then last_control sdp fin p else p)
             in clip control_len (upto_any crlf (drop (p + 10) sdp)))"

definition add_param_set :: "string \<Rightarrow> u8 list \<Rightarrow> u8 list" where
  "add_param_set p spspps =
     (case b64_decode p 256 of
        Some tmp \<Rightarrow> if 0 < length tmp \<and> length spspps + length tmp + 4 < 512 then spspps @ sc @ tmp else spspps
      | None \<Rightarrow> spspps)"

definition sdp_parse_h264 :: "nat \<Rightarrow> string \<Rightarrow> string \<times> u8 list" where
  "sdp_parse_h264 control_len sdp =
     (sdp_control control_len sdp,
      case str_find sdp ''sprop-parameter-sets='' of
        None \<Rightarrow> []
      | Some p \<Rightarrow>
          let p = drop 21 p; spspps = add_param_set p []
          in case str_index p (CHR '','') of None \<Rightarrow> spspps | Some e \<Rightarrow> add_param_set (tl e) spspps)"

text \<open>The parameter sets of the command line: first a sequence, then a picture parameter set.\<close>

function sprop_loop :: "nat \<Rightarrow> string \<Rightarrow> u8 list \<Rightarrow> u8 list option" where
  "sprop_loop count p spspps =
     (if p \<noteq> [] \<and> count < 2
      then do {
        tmp \<leftarrow> b64_decode p 256;
        (if tmp = [] \<or> 512 \<le> length spspps + length tmp + 4 then None
         else if count = 0 \<and> tmp ! 0 AND 0x1f \<noteq> 7 \<or> count = 1 \<and> tmp ! 0 AND 0x1f \<noteq> 8 then None
         else case str_index p (CHR '','') of
                None \<Rightarrow> Some (spspps @ sc @ tmp)
              | Some e \<Rightarrow> sprop_loop (count + 1) (tl e) (spspps @ sc @ tmp)) }
      else if 1 \<le> count then Some spspps else None)"
  by pat_completeness auto
termination
  by (relation "measure (\<lambda>(count, p, b). 2 - count)") auto

declare sprop_loop.simps [simp del]

definition parse_h264_sprop :: "string \<Rightarrow> u8 list option" where
  "parse_h264_sprop sprop = sprop_loop 0 sprop []"

definition rtsp_parse_session :: "nat \<Rightarrow> string \<Rightarrow> string" where
  "rtsp_parse_session session_len hdr =
     (case str_find hdr ''Session:'' of
        None \<Rightarrow> []
      | Some p \<Rightarrow> clip session_len (upto_any ('';'' @ crlf) (skip_blanks (drop 8 p))))"

section \<open>The session\<close>

definition rtsp_ask :: "md5_ctx \<Rightarrow> string \<Rightarrow> rtsp_url \<Rightarrow> string \<Rightarrow> string \<Rightarrow> rtsp_conn \<Rightarrow>
    (bool \<times> string \<times> string) \<times> rtsp_conn" where
  "rtsp_ask ctx url u method extra c =
     (let (rc, c) = rtsp_send ctx url u method extra c
      in if rc < 0 then ((False, [], []), c)
         else case rtsp_read_response 2048 4096 (rxs c) of
                (ok, hdr, body, segs) \<Rightarrow> ((ok, hdr, body), c\<lparr>rxs := segs\<rparr>))"

text \<open>A refused description is asked for once more when the refusal has a challenge.\<close>

definition rtsp_describe :: "md5_ctx \<Rightarrow> string \<Rightarrow> rtsp_url \<Rightarrow> rtsp_conn \<Rightarrow> (string \<times> rtsp_url) option \<times> rtsp_conn" where
  "rtsp_describe ctx base u c =
     (let ((ok, hdr, body), c) = rtsp_ask ctx base u ''DESCRIBE'' (''Accept: application/sdp'' @ crlf) c
      in if ok then (Some (body, u), c)
         else case rtsp_parse_digest_challenge hdr u of
                None \<Rightarrow> (None, c)
              | Some u \<Rightarrow>
                  let ((ok, hdr, body), c) = rtsp_ask ctx base u ''DESCRIBE'' (''Accept: application/sdp'' @ crlf) c
                  in (if ok then Some (body, u) else None, c))"

definition rtsp_play :: "md5_ctx \<Rightarrow> string \<Rightarrow> rtsp_url \<Rightarrow> rtsp_conn \<Rightarrow> u8 list option \<times> rtsp_conn" where
  "rtsp_play ctx base u c =
     (case rtsp_describe ctx base u c of
        (None, c) \<Rightarrow> (None, c)
      | (Some (body, u), c) \<Rightarrow>
          let (control, spspps) = sdp_parse_h264 256 body;
              setup_url = rtsp_abs_url 512 base control
          in if setup_url = [] then (None, c)
             else let ((ok, hdr, _), c) = rtsp_ask ctx setup_url u ''SETUP''
                        (''Transport: RTP/AVP/TCP;unicast;interleaved=0-1'' @ crlf) c;
                      session = rtsp_parse_session 128 hdr
                  in if \<not> ok \<or> session = [] then (None, c)
                     else let ((ok, _, _), c) = rtsp_ask ctx base u ''PLAY'' (clip 192 (''Session: '' @ session @ crlf)) c
                          in (if ok then Some spspps else None, c))"

text \<open>
  The packets of channel 0 go to the receiver; anything that is not a packet is skipped. The three
  bytes after the dollar sign are expected from one \<^verbatim>\<open>read\<close>.
\<close>

function media_loop :: "u8 list \<Rightarrow> u8 list list \<Rightarrow> h264_rtp_state \<Rightarrow> out_file \<Rightarrow> out_file option" where
  "media_loop spspps segs st f =
     (case sock_read 1 segs of
        ([], segs) \<Rightarrow> Some f
      | (ch # _, segs) \<Rightarrow>
          if ch \<noteq> DOLLAR then media_loop spspps segs st f
          else case sock_read 3 segs of
                 (h, segs) \<Rightarrow>
                   if length h \<noteq> 3 then Some f
                   else if unat (h ! 1) * 256 + unat (h ! 2) = 0 then Some f
                   else case read_loop (unat (h ! 1) * 256 + unat (h ! 2)) [] segs of
                          (ok, pkt, segs) \<Rightarrow>
                            if \<not> ok then Some f
                            else if h ! 0 \<noteq> 0 then media_loop spspps segs st f
                            else case handle_rtp_h264 st f pkt spspps of
                                   None \<Rightarrow> None
                                 | Some (rc, st, f) \<Rightarrow> if rc < 0 then Some f else media_loop spspps segs st f)"
  by pat_completeness auto
termination
  by (relation "measure (\<lambda>(sp, segs, st, f). length (concat segs))"; clarsimp)
    (fastforce dest: sock_read_Cons[OF sym] sock_read_le[OF sym] read_loop_le[OF sym])+

declare media_loop.simps [simp del]

text \<open>
  The thread; \<open>connect\<close> stands for the network (\<^verbatim>\<open>tcp_connect_host\<close>): a refused connection is
  \<open>None\<close>. The result is what was sent to the source and to the decoder.
\<close>

definition rtsp_base :: "rtsp_url \<Rightarrow> string" where
  "rtsp_base u = clip 512 (''rtsp://'' @ host u @ '':'' @ dec_int (rtsp_port u) @ path u)"

definition rtsp_thread_main :: "md5_ctx \<Rightarrow> (string \<Rightarrow> int \<Rightarrow> (u8 list list \<times> out_file) option) \<Rightarrow> string \<Rightarrow> out_file \<Rightarrow>
    (out_file option \<times> out_file) option" where
  "rtsp_thread_main ctx connect url f =
     (case parse_rtsp_url url of
        None \<Rightarrow> Some (None, f)
      | Some u \<Rightarrow>
          case connect (host u) (rtsp_port u) of
            None \<Rightarrow> Some (None, f)
          | Some (segs, t) \<Rightarrow>
              case rtsp_play ctx (rtsp_base u) u \<lparr>rxs = segs, tx = t, cseq = 1\<rparr> of
                (None, c) \<Rightarrow> Some (Some (tx c), f)
              | (Some spspps, c) \<Rightarrow>
                  let (rc, f) = (if spspps \<noteq> [] then write_all spspps f else (0, f))
                  in if rc < 0 then Some (Some (tx c), f)
                     else do { f \<leftarrow> media_loop spspps (rxs c) rtp_zero f; Some (Some (tx c), f) })"

end
