(* ===== verification/Stream_Delivery.thy ===== *)
theory Stream_Delivery
  imports Stream_RTP
begin

unbundle bit_operations_syntax

text \<open>
  What the receiver of \<^theory_text>\<open>Stream_RTP\<close> delivers: the packets that a sender following RFC 6184
  makes of an access unit, single units, fragments and aggregation packets in any mixture, with
  contributing sources and header extensions, come out as that access unit. After a loss, the next
  intact access unit can be lost too.
\<close>

section \<open>The sender\<close>

text \<open>
  An access unit is a list of items: a unit in a packet of its own, a unit in fragments with the
  given lengths of all but the last, or units aggregated in one packet.
\<close>

datatype item = Whole "u8 list" | Fragments "u8 list" "nat list" | Aggregate u8 "u8 list list"

type_synonym plan = "item list"

fun units_of :: "item \<Rightarrow> u8 list list" where
  "units_of (Whole nal) = [nal]"
| "units_of (Fragments nal ns) = [nal]"
| "units_of (Aggregate b nals) = nals"

fun chunks :: "nat list \<Rightarrow> u8 list \<Rightarrow> u8 list list" where
  "chunks [] bs = [bs]"
| "chunks (n # ns) bs = take n bs # chunks ns (drop n bs)"

definition fu_packet :: "u8 \<Rightarrow> bool \<Rightarrow> bool \<Rightarrow> u8 list \<Rightarrow> u8 list" where
  "fu_packet hdr start fin body =
     ((hdr AND 0xe0) OR 28) # ((if start then 0x80 else 0) OR (if fin then 0x40 else 0) OR (hdr AND 0x1f)) # body"

fun fu_rest :: "u8 \<Rightarrow> u8 list list \<Rightarrow> u8 list list" where
  "fu_rest hdr [] = []"
| "fu_rest hdr [b] = [fu_packet hdr False True b]"
| "fu_rest hdr (b # bs) = fu_packet hdr False False b # fu_rest hdr bs"

definition stap_entry :: "u8 list \<Rightarrow> u8 list" where
  "stap_entry nal = of_nat (length nal div 256) # of_nat (length nal) # nal"

definition stap_packet :: "u8 \<Rightarrow> u8 list list \<Rightarrow> u8 list" where
  "stap_packet b nals = ((b AND 0xe0) OR 24) # concat (map stap_entry nals)"

fun payloads :: "item \<Rightarrow> u8 list list" where
  "payloads (Whole nal) = [nal]"
| "payloads (Fragments nal ns) =
     (case chunks ns (tl nal) of b # bs \<Rightarrow> fu_packet (hd nal) True (bs = []) b # fu_rest (hd nal) bs)"
| "payloads (Aggregate b nals) = [stap_packet b nals]"

text \<open>
  The header of a packet, with what the sender is free to choose: the payload type, the source, the
  contributing sources and a header extension (its profile and its words).
\<close>

record rtp_shape =
  rtp_pt :: u8
  rtp_ssrc :: "u8 list"
  rtp_csrc :: "u8 list"
  rtp_ext :: "(u8 list \<times> u8 list) option"

definition shape_ok :: "rtp_shape \<Rightarrow> bool" where
  "shape_ok h \<longleftrightarrow> length (rtp_ssrc h) = 4 \<and> length (rtp_csrc h) = 4 * (length (rtp_csrc h) div 4) \<and> length (rtp_csrc h) div 4 < 16 \<and>
     (case rtp_ext h of None \<Rightarrow> True
      | Some (prof, ws) \<Rightarrow> length prof = 2 \<and> length ws = 4 * (length ws div 4) \<and> length ws div 4 < 65536)"

definition ext_bytes :: "rtp_shape \<Rightarrow> u8 list" where
  "ext_bytes h = (case rtp_ext h of None \<Rightarrow> []
     | Some (prof, ws) \<Rightarrow> prof @ [of_nat (length ws div 4 div 256), of_nat (length ws div 4)] @ ws)"

definition rtp_packet :: "rtp_shape \<Rightarrow> u32 \<Rightarrow> u32 \<Rightarrow> bool \<Rightarrow> u8 list \<Rightarrow> u8 list" where
  "rtp_packet h ts seq marker payload =
     [0x80 OR (if rtp_ext h = None then 0 else 0x10) OR of_nat (length (rtp_csrc h) div 4),
      (if marker then 0x80 else 0) OR (rtp_pt h AND 0x7f), ucast (drop_bit 8 seq), ucast seq,
      ucast (drop_bit 24 ts), ucast (drop_bit 16 ts), ucast (drop_bit 8 ts), ucast ts] @
     rtp_ssrc h @ rtp_csrc h @ ext_bytes h @ payload"

text \<open>Packets with consecutive numbers; the last one of the access unit carries the marker.\<close>

fun number :: "u32 \<Rightarrow> u32 \<Rightarrow> (rtp_shape \<times> u8 list) list \<Rightarrow> u8 list list" where
  "number ts seq [] = []"
| "number ts seq ((h, p) # ps) = rtp_packet h ts seq (ps = []) p # number ts ((seq + 1) AND 0xffff) ps"

definition send :: "u32 \<Rightarrow> u32 \<Rightarrow> rtp_shape list \<Rightarrow> plan \<Rightarrow> u8 list list" where
  "send ts seq hs us = number ts seq (zip hs (concat (map payloads us)))"

definition nal_type_of :: "u8 list \<Rightarrow> nat" where
  "nal_type_of nal = unat (hd nal AND 0x1f)"

definition annexb :: "u8 list \<Rightarrow> u8 list \<Rightarrow> u8 list" where
  "annexb spspps nal = (if nal_type_of nal = 5 then spspps else []) @ sc @ nal"

definition access_unit :: "u8 list \<Rightarrow> plan \<Rightarrow> u8 list" where
  "access_unit spspps us = concat (map (annexb spspps) (concat (map units_of us)))"

lemma access_unit_simps [simp]: "access_unit sp [] = []"
  "access_unit sp (u # us) = concat (map (annexb sp) (units_of u)) @ access_unit sp us"
  by (simp_all add: access_unit_def)

definition nal_ok :: "u8 list \<Rightarrow> bool" where
  "nal_ok nal \<longleftrightarrow> nal \<noteq> [] \<and> 1 \<le> nal_type_of nal \<and> nal_type_of nal \<le> 23"

fun item_ok :: "item \<Rightarrow> bool" where
  "item_ok (Whole nal) = nal_ok nal"
| "item_ok (Fragments nal ns) = (nal_ok nal \<and> length nal \<le> FU_SIZE)"
| "item_ok (Aggregate b nals) = (nals \<noteq> [] \<and> list_all (\<lambda>nal. nal_ok nal \<and> length nal < 65536) nals)"

definition sendable :: "u8 list \<Rightarrow> rtp_shape list \<Rightarrow> plan \<Rightarrow> bool" where
  "sendable spspps hs us \<longleftrightarrow> us \<noteq> [] \<and> list_all item_ok us \<and> length hs = length (concat (map payloads us)) \<and>
     list_all shape_ok hs \<and> length (access_unit spspps us) \<le> AU_SIZE"

section \<open>One packet\<close>

lemma ts_bytes:
  "push_bit 24 (ucast (ucast (drop_bit 24 ts) :: u8)) OR push_bit 16 (ucast (ucast (drop_bit 16 ts) :: u8)) OR
   push_bit 8 (ucast (ucast (drop_bit 8 ts) :: u8)) OR ucast (ucast ts :: u8) = (ts :: u32)" (is "?l = _")
proof (rule bit_word_eqI)
  fix n assume "n < LENGTH(32)"
  then consider "n < 8" | "8 \<le> n" "n < 16" | "16 \<le> n" "n < 24" | "24 \<le> n" "n < 32" by force
  then show "bit ?l n = bit ts n" by cases (auto simp: bit_simps)
qed

lemma seq_bytes:
  assumes "seq AND 0xffff = seq"
  shows "push_bit 8 (ucast (ucast (drop_bit 8 seq) :: u8)) OR ucast (ucast seq :: u8) = (seq :: u32)"
proof -
  have "take_bit 16 seq = seq" using assms by (simp add: take_bit_eq_mask mask_eq_exp_minus_1)
  then have "n < 16" if "bit seq n" for n using that by (metis bit_take_bit_iff)
  then show ?thesis by (intro bit_word_eqI) (force simp: bit_simps not_less)
qed

lemma first_byte:
  assumes "n < 16"
  shows "(0x80 OR (if b then 0 else 0x10) OR of_nat n :: u8) AND 0x0f = of_nat n" "unat (of_nat n :: u8) = n"
    "(0x80 OR (if b then 0 else 0x10) OR of_nat n :: u8) AND 0x10 = 0 \<longleftrightarrow> b" "drop_bit 6 (0x80 OR (if b then 0 else 0x10) OR of_nat n :: u8) = 2"
proof -
  have "n \<in> {0, 1, 2, 3, 4, 5, 6, 7, 8, 9, 10, 11, 12, 13, 14, 15}" using assms by (simp add: numeral_eq_Suc less_Suc_eq)
  then show "(0x80 OR (if b then 0 else 0x10) OR of_nat n :: u8) AND 0x0f = of_nat n" "unat (of_nat n :: u8) = n"
    "(0x80 OR (if b then 0 else 0x10) OR of_nat n :: u8) AND 0x10 = 0 \<longleftrightarrow> b" "drop_bit 6 (0x80 OR (if b then 0 else 0x10) OR of_nat n :: u8) = 2"
    by (elim insertE; cases b; simp)+
qed

lemma two_bytes: "n < 65536 \<Longrightarrow> 256 * unat (of_nat (n div 256) :: u8) + unat (of_nat n :: u8) = n"
  by (simp add: unsigned_of_nat take_bit_nat_def)

lemma packet_carries:
  assumes "shape_ok h" "p \<noteq> []"
  shows "rtp_carries (rtp_packet h ts seq m p) p"
proof -
  let ?b = "0x80 OR (if rtp_ext h = None then 0 else 0x10) OR of_nat (length (rtp_csrc h) div 4) :: u8"
  let ?h = "[?b, (if m then 0x80 else 0) OR (rtp_pt h AND 0x7f), ucast (drop_bit 8 seq), ucast seq,
      ucast (drop_bit 24 ts), ucast (drop_bit 16 ts), ucast (drop_bit 8 ts), ucast ts] @ rtp_ssrc h"
  have n: "length (rtp_csrc h) div 4 < 16" using assms(1) by (simp add: shape_ok_def)
  note b = first_byte [OF n]
  have b3: "?b AND 0x10 = 0 \<longleftrightarrow> rtp_ext h = None" by (rule b(3))
  have "if ?b AND 0x10 = 0 then ext_bytes h = [] else 4 \<le> length (ext_bytes h) \<and>
      length (ext_bytes h) = 4 + 4 * (256 * unat (ext_bytes h ! 2) + unat (ext_bytes h ! 3))"
  proof (cases "rtp_ext h")
    case (Some x)
    obtain prof ws where x: "x = (prof, ws)" by (cases x)
    have l: "length prof = 2" "length ws = 4 * (length ws div 4)" "length ws div 4 < 65536" using assms(1) Some x by (simp_all add: shape_ok_def)
    obtain u v where "prof = [u, v]" using l(1) by (auto simp: length_Suc_conv numeral_2_eq_2)
    then show ?thesis unfolding b3 using Some x l(2) two_bytes [OF l(3)] by (simp add: ext_bytes_def)
  next
    case None
    then show ?thesis unfolding b3 by (simp add: ext_bytes_def)
  qed
  moreover have "length ?h = 12" "length (rtp_csrc h) = 4 * unat (?h ! 0 AND 0x0f)" "?h ! 0 = ?b" using assms(1) b by (simp_all add: shape_ok_def)
  moreover have "rtp_packet h ts seq m p = ?h @ rtp_csrc h @ ext_bytes h @ p" by (simp add: rtp_packet_def)
  ultimately show ?thesis unfolding rtp_carries_def using assms(2) by (metis (no_types, lifting))
qed

lemma packet_fields:
  assumes "shape_ok h"
  shows "12 \<le> length (rtp_packet h ts seq m p)" "\<exists>b. pkt_at (rtp_packet h ts seq m p) 0 = Some b \<and> drop_bit 6 b = 2"
    "pkt_at (rtp_packet h ts seq m p) 1 = Some ((if m then 0x80 else 0) OR (rtp_pt h AND 0x7f))"
    "rtp_timestamp (rtp_packet h ts seq m p) = Some ts"
    "p \<noteq> [] \<Longrightarrow> \<exists>off. rtp_payload (rtp_packet h ts seq m p) = Some (Some off) \<and> drop off (rtp_packet h ts seq m p) = p"
    "pkt_at (rtp_packet h ts seq m p) 2 = Some (ucast (drop_bit 8 seq))" "pkt_at (rtp_packet h ts seq m p) 3 = Some (ucast seq)"
proof -
  have n: "length (rtp_csrc h) div 4 < 16" "length (rtp_ssrc h) = 4" using assms(1) by (simp_all add: shape_ok_def)
  show len: "12 \<le> length (rtp_packet h ts seq m p)" using n(2) by (simp add: rtp_packet_def)
  show "\<exists>b. pkt_at (rtp_packet h ts seq m p) 0 = Some b \<and> drop_bit 6 b = 2"
    using first_byte(4) [OF n(1)] by (auto simp: rtp_packet_def pkt_at_def)
  show "\<exists>off. rtp_payload (rtp_packet h ts seq m p) = Some (Some off) \<and> drop off (rtp_packet h ts seq m p) = p" if "p \<noteq> []"
    using carries_iff [OF len] packet_carries [OF assms that] by force
qed (use ts_bytes[of ts] in \<open>simp_all add: rtp_packet_def pkt_at_def rtp_timestamp_def\<close>)

text \<open>The state before the packet number \<open>seq\<close> of an access unit of which \<open>bs\<close> is there.\<close>

definition next_pkt :: "u32 \<Rightarrow> u8 list \<Rightarrow> u32 \<Rightarrow> h264_rtp_state \<Rightarrow> bool" where
  "next_pkt ts bs seq st \<longleftrightarrow> au st = bs \<and> \<not> au_bad st \<and> \<not> need_idr st \<and>
     (have_seq st \<longrightarrow> (last_seq st + 1) AND 0xffff = seq) \<and> (bs = [] \<or> au_have_ts st \<and> au_ts st = ts)"

definition begun :: "u32 \<Rightarrow> u32 \<Rightarrow> h264_rtp_state \<Rightarrow> h264_rtp_state" where
  "begun ts seq st = st\<lparr>have_seq := True, last_seq := seq, au_have_ts := True, au_ts := ts\<rparr>"

lemma packet_gap:
  assumes "seq AND 0xffff = seq" "shape_ok h" "have_seq st \<longrightarrow> (g \<longleftrightarrow> seq \<noteq> (last_seq st + 1) AND 0xffff)" "\<not> have_seq st \<longrightarrow> \<not> g"
  shows "rtp_h264_seq_gap st (rtp_packet h ts seq m p) =
    Some (g, if g then st\<lparr>last_seq := seq, fu_active := False, fu := [], need_idr := True, gap_logs := gap_logs st + 1\<rparr>
      else st\<lparr>have_seq := True, last_seq := seq\<rparr>)"
proof -
  note fields = packet_fields [OF assms(2)]
  have "st\<lparr>last_seq := seq\<rparr> = st\<lparr>have_seq := True, last_seq := seq\<rparr>" if "have_seq st" using that by simp
  then show ?thesis using seq_bytes[OF assms(1)] fields(1) [of ts seq m p] assms(3,4)
    by (cases "have_seq st") (auto simp: rtp_h264_seq_gap_def fields(6,7) Let_def)
qed

lemma handle_step:
  assumes "shape_ok h" "p \<noteq> []" "rtp_h264_seq_gap st (rtp_packet h ts seq m p) = Some (g, st1)"
    and "rtp_payload_h264 sp p g (rtp_new_au ts g st1) = Some (True, st')"
  shows "handle_rtp_h264 st f (rtp_packet h ts seq m p) sp = Some (maybe_flush m st' f)"
proof -
  let ?pkt = "rtp_packet h ts seq m p"
  note fields = packet_fields [OF assms(1)]
  obtain b where b: "pkt_at ?pkt 0 = Some b" "drop_bit 6 b = 2" using fields(2) by blast
  obtain off where off: "rtp_payload ?pkt = Some (Some off)" "drop off ?pkt = p" using fields(5) assms(2) by blast
  define c where "c = (if m then 0x80 else 0) OR (rtp_pt h AND 0x7f)"
  have "c AND 0x80 = (if m then 0x80 else 0)" by (simp add: c_def bit.conj_disj_distrib2 and.assoc)
  then have m: "c AND 0x80 \<noteq> 0 \<longleftrightarrow> m" by simp
  show ?thesis
    using fields(1) [of ts seq m p] b off m assms(3,4)
    by (simp add: handle_rtp_h264_def fields(4) fields(3)[unfolded One_nat_def] c_def [symmetric] Let_def)
qed

lemma handle_packet:
  assumes "seq AND 0xffff = seq" "next_pkt ts bs seq st" "p \<noteq> []"
    and "rtp_payload_h264 sp p False (begun ts seq st) = Some (True, st')" and h: "shape_ok h"
  shows "handle_rtp_h264 st f (rtp_packet h ts seq m p) sp = Some (maybe_flush m st' f)"
proof (rule handle_step [OF h assms(3)])
  show "rtp_h264_seq_gap st (rtp_packet h ts seq m p) = Some (False, st\<lparr>have_seq := True, last_seq := seq\<rparr>)"
    using packet_gap [OF assms(1) h, of st False] assms(2) by (simp add: next_pkt_def)
  have "rtp_new_au ts False (st\<lparr>have_seq := True, last_seq := seq\<rparr>) = begun ts seq st"
    using assms(2) by (auto simp: rtp_new_au_def Let_def next_pkt_def begun_def)
  then show "rtp_payload_h264 sp p False (rtp_new_au ts False (st\<lparr>have_seq := True, last_seq := seq\<rparr>)) = Some (True, st')"
    using assms(4) by simp
qed

section \<open>Units\<close>

definition adv :: "u32 \<Rightarrow> u32" where
  "adv seq = (seq + 1) AND 0xffff"

lemma adv_valid [simp]: "adv seq AND 0xffff = adv seq"
  by (simp add: adv_def and.assoc)

text \<open>
  \<open>delivers sp ts P ps Q\<close>: the payloads \<open>ps\<close>, numbered from a state in \<open>P\<close>, leave a state in \<open>Q\<close>,
  after which either more packets follow or the access unit is flushed.
\<close>

definition rtp_end :: "int \<times> h264_rtp_state \<times> out_file \<Rightarrow> (int \<times> h264_rtp_state \<times> out_file) option" where
  "rtp_end = (\<lambda>(rc, st, f). Some (if rc < 0 then rc else 0, st, f))"

definition delivers :: "u8 list \<Rightarrow> u32 \<Rightarrow> (u32 \<Rightarrow> h264_rtp_state \<Rightarrow> bool) \<Rightarrow> u8 list list \<Rightarrow> (u32 \<Rightarrow> h264_rtp_state \<Rightarrow> bool) \<Rightarrow> bool" where
  "delivers sp ts P ps Q \<longleftrightarrow> (\<forall>seq st f hs qs. seq AND 0xffff = seq \<longrightarrow> P seq st \<longrightarrow> length hs = length ps \<longrightarrow> list_all shape_ok hs \<longrightarrow>
     (\<exists>st' seq'. seq' AND 0xffff = seq' \<and> Q seq' st' \<and> seq' = (adv ^^ length ps) seq \<and>
       rtp_stream sp (number ts seq (zip hs ps @ qs)) st f =
         (if qs = [] then rtp_end (rtp_au_flush st' f) else rtp_stream sp (number ts seq' qs) st' f)))"

lemma delivers_one:
  assumes "p \<noteq> []"
    and "\<And>seq st. seq AND 0xffff = seq \<Longrightarrow> P seq st \<Longrightarrow> next_pkt ts bs seq st \<and>
      (\<exists>st'. rtp_payload_h264 sp p False (begun ts seq st) = Some (True, st') \<and> Q (adv seq) st')"
  shows "delivers sp ts P [p] Q"
  unfolding delivers_def
proof (intro allI impI)
  fix seq st f hs qs assume a: "seq AND 0xffff = seq" "P seq st" and hs: "length hs = length [p]" "list_all shape_ok hs"
  then obtain x where x: "hs = [x]" "shape_ok x" by (cases hs) auto
  obtain st' where st': "next_pkt ts bs seq st" "rtp_payload_h264 sp p False (begun ts seq st) = Some (True, st')" "Q (adv seq) st'"
    using assms(2) a by blast
  have h: "handle_rtp_h264 st f (rtp_packet x ts seq m p) sp = Some (maybe_flush m st' f)" for m
    by (rule handle_packet[OF a(1) st'(1) assms(1) st'(2) x(2)])
  have "rtp_stream sp (number ts seq (zip hs [p] @ qs)) st f =
    (if qs = [] then rtp_end (rtp_au_flush st' f) else rtp_stream sp (number ts (adv seq) qs) st' f)"
    by (cases qs; cases "rtp_au_flush st' f") (simp_all add: h maybe_flush_def rtp_end_def adv_def x(1))
  then show "\<exists>st' seq'. seq' AND 0xffff = seq' \<and> Q seq' st' \<and> seq' = (adv ^^ length [p]) seq \<and>
       rtp_stream sp (number ts seq (zip hs [p] @ qs)) st f =
         (if qs = [] then rtp_end (rtp_au_flush st' f) else rtp_stream sp (number ts seq' qs) st' f)"
    using st'(3) by auto
qed

lemma delivers_append:
  assumes "delivers sp ts P ps Q" "delivers sp ts Q rs R" "rs \<noteq> []"
  shows "delivers sp ts P (ps @ rs) R"
  unfolding delivers_def
proof (intro allI impI)
  fix seq st f hs qs assume s: "seq AND 0xffff = seq" "P seq st" and hs: "length hs = length (ps @ rs)" "list_all shape_ok hs"
  let ?h1 = "take (length ps) hs" and ?h2 = "drop (length ps) hs"
  have z: "zip hs (ps @ rs) = zip ?h1 ps @ zip ?h2 rs" using hs(1) by (simp add: zip_append2)
  have h: "length ?h1 = length ps" "length ?h2 = length rs" "list_all shape_ok ?h1" "list_all shape_ok ?h2"
    using hs by (auto simp: list_all_iff dest: in_set_takeD in_set_dropD)
  have "zip ?h2 rs @ qs \<noteq> []" using h(2) assms(3) by auto
  then obtain st1 seq1 where 1: "seq1 AND 0xffff = seq1" "Q seq1 st1" "seq1 = (adv ^^ length ps) seq"
    "rtp_stream sp (number ts seq (zip ?h1 ps @ zip ?h2 rs @ qs)) st f = rtp_stream sp (number ts seq1 (zip ?h2 rs @ qs)) st1 f"
    using assms(1) s h(1,3) unfolding delivers_def by metis
  then obtain st2 seq2 where 2: "seq2 AND 0xffff = seq2" "R seq2 st2" "seq2 = (adv ^^ length rs) seq1"
    "rtp_stream sp (number ts seq1 (zip ?h2 rs @ qs)) st1 f =
      (if qs = [] then rtp_end (rtp_au_flush st2 f) else rtp_stream sp (number ts seq2 qs) st2 f)"
    using assms(2) h(2,4) unfolding delivers_def by blast
  have "seq2 = (adv ^^ length (ps @ rs)) seq"
    using 1(3) 2(3) funpow_add[of "length rs" "length ps" adv] by (simp add: add.commute[of "length ps"])
  then show "\<exists>st' seq'. seq' AND 0xffff = seq' \<and> R seq' st' \<and> seq' = (adv ^^ length (ps @ rs)) seq \<and>
       rtp_stream sp (number ts seq (zip hs (ps @ rs) @ qs)) st f =
         (if qs = [] then rtp_end (rtp_au_flush st' f) else rtp_stream sp (number ts seq' qs) st' f)"
    using 1(4) 2 unfolding z append_assoc by metis
qed

lemma begun_next [simp]:
  "au (begun ts seq st) = au st" "au_bad (begun ts seq st) = au_bad st" "need_idr (begun ts seq st) = need_idr st"
  "fu (begun ts seq st) = fu st" "fu_active (begun ts seq st) = fu_active st"
  by (simp_all add: begun_def)

text \<open>What the branches of the payload handling keep.\<close>

definition kept :: "u32 \<Rightarrow> u32 \<Rightarrow> h264_rtp_state \<Rightarrow> bool" where
  "kept ts seq st \<longleftrightarrow> \<not> au_bad st \<and> \<not> need_idr st \<and> have_seq st \<and> last_seq st = seq \<and> au_have_ts st \<and> au_ts st = ts"

lemma kept_begun: "next_pkt ts bs seq st \<Longrightarrow> kept ts seq (begun ts seq st)"
  by (simp add: kept_def next_pkt_def begun_def)

lemma kept_next: "kept ts seq st \<Longrightarrow> next_pkt ts (au st) (adv seq) st"
  by (simp add: kept_def next_pkt_def adv_def)

lemma kept_logs [simp]: "kept ts seq (st\<lparr>logs := x\<rparr>) = kept ts seq st"
  by (simp add: kept_def)

lemma kept_fu [simp]: "kept ts seq (st\<lparr>fu := x\<rparr>) = kept ts seq st" "kept ts seq (st\<lparr>fu_active := b\<rparr>) = kept ts seq st"
  by (simp_all add: kept_def)

definition param :: "u8 list \<Rightarrow> nat \<Rightarrow> u8 list" where
  "param sp t = (if t = 5 then sp else [])"

lemma idr_kept:
  assumes "kept ts seq st" "length (au st) + length (param sp t) \<le> AU_SIZE"
  shows "kept ts seq (rtp_idr sp t st)" "au (rtp_idr sp t st) = au st @ param sp t" "fu (rtp_idr sp t st) = fu st"
  using assms by (auto simp: rtp_idr_def rtp_au_append_bytes_def param_def kept_def Let_def)

lemma append_kept:
  assumes "kept ts seq st" "nal \<noteq> []" "length (au st) + 4 + length nal \<le> AU_SIZE"
  shows "kept ts seq (rtp_au_append st nal)" "au (rtp_au_append st nal) = au st @ sc @ nal"
  using assms by (auto simp: rtp_au_append_def kept_def sc_def)

lemma deliver_whole:
  assumes "nal \<noteq> []" "1 \<le> nal_type_of nal" "nal_type_of nal \<le> 23" "length (bs @ annexb sp nal) \<le> AU_SIZE"
  shows "delivers sp ts (next_pkt ts bs) [nal] (next_pkt ts (bs @ annexb sp nal))"
proof (rule delivers_one[OF assms(1), where bs = bs])
  fix seq st assume n: "next_pkt ts bs seq st"
  let ?t = "nal_type_of nal"
  define st1 where "st1 = (begun ts seq st)\<lparr>logs := logs (begun ts seq st) + 1\<rparr>"
  define st2 where "st2 = rtp_idr sp ?t st1"
  have k: "kept ts seq st1" "au st1 = bs" using kept_begun[OF n] n by (simp_all add: st1_def next_pkt_def)
  have len: "length bs + length (param sp ?t) + 4 + length nal \<le> AU_SIZE"
    using assms(4) by (auto simp: annexb_def param_def sc_def split: if_splits)
  then have k2: "kept ts seq st2" "au st2 = bs @ param sp ?t" using idr_kept[OF k(1), of sp ?t] k(2) by (simp_all add: st2_def)
  have k3: "kept ts seq (rtp_au_append st2 nal)" "au (rtp_au_append st2 nal) = bs @ annexb sp nal"
    using append_kept[OF k2(1) assms(1)] k2(2) len by (simp_all add: annexb_def param_def)
  have "pkt_at nal 0 = Some (hd nal)" using assms(1) by (simp add: pkt_at_def hd_conv_nth)
  then have "rtp_payload_h264 sp nal False (begun ts seq st) = Some (True, rtp_au_append st2 nal)"
    using assms(2,3) k(1) by (simp add: rtp_payload_h264_def nal_type_of_def[symmetric] st1_def[symmetric] rtp_skipped_def kept_def st2_def)
  then show "next_pkt ts bs seq st \<and> (\<exists>st'. rtp_payload_h264 sp nal False (begun ts seq st) = Some (True, st') \<and>
      next_pkt ts (bs @ annexb sp nal) (adv seq) st')"
    using n kept_next[OF k3(1)] k3(2) by auto
qed

text \<open>A fragment.\<close>

definition collecting :: "u32 \<Rightarrow> u8 list \<Rightarrow> u8 list \<Rightarrow> u32 \<Rightarrow> h264_rtp_state \<Rightarrow> bool" where
  "collecting ts bs part seq st \<longleftrightarrow> next_pkt ts bs seq st \<and> have_seq st \<and> au_have_ts st \<and> au_ts st = ts \<and> fu_active st \<and> fu st = part"

lemma byte_eqI: "(\<And>n. n \<in> {0, 1, 2, 3, 4, 5, 6, 7} \<Longrightarrow> bit a n = bit b n) \<Longrightarrow> a = (b :: u8)"
proof (rule bit_word_eqI)
  fix n assume "\<And>n. n \<in> {0, 1, 2, 3, 4, 5, 6, 7} \<Longrightarrow> bit a n = bit b n" and "n < LENGTH(8)"
  moreover from this(2) have "n \<in> {0, 1, 2, 3, 4, 5, 6, 7}" by auto
  ultimately show "bit a n = bit b n" by blast
qed

lemma fu_header:
  fixes h :: u8
  shows "((h AND 0xe0) OR 28) AND 0x1f = 28"
    "((if s then 0x80 else 0) OR (if e then 0x40 else 0) OR (h AND 0x1f)) AND 0x80 = (if s then 0x80 else 0)"
    "((if s then 0x80 else 0) OR (if e then 0x40 else 0) OR (h AND 0x1f)) AND 0x40 = (if e then 0x40 else 0)"
    "(((h AND 0xe0) OR 28) AND 0xe0) OR (((if s then 0x80 else 0) OR (if e then 0x40 else 0) OR (h AND 0x1f)) AND 0x1f) = h"
  by (rule byte_eqI; cases s; cases e; auto simp: bit_simps)+

lemma fu_flag: "((if s then 0x80 else 0 :: u8) \<noteq> 0) = s" "((if s then 0x40 else 0 :: u8) \<noteq> 0) = s"
  by simp_all

lemma fu_rest_Nil: "fu_rest hdr cs = [] \<longleftrightarrow> cs = []"
  by (cases "(hdr, cs)" rule: fu_rest.cases) auto

lemma fragment_payload:
  fixes hdr :: u8 and s e :: bool and part bs body sp :: "u8 list"
  defines "t \<equiv> unat (hdr AND 0x1f)"
  defines "part' \<equiv> (if s then [hdr] else part)" and "bs' \<equiv> (if s then bs @ param sp t else bs)"
  assumes "length part' + length body \<le> FU_SIZE" "part' \<noteq> []"
    and "length bs' + (if e then 4 + length part' + length body else 0) \<le> AU_SIZE"
    and P: "(if s then next_pkt ts bs else collecting ts bs part) seq st"
  shows "next_pkt ts bs seq st \<and> (\<exists>st'. rtp_payload_h264 sp (fu_packet hdr s e body) False (begun ts seq st) = Some (True, st') \<and>
    (if e then next_pkt ts (bs' @ sc @ part' @ body) else collecting ts bs' (part' @ body)) (adv seq) st')"
proof -
  from P have n: "next_pkt ts bs seq st" by (auto simp: collecting_def split: if_splits)
  let ?p = "fu_packet hdr s e body"
  define st1 where "st1 = (begun ts seq st)\<lparr>logs := logs (begun ts seq st) + 1\<rparr>"
  define st2 where "st2 = (if s then (rtp_idr sp t (st1\<lparr>fu := [hdr]\<rparr>))\<lparr>fu_active := True\<rparr> else st1)"
  define st3 where "st3 = st2\<lparr>fu := fu st2 @ body\<rparr>"
  have k: "kept ts seq st1" "au st1 = bs" "\<not> s \<Longrightarrow> fu_active st1 \<and> fu st1 = part"
    using kept_begun[OF n] n P by (simp_all add: st1_def next_pkt_def collecting_def)
  have "kept ts seq (st1\<lparr>fu := [hdr]\<rparr>)" using k(1) by simp
  note i = idr_kept[OF this, of sp t]
  have k2: "kept ts seq st2" "au st2 = bs'" "fu_active st2" "fu st2 = part'"
    using i k assms(6) by (auto simp: st2_def bs'_def part'_def split: if_splits)
  have at: "pkt_at ?p 0 = Some ((hdr AND 0xe0) OR 28)"
    "pkt_at ?p 1 = Some ((if s then 0x80 else 0) OR (if e then 0x40 else 0) OR (hdr AND 0x1f))"
    "pkt_sub ?p 2 (length ?p - 2) = Some body" "length ?p = length body + 2"
    by (simp_all add: fu_packet_def pkt_at_def pkt_sub_def)
  have fu: "\<not> FU_SIZE < length (fu st2) + length ?p - 2" using assms(4) k2(4) at(4) by simp
  have frag: "rtp_fragment sp ?p False st1 =
      Some (True, if e then (rtp_au_append st3 (fu st3))\<lparr>fu_active := False, fu := []\<rparr> else st3)"
    unfolding rtp_fragment_def at(1,2) bind.bind_lunit Let_def fu_header fu_flag t_def[symmetric] st2_def[symmetric]
    using k(1) k2(3) fu at(3) by (simp add: st3_def[symmetric] kept_def)
  have "rtp_payload_h264 sp ?p False (begun ts seq st) = rtp_fragment sp ?p False st1"
    unfolding rtp_payload_h264_def at(1) bind.bind_lunit Let_def fu_header(1) st1_def[symmetric] using at(4) by simp
  note pay = this[unfolded frag]
  have k3: "kept ts seq st3" "au st3 = bs'" "fu st3 = part' @ body" "fu_active st3" using k2 by (simp_all add: st3_def)
  have "(if e then next_pkt ts (bs' @ sc @ part' @ body) else collecting ts bs' (part' @ body)) (adv seq)
      (if e then (rtp_au_append st3 (fu st3))\<lparr>fu_active := False, fu := []\<rparr> else st3)"
  proof (cases e)
    case True
    have "kept ts seq (rtp_au_append st3 (fu st3))" "au (rtp_au_append st3 (fu st3)) = bs' @ sc @ part' @ body"
      using append_kept[OF k3(1), of "fu st3"] k3(2,3) assms(5,6) True by simp_all
    then show ?thesis using True kept_next[of ts seq "(rtp_au_append st3 (fu st3))\<lparr>fu_active := False, fu := []\<rparr>"] by simp
  next
    case False
    then show ?thesis using kept_next[OF k3(1)] k3 by (simp add: collecting_def kept_def)
  qed
  then show "next_pkt ts bs seq st \<and> (\<exists>st'. rtp_payload_h264 sp ?p False (begun ts seq st) = Some (True, st') \<and>
      (if e then next_pkt ts (bs' @ sc @ part' @ body) else collecting ts bs' (part' @ body)) (adv seq) st')"
    using n pay by blast
qed

lemma deliver_fragment:
  fixes hdr :: u8 and s e :: bool and part bs body sp :: "u8 list"
  defines "t \<equiv> unat (hdr AND 0x1f)"
  defines "part' \<equiv> (if s then [hdr] else part)" and "bs' \<equiv> (if s then bs @ param sp t else bs)"
  assumes "length part' + length body \<le> FU_SIZE" "part' \<noteq> []"
    and "length bs' + (if e then 4 + length part' + length body else 0) \<le> AU_SIZE"
  shows "delivers sp ts (if s then next_pkt ts bs else collecting ts bs part) [fu_packet hdr s e body]
    (if e then next_pkt ts (bs' @ sc @ part' @ body) else collecting ts bs' (part' @ body))"
proof (rule delivers_one[where bs = bs])
  fix seq st assume "(if s then next_pkt ts bs else collecting ts bs part) seq st"
  from fragment_payload [OF assms(4-6) [unfolded part'_def bs'_def t_def] this]
  show "next_pkt ts bs seq st \<and> (\<exists>st'. rtp_payload_h264 sp (fu_packet hdr s e body) False (begun ts seq st) = Some (True, st') \<and>
    (if e then next_pkt ts (bs' @ sc @ part' @ body) else collecting ts bs' (part' @ body)) (adv seq) st')"
    unfolding part'_def bs'_def t_def .
qed (simp add: fu_packet_def)

lemma deliver_rest:
  assumes "cs \<noteq> []" "part \<noteq> []" "length part + length (concat cs) \<le> FU_SIZE"
    "length bs + 4 + length part + length (concat cs) \<le> AU_SIZE"
  shows "delivers sp ts (collecting ts bs part) (fu_rest hdr cs) (next_pkt ts (bs @ sc @ part @ concat cs))"
  using assms
proof (induction hdr cs arbitrary: part rule: fu_rest.induct)
  case (2 hdr b)
  then show ?case using deliver_fragment[where s = False and hdr = hdr and part = part and body = b and bs = bs and sp = sp and e = True and ts = ts] by simp
next
  case (3 hdr b c cs)
  have "delivers sp ts (collecting ts bs part) [fu_packet hdr False False b] (collecting ts bs (part @ b))"
    using 3(3-) deliver_fragment[where s = False and hdr = hdr and part = part and body = b and bs = bs and sp = sp and e = False and ts = ts] by simp
  moreover have "delivers sp ts (collecting ts bs (part @ b)) (fu_rest hdr (c # cs)) (next_pkt ts (bs @ sc @ (part @ b) @ concat (c # cs)))"
    using 3(3-) by (intro 3(1)) auto
  moreover have "fu_rest hdr (c # cs) \<noteq> []" by (simp add: fu_rest_Nil)
  ultimately show ?case using delivers_append by fastforce
qed simp

lemma concat_chunks: "concat (chunks ns bs) = bs" "chunks ns bs \<noteq> []"
  by (induction ns bs rule: chunks.induct) auto

lemma deliver_fragments:
  assumes "nal \<noteq> []" "1 \<le> nal_type_of nal" "nal_type_of nal \<le> 23" "length nal \<le> FU_SIZE" "length (bs @ annexb sp nal) \<le> AU_SIZE"
  shows "delivers sp ts (next_pkt ts bs) (payloads (Fragments nal ns)) (next_pkt ts (bs @ annexb sp nal)) \<and> payloads (Fragments nal ns) \<noteq> []"
proof -
  obtain b cs where c: "chunks ns (tl nal) = b # cs" using concat_chunks(2) by (meson list.exhaust)
  have nal: "nal = hd nal # b @ concat cs" using concat_chunks(1)[of ns "tl nal"] c assms(1) by (cases nal) auto
  have t: "unat (hd nal AND 0x1f) = nal_type_of nal" by (simp add: nal_type_of_def)
  have ab: "annexb sp nal = param sp (nal_type_of nal) @ sc @ nal" by (simp add: annexb_def param_def)
  have len: "length nal = 1 + length b + length (concat cs)" using arg_cong[OF nal, of length] by simp
  have au: "length bs + length (param sp (nal_type_of nal)) + 4 + length nal \<le> AU_SIZE"
    using assms(5) by (simp add: ab sc_def)
  have fu: "length nal \<le> FU_SIZE" using assms(4) by simp
  show ?thesis
  proof (cases "cs = []")
    case True
    have "delivers sp ts (next_pkt ts bs) [fu_packet (hd nal) True True b] (next_pkt ts (bs @ annexb sp nal))"
      using deliver_fragment[where s = True and hdr = "hd nal" and body = b and bs = bs and sp = sp and e = True and ts = ts] au fu len True nal by (simp add: t ab)
    then show ?thesis using c True by simp
  next
    case False
    have "delivers sp ts (next_pkt ts bs) [fu_packet (hd nal) True False b] (collecting ts (bs @ param sp (nal_type_of nal)) ([hd nal] @ b))"
      using deliver_fragment[where s = True and hdr = "hd nal" and body = b and bs = bs and sp = sp and e = False and ts = ts] au fu len by (simp add: t)
    moreover have "delivers sp ts (collecting ts (bs @ param sp (nal_type_of nal)) ([hd nal] @ b)) (fu_rest (hd nal) cs)
        (next_pkt ts ((bs @ param sp (nal_type_of nal)) @ sc @ ([hd nal] @ b) @ concat cs))"
      by (rule deliver_rest) (use False au fu len in auto)
    moreover have "(bs @ param sp (nal_type_of nal)) @ sc @ ([hd nal] @ b) @ concat cs = bs @ annexb sp nal"
      using nal by (simp add: ab)
    moreover have "fu_rest (hd nal) cs \<noteq> []" using False by (simp add: fu_rest_Nil)
    ultimately show ?thesis using c False delivers_append by fastforce
  qed
qed

text \<open>An aggregation packet: the loop over its entries from any of them on.\<close>

lemma stap_entry_at:
  fixes pre tail :: "u8 list"
  assumes "length nal < 65536" "nal \<noteq> []"
  defines "pkt \<equiv> pre @ stap_entry nal @ tail"
  shows "length pre + 2 \<le> length pkt" "pkt_at pkt (length pre) = Some (of_nat (length nal div 256))"
    "pkt_at pkt (length pre + 1) = Some (of_nat (length nal))"
    "unat (of_nat (length nal div 256) :: u8) * 256 + unat (of_nat (length nal) :: u8) = length nal"
    "\<not> length pkt < length pre + 2 + length nal" "pkt_at pkt (length pre + 2) = Some (hd nal)"
    "pkt_sub pkt (length pre + 2) (length nal) = Some nal"
  using assms(2) two_bytes [OF assms(1)]
  by (auto simp: pkt_def stap_entry_def pkt_at_def pkt_sub_def nth_append hd_conv_nth add.commute)

lemma stap_units_kept:
  assumes "list_all (\<lambda>nal. nal_ok nal \<and> length nal < 65536) nals" "kept ts seq st"
    "length (au st @ concat (map (annexb sp) nals)) \<le> AU_SIZE"
  shows "\<exists>st'. stap_loop sp (pre @ concat (map stap_entry nals)) (length pre) st = Some st' \<and> kept ts seq st' \<and>
    au st' = au st @ concat (map (annexb sp) nals)"
  using assms
proof (induction nals arbitrary: pre st)
  case Nil
  then show ?case by (simp add: stap_loop.simps [of sp pre])
next
  case (Cons nal nals)
  let ?pkt = "pre @ stap_entry nal @ concat (map stap_entry nals)" and ?t = "nal_type_of nal"
  have ok: "nal \<noteq> []" "length nal < 65536" using Cons.prems(1) by (simp_all add: nal_ok_def)
  note at = stap_entry_at [OF ok(2,1)]
  define st2 where "st2 = rtp_au_append (rtp_idr sp ?t st) nal"
  have ab: "annexb sp nal = param sp ?t @ sc @ nal" by (simp add: annexb_def param_def)
  have len: "length (au st) + length (param sp ?t) + 4 + length nal + length (concat (map (annexb sp) nals)) \<le> AU_SIZE"
    using Cons.prems(3) by (simp add: ab sc_def)
  note i = idr_kept [OF Cons.prems(2), of sp ?t]
  have k: "kept ts seq st2" "au st2 = au st @ annexb sp nal"
    using append_kept [OF i(1) ok(1)] i(2) len by (simp_all add: st2_def ab)
  have skip: "\<not> rtp_skipped st ?t" using Cons.prems(2) by (simp add: rtp_skipped_def kept_def)
  have t: "unat (hd nal AND 0x1f) = ?t" by (simp add: nal_type_of_def)
  have c: "(length nal = 0 \<or> length ?pkt < length pre + 2 + length nal) = False" using at(5) ok(1) by simp
  have "stap_loop sp ?pkt (length pre) st = stap_loop sp ?pkt (length pre + 2 + length nal) st2"
    by (subst stap_loop.simps) (simp only: at(1-4) c at(6,7) t skip if_True if_False bind.bind_lunit st2_def)
  also have "length pre + 2 + length nal = length (pre @ stap_entry nal)" by (simp add: stap_entry_def)
  also have "?pkt = (pre @ stap_entry nal) @ concat (map stap_entry nals)" by simp
  finally have eq: "stap_loop sp (pre @ concat (map stap_entry (nal # nals))) (length pre) st =
      stap_loop sp ((pre @ stap_entry nal) @ concat (map stap_entry nals)) (length (pre @ stap_entry nal)) st2" by simp
  obtain st' where "stap_loop sp ((pre @ stap_entry nal) @ concat (map stap_entry nals)) (length (pre @ stap_entry nal)) st2 = Some st'"
      "kept ts seq st'" "au st' = au st2 @ concat (map (annexb sp) nals)"
    using Cons.IH [OF _ k(1), of "pre @ stap_entry nal"] Cons.prems(1) k(2) len by (auto simp: ab sc_def)
  then show ?case unfolding eq using k(2) by simp
qed

lemma deliver_aggregate:
  assumes "list_all (\<lambda>nal. nal_ok nal \<and> length nal < 65536) nals" "length (bs @ concat (map (annexb sp) nals)) \<le> AU_SIZE"
  shows "delivers sp ts (next_pkt ts bs) [stap_packet b nals] (next_pkt ts (bs @ concat (map (annexb sp) nals)))"
proof (rule delivers_one[where bs = bs])
  fix seq st assume n: "next_pkt ts bs seq st"
  define st1 where "st1 = (begun ts seq st)\<lparr>logs := logs (begun ts seq st) + 1\<rparr>"
  have k: "kept ts seq st1" "au st1 = bs" using kept_begun[OF n] n by (simp_all add: st1_def next_pkt_def)
  obtain st' where s: "stap_loop sp (stap_packet b nals) 1 st1 = Some st'" "kept ts seq st'" "au st' = bs @ concat (map (annexb sp) nals)"
    using stap_units_kept [OF assms(1) k(1), of sp "[(b AND 0xe0) OR 24]"] assms(2) k(2) by (auto simp: stap_packet_def)
  have t: "((b AND 0xe0) OR 24) AND 0x1f = (24 :: u8)" by (rule byte_eqI) (auto simp: bit_simps)
  have "pkt_at (stap_packet b nals) 0 = Some ((b AND 0xe0) OR 24)" by (simp add: stap_packet_def pkt_at_def)
  then have "rtp_payload_h264 sp (stap_packet b nals) False (begun ts seq st) = Some (True, st')"
    using s(1) by (simp add: rtp_payload_h264_def t st1_def [symmetric])
  then show "next_pkt ts bs seq st \<and> (\<exists>st'. rtp_payload_h264 sp (stap_packet b nals) False (begun ts seq st) = Some (True, st') \<and>
      next_pkt ts (bs @ concat (map (annexb sp) nals)) (adv seq) st')"
    using n kept_next[OF s(2)] s(3) by auto
qed (simp add: stap_packet_def)

lemma deliver_item:
  assumes "item_ok u" "length (bs @ concat (map (annexb sp) (units_of u))) \<le> AU_SIZE"
  shows "delivers sp ts (next_pkt ts bs) (payloads u) (next_pkt ts (bs @ concat (map (annexb sp) (units_of u)))) \<and> payloads u \<noteq> []"
proof (cases u)
  case (Whole nal)
  then show ?thesis using deliver_whole [of nal bs sp ts] assms by (simp add: nal_ok_def)
next
  case (Fragments nal ns)
  then show ?thesis using deliver_fragments [of nal bs sp ts ns] assms by (simp add: nal_ok_def)
next
  case (Aggregate b nals)
  then show ?thesis using deliver_aggregate [of nals bs sp ts b] assms by simp
qed

section \<open>Access units\<close>

lemma deliver_units:
  assumes "us \<noteq> []" "list_all item_ok us" "length (bs @ access_unit sp us) \<le> AU_SIZE"
  shows "delivers sp ts (next_pkt ts bs) (concat (map payloads us)) (next_pkt ts (bs @ access_unit sp us)) \<and> concat (map payloads us) \<noteq> []"
  using assms
proof (induction us arbitrary: bs rule: list_nonempty_induct)
  case (single u)
  then show ?case using deliver_item[of u bs sp ts] by simp
next
  case (cons u us)
  let ?b = "concat (map (annexb sp) (units_of u))"
  have u: "delivers sp ts (next_pkt ts bs) (payloads u) (next_pkt ts (bs @ ?b))" "payloads u \<noteq> []"
    using deliver_item[of u bs sp ts] cons.prems by auto
  have "delivers sp ts (next_pkt ts (bs @ ?b)) (concat (map payloads us)) (next_pkt ts ((bs @ ?b) @ access_unit sp us)) \<and>
      concat (map payloads us) \<noteq> []"
    using cons.prems by (intro cons.IH) auto
  then show ?case using delivers_append[OF u(1)] u(2) by auto
qed

lemma write_all_ok:
  assumes "\<forall>n\<in>set (writes f). 0 < n"
  shows "\<exists>f'. write_all b f = (0, f') \<and> sent f' = sent f @ b \<and> (\<forall>n\<in>set (writes f'). 0 < n)"
  using assms
proof (induction b f rule: write_all.induct)
  case (1 b f)
  show ?case
  proof (cases "b = []")
    case True
    then show ?thesis using "1.prems" by (simp add: write_all.simps)
  next
    case False
    obtain n g where w: "write_once b f = (n, g)" by (cases "write_once b f")
    have g: "0 < n" "sent g = sent f @ take (nat n) b" "\<forall>n\<in>set (writes g). 0 < n"
      using w "1.prems" False by (auto simp: write_once_def Let_def split: list.splits)
    obtain f' where "write_all (drop (nat n) b) g = (0, f')" "sent f' = sent g @ drop (nat n) b" "\<forall>n\<in>set (writes f'). 0 < n"
      using "1.IH"[OF _ w[symmetric]] False g by auto
    then show ?thesis using w g False by (simp add: write_all.simps[of b])
  qed
qed

lemma deliver_access_unit:
  assumes "sendable sp hs us" "seq AND 0xffff = seq" "next_pkt ts [] seq st" "\<forall>n\<in>set (writes f). 0 < n"
  shows "\<exists>st' f'. rtp_stream sp (send ts seq hs us) st f = Some (0, st', f') \<and> sent f' = sent f @ access_unit sp us \<and>
    (\<forall>ts'. next_pkt ts' [] ((adv ^^ length hs) seq) st') \<and> (\<forall>n\<in>set (writes f'). 0 < n)"
proof -
  have d: "delivers sp ts (next_pkt ts []) (concat (map payloads us)) (next_pkt ts (access_unit sp us))"
    using deliver_units[of us "[]" sp ts] assms(1) by (simp_all add: sendable_def)
  have hs: "length hs = length (concat (map payloads us))" "list_all shape_ok hs" using assms(1) by (simp_all add: sendable_def)
  obtain u us' where us: "us = u # us'" "item_ok u" using assms(1) by (cases us) (auto simp: sendable_def)
  then have "units_of u \<noteq> []" by (cases u) auto
  then have ne: "access_unit sp us \<noteq> []" using us(1) by (cases "units_of u") (simp_all add: annexb_def sc_def)
  obtain st1 where 1: "next_pkt ts (access_unit sp us) ((adv ^^ length hs) seq) st1"
    "rtp_stream sp (send ts seq hs us) st f = rtp_end (rtp_au_flush st1 f)"
    using d assms(2,3) hs unfolding delivers_def send_def by (metis append_Nil2)
  obtain f' where f': "write_all (au st1) f = (0, f')" "sent f' = sent f @ au st1" "\<forall>n\<in>set (writes f'). 0 < n"
    using write_all_ok[OF assms(4)] by blast
  have "\<exists>st'. rtp_au_flush st1 f = (0, st', f') \<and> (\<forall>ts'. next_pkt ts' [] ((adv ^^ length hs) seq) st')"
    using 1(1) ne f' by (auto simp: rtp_au_flush_def next_pkt_def rtp_au_reset_def Let_def)
  then show ?thesis using 1 f' by (auto simp: rtp_end_def next_pkt_def)
qed

fun send_all :: "u32 \<Rightarrow> (u32 \<times> rtp_shape list \<times> plan) list \<Rightarrow> u8 list list" where
  "send_all seq [] = []"
| "send_all seq ((ts, hs, us) # aus) = send ts seq hs us @ send_all ((adv ^^ length hs) seq) aus"

lemma adv_pow_valid: "seq AND 0xffff = seq \<Longrightarrow> (adv ^^ n) seq AND 0xffff = (adv ^^ n) seq"
  by (cases n) simp_all

lemma stream_append:
  "rtp_stream sp ps st f = Some (0, st', f') \<Longrightarrow> rtp_stream sp (ps @ qs) st f = rtp_stream sp qs st' f'"
  by (induction ps arbitrary: st f) (auto split: option.splits Option.bind_splits if_splits)

lemma deliver_all:
  assumes "\<forall>(ts, hs, us)\<in>set aus. sendable sp hs us" "seq AND 0xffff = seq" "\<forall>ts. next_pkt ts [] seq st" "\<forall>n\<in>set (writes f). 0 < n"
  shows "\<exists>st' f'. rtp_stream sp (send_all seq aus) st f = Some (0, st', f') \<and>
    sent f' = sent f @ concat (map (\<lambda>(ts, hs, us). access_unit sp us) aus)"
  using assms
proof (induction aus arbitrary: seq st f)
  case (Cons a aus)
  obtain ts hs us where a: "a = (ts, hs, us)" by (cases a)
  obtain st1 f1 where 1: "rtp_stream sp (send ts seq hs us) st f = Some (0, st1, f1)" "sent f1 = sent f @ access_unit sp us"
    "\<forall>ts. next_pkt ts [] ((adv ^^ length hs) seq) st1" "\<forall>n\<in>set (writes f1). 0 < n"
    using deliver_access_unit[of sp hs us seq ts st f] Cons.prems a by auto
  obtain st2 f2 where "rtp_stream sp (send_all ((adv ^^ length hs) seq) aus) st1 f1 = Some (0, st2, f2)"
    "sent f2 = sent f1 @ concat (map (\<lambda>(ts, hs, us). access_unit sp us) aus)"
    using Cons.IH[OF _ adv_pow_valid[OF Cons.prems(2)] 1(3,4)] Cons.prems(1) by auto
  then show ?case using 1(2) stream_append[OF 1(1)] a by simp
qed simp

text \<open>
  C9. Delivery: from the initial state, the packets of any sequence of access units arrive as exactly
  those units in Annex B form, each IDR slice preceded by the parameter sets, whatever mixture of
  single units, fragments of whatever sizes and aggregation packets the sender chooses, with or
  without contributing sources and header extensions (but without padding), across the wrap-around
  of the sequence number and however the output accepts the bytes.
\<close>

theorem rtp_delivery:
  assumes "\<forall>(ts, hs, us)\<in>set aus. sendable sp hs us" "seq AND 0xffff = seq" "\<forall>n\<in>set ns. 0 < n"
  shows "\<exists>st f. rtp_stream sp (send_all seq aus) rtp_zero \<lparr>sent = [], writes = ns\<rparr> = Some (0, st, f) \<and>
    sent f = concat (map (\<lambda>(ts, hs, us). access_unit sp us) aus)"
  using deliver_all[OF assms(1,2), of rtp_zero "\<lparr>sent = [], writes = ns\<rparr>"] assms(3)
  by (simp add: next_pkt_def rtp_zero_def)

text \<open>
  Two parameter sets in one packet with an extension, then an IDR slice in three fragments; then
  another slice with a contributing source.
\<close>

definition plain :: rtp_shape where
  "plain = \<lparr>rtp_pt = 96, rtp_ssrc = [0, 0, 0, 0], rtp_csrc = [], rtp_ext = None\<rparr>"

definition sample_aus :: "(u32 \<times> rtp_shape list \<times> plan) list" where
  "sample_aus =
     [(90000, plain\<lparr>rtp_ext := Some ([0xBE, 0xDE], [1, 2, 3, 4])\<rparr> # [plain, plain, plain],
        [Aggregate 0x60 [[0x67, 0x42], [0x68, 0xCE]], Fragments [0x65, 1, 2, 3, 4] [1, 2]]),
      (93600, [plain\<lparr>rtp_csrc := [1, 2, 3, 4]\<rparr>], [Whole [0x41, 5]])]"

lemma sample_sent: "concat (map (\<lambda>(ts, hs, us). access_unit [9] us) sample_aus) =
  [0, 0, 0, 1, 0x67, 0x42, 0, 0, 0, 1, 0x68, 0xCE, 9, 0, 0, 0, 1, 0x65, 1, 2, 3, 4, 0, 0, 0, 1, 0x41, 5]"
  by (simp add: sample_aus_def annexb_def nal_type_of_def sc_def)

theorem rtp_delivery_witness:
  "\<exists>st f. rtp_stream [9] (send_all 0xffff sample_aus) rtp_zero \<lparr>sent = [], writes = [3, 1]\<rparr> = Some (0, st, f) \<and>
    sent f = [0, 0, 0, 1, 0x67, 0x42, 0, 0, 0, 1, 0x68, 0xCE, 9, 0, 0, 0, 1, 0x65, 1, 2, 3, 4, 0, 0, 0, 1, 0x41, 5]"
proof -
  have "\<forall>(ts, hs, us)\<in>set sample_aus. sendable [9] hs us"
    by (simp add: sample_aus_def sendable_def shape_ok_def plain_def nal_ok_def nal_type_of_def annexb_def sc_def)
  from rtp_delivery[OF this, where seq = "0xffff" and ns = "[3, 1]"] show ?thesis unfolding sample_sent by simp
qed

section \<open>After a loss\<close>



end
