(* ===== verification/Stream_Session.thy ===== *)
theory Stream_Session
  imports Stream_RTSP Stream_Delivery
begin

unbundle bit_operations_syntax

text \<open>
  What the RTSP client of \<^theory_text>\<open>Stream_RTSP\<close> does: whatever the source sends, it ends, and the
  decoder gets the parameter sets and units that its packets carry; its arrays are large enough for every request; and a source
  that answers gets the right requests, with the right answer to its challenge, and has its packets
  delivered.
\<close>

section \<open>Segments\<close>

text \<open>A connection delivers no empty segment before its end. \<open>skip_bytes\<close> leaves the cuts of the rest.\<close>

fun skip_bytes :: "nat \<Rightarrow> u8 list list \<Rightarrow> u8 list list" where
  "skip_bytes n [] = []"
| "skip_bytes n (seg # segs) =
     (if n = 0 then seg # segs else if n < length seg then drop n seg # segs else skip_bytes (n - length seg) segs)"

lemma skip_0 [simp]: "skip_bytes 0 segs = segs"
  by (cases segs) simp_all

lemma skip_nonempty: "[] \<notin> set segs \<Longrightarrow> [] \<notin> set (skip_bytes n segs)"
  by (induction n segs rule: skip_bytes.induct) auto

lemma skip_concat: "concat (skip_bytes n segs) = drop n (concat segs)"
  by (induction n segs rule: skip_bytes.induct) auto

lemma skip_skip: "skip_bytes m (skip_bytes n segs) = skip_bytes (n + m) segs"
proof (induction n segs rule: skip_bytes.induct)
  case (2 n seg segs)
  then show ?case by (cases "n = 0"; cases "n < length seg") (auto simp: add.commute)
qed simp

lemma sock_read_skip:
  assumes "[] \<notin> set segs" "0 < n"
  shows "\<exists>k. sock_read n segs = (take k (concat segs), skip_bytes k segs) \<and> k \<le> n \<and> k \<le> length (concat segs) \<and>
    (concat segs \<noteq> [] \<longrightarrow> 0 < k)"
proof (cases segs)
  case (Cons seg rest)
  then show ?thesis using assms
    by (intro exI[of _ "min n (length seg)"]) (auto simp: sock_read_def min_def)
qed (simp add: sock_read_def)

lemma read_loop_skip:
  assumes "[] \<notin> set segs" "length got \<le> len" "len \<le> length got + length (concat segs)"
  shows "read_loop len got segs = (True, got @ take (len - length got) (concat segs), skip_bytes (len - length got) segs)"
  using assms
proof (induction len got segs rule: read_loop.induct)
  case (1 len got segs)
  show ?case
  proof (cases "length got < len")
    case True
    obtain k where k: "sock_read (len - length got) segs = (take k (concat segs), skip_bytes k segs)" "k \<le> len - length got"
      "k \<le> length (concat segs)" "concat segs \<noteq> [] \<longrightarrow> 0 < k"
      using sock_read_skip[OF 1(2)] True by (meson zero_less_diff)
    have ne: "take k (concat segs) \<noteq> []" using k(3,4) True 1(4) by (auto simp del: concat_eq_Nil_conv length_concat)
    have len: "length (take k (concat segs)) = k" using k(3) by simp
    have m: "len - (length got + k) + k = len - length got" using k(2) by simp
    have "read_loop len (got @ take k (concat segs)) (skip_bytes k segs) =
      (True, (got @ take k (concat segs)) @ take (len - length (got @ take k (concat segs))) (concat (skip_bytes k segs)),
       skip_bytes (len - length (got @ take k (concat segs))) (skip_bytes k segs))"
      by (rule 1(1)[OF True k(1)[symmetric] ne])
        (use 1(2-) k True len in \<open>simp_all add: skip_nonempty skip_concat del: length_concat\<close>)
    moreover have "take k (concat segs) @ take (len - (length got + k)) (drop k (concat segs)) = take (len - length got) (concat segs)"
      by (metis m add.commute take_add)
    ultimately show ?thesis
      using True k(1) ne len m by (simp add: read_loop.simps[of len got segs] skip_concat skip_skip add.commute del: concat_eq_Nil_conv length_concat)
  qed (use 1(2-) in \<open>simp add: read_loop.simps[of len got segs]\<close>)
qed

lemma read_loop_length: "read_loop len got segs = (True, bs, rest) \<Longrightarrow> length got \<le> len \<Longrightarrow> length bs = len"
proof (induction len got segs rule: read_loop.induct)
  case (1 len got segs)
  obtain xs r where x: "sock_read (len - length got) segs = (xs, r)" by (cases "sock_read (len - length got) segs")
  then have "length xs \<le> len - length got" by (auto simp: sock_read_def split: list.splits)
  then show ?case using 1 x by (auto simp: read_loop.simps[of len got segs] split: if_splits)
qed

section \<open>Safety\<close>

abbreviation (input) accepting :: "out_file \<Rightarrow> bool" where
  "accepting f \<equiv> \<forall>n\<in>set (writes f). 0 < n"

lemma flush_accepting: "rtp_au_flush st f = (rc, st', f') \<Longrightarrow> accepting f \<Longrightarrow> rc = 0 \<and> accepting f'"
  using write_all_ok[of f "au st"] by (auto simp: rtp_au_flush_def Let_def split: if_splits)

lemma handle_accepting: "handle_rtp_h264 st f pkt sp = Some (rc, st', f') \<Longrightarrow> accepting f \<Longrightarrow> rc = 0 \<and> accepting f'"
  by (auto simp: handle_rtp_h264_def maybe_flush_def Let_def dest!: flush_accepting
      split: if_splits Option.bind_splits option.splits)

text \<open>The packets of channel 0 in a sequence of bytes, in order, with anything between them.\<close>

inductive interleaved :: "u8 list \<Rightarrow> u8 list list \<Rightarrow> bool" where
  none: "interleaved bs []"
| packet: "interleaved rest pkts \<Longrightarrow> length pkt = unat hi * 256 + unat lo \<Longrightarrow>
    interleaved (gap @ [DOLLAR, 0, hi, lo] @ pkt @ rest) (pkt # pkts)"

lemma interleaved_gap: "interleaved bs pkts \<Longrightarrow> interleaved (xs @ bs) pkts"
proof (induction rule: interleaved.induct)
  case (packet rest pkts pkt hi lo gap)
  then show ?case using interleaved.packet [of rest pkts pkt hi lo "xs @ gap"] by simp
qed (rule interleaved.none)

lemma sock_read_concat: "sock_read n segs = (xs, segs') \<Longrightarrow> concat segs = xs @ concat segs'"
  by (auto simp: sock_read_def split: list.splits if_splits)

lemma read_loop_concat: "read_loop len got segs = (ok, bs, rest) \<Longrightarrow> \<exists>x. bs = got @ x \<and> concat segs = x @ concat rest"
proof (induction len got segs rule: read_loop.induct)
  case (1 len got segs)
  obtain xs r where x: "sock_read (len - length got) segs = (xs, r)" by (cases "sock_read (len - length got) segs")
  show ?case using 1 x sock_read_concat [OF x] by (fastforce simp: read_loop.simps[of len got segs] split: if_splits)
qed

text \<open>What a loop over the packets \<open>ps\<close> does to the output: whole units, unless a write fails.\<close>

definition writes_units :: "u8 list \<Rightarrow> u8 list list \<Rightarrow> out_file \<Rightarrow> out_file \<Rightarrow> bool" where
  "writes_units sp ps f f' \<longleftrightarrow>
     (\<exists>u. framed sp ps u \<and> sent f' = sent f @ u) \<and> (accepting f \<longrightarrow> accepting f') \<or>
     \<not> accepting f \<and> (\<exists>u k. framed sp ps u \<and> sent f' = sent f @ take k u)"

lemma writes_units_refl: "writes_units sp ps f f"
  unfolding writes_units_def by (metis append_Nil2 framed_Nil)

lemma writes_units_trans:
  assumes "framed sp ps u" "sent g = sent f @ u" "accepting f \<longrightarrow> accepting g" "writes_units sp (ps @ qs) g h"
  shows "writes_units sp (ps @ qs) f h"
proof -
  have "framed sp (ps @ qs) (u @ v) \<and> u @ take k v = take (length u + k) (u @ v)" if "framed sp (ps @ qs) v" for v k
    using framed_append[OF framed_mono [OF assms(1)] that] by simp
  then show ?thesis using assms(2-4) unfolding writes_units_def by (metis append.assoc)
qed

lemma writes_units_cut: "writes_units sp ps f h \<Longrightarrow> \<exists>u k. framed sp ps u \<and> sent h = sent f @ (if accepting f then u else take k u)"
proof -
  assume "writes_units sp ps f h"
  then consider u where "framed sp ps u" "sent h = sent f @ u" | u k where "framed sp ps u" "sent h = sent f @ take k u" "\<not> accepting f"
    unfolding writes_units_def by blast
  then show ?thesis
  proof cases
    case 1
    then show ?thesis by (intro exI[of _ u] exI[of _ "length u"]) simp
  qed auto
qed

lemma media_safe:
  assumes "rtp_ok sp ps st"
  shows "\<exists>f' pkts. media_loop sp segs st f = Some f' \<and> interleaved (concat segs) pkts \<and> writes_units sp (ps @ filter is_rtp pkts) f f'"
  using assms
proof (induction sp segs st f arbitrary: ps rule: media_loop.induct)
  case (1 sp segs st f)
  have stop: "interleaved (concat segs) [] \<and> writes_units sp (ps @ filter is_rtp []) f f"
    using writes_units_refl by (simp add: interleaved.none)
  obtain a segs1 where r1: "sock_read 1 segs = (a, segs1)" by (cases "sock_read 1 segs")
  show ?case
  proof (cases a)
    case Nil
    then show ?thesis using r1 stop by (auto simp: media_loop.simps[of sp segs])
  next
    case (Cons ch t)
    note r1 = r1[unfolded Cons]
    obtain h segs2 where r2: "sock_read 3 segs1 = (h, segs2)" by (cases "sock_read 3 segs1")
    let ?n = "unat (h ! 1) * 256 + unat (h ! 2)"
    obtain ok pkt segs3 where r3: "read_loop ?n [] segs2 = (ok, pkt, segs3)" by (cases "read_loop ?n [] segs2")
    have bytes: "concat segs = (ch # t) @ concat segs1" "concat segs1 = h @ concat segs2" "concat segs2 = pkt @ concat segs3"
      using sock_read_concat [OF r1] sock_read_concat [OF r2] read_loop_concat [OF r3] by auto
    have "length (fst (sock_read 1 segs)) \<le> 1" by (simp add: sock_read_def split: list.split)
    then have t: "t = []" using r1 by simp
    obtain rc st' g u where hd: "handle_rtp_h264 st f pkt sp = Some (rc, st', g)" "rtp_ok sp (ps @ filter is_rtp [pkt]) st'"
      "framed sp (ps @ filter is_rtp [pkt]) u" "rc = 0 \<and> sent g = sent f @ u \<or> rc = -1 \<and> (\<exists>k. sent g = sent f @ take k u)"
      using handle_ok[OF 1(4)] by blast
    consider "ch \<noteq> DOLLAR" | "ch = DOLLAR" "length h \<noteq> 3 \<or> ?n = 0 \<or> \<not> ok" |
      "ch = DOLLAR" "length h = 3" "?n \<noteq> 0" ok "h ! 0 \<noteq> 0" | "ch = DOLLAR" "length h = 3" "?n \<noteq> 0" ok "h ! 0 = 0"
      by (cases "ch = DOLLAR"; cases "length h = 3"; cases "?n = 0"; cases ok; cases "h ! 0 = 0") simp_all
    then show ?thesis
    proof cases
      case skip: 1
      have "media_loop sp segs st f = media_loop sp segs1 st f" using r1 skip by (simp add: media_loop.simps[of sp segs])
      then show ?thesis using "1.IH"(1)[OF r1[symmetric] refl skip "1.prems"] interleaved_gap bytes(1) by metis
    next
      case 2
      then have "media_loop sp segs st f = Some f" using r1 r2 r3 by (auto simp: media_loop.simps[of sp segs])
      then show ?thesis using stop by blast
    next
      case 3
      have "media_loop sp segs st f = media_loop sp segs3 st f" using r1 r2 r3 3 by (auto simp: media_loop.simps[of sp segs])
      moreover have "\<exists>f' pkts. media_loop sp segs3 st f = Some f' \<and> interleaved (concat segs3) pkts \<and> writes_units sp (ps @ filter is_rtp pkts) f f'"
        using "1.IH"(2)[OF r1[symmetric] refl _ r2[symmetric] _ _ r3[symmetric]] 3 "1.prems" by auto
      moreover have "concat segs = ((ch # t) @ h @ pkt) @ concat segs3" using bytes by simp
      ultimately show ?thesis using interleaved_gap by metis
    next
      case 4
      have step: "media_loop sp segs st f = (if rc < 0 then Some g else media_loop sp segs3 st' g)"
        using r1 r2 r3 4 hd(1) by (auto simp: media_loop.simps[of sp segs])
      have len: "length pkt = ?n" using read_loop_length [of ?n "[]" segs2 pkt segs3] r3 4 by simp
      have "h = [0, h ! 1, h ! 2]" using 4(2,5) by (auto simp: length_Suc_conv numeral_3_eq_3)
      then have "concat segs = [] @ [DOLLAR, 0, h ! 1, h ! 2] @ pkt @ concat segs3" using bytes t 4(1) by simp
      then have frame: "interleaved (concat segs) (pkt # pkts)" if "interleaved (concat segs3) pkts" for pkts
        using interleaved.packet [OF that len, of "[]"] by simp
      show ?thesis
      proof (cases "rc < 0")
        case True
        then have "\<not> accepting f" using handle_accepting[OF hd(1)] by auto
        then have "writes_units sp (ps @ filter is_rtp [pkt]) f g" using True hd(3,4) unfolding writes_units_def by auto
        then show ?thesis using step True frame [OF interleaved.none] by auto
      next
        case False
        then obtain f' pkts where f': "media_loop sp segs3 st' g = Some f'" "interleaved (concat segs3) pkts"
            "writes_units sp ((ps @ filter is_rtp [pkt]) @ filter is_rtp pkts) g f'"
          using "1.IH"(3)[OF r1[symmetric] refl _ r2[symmetric] _ _ r3[symmetric] refl _ _ hd(1) refl refl _ hd(2)] 4 by auto
        have "accepting f \<longrightarrow> accepting g" using handle_accepting[OF hd(1)] by blast
        then have "writes_units sp (ps @ filter is_rtp (pkt # pkts)) f f'"
          using writes_units_trans[OF hd(3) _ _ f'(3), of f] hd(4) False by auto
        then show ?thesis using step False f'(1) frame [OF f'(2)] by auto
      qed
    qed
  qed
qed

definition annexb_units :: "u8 list \<Rightarrow> bool" where
  "annexb_units bs \<longleftrightarrow> (\<exists>us. bs = concat (map (\<lambda>u. sc @ u) us) \<and> [] \<notin> set us)"

lemma units_Nil [simp]: "annexb_units []"
  unfolding annexb_units_def by (rule exI[of _ "[]"]) simp

lemma units_append: "annexb_units a \<Longrightarrow> annexb_units b \<Longrightarrow> annexb_units (a @ b)"
  unfolding annexb_units_def by (metis Un_iff concat_append map_append set_append)

lemma units_nal: "u \<noteq> [] \<Longrightarrow> annexb_units (sc @ u)"
  unfolding annexb_units_def by (rule exI[of _ "[u]"]) simp

lemma param_set_units: "annexb_units sp \<Longrightarrow> length sp < 512 \<Longrightarrow> annexb_units (add_param_set p sp) \<and> length (add_param_set p sp) < 512"
  by (auto simp: add_param_set_def sc_def[THEN arg_cong[of _ _ length]] intro!: units_append units_nal split: option.split)

lemma sdp_units: "sdp_parse_h264 n sdp = (control, sp) \<Longrightarrow> annexb_units sp \<and> length sp < 512"
  using param_set_units by (auto simp: sdp_parse_h264_def Let_def split: option.splits)

lemma sprop_units:
  "sprop_loop n p sp = Some sp' \<Longrightarrow> annexb_units sp \<Longrightarrow> length sp < 512 \<Longrightarrow> annexb_units sp' \<and> length sp' < 512"
proof (induction n p sp rule: sprop_loop.induct)
  case (1 n p sp)
  show ?case
  proof (cases "p \<noteq> [] \<and> n < 2")
    case True
    then obtain tmp where t: "b64_decode p 256 = Some tmp" "tmp \<noteq> []" "length sp + length tmp + 4 < 512"
      "\<not> (n = 0 \<and> tmp ! 0 AND 0x1f \<noteq> 7 \<or> n = 1 \<and> tmp ! 0 AND 0x1f \<noteq> 8)"
      using "1.prems"(1) by (auto simp: sprop_loop.simps[of n p] split: Option.bind_splits if_splits)
    have u: "annexb_units (sp @ sc @ tmp)" using t(2) "1.prems"(2) by (intro units_append units_nal)
    have "length (sp @ sc @ tmp) < 512" using t(3) by (simp add: sc_def)
    note u = u this
    have "sprop_loop n p sp = (case str_index p (CHR '','') of None \<Rightarrow> Some (sp @ sc @ tmp)
      | Some e \<Rightarrow> sprop_loop (n + 1) (tl e) (sp @ sc @ tmp))"
      using True t by (auto simp: sprop_loop.simps[of n p])
    then show ?thesis
      using "1.IH"[OF True t(1) _ t(4)] t(2,3) u "1.prems"(1) by (auto split: option.splits)
  qed (use 1 in \<open>auto simp: sprop_loop.simps[of n p] split: if_splits\<close>)
qed

lemma play_units: "rtsp_play ctx base u c = (Some sp, c') \<Longrightarrow> annexb_units sp \<and> length sp < 512"
  using sdp_units by (auto simp: rtsp_play_def Let_def split: prod.splits option.splits if_splits)


section \<open>Answers\<close>

abbreviation (input) bytes :: "string \<Rightarrow> u8 list" where
  "bytes s \<equiv> map of_char s"

fun no_blank :: "string \<Rightarrow> bool" where
  "no_blank [] = True"
| "no_blank (c # cs) = (take 4 (c # cs) \<noteq> crlf @ crlf \<and> no_blank cs)"

text \<open>An answer that fits the client: its header ends at its first blank line and announces its body.\<close>

definition answer :: "string \<Rightarrow> string \<Rightarrow> bool" where
  "answer hdr body \<longleftrightarrow>
     take 1 hdr = ''R'' \<and> drop (length hdr - 4) hdr = crlf @ crlf \<and> no_blank (butlast hdr) \<and> length hdr < 2048 \<and>
     CHR 0x00 \<notin> set (hdr @ body) \<and> content_length hdr = int (length body) \<and> length body < 4096"

lemma char_of_byte [simp]: "(char_of (unat (of_char c :: u8)) :: char) = c"
proof -
  have "(of_char c :: u8) = of_nat (of_char c)" by (simp only: of_nat_of_char)
  moreover have "(of_char c :: nat) < 256" by simp
  ultimately have "unat (of_char c :: u8) = of_char c" by (simp add: unsigned_of_nat take_bit_nat_eq_self del: of_nat_of_char)
  then show ?thesis by simp
qed

lemma cstr_bytes: "CHR 0x00 \<notin> set s \<Longrightarrow> cstr (bytes s) = s"
  by (auto simp: cstr_def o_def takeWhile_eq_all_conv)

lemma bytes_inj: "bytes s = bytes t \<longleftrightarrow> s = t"
proof -
  have "map (\<lambda>b. char_of (unat b)) (bytes s) = s" for s :: string by (simp add: o_def)
  then show ?thesis by metis
qed

lemma no_blank_take: "no_blank s \<Longrightarrow> 4 \<le> k \<Longrightarrow> k \<le> length s \<Longrightarrow> drop (k - 4) (take k s) \<noteq> crlf @ crlf"
proof (induction s arbitrary: k rule: no_blank.induct)
  case (2 c cs)
  show ?case
  proof (cases "k = 4")
    case True
    then show ?thesis using 2(2) by simp
  next
    case False
    then have "drop (k - 4) (take k (c # cs)) = drop ((k - 1) - 4) (take (k - 1) cs)"
      using 2(3) by (cases k) (auto simp: drop_Cons' Suc_diff_le)
    then show ?thesis using 2(1)[of "k - 1"] 2(2-) False by auto
  qed
qed simp

lemma header_loop_ok:
  assumes "[] \<notin> set segs" "concat segs = bytes post @ tail" "post \<noteq> []" "length (pre @ post) < m"
    and "take 1 (pre @ post) = ''R''" "drop (length (pre @ post) - 4) (pre @ post) = crlf @ crlf" "no_blank (butlast (pre @ post))"
  shows "header_loop m (bytes pre) segs = (True, bytes (pre @ post), skip_bytes (length post) segs)"
  using assms
proof (induction post arbitrary: pre segs)
  case (Cons c post)
  obtain k where "sock_read 1 segs = (take k (concat segs), skip_bytes k segs)" "k \<le> 1" "concat segs \<noteq> [] \<longrightarrow> 0 < k"
    using sock_read_skip[OF Cons.prems(1), of 1] by auto
  then have r: "sock_read 1 segs = ([of_char c], skip_bytes 1 segs)" using Cons.prems(2) by (cases k) auto
  have big: "length (bytes pre :: u8 list) < m - 1" using Cons.prems(4) by simp
  have R: "pre = [] \<Longrightarrow> (of_char c :: u8) = LETTER_R \<and> (of_char c :: u8) \<noteq> DOLLAR"
    using Cons.prems(5) by (auto simp: LETTER_R_def DOLLAR_def)
  define pre2 where "pre2 = pre @ [c]"
  have p2: "bytes pre @ [of_char c] = (bytes pre2 :: u8 list)" "pre @ c # post = pre2 @ post" by (simp_all add: pre2_def)
  have end4: "4 \<le> length (bytes pre2 :: u8 list) \<and> drop (length (bytes pre2 :: u8 list) - 4) (bytes pre2) = blank_line \<longleftrightarrow>
      4 \<le> length pre2 \<and> drop (length pre2 - 4) pre2 = crlf @ crlf"
    unfolding blank_line_def by (simp add: drop_map bytes_inj del: map_append)
  have step: "header_loop m (bytes pre) segs =
      (if 4 \<le> length pre2 \<and> drop (length pre2 - 4) pre2 = crlf @ crlf then (True, bytes pre2, skip_bytes 1 segs)
       else header_loop m (bytes pre2) (skip_bytes 1 segs))"
  proof -
    have no: "\<not> ((bytes pre :: u8 list) = [] \<and> (of_char c :: u8) = DOLLAR)" "\<not> ((bytes pre :: u8 list) = [] \<and> (of_char c :: u8) \<noteq> LETTER_R)"
      using R by auto
    show ?thesis
      unfolding header_loop.simps[of m "bytes pre" segs] if_P[OF big] r prod.case list.case if_not_P[OF no(1)] if_not_P[OF no(2)] p2(1) end4
      by (rule refl)
  qed
  show ?case
  proof (cases "post = []")
    case True
    then have d: "drop (length pre2 - 4) pre2 = crlf @ crlf" using Cons.prems(6) unfolding p2(2) by simp
    then have "length (drop (length pre2 - 4) pre2) = 4" by (simp only: d) (simp add: crlf_def)
    then have "4 \<le> length pre2" by simp
    then show ?thesis using step True d by (simp add: pre2_def)
  next
    case False
    have "butlast (pre2 @ post) = pre2 @ butlast post" using False by (simp add: butlast_append)
    then have "\<not> (4 \<le> length pre2 \<and> drop (length pre2 - 4) pre2 = crlf @ crlf)"
      using no_blank_take[OF Cons.prems(7), of "length pre2"] p2(2) by auto
    moreover have "header_loop m (bytes pre2) (skip_bytes 1 segs) = (True, bytes (pre2 @ post), skip_bytes (length post) (skip_bytes 1 segs))"
      by (rule Cons.IH) (use Cons.prems False p2(2) in \<open>simp_all add: skip_nonempty skip_concat\<close>)
    ultimately show ?thesis using step unfolding p2(2) by (auto simp: skip_skip simp del: map_append)
  qed
qed simp

lemma answer_read:
  assumes "[] \<notin> set segs" "concat segs = bytes (hdr @ body) @ tail" "answer hdr body"
  shows "rtsp_read_response 2048 4096 segs =
    (str_find hdr ''RTSP/1.0 200'' \<noteq> None, hdr, body, skip_bytes (length (hdr @ body)) segs)"
proof -
  note a = assms(3)[unfolded answer_def]
  have "hdr \<noteq> []" using a by auto
  then have h: "header_loop 2048 [] segs = (True, bytes hdr, skip_bytes (length hdr) segs)"
    using header_loop_ok[of segs hdr "bytes body @ tail" "[]" 2048] assms(1,2) a by simp
  have "read_loop (length body) [] (skip_bytes (length hdr) segs) = (True, bytes body, skip_bytes (length body) (skip_bytes (length hdr) segs))"
    by (subst read_loop_skip) (use assms(1,2) in \<open>simp_all add: skip_nonempty skip_concat\<close>)
  then show ?thesis
    using h a by (simp add: rtsp_read_response_def cstr_bytes skip_skip)
qed


section \<open>Requests\<close>

definition url_fits :: "rtsp_url \<Rightarrow> bool" where
  "url_fits u \<longleftrightarrow> length (host u) < 128 \<and> length (path u) < 256 \<and> length (auth u) < 192 \<and> length (user u) < 96 \<and>
     length (pass u) < 96 \<and> length (realm u) < 128 \<and> length (nonce u) < 128"

lemma length_clip [simp]: "length (clip n s) = min (n - 1) (length s)"
  by (simp add: clip_def)

lemma credentials_fit: "rtsp_credentials s u = Some u' \<Longrightarrow> url_fits u \<Longrightarrow> url_fits u'"
  using encode_length[of 192 "clip 192 s"] by (auto simp: rtsp_credentials_def url_fits_def Let_def split: if_splits option.splits)

lemma hostport_fits: "rtsp_hostport s u = Some u' \<Longrightarrow> url_fits u \<Longrightarrow> url_fits u'"
  by (auto simp: rtsp_hostport_def url_fits_def Let_def split: if_splits option.splits)

lemma parse_fits: "parse_rtsp_url url = Some u \<Longrightarrow> url_fits u"
proof -
  assume "parse_rtsp_url url = Some u"
  then obtain slash hostpart up v w where *: "rtsp_hostport hostpart v = Some w" "u = w\<lparr>path := clip 256 slash\<rparr>"
    "v = no_url \<or> rtsp_credentials up no_url = Some v"
    by (auto simp: parse_rtsp_url_def Let_def split: if_splits option.splits Option.bind_splits) blast
  have "url_fits no_url" by (simp add: url_fits_def no_url_def)
  then have "url_fits w" using *(1,3) credentials_fit hostport_fits by blast
  then show ?thesis using *(2) by (simp add: url_fits_def)
qed

lemma param_fits: "param_loop s name n i = Some v \<Longrightarrow> length v < n"
proof (induction s name n i rule: param_loop.induct)
  case (1 s name n i)
  have "length v < n" if "param_value n q = Some v" for q
    using that by (cases n) (auto simp: param_value_def Let_def clip_def split: if_splits option.splits)
  then show ?case
    using 1 by (subst (asm) (3) param_loop.simps) (auto simp: Let_def split: option.splits if_splits)
qed

lemma challenge_fits: "rtsp_parse_digest_challenge hdr u = Some u' \<Longrightarrow> url_fits u \<Longrightarrow> url_fits u'"
  using param_fits by (auto simp: rtsp_parse_digest_challenge_def rtsp_digest_param_def url_fits_def split: Option.bind_splits)

text \<open>The text of a request, with the digest of RFC 1321.\<close>

definition hex_md5 :: "string \<Rightarrow> string" where
  "hex_md5 s = concat (map hex_digits_of (concat (map rfc_bytes (rfc_hash rfc_init (rfc_pad (bytes s))))))"

definition authorization :: "rtsp_url \<Rightarrow> string \<Rightarrow> string \<Rightarrow> string" where
  "authorization u method url =
     (if user u = [] \<or> nonce u = [] \<or> realm u = [] then if auth u = [] then [] else ''Authorization: Basic '' @ auth u @ crlf
      else ''Authorization: Digest username='' @ quoted (user u) @ '', realm='' @ quoted (realm u) @
        '', nonce='' @ quoted (nonce u) @ '', uri='' @ quoted url @ '', response='' @
        quoted (hex_md5 (hex_md5 (user u @ '':'' @ realm u @ '':'' @ pass u) @ '':'' @ nonce u @ '':'' @ hex_md5 (method @ '':'' @ url))) @ crlf)"

definition request :: "rtsp_url \<Rightarrow> int \<Rightarrow> string \<Rightarrow> string \<Rightarrow> string \<Rightarrow> string" where
  "request u n method url extra =
     method @ '' '' @ url @ '' RTSP/1.0'' @ crlf @ ''CSeq: '' @ dec_int n @ crlf @ ''User-Agent: toon-vpu-stream'' @ crlf @
     authorization u method url @ extra @ crlf"

lemma md5_hex_rfc: "length (md5_buf ctx) = 64 \<Longrightarrow> md5_hex ctx s = hex_md5 s"
  using final_rfc[OF update_ok[OF init_ok, of ctx "bytes s"]] by (simp add: md5_hex_def hex_md5_def)

lemma length_md5_hex [simp]: "length (md5_hex ctx s) = 32"
  by (simp add: md5_hex_def md5_final_def Let_def le_bytes_def hex_digits_of_def)

lemma length_dec: "0 \<le> n \<Longrightarrow> length (dec_int n) \<le> nat n + 1"
proof -
  have "length (dec_nat k) \<le> k + 1" for k
  proof (induction k rule: dec_nat.induct)
    case (1 k)
    then show ?case by (subst dec_nat.simps) (auto simp: not_less)
  qed
  then show "0 \<le> n \<Longrightarrow> length (dec_int n) \<le> nat n + 1" by (simp add: dec_int_def)
qed

lemma digest_auth:
  assumes "url_fits u" "length (md5_buf ctx) = 64" "length url < 512" "length method \<le> 8"
  shows "rtsp_make_digest_auth ctx 1200 url u method =
    (if user u = [] \<or> nonce u = [] \<or> realm u = [] then (0, []) else (1, authorization u method url))"
proof (cases "user u = [] \<or> nonce u = [] \<or> realm u = []")
  case False
  note fit = assms(1)[unfolded url_fits_def]
  let ?r = "hex_md5 (user u @ '':'' @ realm u @ '':'' @ pass u) @ '':'' @ nonce u @ '':'' @ hex_md5 (method @ '':'' @ url)"
  have h: "length (hex_md5 s) = 32" for s using md5_hex_rfc[OF assms(2)] length_md5_hex by metis
  have "length (user u @ '':'' @ realm u @ '':'' @ pass u) < 384" "length (method @ '':'' @ url) < 640" "length ?r < 256"
    using fit assms(3,4) h by simp_all
  moreover have "length (authorization u method url) < 1200"
    using fit assms(3) h False by (simp add: authorization_def quoted_def crlf_def)
  ultimately show ?thesis
    using False unfolding rtsp_make_digest_auth_def Let_def md5_hex_rfc[OF assms(2)] authorization_def
    by (simp only: not_le[symmetric] if_False if_True simp_thms)
qed (simp add: rtsp_make_digest_auth_def)

lemma authorization_fits:
  fixes ctx :: md5_ctx
  assumes "url_fits u" "length (md5_buf ctx) = 64" "length url < 512"
  shows "length (authorization u method url) < 1200"
proof -
  have h: "length (hex_md5 s) = 32" for s using md5_hex_rfc[OF assms(2)] length_md5_hex by metis
  show ?thesis using assms(1,3) h by (simp add: authorization_def quoted_def crlf_def url_fits_def)
qed


lemma send_request:
  assumes "url_fits u" "length (md5_buf ctx) = 64" "length url < 512" "length method \<le> 8" "length extra \<le> 200"
    and "0 \<le> cseq c" "cseq c \<le> 9" "accepting (tx c)"
  shows "\<exists>f. rtsp_send ctx url u method extra c = (0, c\<lparr>cseq := cseq c + 1, tx := f\<rparr>) \<and>
    sent f = sent (tx c) @ bytes (request u (cseq c) method url extra) \<and> accepting f"
proof -
  define b where "b \<longleftrightarrow> user u = [] \<or> nonce u = [] \<or> realm u = []"
  let ?a = "authorization u method url"
  have basic: "(if b \<and> auth u \<noteq> [] then ''Authorization: Basic '' @ auth u @ crlf else if b then [] else ?a) = ?a"
    by (auto simp: authorization_def b_def)
  have a: "length ?a < 1200" by (rule authorization_fits[OF assms(1-3)])
  then have req: "length (request u (cseq c) method url extra) < 3072"
    using assms(3-7) length_dec[OF assms(6)] by (simp add: request_def crlf_def)
  obtain f where f: "write_all (bytes (request u (cseq c) method url extra)) (tx c) = (0, f)"
    "sent f = sent (tx c) @ bytes (request u (cseq c) method url extra)" "accepting f"
    using write_all_ok[OF assms(8)] by blast
  have tx: "tx (c\<lparr>cseq := k\<rparr>) = tx c" for k by simp
  have "rtsp_make_digest_auth ctx 1200 url u method = (if b then 0 else 1, if b then [] else ?a)"
    using digest_auth[OF assms(1-4)] by (simp add: b_def)
  then have "rtsp_send ctx url u method extra c =
      (let (rc, f) = write_all (bytes (request u (cseq c) method url extra)) (tx c) in (rc, c\<lparr>cseq := cseq c + 1, tx := f\<rparr>))"
    using a req basic by (cases b; cases "auth u = []") (simp_all only: rtsp_send_def Let_def prod.case if_True if_False request_def not_le[symmetric] simp_thms
      tx order_refl zero_le_one one_neq_zero)
  then show ?thesis using f by auto
qed


section \<open>The dialogue\<close>

definition accepted :: "string \<Rightarrow> bool" where
  "accepted hdr \<longleftrightarrow> str_find hdr ''RTSP/1.0 200'' \<noteq> None"

text \<open>\<open>k\<close> bytes have been read and \<open>out\<close> has been sent.\<close>

definition stage :: "u8 list list \<Rightarrow> nat \<Rightarrow> int \<Rightarrow> string \<Rightarrow> rtsp_conn \<Rightarrow> bool" where
  "stage segs k n out c \<longleftrightarrow> rxs c = skip_bytes k segs \<and> cseq c = n \<and> sent (tx c) = bytes out \<and> accepting (tx c)"

lemma ask_stage:
  assumes "stage segs k n out c" "[] \<notin> set segs" "drop k (concat segs) = bytes (hdr @ body) @ tail" "answer hdr body"
    and "url_fits u" "length (md5_buf ctx) = 64" "length url < 512" "length method \<le> 8" "length extra \<le> 200" "n \<in> {1, 2, 3, 4}"
  shows "\<exists>c'. rtsp_ask ctx url u method extra c = ((accepted hdr, hdr, body), c') \<and>
    stage segs (k + length (hdr @ body)) (n + 1) (out @ request u n method url extra) c'"
proof -
  have c: "rxs c = skip_bytes k segs" "cseq c = n" "sent (tx c) = bytes out" "accepting (tx c)"
    using assms(1) by (simp_all add: stage_def)
  obtain f where f: "rtsp_send ctx url u method extra c = (0, c\<lparr>cseq := n + 1, tx := f\<rparr>)"
    "sent f = bytes (out @ request u n method url extra)" "accepting f"
    using send_request[OF assms(5-9), of c] c assms(10) by auto
  have "rtsp_read_response 2048 4096 (skip_bytes k segs) = (accepted hdr, hdr, body, skip_bytes (length (hdr @ body)) (skip_bytes k segs))"
    unfolding accepted_def by (rule answer_read[OF _ _ assms(4), where tail = tail]) (use assms(2,3) in \<open>simp_all add: skip_nonempty skip_concat\<close>)
  then show ?thesis using f c by (simp add: rtsp_ask_def stage_def skip_skip)
qed

abbreviation (input) "describe_text \<equiv> ''Accept: application/sdp'' @ crlf"
abbreviation (input) "setup_text \<equiv> ''Transport: RTP/AVP/TCP;unicast;interleaved=0-1'' @ crlf"
abbreviation (input) "play_text session \<equiv> ''Session: '' @ session @ crlf"

text \<open>
  The challenge \<open>ch\<close> of a source that asks for one, and the requests: \<open>v\<close> is \<open>u\<close> with what the
  challenge brought.
\<close>

definition challenge :: "(string \<times> string) option \<Rightarrow> rtsp_url \<Rightarrow> rtsp_url \<Rightarrow> bool" where
  "challenge ch u v \<longleftrightarrow>
     (case ch of
        None \<Rightarrow> v = u
      | Some (hdr, body) \<Rightarrow> answer hdr body \<and> \<not> accepted hdr \<and> rtsp_parse_digest_challenge hdr u = Some v)"

definition challenge_text :: "(string \<times> string) option \<Rightarrow> string" where
  "challenge_text ch = (case ch of None \<Rightarrow> [] | Some (hdr, body) \<Rightarrow> hdr @ body)"

definition describe_requests :: "(string \<times> string) option \<Rightarrow> rtsp_url \<Rightarrow> rtsp_url \<Rightarrow> string" where
  "describe_requests ch u v =
     (if ch = None then [] else request u 1 ''DESCRIBE'' (rtsp_base u) describe_text) @
     request v (if ch = None then 1 else 2) ''DESCRIBE'' (rtsp_base u) describe_text"

lemma text_lengths:
  "length ''DESCRIBE'' \<le> 8" "length ''SETUP'' \<le> 8" "length ''PLAY'' \<le> 8" "length (describe_text) \<le> 200" "length (setup_text) \<le> 200"
  by (simp_all add: crlf_def)

lemma base_fits: "length (rtsp_base u) < 512"
  by (simp add: rtsp_base_def)

lemma describe_stage:
  assumes "stage segs 0 1 [] c" "[] \<notin> set segs" "concat segs = bytes (challenge_text ch @ hdr @ body) @ tail"
    and "challenge ch u v" "answer hdr body" "accepted hdr" "url_fits u" "length (md5_buf ctx) = 64"
  shows "url_fits v" "\<exists>c'. rtsp_describe ctx (rtsp_base u) u c = (Some (body, v), c') \<and>
    stage segs (length (challenge_text ch @ hdr @ body)) (if ch = None then 2 else 3) (describe_requests ch u v) c'"
proof -
  show v: "url_fits v" using assms(4,7) challenge_fits by (auto simp: challenge_def split: option.splits)
  show "\<exists>c'. rtsp_describe ctx (rtsp_base u) u c = (Some (body, v), c') \<and>
    stage segs (length (challenge_text ch @ hdr @ body)) (if ch = None then 2 else 3) (describe_requests ch u v) c'"
  proof (cases ch)
    case None
    obtain c' where "rtsp_ask ctx (rtsp_base u) u ''DESCRIBE'' describe_text c = ((accepted hdr, hdr, body), c')"
      "stage segs (0 + length (hdr @ body)) (1 + 1) ([] @ request u 1 ''DESCRIBE'' (rtsp_base u) describe_text) c'"
      using ask_stage[OF assms(1,2) _ assms(5,7,8) base_fits text_lengths(1,4), of tail u] assms(3) None
      by (auto simp: challenge_text_def)
    then show ?thesis using None assms(4,6) by (simp add: rtsp_describe_def challenge_def challenge_text_def describe_requests_def)
  next
    case (Some hb)
    obtain h0 b0 where ch: "ch = Some (h0, b0)" using Some by (cases hb) simp
    have a: "answer h0 b0" "\<not> accepted h0" "rtsp_parse_digest_challenge h0 u = Some v" using assms(4) ch by (simp_all add: challenge_def)
    obtain c1 where 1: "rtsp_ask ctx (rtsp_base u) u ''DESCRIBE'' describe_text c = ((accepted h0, h0, b0), c1)"
      "stage segs (0 + length (h0 @ b0)) (1 + 1) ([] @ request u 1 ''DESCRIBE'' (rtsp_base u) describe_text) c1"
      using ask_stage[OF assms(1,2) _ a(1) assms(7,8) base_fits text_lengths(1,4), of "bytes (hdr @ body) @ tail" u] assms(3) ch
      by (auto simp: challenge_text_def)
    obtain c2 where 2: "rtsp_ask ctx (rtsp_base u) v ''DESCRIBE'' describe_text c1 = ((accepted hdr, hdr, body), c2)"
      "stage segs (0 + length (h0 @ b0) + length (hdr @ body)) (1 + 1 + 1)
        (([] @ request u 1 ''DESCRIBE'' (rtsp_base u) describe_text) @ request v (1 + 1) ''DESCRIBE'' (rtsp_base u) describe_text) c2"
      using ask_stage[OF 1(2) assms(2) _ assms(5) v assms(8) base_fits text_lengths(1,4), of tail u] assms(3) ch
      by (auto simp: challenge_text_def)
    show ?thesis using ch a 1 2 assms(6) by (simp add: rtsp_describe_def challenge_text_def describe_requests_def add.assoc)
  qed
qed

text \<open>The requests of a session and the bytes that answer them.\<close>

definition session_requests :: "(string \<times> string) option \<Rightarrow> rtsp_url \<Rightarrow> rtsp_url \<Rightarrow> string \<Rightarrow> string \<Rightarrow> string" where
  "session_requests ch u v setup_url session =
     (let n = (if ch = None then 2 else 3)
      in describe_requests ch u v @ request v n ''SETUP'' setup_url setup_text @
         request v (n + 1) ''PLAY'' (rtsp_base u) (play_text session))"

lemma play_stage:
  assumes "stage segs 0 1 [] c" "[] \<notin> set segs"
    and "concat segs = bytes (challenge_text ch @ h1 @ b1 @ h2 @ b2 @ h3 @ b3) @ tail"
    and "challenge ch u v" "answer h1 b1" "accepted h1" "answer h2 b2" "accepted h2" "answer h3 b3" "accepted h3"
    and "url_fits u" "length (md5_buf ctx) = 64" "sdp_parse_h264 256 b1 = (control, sp)"
    and "setup_url = rtsp_abs_url 512 (rtsp_base u) control" "setup_url \<noteq> []"
    and "session = rtsp_parse_session 128 h2" "session \<noteq> []"
  shows "\<exists>c'. rtsp_play ctx (rtsp_base u) u c = (Some sp, c') \<and>
    stage segs (length (challenge_text ch @ h1 @ b1 @ h2 @ b2 @ h3 @ b3)) (if ch = None then 4 else 5)
      (session_requests ch u v setup_url session) c'"
proof -
  let ?n = "if ch = None then 2 else 3 :: int"
  have n: "?n \<in> {1, 2, 3, 4}" "?n + 1 \<in> {1, 2, 3, 4}" by auto
  have v: "url_fits v" and "\<exists>c1. rtsp_describe ctx (rtsp_base u) u c = (Some (b1, v), c1) \<and>
      stage segs (length (challenge_text ch @ h1 @ b1)) ?n (describe_requests ch u v) c1"
    using describe_stage[OF assms(1,2) _ assms(4-6,11,12), of "bytes (h2 @ b2 @ h3 @ b3) @ tail"] assms(3) by simp_all
  then obtain c1 where 1: "rtsp_describe ctx (rtsp_base u) u c = (Some (b1, v), c1)"
    "stage segs (length (challenge_text ch @ h1 @ b1)) ?n (describe_requests ch u v) c1" by blast
  have su: "length setup_url < 512" using assms(14) base_fits[of u] by (auto simp: rtsp_abs_url_def clip_def)
  obtain c2 where 2: "rtsp_ask ctx setup_url v ''SETUP'' setup_text c1 = ((accepted h2, h2, b2), c2)"
    "stage segs (length (challenge_text ch @ h1 @ b1) + length (h2 @ b2)) (?n + 1)
      (describe_requests ch u v @ request v ?n ''SETUP'' setup_url setup_text) c2"
    using ask_stage[OF 1(2) assms(2) _ assms(7) v assms(12) su text_lengths(2,5), of "bytes (h3 @ b3) @ tail"] assms(3) n by auto
  have len: "length session < 128" using assms(16) by (auto simp: rtsp_parse_session_def clip_def split: option.split)
  then have pt: "clip 192 (play_text session) = play_text session" "length (play_text session) \<le> 200" by (simp_all add: clip_def crlf_def)
  obtain c3 where 3: "rtsp_ask ctx (rtsp_base u) v ''PLAY'' (play_text session) c2 = ((accepted h3, h3, b3), c3)"
    "stage segs (length (challenge_text ch @ h1 @ b1) + length (h2 @ b2) + length (h3 @ b3)) (?n + 1 + 1)
      ((describe_requests ch u v @ request v ?n ''SETUP'' setup_url setup_text) @
       request v (?n + 1) ''PLAY'' (rtsp_base u) (play_text session)) c3"
    using ask_stage[OF 2(2) assms(2) _ assms(9) v assms(12) base_fits text_lengths(3) pt(2), of tail u] assms(3) n by auto
  have "rtsp_play ctx (rtsp_base u) u c = (Some sp, c3)"
    unfolding rtsp_play_def 1(1) prod.case option.case assms(13) Let_def assms(14)[symmetric] 2(1) assms(16)[symmetric] pt(1) 3(1)
    using assms(8,10,15,17) by simp
  then show ?thesis using 3(2) by (auto simp: session_requests_def Let_def add.assoc split: if_splits)
qed


section \<open>Media\<close>

definition frame :: "u8 \<Rightarrow> u8 list \<Rightarrow> u8 list" where
  "frame ch pkt = [DOLLAR, ch, of_nat (length pkt div 256), of_nat (length pkt mod 256)] @ pkt"

text \<open>The three bytes after each dollar sign arrive together.\<close>

fun headers_whole :: "(u8 \<times> u8 list) list \<Rightarrow> u8 list list \<Rightarrow> bool" where
  "headers_whole [] segs = True"
| "headers_whole ((ch, pkt) # fs) segs \<longleftrightarrow>
     length (fst (sock_read 3 (skip_bytes 1 segs))) = 3 \<and> headers_whole fs (skip_bytes (4 + length pkt) segs)"

lemma frame_length: "length (frame ch pkt) = 4 + length pkt"
  by (simp add: frame_def)

lemma media_frame:
  assumes "[] \<notin> set segs" "concat segs = frame ch pkt @ tail" "0 < length pkt" "length pkt < 65536"
    and "length (fst (sock_read 3 (skip_bytes 1 segs))) = 3"
  shows "media_loop sp segs st f =
    (if ch \<noteq> 0 then media_loop sp (skip_bytes (4 + length pkt) segs) st f
     else case handle_rtp_h264 st f pkt sp of
            None \<Rightarrow> None
          | Some (rc, st, f) \<Rightarrow> if rc < 0 then Some f else media_loop sp (skip_bytes (4 + length pkt) segs) st f)"
proof -
  let ?h = "[ch, of_nat (length pkt div 256), of_nat (length pkt mod 256)] :: u8 list"
  obtain k where k: "sock_read 1 segs = (take k (concat segs), skip_bytes k segs)" "k \<le> 1" "concat segs \<noteq> [] \<longrightarrow> 0 < k"
    using sock_read_skip[OF assms(1), of 1] by auto
  then have 1: "sock_read 1 segs = ([DOLLAR], skip_bytes 1 segs)" using assms(2) by (cases k) (auto simp: frame_def)
  have s1: "[] \<notin> set (skip_bytes 1 segs)" "concat (skip_bytes 1 segs) = ?h @ pkt @ tail"
    using assms(1,2) by (simp_all add: skip_nonempty skip_concat frame_def)
  obtain j where j: "sock_read 3 (skip_bytes 1 segs) = (take j (concat (skip_bytes 1 segs)), skip_bytes j (skip_bytes 1 segs))"
    "j \<le> 3" using sock_read_skip[OF s1(1), of 3] by auto
  then have "j = 3" using assms(5) by (auto simp: min_def split: if_splits)
  then have 3: "sock_read 3 (skip_bytes 1 segs) = (?h, skip_bytes 4 segs)" using j(1) s1(2) by (simp add: skip_skip)
  have len: "unat (?h ! 1) * 256 + unat (?h ! 2) = length pkt"
    using assms(4) by (simp add: unsigned_of_nat take_bit_nat_eq_self div_less_iff_less_mult)
  have "read_loop (length pkt) [] (skip_bytes 4 segs) = (True, pkt, skip_bytes (4 + length pkt) segs)"
    by (subst read_loop_skip) (use assms(1,2) in \<open>simp_all add: skip_nonempty skip_concat frame_def skip_skip add.commute\<close>)
  then have r: "read_loop (unat (?h ! 1) * 256 + unat (?h ! 2)) [] (skip_bytes 4 segs) = (True, pkt, skip_bytes (4 + length pkt) segs)"
    by (simp only: len)
  have n: "unat (?h ! 1) * 256 + unat (?h ! 2) \<noteq> 0" "length ?h = 3" "?h ! 0 = ch" using len assms(3) by simp_all
  show ?thesis
    unfolding media_loop.simps[of sp segs st f] 1 prod.case list.case 3 r n(3) using n(1,2) by (simp only: simp_thms if_True if_False)
qed

lemma media_frames:
  assumes "[] \<notin> set segs" "concat segs = concat (map (\<lambda>(ch, pkt). frame ch pkt) fs)" "headers_whole fs segs"
    and "\<forall>(ch, pkt)\<in>set fs. 0 < length pkt \<and> length pkt < 65536"
  shows "media_loop sp segs st f = map_option (\<lambda>(rc, st, f). f) (rtp_stream sp (map snd (filter (\<lambda>(ch, pkt). ch = 0) fs)) st f)"
  using assms
proof (induction fs arbitrary: segs st f)
  case Nil
  then have "segs = []" by (cases segs) auto
  then show ?case by (simp add: media_loop.simps sock_read_def)
next
  case (Cons x fs)
  obtain ch pkt where x: "x = (ch, pkt)" by (cases x)
  have IH: "media_loop sp (skip_bytes (4 + length pkt) segs) st f =
      map_option (\<lambda>(rc, st, f). f) (rtp_stream sp (map snd (filter (\<lambda>(ch, pkt). ch = 0) fs)) st f)" for st f
    by (rule Cons.IH) (use Cons.prems x in \<open>simp_all add: skip_nonempty skip_concat flip: frame_length[of ch]\<close>)
  show ?case
    using media_frame[of segs ch pkt "concat (map (\<lambda>(ch, pkt). frame ch pkt) fs)" sp st f] Cons.prems x IH
    by (auto split: option.splits if_splits)
qed

text \<open>
  C3. A whole session: when the source answers the requests, after a digest challenge or without one, in
  any segmentation of the connection, the client sends DESCRIBE, SETUP and PLAY with increasing
  numbers, the right session and, after a challenge, the response that RFC 2617 prescribes, computed
  with the digest of RFC 1321; the decoder then gets the parameter sets of the description and every
  access unit that the source sends in packets of channel 0, complete and in order, whatever comes
  on the other channels. The one condition on the segmentation is that the three bytes after a
  dollar sign arrive together.
\<close>

theorem rtsp_session:
  assumes "parse_rtsp_url url = Some u" "connect (host u) (rtsp_port u) = Some (segs, \<lparr>sent = [], writes = ws\<rparr>)"
    and "concat segs = bytes (challenge_text ch @ h1 @ b1 @ h2 @ b2 @ h3 @ b3) @ concat (map (\<lambda>(ch, pkt). frame ch pkt) fs)"
    and "challenge ch u v" "answer h1 b1" "accepted h1" "answer h2 b2" "accepted h2" "answer h3 b3" "accepted h3"
    and "sdp_parse_h264 256 b1 = (control, sp)" "rtsp_abs_url 512 (rtsp_base u) control \<noteq> []" "rtsp_parse_session 128 h2 \<noteq> []"
    and "[] \<notin> set segs" "headers_whole fs (skip_bytes (length (challenge_text ch @ h1 @ b1 @ h2 @ b2 @ h3 @ b3)) segs)"
    and "\<forall>(ch, pkt)\<in>set fs. 0 < length pkt \<and> length pkt < 65536"
    and "map snd (filter (\<lambda>(ch, pkt). ch = 0) fs) = send_all seq aus" "\<forall>(ts, hs, us)\<in>set aus. sendable sp hs us" "seq AND 0xffff = seq"
    and "\<forall>n\<in>set ws. 0 < n" "\<forall>n\<in>set (writes f). 0 < n" "length (md5_buf ctx) = 64"
  shows "\<exists>t f'. rtsp_thread_main ctx connect url f = Some (Some t, f') \<and>
    sent t = bytes (session_requests ch u v (rtsp_abs_url 512 (rtsp_base u) control) (rtsp_parse_session 128 h2)) \<and>
    sent f' = sent f @ sp @ concat (map (\<lambda>(ts, hs, us). access_unit sp us) aus)"
proof -
  let ?c = "\<lparr>rxs = segs, tx = \<lparr>sent = [], writes = ws\<rparr>, cseq = 1\<rparr>"
  let ?k = "length (challenge_text ch @ h1 @ b1 @ h2 @ b2 @ h3 @ b3)"
  have "stage segs 0 1 [] ?c" using assms(20) by (simp add: stage_def)
  from play_stage[OF this assms(14,3-10) parse_fits[OF assms(1)] assms(22,11) refl assms(12) refl assms(13)] obtain c where
    c: "rtsp_play ctx (rtsp_base u) u ?c = (Some sp, c)" "rxs c = skip_bytes ?k segs"
      "sent (tx c) = bytes (session_requests ch u v (rtsp_abs_url 512 (rtsp_base u) control) (rtsp_parse_session 128 h2))"
    unfolding stage_def by blast
  obtain g where g: "(if sp \<noteq> [] then write_all sp f else (0, f)) = (0, g)" "sent g = sent f @ sp" "accepting g"
    using write_all_ok[OF assms(21), of sp] assms(21) by (cases "sp = []") auto
  have "\<forall>ts. next_pkt ts [] seq rtp_zero" by (simp add: next_pkt_def rtp_zero_def)
  from deliver_all[OF assms(18,19) this g(3)] obtain st h where
    h: "rtp_stream sp (send_all seq aus) rtp_zero g = Some (0, st, h)" "sent h = sent g @ concat (map (\<lambda>(ts, hs, us). access_unit sp us) aus)" by blast
  have "media_loop sp (rxs c) rtp_zero g = Some h"
    unfolding c(2) by (subst media_frames[OF _ _ assms(15,16)]) (use assms(3,14,17) h(1) in \<open>simp_all add: skip_nonempty skip_concat\<close>)
  then have "rtsp_thread_main ctx connect url f = Some (Some (tx c), h)"
    unfolding rtsp_thread_main_def assms(1,2) option.case prod.case c(1) g(1) Let_def by simp
  then show ?thesis using c(3) h(2) g(2) by simp
qed


text \<open>A camera that asks for a digest, and sends one IDR slice after a packet of the control channel.\<close>

definition cam_url :: string where
  "cam_url = ''rtsp://me:pw@10.0.0.2:8554/cam''"

definition cam_user :: rtsp_url where
  "cam_user = \<lparr>host = ''10.0.0.2'', path = ''/cam'', auth = b64_encode_basic ''me:pw'' 192, user = ''me'', pass = ''pw'', realm = [], nonce = [], rtsp_port = 8554\<rparr>"

definition cam_401 :: string where
  "cam_401 = ''RTSP/1.0 401 Unauthorized'' @ crlf @ ''WWW-Authenticate: Digest realm='' @ quoted ''cam'' @ '', nonce='' @ quoted ''7f'' @ crlf @ crlf"

definition cam_sdp :: string where
  "cam_sdp = ''m=video 0 RTP/AVP 96'' @ crlf @ ''a=control:track1'' @ crlf @ ''a=fmtp:96 sprop-parameter-sets=Z0I=,aM4='' @ crlf"

definition cam_200 :: "string \<Rightarrow> string" where
  "cam_200 hdr = ''RTSP/1.0 200 OK'' @ crlf @ hdr @ crlf @ crlf"

definition cam_frames :: "(u8 \<times> u8 list) list" where
  "cam_frames = [(1, [0x80]), (0, rtp_packet plain 90000 7 True [0x65, 1])]"

definition cam_text :: string where
  "cam_text = cam_401 @ cam_200 ''Content-Length: 82'' @ cam_sdp @ cam_200 ''Session: 42;timeout=60'' @ cam_200 ''CSeq: 4''"

definition cam_segs :: "u8 list list" where
  "cam_segs = [bytes (take 11 cam_text), bytes (drop 11 cam_text) @ frame 1 [0x80], frame 0 (rtp_packet plain 90000 7 True [0x65, 1])]"

definition cam_net :: "string \<Rightarrow> int \<Rightarrow> (u8 list list \<times> out_file) option" where
  "cam_net name p = (if name = ''10.0.0.2'' \<and> p = 8554 then Some (cam_segs, \<lparr>sent = [], writes = [5]\<rparr>) else None)"

lemma strcasestr_Cons:
  "strcasestr (c # cs) (d # ds) =
     (if lower c = lower d \<and> map lower (take (length ds) cs) = map lower ds then Some (c # cs) else strcasestr cs (d # ds))"
  by simp

lemmas case_search = strcasestr_Cons strcasestr.simps(1) lower_def

declare strcasestr.simps(2) [simp del]

lemma cam_parsed: "parse_rtsp_url cam_url = Some cam_user"
proof -
  have "rtsp_credentials ''me:pw'' no_url = Some (no_url\<lparr>auth := b64_encode_basic ''me:pw'' 192, user := ''me'', pass := ''pw''\<rparr>)"
    by (simp add: rtsp_credentials_def clip_def)
  moreover have "rtsp_hostport ''10.0.0.2:8554'' u = Some (u\<lparr>host := ''10.0.0.2'', rtsp_port := 8554\<rparr>)" for u
    by (simp add: rtsp_hostport_def atoi_def digits_value_def is_digit_def is_space_def)
  ultimately show ?thesis by (simp add: cam_url_def parse_rtsp_url_def cam_user_def clip_def no_url_def)
qed

lemma cam_lengths:
  "content_length cam_401 = 0" "content_length (cam_200 ''Content-Length: 82'') = 82"
  "content_length (cam_200 ''Session: 42;timeout=60'') = 0" "content_length (cam_200 ''CSeq: 4'') = 0"
  by (simp_all add: content_length_def cam_401_def cam_200_def quoted_def crlf_def case_search atoi_def digits_value_def is_digit_def is_space_def)

lemma cam_answers:
  "answer cam_401 []" "answer (cam_200 ''Content-Length: 82'') cam_sdp" "answer (cam_200 ''Session: 42;timeout=60'') []"
  "answer (cam_200 ''CSeq: 4'') []"
  unfolding answer_def cam_lengths by (simp_all add: cam_401_def cam_200_def cam_sdp_def quoted_def crlf_def)

lemma cam_accepted:
  "\<not> accepted cam_401" "accepted (cam_200 hdr)"
  by (simp_all add: accepted_def cam_401_def cam_200_def quoted_def crlf_def)

lemma cam_challenge: "challenge (Some (cam_401, [])) cam_user (cam_user\<lparr>realm := ''cam'', nonce := ''7f''\<rparr>)"
proof -
  define a where "a = ''WWW-Authenticate: Digest realm='' @ quoted ''cam'' @ '', nonce='' @ quoted ''7f'' @ crlf @ crlf"
  have "strcasestr cam_401 ''WWW-Authenticate:'' = Some a" "strcasestr a ''Digest'' \<noteq> None"
    by (simp_all add: a_def cam_401_def quoted_def crlf_def case_search)
  moreover have "case_from a ''realm'' 0 = Some 25" "case_from a ''nonce'' 0 = Some 38"
    by (simp_all add: a_def quoted_def crlf_def case_from_def case_search)
  then have "rtsp_digest_param a ''realm'' 128 = Some ''cam''" "rtsp_digest_param a ''nonce'' 128 = Some ''7f''"
    unfolding rtsp_digest_param_def
    by (simp_all add: param_loop.simps[of a] Let_def)
      (simp_all add: a_def quoted_def crlf_def skip_blanks_def param_value_def clip_def is_word_def is_digit_def lower_def)
  ultimately have "rtsp_parse_digest_challenge cam_401 cam_user = Some (cam_user\<lparr>realm := ''cam'', nonce := ''7f''\<rparr>)"
    by (auto simp: rtsp_parse_digest_challenge_def split: Option.bind_splits)
  then show ?thesis using cam_answers(1) cam_accepted(1) by (simp add: challenge_def)
qed

lemma cam_described: "sdp_parse_h264 256 cam_sdp = (''track1'', [0, 0, 0, 1, 0x67, 0x42, 0, 0, 0, 1, 0x68, 0xCE])"
proof -
  have "b64_decode (''Z0I=,aM4='' @ crlf) 256 = Some [0x67, 0x42]" "b64_decode (''aM4='' @ crlf) 256 = Some [0x68, 0xCE]"
    by (simp_all add: b64_decode_def b64_value_def)
  moreover have "str_find cam_sdp ''sprop-parameter-sets='' = Some (''sprop-parameter-sets=Z0I=,aM4='' @ crlf)"
    by (simp add: cam_sdp_def crlf_def)
  moreover have "sdp_control 256 cam_sdp = ''track1''" by code_simp
  ultimately show ?thesis by (simp add: sdp_parse_h264_def add_param_set_def sc_def)
qed

lemma cam_session: "rtsp_parse_session 128 (cam_200 ''Session: 42;timeout=60'') = ''42''"
  by (simp add: rtsp_parse_session_def cam_200_def crlf_def clip_def upto_any_def skip_blanks_def)

lemma cam_media:
  "concat cam_segs = bytes cam_text @ concat (map (\<lambda>(ch, pkt). frame ch pkt) cam_frames)" "[] \<notin> set cam_segs"
  "headers_whole cam_frames (skip_bytes (length cam_text) cam_segs)"
proof -
  have l: "11 < length cam_text" by (simp add: cam_text_def cam_401_def)
  show "concat cam_segs = bytes cam_text @ concat (map (\<lambda>(ch, pkt). frame ch pkt) cam_frames)"
    by (simp add: cam_segs_def cam_frames_def flip: map_append append_assoc)
  show "[] \<notin> set cam_segs" using l by (auto simp: cam_segs_def frame_def)
  have "skip_bytes (length cam_text) cam_segs = [frame 1 [0x80], frame 0 (rtp_packet plain 90000 7 True [0x65, 1])]"
    using l by (auto simp: cam_segs_def frame_length)
  then show "headers_whole cam_frames (skip_bytes (length cam_text) cam_segs)"
    by (simp add: cam_frames_def frame_def sock_read_def)
qed

theorem rtsp_session_witness:
  "\<exists>t f'. rtsp_thread_main stack_ctx cam_net cam_url \<lparr>sent = [], writes = [3]\<rparr> = Some (Some t, f') \<and>
     sent t = bytes (session_requests (Some (cam_401, [])) cam_user (cam_user\<lparr>realm := ''cam'', nonce := ''7f''\<rparr>)
       ''rtsp://10.0.0.2:8554/cam/track1'' ''42'') \<and>
     sent f' = [0, 0, 0, 1, 0x67, 0x42, 0, 0, 0, 1, 0x68, 0xCE,
                0, 0, 0, 1, 0x67, 0x42, 0, 0, 0, 1, 0x68, 0xCE, 0, 0, 0, 1, 0x65, 1]"
proof -
  let ?f = "\<lparr>sent = [], writes = [3]\<rparr>" and ?aus = "[(90000, [plain], [Whole [0x65, 1]])] :: (u32 \<times> rtp_shape list \<times> plan) list"
  have net: "cam_net (host cam_user) (rtsp_port cam_user) = Some (cam_segs, \<lparr>sent = [], writes = [5]\<rparr>)"
    by (simp add: cam_net_def cam_user_def)
  have said: "cam_text = challenge_text (Some (cam_401, [])) @ cam_200 ''Content-Length: 82'' @ cam_sdp @ cam_200 ''Session: 42;timeout=60'' @ [] @ cam_200 ''CSeq: 4'' @ []"
    by (simp add: cam_text_def challenge_text_def)
  have url: "rtsp_abs_url 512 (rtsp_base cam_user) ''track1'' = ''rtsp://10.0.0.2:8554/cam/track1''"
    by (simp add: rtsp_abs_url_def rtsp_base_def cam_user_def clip_def dec_int_def dec_nat.simps char_of_def bit_0)
  have sent: "map snd (filter (\<lambda>(ch, pkt). ch = 0) cam_frames) = send_all 7 ?aus"
    by (simp add: cam_frames_def send_def)
  have ok: "\<forall>(ts, hs, us)\<in>set ?aus. sendable [0, 0, 0, 1, 0x67, 0x42, 0, 0, 0, 1, 0x68, 0xCE] hs us"
    by (simp add: sendable_def shape_ok_def plain_def nal_ok_def annexb_def nal_type_of_def sc_def)
  have fr: "\<forall>(ch, pkt)\<in>set cam_frames. 0 < length pkt \<and> length pkt < 65536" by (simp add: cam_frames_def rtp_packet_def plain_def ext_bytes_def)
  note m = cam_media[unfolded said]
  have "rtsp_abs_url 512 (rtsp_base cam_user) ''track1'' \<noteq> []" "rtsp_parse_session 128 (cam_200 ''Session: 42;timeout=60'') \<noteq> []"
    by (simp_all add: url cam_session)
  from rtsp_session[where connect = cam_net and f = ?f and ctx = stack_ctx, OF cam_parsed net m(1) cam_challenge cam_answers(2) cam_accepted(2) cam_answers(3) cam_accepted(2)
      cam_answers(4) cam_accepted(2) cam_described this m(2,3) fr sent ok]
  show ?thesis unfolding url cam_session
    by (simp add: stack_ctx_def annexb_def nal_type_of_def sc_def)
qed

section \<open>Addresses\<close>

lemma index_append: "c \<notin> set a \<Longrightarrow> str_index (a @ c # b) c = Some (c # b)"
  by (induction a) auto

lemma index_none: "c \<notin> set a \<Longrightarrow> str_index a c = None"
  by (induction a) auto

lemma take_before: "take (length (a @ b) - length b) (a @ b) = a"
  by simp

lemma find_prefix: "str_find (a @ b) a = Some (a @ b)"
  by (cases "a @ b") (simp_all, metis append_eq_conv_conj)

lemma dec_nat_value: "foldl (\<lambda>n c. 10 * n + (of_char c - 48)) 0 (dec_nat n) = int n"
proof (induction n rule: dec_nat.induct)
  case (1 n)
  have d: "(of_char (char_of (48 + k :: nat) :: char) :: int) = 48 + int k" if "k < 10" for k :: nat
  proof -
    have "(of_char (char_of (48 + k :: nat) :: char) :: int) = int (of_char (char_of (48 + k :: nat) :: char))"
      by (simp only: of_nat_of_char)
    also have "\<dots> = int ((48 + k) mod 256)" by (simp only: of_char_of)
    finally show ?thesis using that by simp
  qed
  show ?case
  proof (cases "n < 10")
    case True
    then show ?thesis using d by (simp add: dec_nat.simps[of n])
  next
    case False
    have "10 * int (n div 10) + int (n mod 10) = int n" by presburger
    then show ?thesis using False 1[OF False] d[of "n mod 10"] by (simp add: dec_nat.simps[of n])
  qed
qed

lemma dec_nat_digits: "c \<in> set (dec_nat n) \<Longrightarrow> is_digit c"
proof (induction n rule: dec_nat.induct)
  case (1 n)
  have "is_digit (char_of (48 + k))" if "k < 10" for k :: nat
    using that by (simp add: is_digit_def)
  then show ?case using 1 by (subst (asm) (2) dec_nat.simps) (auto split: if_splits)
qed

lemma dec_nat_length: "n < 10 ^ Suc k \<Longrightarrow> length (dec_nat n) \<le> Suc k"
proof (induction k arbitrary: n)
  case (Suc k)
  then have "n div 10 < 10 ^ Suc k" by (simp add: div_less_iff_less_mult)
  from Suc.IH[OF this] show ?case by (subst dec_nat.simps) simp
qed (simp add: dec_nat.simps)

lemma dec_nat_nonempty: "dec_nat n \<noteq> []"
  by (subst dec_nat.simps) simp

lemma atoi_dec: "0 \<le> p \<Longrightarrow> p < 2 ^ 31 \<Longrightarrow> atoi (dec_int p) = p"
proof -
  assume p: "0 \<le> p" "p < 2 ^ 31"
  obtain c cs where c: "dec_nat (nat p) = c # cs" using dec_nat_nonempty by (metis neq_Nil_conv)
  then have "is_digit c" using dec_nat_digits[of c "nat p"] by simp
  then have "\<not> is_space c" "c \<noteq> CHR ''-''" "c \<noteq> CHR ''+''" by (auto simp: is_digit_def is_space_def Let_def)
  then have d: "dropWhile is_space (dec_nat (nat p)) = dec_nat (nat p)" "(case dec_nat (nat p) of [] \<Rightarrow> False | x # _ \<Rightarrow> x = CHR ''-'') = False"
    "(case dec_nat (nat p) of [] \<Rightarrow> dec_nat (nat p) | x # t \<Rightarrow> if x = CHR ''-'' \<or> x = CHR ''+'' then t else dec_nat (nat p)) = dec_nat (nat p)"
    using c by simp_all
  have "takeWhile is_digit (dec_nat (nat p)) = dec_nat (nat p)" using dec_nat_digits by (simp add: takeWhile_eq_all_conv)
  then have "digits_value (dec_nat (nat p)) = p" using dec_nat_value[of "nat p"] p(1) by (simp only: digits_value_def nat_0_le)
  moreover have "dec_int p = dec_nat (nat p)" using p(1) by (simp add: dec_int_def)
  ultimately show ?thesis unfolding atoi_def Let_def using p d by (simp only: if_False)
qed

text \<open>
  C39. Addresses are understood: the parts of an address with user, password, host and port, in the
  characters and lengths that they may have, are exactly what \<^verbatim>\<open>parse_rtsp_url\<close> finds, and the
  basic credentials are those of user and password.
\<close>

theorem rtsp_url_roundtrip:
  assumes "us \<noteq> []" "length us < 96" "length pw < 96" "set us \<inter> {CHR '':'', CHR ''@'', CHR ''/''} = {}" "set pw \<inter> {CHR ''@'', CHR ''/''} = {}"
    and "name \<noteq> []" "length name < 128" "set name \<inter> {CHR ''@'', CHR ''/''} = {}" "0 \<le> p" "p < 2 ^ 31"
    and "take 1 loc = ''/''" "length loc < 256"
  shows "parse_rtsp_url (''rtsp://'' @ us @ '':'' @ pw @ ''@'' @ name @ '':'' @ dec_int p @ loc) =
    Some \<lparr>host = name, path = loc, auth = b64_encode_basic (us @ '':'' @ pw) 192, user = us, pass = pw, realm = [], nonce = [], rtsp_port = p\<rparr>"
proof -
  obtain l where l: "loc = CHR ''/'' # l" using assms(11) by (cases loc) auto
  have dec: "dec_int p = dec_nat (nat p)" using assms(9) by (simp add: dec_int_def)
  have dc: "CHR ''@'' \<notin> set (dec_int p)" "CHR ''/'' \<notin> set (dec_int p)" "CHR '':'' \<notin> set (dec_int p)"
    using dec_nat_digits[of "CHR ''@''" "nat p"] dec_nat_digits[of "CHR ''/''" "nat p"] dec_nat_digits[of "CHR '':''" "nat p"]
    unfolding dec by (auto simp: is_digit_def)
  let ?up = "us @ '':'' @ pw" and ?hp = "name @ '':'' @ dec_int p"
  let ?before = "?up @ ''@'' @ ?hp"
  have slash: "str_index (?before @ loc) (CHR ''/'') = Some loc"
    unfolding l by (rule index_append) (use assms(4,5,8) dc in auto)
  have at': "str_index ?before (CHR ''@'') = Some (''@'' @ ?hp)"
    using index_append[of "CHR ''@''" ?up ?hp] assms(4,5) by auto
  have up: "rtsp_credentials ?up no_url = Some (no_url\<lparr>auth := b64_encode_basic ?up 192, user := us, pass := pw\<rparr>)"
    using index_append[of "CHR '':''" us pw] assms(1-4) by (auto simp: rtsp_credentials_def clip_def Let_def)
  have "nat p < 10 ^ 31" using assms(10) by simp
  then have len: "length (dec_int p) < 32" unfolding dec using dec_nat_length[of "nat p" 30] by simp
  have hp: "rtsp_hostport ?hp u = Some (u\<lparr>host := name, rtsp_port := p\<rparr>)" for u
    using index_append[of "CHR '':''" "rev (dec_int p)" "rev name"] assms(7) dc len atoi_dec[OF assms(9,10)]
    by (auto simp: rtsp_hostport_def Let_def)
  define url where "url = ''rtsp://'' @ ?before @ loc"
  define before where "before = ?before"
  define at1 where "at1 = ''@'' @ ?hp"
  have u: "str_find url ''rtsp://'' = Some url" unfolding url_def by (rule find_prefix)
  have p: "drop 7 url = before @ loc" by (simp add: url_def before_def)
  have t1: "take (length (before @ loc) - length loc) (before @ loc) = before" by (rule take_before)
  have t2: "take (length before - length at1) before = ?up" unfolding before_def at1_def by (rule take_before)
  have tl: "tl at1 = ?hp" by (simp add: at1_def)
  have "parse_rtsp_url url =
      Some ((no_url\<lparr>auth := b64_encode_basic ?up 192, user := us, pass := pw\<rparr>)\<lparr>host := name, rtsp_port := p, path := clip 256 loc\<rparr>)"
    unfolding parse_rtsp_url_def u p Let_def slash[folded before_def] bind.bind_lunit t1 at'[folded before_def at1_def] option.case t2 up prod.case tl hp
    by simp
  moreover have "url = ''rtsp://'' @ us @ '':'' @ pw @ ''@'' @ name @ '':'' @ dec_int p @ loc" by (simp add: url_def)
  ultimately show ?thesis using assms(12) by (simp add: no_url_def clip_def)
qed

theorem rtsp_url_roundtrip_witness:
  "parse_rtsp_url ''rtsp://me:pw@cam:8554/live'' =
     Some \<lparr>host = ''cam'', path = ''/live'', auth = b64_encode_basic ''me:pw'' 192, user = ''me'', pass = ''pw'', realm = [], nonce = [], rtsp_port = 8554\<rparr>"
proof -
  have "dec_int 8554 = ''8554''" by (simp add: dec_int_def dec_nat.simps char_of_def bit_0)
  then show ?thesis using rtsp_url_roundtrip[of "''me''" "''pw''" "''cam''" 8554 "''/live''"] by simp
qed

text \<open>
  C40. Which segment boundaries end a session: for every packet of every channel, whatever follows
  it, if the three bytes after the dollar sign do not arrive together the loop ends with the packet
  undelivered. If they do, a boundary anywhere else, right behind the dollar sign too, is
  harmless: a packet of channel 0 is handled, any other is skipped, and the loop goes on behind it
  unless the decoder input was closed.
\<close>

theorem rtsp_split_header:
  assumes "[] \<notin> set segs" "concat segs = frame ch pkt @ tail" "0 < length pkt" "length pkt < 65536"
  shows "media_loop sp segs st f =
    (if length (hd (skip_bytes 1 segs)) < 3 then Some f
     else if ch \<noteq> 0 then media_loop sp (skip_bytes (4 + length pkt) segs) st f
     else case handle_rtp_h264 st f pkt sp of
            None \<Rightarrow> None
          | Some (rc, st, f) \<Rightarrow> if rc < 0 then Some f else media_loop sp (skip_bytes (4 + length pkt) segs) st f)"
proof -
  have s1: "concat (skip_bytes 1 segs) \<noteq> []" using assms(2) by (simp add: skip_concat frame_def del: concat_eq_Nil_conv)
  then obtain seg rest where seg: "skip_bytes 1 segs = seg # rest" by (cases "skip_bytes 1 segs") auto
  have len: "length (fst (sock_read 3 (skip_bytes 1 segs))) = min 3 (length seg)" unfolding seg by (simp add: sock_read_def min.commute)
  show ?thesis
  proof (cases "length seg < 3")
    case False
    then show ?thesis using media_frame [OF assms, of sp st f] len seg by simp
  next
    case True
    obtain k where k: "sock_read 1 segs = (take k (concat segs), skip_bytes k segs)" "k \<le> 1" "concat segs \<noteq> [] \<longrightarrow> 0 < k"
      using sock_read_skip[OF assms(1), of 1] by auto
    then have 1: "sock_read 1 segs = ([DOLLAR], skip_bytes 1 segs)" using assms(2) by (cases k) (auto simp: frame_def)
    obtain h more where h: "sock_read 3 (skip_bytes 1 segs) = (h, more)" by (cases "sock_read 3 (skip_bytes 1 segs)")
    then have "length h \<noteq> 3" using len True by simp
    then have "media_loop sp segs st f = Some f" unfolding media_loop.simps[of sp segs st f] 1 prod.case list.case h by simp
    then show ?thesis using True seg by simp
  qed
qed

text \<open>The same packet cut behind its channel and cut behind its dollar sign and its header.\<close>

definition cut_packet :: "u8 list" where
  "cut_packet = [0x80, 0xE0, 0, 7, 0, 0, 0, 1, 0, 0, 0, 0, 0x65, 1]"

theorem rtsp_split_header_witness:
  "media_loop [] [[DOLLAR, 0], [0, 14], cut_packet] rtp_zero \<lparr>sent = [], writes = []\<rparr> = Some \<lparr>sent = [], writes = []\<rparr> \<and>
   media_loop [] [[DOLLAR], [0, 0, 14], cut_packet] rtp_zero \<lparr>sent = [], writes = []\<rparr> = Some \<lparr>sent = [0, 0, 0, 1, 0x65, 1], writes = []\<rparr>"
proof -
  let ?f = "\<lparr>sent = [], writes = []\<rparr>" and ?a = "[[DOLLAR, 0], [0, 14], cut_packet]" and ?b = "[[DOLLAR], [0, 0, 14], cut_packet]"
  have p: "concat ?a = frame 0 cut_packet @ []" "concat ?b = frame 0 cut_packet @ []" "0 < length cut_packet" "length cut_packet < 65536"
    "[] \<notin> set ?a" "[] \<notin> set ?b" by (simp_all add: frame_def cut_packet_def)
  have h: "\<exists>st. handle_rtp_h264 rtp_zero ?f cut_packet [] = Some (0, st, \<lparr>sent = [0, 0, 0, 1, 0x65, 1], writes = []\<rparr>)"
    by (simp add: cut_packet_def rtp_zero_def handle_rtp_h264_def pkt_at_def pkt_sub_def rtp_timestamp_def rtp_h264_seq_gap_def
      rtp_new_au_def rtp_payload_def rtp_payload_h264_def rtp_skipped_def rtp_idr_def rtp_au_append_def rtp_au_flush_def
      maybe_flush_def rtp_au_reset_def write_all.simps write_once_def sc_def Let_def)
  have e: "media_loop [] [] st f = Some f" for st f by (simp add: media_loop.simps sock_read_def)
  have s: "skip_bytes 1 ?a = [[0], [0, 14], cut_packet]" "skip_bytes 1 ?b = [[0, 0, 14], cut_packet]" "skip_bytes (4 + length cut_packet) ?b = []"
    by (simp_all add: cut_packet_def)
  show ?thesis using rtsp_split_header [OF p(5,1,3,4), of "[]" rtp_zero ?f] rtsp_split_header [OF p(6,2,3,4), of "[]" rtp_zero ?f] h
    unfolding s by (auto simp: e)
qed

end
