(* ===== verification/Vpu_Enc.thy ===== *)
theory Vpu_Enc
  imports Vpu_Dec
begin

unbundle bit_operations_syntax

text \<open>
  The encoder interface of \<^verbatim>\<open>src/lib/vpu_lib.c\<close>, on the same state, instances and lock as the
  decoder interface. As there, \<open>None\<close> stands for an access outside the objects of the process or
  of the kernel and for a wait that never ends, and registers have the offsets of the IMX27ADS
  build.
\<close>

section \<open>Steps that the calls share\<close>

definition upd_enc :: "nat \<Rightarrow> (EncInfo \<Rightarrow> EncInfo) \<Rightarrow> dec_lib \<Rightarrow> dec_lib" where
  "upd_enc i f s = upd_inst i (\<lambda>c. c\<lparr>encInfo := f (encInfo c)\<rparr>) s"

definition enc_call ::
    "handle \<Rightarrow> (RetCode \<Rightarrow> 'r) \<Rightarrow> (nat \<Rightarrow> dec_lib \<Rightarrow> ('r \<times> dec_lib) option) \<Rightarrow> dec_lib \<Rightarrow> ('r \<times> dec_lib) option" where
  "enc_call h out body s =
     (let ret = CheckEncInstanceValidity (system_rev s) (codecInstPool (sem s)) h
      in if ret \<noteq> RETCODE_SUCCESS then Some (out ret, s)
         else case h of Slot i \<Rightarrow> body i s | Wild \<Rightarrow> Some (out RETCODE_INVALID_HANDLE, s))"

section \<open>Opening and closing\<close>

definition enc_mode :: "int \<Rightarrow> int \<Rightarrow> int" where
  "enc_mode fmt old =
     (if fmt = STD_MPEG4 \<or> fmt = STD_H263 then MP4_ENC else if fmt = STD_AVC then AVC_ENC
      else if fmt = STD_MJPG then MJPG_ENC else old)"

definition enc_open_info :: "EncOpenParam \<Rightarrow> u32 \<times> u32 \<times> u32 \<Rightarrow> EncInfo \<Rightarrow> EncInfo" where
  "enc_open_info pop regs d =
     (case regs of (rd, wr, _) \<Rightarrow>
        d\<lparr>enc_openParam := pop, streamRdPtr := enc_bitstreamBuffer pop, enc_streamRdPtrRegAddr := rd,
          enc_streamWrPtrRegAddr := wr, enc_streamBufStartAddr := enc_bitstreamBuffer pop,
          enc_streamBufSize := sint (enc_bitstreamBufferSize pop),
          enc_streamBufEndAddr := enc_bitstreamBuffer pop + enc_bitstreamBufferSize pop, enc_frameBufPool := None,
          enc_rotationEnable := 0, enc_mirrorEnable := 0, enc_mirrorDirection := 0, enc_rotationAngle := 0,
          enc_initialInfoObtained := 0, enc_dynAlloc := enc_dynamicAllocEnable pop,
          ringBufferEnable := enc_ringBufferEnable pop\<rparr>)"

definition enc_ctrl :: "EncInfo \<Rightarrow> u32 \<Rightarrow> u32" where
  "enc_ctrl d v =
     (v AND NOT 0x1F) OR (0 OR push_bit 1 0) OR
     (if ringBufferEnable d = 0 then push_bit 4 (of_int (enc_dynAlloc d)) OR push_bit 3 1 else push_bit 2 1)"

definition enc_open_regs :: "io_env \<Rightarrow> nat \<Rightarrow> dec_lib \<Rightarrow> dec_lib option" where
  "enc_open_regs e i s =
     do { let d = encInfo (the_inst s i);
          let bit_offset = nat (instIndex (the_inst s i) + 2);
          s \<leftarrow> write_regs e [(enc_streamRdPtrRegAddr d, streamRdPtr d), (enc_streamWrPtrRegAddr d, enc_streamBufStartAddr d)] s;
          (v, s) \<leftarrow> VpuReadReg e BIT_BIT_STREAM_CTRL s;
          s \<leftarrow> VpuWriteReg e BIT_BIT_STREAM_CTRL (enc_ctrl d v) s;
          (v, s) \<leftarrow> VpuReadReg e BIT_FRAME_MEM_CTRL s;
          VpuWriteReg e BIT_FRAME_MEM_CTRL
            ((v AND NOT (push_bit bit_offset 1)) OR push_bit bit_offset (of_int (enc_chromaInterleave (enc_openParam d)))) s }"

type_synonym enc_open_result = "RetCode \<times> handle option"

definition enc_open_inst :: "io_env \<Rightarrow> EncOpenParam \<Rightarrow> nat \<Rightarrow> dec_lib \<Rightarrow> (enc_open_result \<times> dec_lib) option" where
  "enc_open_inst e p i s =
     do { regs \<leftarrow> ptr_regs (instIndex (the_inst s i));
          let s = upd_inst i (\<lambda>c. c\<lparr>codecMode := enc_mode (enc_bitstreamFormat p) (codecMode c),
                    encInfo := enc_open_info p regs (encInfo c)\<rparr>) s;
          locked e (\<lambda>r. (r, Some (Slot i))) (\<lambda>s.
            do { s \<leftarrow> enc_open_regs e i s; unlock e (RETCODE_SUCCESS, Some (Slot i)) s }) s }"

definition enc_open_body :: "io_env \<Rightarrow> EncOpenParam option \<Rightarrow> dec_lib \<Rightarrow> (enc_open_result \<times> dec_lib) option" where
  "enc_open_body e pop s =
     (case GetCodecInstance zero_codec (codecInstPool (sem s)) of
        None \<Rightarrow> unlock e (RETCODE_FAILURE, None) s
      | Some (i, pool) \<Rightarrow> do {
          s \<leftarrow> UnlockVpu e (s\<lparr>sem := (sem s)\<lparr>codecInstPool := pool\<rparr>\<rparr>);
          p \<leftarrow> pop;
          enc_open_inst e p i s })"

definition vpu_EncOpen :: "io_env \<Rightarrow> EncOpenParam option \<Rightarrow> handle option \<Rightarrow> dec_lib \<Rightarrow> (enc_open_result \<times> dec_lib) option" where
  "vpu_EncOpen e pop h s =
     do { (running, s) \<leftarrow> isVpuInitialized e s;
          if \<not> running then Some ((RETCODE_NOT_INITIALIZED, h), s)
          else let ret = CheckEncOpenParam (system_rev s) pop
               in if ret \<noteq> RETCODE_SUCCESS then Some ((ret, h), s)
                  else locked e (\<lambda>r. (r, h)) (enc_open_body e pop) s }"

text \<open>The memory of the search RAM is freed only when it is not the internal RAM.\<close>

definition free_search :: "io_env \<Rightarrow> nat \<Rightarrow> dec_lib \<Rightarrow> dec_lib option" where
  "free_search e i s =
     (let d = encInfo (the_inst s i)
      in if \<not> useHostMeEnable (enc_secAxiUse d) \<and> searchRamAddr (enc_secAxiUse d) \<noteq> 0
         then do { (m, s) \<leftarrow> IOFreePhyMem e (searchRamMem d) s; Some (upd_enc i (\<lambda>d. d\<lparr>searchRamMem := m\<rparr>) s) }
         else Some s)"

definition enc_close_body :: "io_env \<Rightarrow> nat \<Rightarrow> dec_lib \<Rightarrow> (RetCode \<times> dec_lib) option" where
  "enc_close_body e i s =
     do { s \<leftarrow> (if enc_initialInfoObtained (encInfo (the_inst s i)) \<noteq> 0
               then do { s \<leftarrow> run_cmd e i SEQ_END s; WaitBitBusyClear e s }
               else Some s);
          (m, s) \<leftarrow> free_report e (enc_picParaBaseMem (encInfo (the_inst s i))) s;
          let s = upd_enc i (\<lambda>d. d\<lparr>enc_picParaBaseMem := m\<rparr>) s;
          s \<leftarrow> free_search e i s;
          unlock e RETCODE_SUCCESS (FreeInstance i s) }"

definition vpu_EncClose :: "io_env \<Rightarrow> handle \<Rightarrow> dec_lib \<Rightarrow> (RetCode \<times> dec_lib) option" where
  "vpu_EncClose e h s =
     enc_call h id (\<lambda>i s.
       if pendingInst (sem s) = Some i then Some (RETCODE_FRAME_NOT_COMPLETE, s)
       else locked e id (enc_close_body e i) s) s"

section \<open>Sequence header\<close>

definition enc_seq_mp4 :: "EncMp4Param \<Rightarrow> u32" where
  "enc_seq_mp4 p =
     push_bit 2 (of_int (mp4_intraDcVlcThr p)) OR push_bit 1 (of_int (mp4_reversibleVlcEnable p)) OR
     of_int (mp4_dataPartitionEnable p) OR push_bit 5 (if mp4_hecEnable p > 0 then 1 else 0) OR
     push_bit 6 (if mp4_verid p = 2 then 0 else 1)"

definition enc_seq_h263 :: "EncH263Param \<Rightarrow> u32" where
  "enc_seq_h263 p =
     push_bit 2 (of_int (h263_annexJEnable p)) OR push_bit 1 (of_int (h263_annexKEnable p)) OR of_int (h263_annexTEnable p)"

definition enc_seq_avc :: "EncAvcParam \<Rightarrow> u32" where
  "enc_seq_avc p =
     push_bit 12 (of_int (avc_deblkFilterOffsetBeta p) AND 15) OR push_bit 8 (of_int (avc_deblkFilterOffsetAlpha p) AND 15) OR
     push_bit 6 (of_int (avc_disableDeblk p)) OR push_bit 5 (of_int (avc_constrainedIntraPredFlag p)) OR
     (of_int (avc_chromaQpOffset p) AND 31)"

text \<open>The registers of \<^verbatim>\<open>SEQ_INIT\<close> up to those of the format.\<close>

definition enc_seq_format :: "u32 \<Rightarrow> EncOpenParam \<Rightarrow> (u32 \<times> u32) list" where
  "enc_seq_format sr q =
     [(0x190, push_bit 10 (of_int (enc_picWidth q)) OR of_int (enc_picHeight q)), (0x194, enc_frameRateInfo q)] @
     (if enc_bitstreamFormat q = STD_MPEG4 then [(0x18C, 0), (0x198, enc_seq_mp4 (mp4Param q))]
      else if enc_bitstreamFormat q = STD_H263
      then [(0x18C, if cpu_is_mx5x sr then 8 else 1), (0x19C, enc_seq_h263 (h263Param q))]
      else if enc_bitstreamFormat q = STD_AVC then [(0x18C, 2), (0x1A0, enc_seq_avc (avcParam q))]
      else if enc_bitstreamFormat q = STD_MJPG
      then let p = mjpgParam q
           in [(0x198, of_int (enc_mjpg_sourceFormat p)), (0x19C, of_int (mjpg_restartInterval p)),
               (0x1A0, of_int (enc_mjpg_thumbNailEnable p)),
               (0x1A4, push_bit 16 (of_int (mjpg_thumbNailWidth p)) OR of_int (mjpg_thumbNailHeight p)), (0x1A8, 0)]
      else [])"

text \<open>The tables of the JPEG encoder go to the parameter buffer, the two words of a pair exchanged.\<close>

definition mjpg_tables :: "EncOpenParam \<Rightarrow> dec_lib \<Rightarrow> dec_lib option" where
  "mjpg_tables q s =
     (let huf = mjpg_hufTable (mjpgParam q); qmat = mjpg_qMatTable (mjpgParam q)
      in if enc_bitstreamFormat q \<noteq> STD_MJPG then Some s
         else if length huf < 108 \<or> length qmat < 48 then None
         else do {
           m \<leftarrow> para_store (virt_paraBuf s)
                 (concat (map (\<lambda>j. [(2 * j + 1, huf ! (2 * j)), (2 * j, huf ! (2 * j + 1))]) [0 ..< 54]) @
                  concat (map (\<lambda>j. [(2 * j + 129, qmat ! (2 * j)), (2 * j + 128, qmat ! (2 * j + 1))]) [0 ..< 24])) (umem s);
           Some (s\<lparr>umem := m\<rparr>) })"

definition slice_word :: "EncSliceMode \<Rightarrow> u32" where
  "slice_word m = push_bit 2 (of_int (sliceSize m)) OR push_bit 1 (of_int (sliceSizeMode m)) OR of_int (sliceMode m)"

definition enc_seq_rate :: "EncInfo \<Rightarrow> (u32 \<times> u32) list" where
  "enc_seq_rate d =
     (let q = enc_openParam d
      in (if enc_bitstreamFormat q \<noteq> STD_MJPG then [(0x1A4, slice_word (slicemode q)), (0x1A8, of_int (gopSize q))] else []) @
         [(0x1AC, if bitRate q \<noteq> 0 then push_bit 16 (of_int (initialDelay q)) OR push_bit 1 (of_int (bitRate q)) OR 1 else 0),
          (0x1B0, of_int (vbvBufferSize q)), (0x1B4, of_int (intraRefresh q)), (0x180, enc_streamBufStartAddr d),
          (0x184, of_int (c_div (enc_streamBufSize d) 1024))])"

definition enc_seq_option :: "u32 \<Rightarrow> codec_inst \<Rightarrow> u32" where
  "enc_seq_option sr c =
     (let q = enc_openParam (encInfo c); avc = (codecMode c = AVC_ENC)
      in (if cpu_is_mx27 sr
          then push_bit 1 (of_int (sliceReport q)) OR of_int (mbReport q) OR push_bit 3 (of_int (mbQpReport q)) else 0) OR
         flag 5 (rcIntraQp q \<ge> 0) OR
         (if avc then push_bit 2 (of_int (avc_audEnable (avcParam q))) OR push_bit 4 (of_int (avc_fmoEnable (avcParam q))) else 0) OR
         flag 6 (userQpMinEnable q \<noteq> 0) OR flag 7 (userQpMaxEnable q \<noteq> 0) OR flag 8 (userGamma q \<noteq> 0) OR
         flag 9 (avc \<and> avcIntra16x16OnlyModeEnable q \<noteq> 0))"

definition enc_seq_opts :: "u32 \<Rightarrow> codec_inst \<Rightarrow> (u32 \<times> u32) list" where
  "enc_seq_opts sr c =
     (let q = enc_openParam (encInfo c);
          qp = (0x1C8, push_bit 8 (of_int (userQpMin q)) OR (of_int (userQpMax q) AND 0xFF))
      in (if rcIntraQp q \<ge> 0 then [(0x1BC, of_int (rcIntraQp q))] else []) @
         (if userQpMinEnable q \<noteq> 0 then [qp] else []) @ (if userQpMaxEnable q \<noteq> 0 then [qp] else []) @
         (if userGamma q \<noteq> 0 then [(0x1CC, userGamma q)] else []) @
         [(0x188, enc_seq_option sr c), (0x1D0, push_bit 2 (of_int (MbInterval q)) OR of_int (RcIntervalMode q))] @
         (if cpu_is_mx27 sr \<and> codecMode c = AVC_ENC
          then [(0x1B8, push_bit 4 (of_int (avc_fmoType (avcParam q))) OR (of_int (avc_fmoSliceNum (avcParam q)) AND 0x0f) OR push_bit 7 0)]
          else []))"

text \<open>
  The internal RAM, and external memory for the search when there is not enough of it. The result
  of the allocation is not checked; \<open>ir\<close> is the uninitialised local of \<^verbatim>\<open>SetEncSecondAXIIRAM\<close>.
\<close>

definition enc_iram :: "io_env \<Rightarrow> iram_setting \<Rightarrow> nat \<Rightarrow> dec_lib \<Rightarrow> dec_lib option" where
  "enc_iram e ir i s =
     (let width = enc_picWidth (enc_openParam (encInfo (the_inst s i)))
      in if width = 0 then Some s
         else do {
           (_, ir, s) \<leftarrow> IOGetIramBase e ir s;
           Some (upd_enc i (\<lambda>d. d\<lparr>enc_secAxiUse := SetEncSecondAXIIRAM (system_rev s) (uint (iram_start ir))
             (uint (iram_end ir)) width (enc_secAxiUse d)\<rparr>) s) })"

definition enc_search :: "io_env \<Rightarrow> nat \<Rightarrow> dec_lib \<Rightarrow> dec_lib option" where
  "enc_search e i s =
     (let d = encInfo (the_inst s i)
      in if useHostMeEnable (enc_secAxiUse d) then Some s
         else do {
           (_, m, s) \<leftarrow> IOGetPhyMem e ((searchRamMem d)\<lparr>mem_size := of_int (searchRamSize (enc_secAxiUse d))\<rparr>) s;
           Some (upd_enc i (\<lambda>d. d\<lparr>searchRamMem := m,
             enc_secAxiUse := (enc_secAxiUse d)\<lparr>searchRamAddr := sint (phy_addr m)\<rparr>\<rparr>) s) })"

definition search_words :: "EncInfo \<Rightarrow> (u32 \<times> u32) list" where
  "search_words d = [(0x1B8, of_int (searchRamAddr (enc_secAxiUse d))), (0x1BC, of_int (searchRamSize (enc_secAxiUse d)))]"

definition enc_initial :: "int \<Rightarrow> EncInitialInfo" where
  "enc_initial mode = \<lparr>enc_minFrameBufferCount = (if mode = MJPG_ENC then 0 else 2), sliceInfoBufSize = 0x4000,
     enc_mbInfoBufSize = 0x4000, enc_mvInfoBufSize = 0x20000\<rparr>"

definition enc_seq_init ::
    "io_env \<Rightarrow> iram_setting \<Rightarrow> nat \<Rightarrow> EncInitialInfo \<Rightarrow> dec_lib \<Rightarrow> ((RetCode \<times> EncInitialInfo option) \<times> dec_lib) option" where
  "enc_seq_init e ir i info s =
     do { let c = the_inst s i;
          s \<leftarrow> write_regs e (enc_seq_format (system_rev s) (enc_openParam (encInfo c))) s;
          s \<leftarrow> mjpg_tables (enc_openParam (encInfo c)) s;
          s \<leftarrow> write_regs e (enc_seq_rate (encInfo c)) s;
          s \<leftarrow> write_regs e (enc_seq_opts (system_rev s) c) s;
          s \<leftarrow> enc_iram e ir i s;
          s \<leftarrow> enc_search e i s;
          s \<leftarrow> write_regs e (search_words (encInfo (the_inst s i))) s;
          s \<leftarrow> run_cmd e i SEQ_INIT s;
          s \<leftarrow> WaitBitBusyClear e s;
          (ok, s) \<leftarrow> VpuReadReg e 0x1C0 s;
          if ok = 0 then unlock e (RETCODE_FAILURE, Some info) s
          else do {
            s \<leftarrow> UnlockVpu e s;
            let info = enc_initial (codecMode (the_inst s i));
            Some ((RETCODE_SUCCESS, Some info),
                  upd_enc i (\<lambda>d. d\<lparr>enc_initialInfo := info, enc_initialInfoObtained := 1\<rparr>) s) } }"

definition vpu_EncGetInitialInfo :: "io_env \<Rightarrow> iram_setting \<Rightarrow> handle \<Rightarrow> EncInitialInfo option \<Rightarrow> dec_lib \<Rightarrow>
    ((RetCode \<times> EncInitialInfo option) \<times> dec_lib) option" where
  "vpu_EncGetInitialInfo e ir h info s =
     enc_call h (\<lambda>r. (r, info)) (\<lambda>i s.
       case info of
         None \<Rightarrow> Some ((RETCODE_INVALID_PARAM, None), s)
       | Some x \<Rightarrow>
           if enc_initialInfoObtained (encInfo (the_inst s i)) \<noteq> 0 then Some ((RETCODE_CALLED_BEFORE, info), s)
           else locked e (\<lambda>r. (r, info)) (enc_seq_init e ir i x) s) s"

section \<open>Frame buffers\<close>

definition enc_frame_words :: "bool \<Rightarrow> FrameBuffer list \<Rightarrow> nat \<Rightarrow> (nat \<times> u32) list" where
  "enc_frame_words swapped bufs num =
     (if \<not> swapped
      then concat (map (\<lambda>i. let b = bufs ! i in [(i * 3, bufY b), (i * 3 + 1, bufCb b), (i * 3 + 2, bufCr b)]) [0 ..< num])
      else concat (map (\<lambda>j. let i = 2 * j; b = bufs ! i; b' = bufs ! (i + 1)
             in [(i * 3, bufCb b), (i * 3 + 1, bufY b), (i * 3 + 3, bufCr b)] @
                (if i + 1 < num then [(i * 3 + 2, bufY b'), (i * 3 + 4, bufCr b'), (i * 3 + 5, bufCb b')] else []))
             [0 ..< (num + 1) div 2]))"

definition enc_frame_addrs :: "int \<Rightarrow> FrameBuffer list \<Rightarrow> int \<Rightarrow> dec_lib \<Rightarrow> dec_lib option" where
  "enc_frame_addrs mode bufs num s =
     (if cpu_is_mx5x (system_rev s) \<and> mode = MJPG_ENC then Some s
      else if num > int (length bufs) then None
      else do { m \<leftarrow> para_store (virt_paraBuf s) (enc_frame_words (cpu_is_mx5x (system_rev s)) bufs (nat num)) (umem s);
                Some (s\<lparr>umem := m\<rparr>) })"

definition enc_register_words :: "u32 \<Rightarrow> SecAxiUse \<Rightarrow> int \<Rightarrow> int \<Rightarrow> int \<Rightarrow> (u32 \<times> u32) list" where
  "enc_register_words sr u num str src_str =
     [(0x180, of_int num), (0x184, of_int str), (0x1A8, of_int src_str)] @
     (if cpu_is_mx5x sr
      then [(0x190, of_int (bufBitUse u)), (0x194, of_int (bufIpAcDcUse u)), (0x198, of_int (bufDbkYUse u)),
            (0x19C, of_int (bufDbkCUse u)), (0x1A0, of_int (bufOvlUse u))] else [])"

definition enc_register_body ::
    "io_env \<Rightarrow> nat \<Rightarrow> FrameBuffer list \<Rightarrow> int \<Rightarrow> int \<Rightarrow> int \<Rightarrow> dec_lib \<Rightarrow> (RetCode \<times> dec_lib) option" where
  "enc_register_body e i bufs num str src_str s =
     do { let c = the_inst s i;
          s \<leftarrow> enc_frame_addrs (codecMode c) bufs num s;
          s \<leftarrow> write_regs e (enc_register_words (system_rev s) (enc_secAxiUse (encInfo c)) num str src_str) s;
          s \<leftarrow> run_cmd e i SET_FRAME_BUF s;
          s \<leftarrow> WaitBitBusyClear e s;
          unlock e RETCODE_SUCCESS s }"

definition vpu_EncRegisterFrameBuffer :: "io_env \<Rightarrow> handle \<Rightarrow> FrameBuffer list option \<Rightarrow> int \<Rightarrow> int \<Rightarrow> int \<Rightarrow> dec_lib \<Rightarrow>
    (RetCode \<times> dec_lib) option" where
  "vpu_EncRegisterFrameBuffer e h bufArray num str src_str s =
     enc_call h id (\<lambda>i s.
       let d = encInfo (the_inst s i) in
       if enc_frameBufPool d \<noteq> None then Some (RETCODE_CALLED_BEFORE, s)
       else if enc_initialInfoObtained d = 0 then Some (RETCODE_WRONG_CALL_SEQUENCE, s)
       else case bufArray of
         None \<Rightarrow> Some (RETCODE_INVALID_FRAME_BUFFER, s)
       | Some bufs \<Rightarrow>
           if num < enc_minFrameBufferCount (enc_initialInfo d) then Some (RETCODE_INSUFFICIENT_FRAME_BUFFERS, s)
           else if str mod 8 \<noteq> 0 \<or> str = 0 then Some (RETCODE_INVALID_STRIDE, s)
           else locked e id (enc_register_body e i bufs num str src_str)
                  (upd_enc i (\<lambda>d. d\<lparr>enc_frameBufPool := Some bufs, enc_numFrameBuffers := num, enc_stride := str\<rparr>) s)) s"

section \<open>The bitstream buffer\<close>

text \<open>
  The encoder writes, the caller reads: the bytes to read, and the read pointer after \<open>n\<close> of them
  (\<open>None\<close> is \<^verbatim>\<open>RETCODE_INVALID_PARAM\<close>).
\<close>

definition enc_avail :: "bool \<Rightarrow> u32 \<Rightarrow> u32 \<Rightarrow> u32 \<Rightarrow> u32 \<Rightarrow> u32 option" where
  "enc_avail ring start fin rd wr =
     (if ring then Some (if rd \<le> wr then wr - rd else (fin - rd) + (wr - start))
      else if rd = start \<and> rd \<le> wr then Some (wr - rd) else None)"

definition enc_consume :: "bool \<Rightarrow> u32 \<Rightarrow> u32 \<Rightarrow> u32 \<Rightarrow> u32 \<Rightarrow> u32 \<Rightarrow> u32 option" where
  "enc_consume ring start fin rd wr n =
     (if rd < wr \<and> wr < rd + n then None
      else if ring
      then let r = rd + n; r = (if fin < r then start + (r - fin) else r) in Some (if r = fin then start else r)
      else Some start)"

definition vpu_EncGetBitstreamBuffer :: "io_env \<Rightarrow> handle \<Rightarrow> bool \<Rightarrow> dec_lib \<Rightarrow>
    ((RetCode \<times> (u32 \<times> u32 \<times> u32) option) \<times> dec_lib) option" where
  "vpu_EncGetBitstreamBuffer e h ptrs_ok s =
     enc_call h (\<lambda>r. (r, None)) (\<lambda>i s.
       if \<not> ptrs_ok then Some ((RETCODE_INVALID_PARAM, None), s)
       else do {
         let d = encInfo (the_inst s i);
         s \<leftarrow> IOClkGateSet e True s;
         (wrPtr, s) \<leftarrow> VpuReadReg e (enc_streamWrPtrRegAddr d) s;
         s \<leftarrow> IOClkGateSet e False s;
         case enc_avail (ringBufferEnable d = 1) (enc_streamBufStartAddr d) (enc_streamBufEndAddr d) (streamRdPtr d) wrPtr of
           None \<Rightarrow> Some ((RETCODE_INVALID_PARAM, None), s)
         | Some room \<Rightarrow> Some ((RETCODE_SUCCESS, Some (streamRdPtr d, wrPtr, room)), s) }) s"

definition vpu_EncUpdateBitstreamBuffer :: "io_env \<Rightarrow> handle \<Rightarrow> u32 \<Rightarrow> dec_lib \<Rightarrow> (RetCode \<times> dec_lib) option" where
  "vpu_EncUpdateBitstreamBuffer e h n s =
     enc_call h id (\<lambda>i s.
       do { let d = encInfo (the_inst s i);
            s \<leftarrow> IOClkGateSet e True s;
            (wrPtr, s) \<leftarrow> VpuReadReg e (enc_streamWrPtrRegAddr d) s;
            s \<leftarrow> IOClkGateSet e False s;
            case enc_consume (ringBufferEnable d = 1) (enc_streamBufStartAddr d) (enc_streamBufEndAddr d) (streamRdPtr d) wrPtr n of
              None \<Rightarrow> Some (RETCODE_INVALID_PARAM, s)
            | Some r \<Rightarrow> do {
                s \<leftarrow> IOClkGateSet e True (upd_enc i (\<lambda>d. d\<lparr>streamRdPtr := r\<rparr>) s);
                s \<leftarrow> VpuWriteReg e (enc_streamRdPtrRegAddr d) r s;
                s \<leftarrow> IOClkGateSet e False s;
                Some (RETCODE_SUCCESS, s) } }) s"

section \<open>Starting a frame\<close>

definition rotatorModeConversion :: "u32 list" where
  "rotatorModeConversion = [0, 1, 2, 3, 4, 7, 6, 5, 6, 5, 4, 7, 2, 3, 0, 1]"

definition enc_rot_mode :: "EncInfo \<Rightarrow> u32" where
  "enc_rot_mode d =
     (if enc_rotationEnable d \<noteq> 0
      then if enc_rotationAngle d = 90 then 1 else if enc_rotationAngle d = 180 then 2
           else if enc_rotationAngle d = 270 then 3 else 0 else 0) OR
     (if enc_mirrorEnable d \<noteq> 0
      then if enc_mirrorDirection d = 1 then 4 else if enc_mirrorDirection d = 2 then 8
           else if enc_mirrorDirection d = 3 then 12 else 0 else 0)"

definition enc_rot :: "EncInfo \<Rightarrow> u32" where
  "enc_rot d =
     rotatorModeConversion ! unat (enc_rot_mode d) OR (if enc_rotationEnable d \<noteq> 0 \<or> enc_mirrorEnable d \<noteq> 0 then 0x10 else 0)"

definition enc_reports :: "EncInfo \<Rightarrow> u32" where
  "enc_reports d =
     push_bit 5 (of_int (erep_enable (encReportSliceInfo d))) OR push_bit 4 (of_int (erep_enable (encReportMVInfo d))) OR
     push_bit 3 (of_int (erep_enable (encReportMBInfo d)))"

text \<open>The source picture; \<open>None\<close> is the null pointer of a picture that is not skipped.\<close>

definition enc_source :: "EncInfo \<Rightarrow> EncParam \<Rightarrow> (u32 \<times> u32) list option" where
  "enc_source d p =
     (if skipPicture p \<noteq> 0 then Some [(0x194, enc_reports d OR 1)]
      else do {
        f \<leftarrow> sourceFrame p;
        let chroma = of_int (c_div (encTopOffset p) 2) * strideC f + of_int (c_div (encLeftOffset p) 2);
        Some [(0x180, bufY f + of_int (encTopOffset p) * strideY f + of_int (encLeftOffset p)),
              (0x184, bufCb f + chroma), (0x188, bufCr f + chroma),
              (0x194, enc_reports d OR flag 2 (enableAutoSkip p = 0) OR (push_bit 1 (of_int (forceIPicture p)) AND 2))] })"

definition enc_pic_words :: "EncInfo \<Rightarrow> EncParam \<Rightarrow> (u32 \<times> u32) list option" where
  "enc_pic_words d p =
     do { src \<leftarrow> enc_source d p;
          Some ([(0x190, enc_rot d), (0x18C, of_int (quantParam p))] @ src @
            (if enc_dynAlloc d = 1
             then [(0x198, enc_picStreamBufferAddr p), (0x19C, of_int (c_div (enc_picStreamBufferSize p) 1024))] else [])) }"

abbreviation (input) "ADDR_SLICE_BASE_OFFSET \<equiv> 0x100 + 0x20000 + 0x4000 :: u32"
abbreviation (input) "ENC_ADDR_END_OF_RPT_BUF \<equiv> 0x100 + 0x20000 + 0x4000 + 0x4000 :: u32"

definition enc_table :: "EncInfo \<Rightarrow> (u32 \<Rightarrow> u32) \<Rightarrow> u32 \<Rightarrow> u32" where
  "enc_table d m =
     (let va = virt_uaddr (enc_picParaBaseMem d); pa = phy_addr (enc_picParaBaseMem d);
          put = (\<lambda>r k v m. if erep_enable r \<noteq> 0 then m(va + 4 * k := v) else m)
      in put (encReportSliceInfo d) 4 (pa + ADDR_SLICE_BASE_OFFSET)
           (put (encReportMVInfo d) 2 (pa + ADDR_MV_BASE_OFFSET)
             (put (encReportMBInfo d) 0 (pa + ADDR_MB_BASE_OFFSET) m)))"

definition enc_para_mem :: "io_env \<Rightarrow> nat \<Rightarrow> dec_lib \<Rightarrow> (bool \<times> dec_lib) option" where
  "enc_para_mem e i s =
     (let d = encInfo (the_inst s i)
      in if erep_enable (encReportMBInfo d) \<noteq> 0 \<or> erep_enable (encReportMVInfo d) \<noteq> 0 \<or>
            erep_enable (encReportSliceInfo d) \<noteq> 0
         then do {
           (ok, m, s) \<leftarrow> (if phy_addr (enc_picParaBaseMem d) = 0
                          then alloc_report e ENC_ADDR_END_OF_RPT_BUF (enc_picParaBaseMem d) s
                          else Some (True, enc_picParaBaseMem d, s));
           let s = upd_enc i (\<lambda>d. d\<lparr>enc_picParaBaseMem := m\<rparr>) s;
           if \<not> ok then Some (False, s)
           else do {
             s \<leftarrow> VpuWriteReg e 0x1A0 (phy_addr m) s;
             Some (True, s\<lparr>umem := enc_table (encInfo (the_inst s i)) (umem s)\<rparr>) } }
         else Some (True, s))"

definition enc_axi_use :: "SecAxiUse \<Rightarrow> u32" where
  "enc_axi_use u = axi_use u OR flag 4 (useMeEnable u) OR flag 11 (useHostMeEnable u)"

text \<open>The two error returns of the report memory leave the lock taken.\<close>

definition enc_start_body :: "io_env \<Rightarrow> nat \<Rightarrow> EncParam \<Rightarrow> dec_lib \<Rightarrow> (RetCode \<times> dec_lib) option" where
  "enc_start_body e i p s =
     do { ws \<leftarrow> enc_pic_words (encInfo (the_inst s i)) p;
          s \<leftarrow> write_regs e ws s;
          (ok, s) \<leftarrow> enc_para_mem e i s;
          if \<not> ok then Some (RETCODE_FAILURE, s)
          else do {
            s \<leftarrow> VpuWriteReg e BIT_AXI_SRAM_USE (enc_axi_use (enc_secAxiUse (encInfo (the_inst s i)))) s;
            s \<leftarrow> run_cmd e i PIC_RUN s;
            Some (RETCODE_SUCCESS, set_pending (Some i) s) } }"

definition vpu_EncStartOneFrame :: "io_env \<Rightarrow> handle \<Rightarrow> EncParam option \<Rightarrow> dec_lib \<Rightarrow> (RetCode \<times> dec_lib) option" where
  "vpu_EncStartOneFrame e h param s =
     enc_call h id (\<lambda>i s.
       if enc_frameBufPool (encInfo (the_inst s i)) = None then Some (RETCODE_WRONG_CALL_SEQUENCE, s)
       else let ret = CheckEncParam (codecMode (the_inst s i)) (bitRate (enc_openParam (encInfo (the_inst s i)))) param
            in if ret \<noteq> RETCODE_SUCCESS then Some (ret, s)
               else do { p \<leftarrow> param; locked e id (enc_start_body e i p) s }) s"

section \<open>The output of a frame\<close>

record EncOutputInfo =
  out_bitstreamBuffer :: u32
  out_bitstreamSize :: u32
  bitstreamWrapAround :: int
  skipEncoded :: int
  enc_picType :: int
  numOfSlices :: int
  pSliceInfo :: u32
  pMBInfo :: u32
  pMBQpInfo :: u32
  enc_mbInfo :: EncReportInfo
  enc_mvInfo :: EncReportInfo
  enc_sliceInfo :: EncReportInfo

definition enc_out_stream :: "io_env \<Rightarrow> EncInfo \<Rightarrow> EncOutputInfo \<Rightarrow> dec_lib \<Rightarrow> (EncOutputInfo \<times> dec_lib) option" where
  "enc_out_stream e d info s =
     (if ringBufferEnable d \<noteq> 0 then Some (info, s)
      else do {
        (rdPtr, s) \<leftarrow> (if enc_dynAlloc d = 1 then VpuReadReg e 0x198 s else Some (enc_streamBufStartAddr d, s));
        (wrPtr, s) \<leftarrow> VpuReadReg e (enc_streamWrPtrRegAddr d) s;
        Some (info\<lparr>out_bitstreamBuffer := rdPtr, out_bitstreamSize := wrPtr - rdPtr\<rparr>, s) })"

text \<open>The reports that the i.MX27 keeps in the parameter buffer.\<close>

definition enc_out_para :: "codec_inst \<Rightarrow> EncOutputInfo \<Rightarrow> dec_lib \<Rightarrow> (EncOutputInfo \<times> dec_lib) option" where
  "enc_out_para c info s =
     (if \<not> cpu_is_mx27 (system_rev s) then Some (info, s)
      else let q = enc_openParam (encInfo c); info = info\<lparr>pSliceInfo := virt_paraBuf s + 0x1200, pMBInfo := virt_paraBuf s\<rparr>
           in if codecMode c = MP4_ENC \<and> mbQpReport q = 1
              then let cols = nat ((c_div (enc_picWidth q) 16 + 3) div 4); rows = nat (c_div (enc_picHeight q) 16)
                   in if rows \<noteq> 0 \<and> cols \<noteq> 0 \<and>
                         (0x1300 + 4 * ((rows - 1) * 32 + 2 * cols) > unat PARA_BUF_SIZE \<or>
                          4 * (rows * cols) > unat (PARA_BUF2_SIZE + PARA_BUF_SIZE))
                      then None
                      else Some (info\<lparr>pMBQpInfo := virt_paraBuf2 s\<rparr>,
                             s\<lparr>umem := qp_pack (virt_paraBuf s + 0x1300) (virt_paraBuf2 s) cols rows (umem s)\<rparr>)
              else Some (info, s))"

text \<open>
  A report: the word at \<open>off + 4\<close> of the report memory has its size and type, its data start at
  \<open>src\<close>. The data of the motion vectors are taken from the area of the macroblocks.
\<close>

definition enc_report :: "EncInfo \<Rightarrow> EncReportInfo \<Rightarrow> u32 \<Rightarrow> u32 \<Rightarrow> EncReportInfo \<Rightarrow> dec_lib \<Rightarrow>
    (EncReportInfo \<times> dec_lib) option" where
  "enc_report d r off src old s =
     (if erep_enable r = 0 then Some (old, s)
      else let va = virt_uaddr (enc_picParaBaseMem d); v = umem s (va + off + 4); n = bits v 0 0xFFFF; a = erep_addr r
           in if va = 0 then None
              else Some (old\<lparr>erep_size := n, erep_enable := bits v 24 0xFF, erep_addr := a,
                       erep_type := (if off = 0 then erep_type old else bits v 16 0xFF)\<rparr>,
                     if a \<noteq> 0 \<and> n \<noteq> 0 then s\<lparr>umem := copy_report (system_rev s) a (va + src) (pad8 n) (umem s)\<rparr> else s))"

definition enc_output_body :: "io_env \<Rightarrow> nat \<Rightarrow> EncOutputInfo \<Rightarrow> dec_lib \<Rightarrow> (EncOutputInfo \<times> dec_lib) option" where
  "enc_output_body e i info s =
     do { let c = the_inst s i;
          let d = encInfo c;
          s \<leftarrow> IOClkGateSet e True s;
          (v, s) \<leftarrow> VpuReadReg e 0x1C4 s;
          let info = info\<lparr>skipEncoded := bits v 2 1, enc_picType := bits v 0 3\<rparr>;
          (info, s) \<leftarrow> enc_out_stream e d info s;
          (v, s) \<leftarrow> VpuReadReg e 0x1CC s;
          (w, s) \<leftarrow> VpuReadReg e 0x1D0 s;
          let info = info\<lparr>numOfSlices := sint v, bitstreamWrapAround := sint w\<rparr>;
          (info, s) \<leftarrow> enc_out_para c info s;
          (mb, s) \<leftarrow> enc_report d (encReportMBInfo d) 0 ADDR_MB_BASE_OFFSET (enc_mbInfo info) s;
          (mv, s) \<leftarrow> enc_report d (encReportMVInfo d) 8 ADDR_MB_BASE_OFFSET (enc_mvInfo info) s;
          (sl, s) \<leftarrow> enc_report d (encReportSliceInfo d) 16 ADDR_SLICE_BASE_OFFSET (enc_sliceInfo info) s;
          Some (info\<lparr>enc_mbInfo := mb, enc_mvInfo := mv, enc_sliceInfo := sl\<rparr>, s) }"

definition vpu_EncGetOutputInfo :: "io_env \<Rightarrow> handle \<Rightarrow> EncOutputInfo option \<Rightarrow> dec_lib \<Rightarrow>
    ((RetCode \<times> EncOutputInfo option) \<times> dec_lib) option" where
  "vpu_EncGetOutputInfo e h info s =
     enc_call h (\<lambda>r. (r, info)) (\<lambda>i s.
       case info of
         None \<Rightarrow> Some ((RETCODE_INVALID_PARAM, None), s)
       | Some x \<Rightarrow>
           if pendingInst (sem s) = None then Some ((RETCODE_WRONG_CALL_SEQUENCE, info), s)
           else if pendingInst (sem s) \<noteq> Some i then Some ((RETCODE_INVALID_HANDLE, info), s)
           else do {
             (x, s) \<leftarrow> enc_output_body e i x s;
             unlock e (RETCODE_SUCCESS, Some x) (set_pending None s) }) s"

section \<open>Commands\<close>

text \<open>
  The commands of \<^verbatim>\<open>vpu_EncGiveCommand\<close> with their parameters, \<open>None\<close> for a null pointer; the
  commands that the decoder has too are \<open>Shared\<close>. \<open>enc_reply\<close> is what a command writes to the
  structure of the caller.
\<close>

datatype EncCommand =
    Shared DecCommand
  | ENC_GET_SPS_RBSP bool | ENC_GET_PPS_RBSP bool | ENC_GET_VOS_HEADER bool | ENC_GET_VO_HEADER bool | ENC_GET_VOL_HEADER bool
  | ENC_PUT_MP4_HEADER "EncHeaderParam option" | ENC_PUT_AVC_HEADER "EncHeaderParam option"
  | ENC_SET_SEARCHRAM_PARAM "u32 option" | ENC_SET_GOP_NUMBER "int option" | ENC_SET_INTRA_QP "int option"
  | ENC_SET_BITRATE "int option" | ENC_SET_FRAME_RATE "int option" | ENC_SET_INTRA_MB_REFRESH_NUMBER "int option"
  | ENC_SET_SLICE_INFO "EncSliceMode option" | ENC_ENABLE_HEC | ENC_DISABLE_HEC
  | ENC_SET_REPORT_MBINFO "EncReportInfo option" | ENC_SET_REPORT_MVINFO "EncReportInfo option"
  | ENC_SET_REPORT_SLICEINFO "EncReportInfo option"

datatype enc_reply = NoOut | ParaOut u32 u32 | HeaderOut EncHeaderParam

definition erep_code :: "EncReportInfo \<Rightarrow> RetCode" where
  "erep_code r = (if erep_enable r \<noteq> 0 \<and> erep_addr r = 0 then RETCODE_REPORT_BUF_NOT_SET else RETCODE_SUCCESS)"

text \<open>The commands that only change the settings.\<close>

fun enc_setting :: "EncCommand \<Rightarrow> EncInfo \<Rightarrow> RetCode \<times> EncInfo" where
  "enc_setting (Shared ENABLE_ROTATION) d = (RETCODE_SUCCESS, d\<lparr>enc_rotationEnable := 1\<rparr>)"
| "enc_setting (Shared DISABLE_ROTATION) d = (RETCODE_SUCCESS, d\<lparr>enc_rotationEnable := 0\<rparr>)"
| "enc_setting (Shared ENABLE_MIRRORING) d = (RETCODE_SUCCESS, d\<lparr>enc_mirrorEnable := 1\<rparr>)"
| "enc_setting (Shared DISABLE_MIRRORING) d = (RETCODE_SUCCESS, d\<lparr>enc_mirrorEnable := 0\<rparr>)"
| "enc_setting (Shared (SET_MIRROR_DIRECTION (Some dir))) d =
     (if dir < 0 \<or> dir > 3 then (RETCODE_INVALID_PARAM, d) else (RETCODE_SUCCESS, d\<lparr>enc_mirrorDirection := dir\<rparr>))"
| "enc_setting (Shared (SET_MIRROR_DIRECTION None)) d = (RETCODE_INVALID_PARAM, d)"
| "enc_setting (Shared (SET_ROTATION_ANGLE (Some angle))) d =
     (if angle \<notin> {0, 90, 180, 270} then (RETCODE_INVALID_PARAM, d)
      else if enc_initialInfoObtained d \<noteq> 0 \<and> (angle = 90 \<or> angle = 270) then (RETCODE_INVALID_PARAM, d)
      else (RETCODE_SUCCESS, d\<lparr>enc_rotationAngle := angle\<rparr>))"
| "enc_setting (Shared (SET_ROTATION_ANGLE None)) d = (RETCODE_INVALID_PARAM, d)"
| "enc_setting (Shared _) d = (RETCODE_INVALID_COMMAND, d)"
| "enc_setting (ENC_SET_REPORT_MBINFO (Some r)) d = (erep_code r, d\<lparr>encReportMBInfo := r\<rparr>)"
| "enc_setting (ENC_SET_REPORT_MVINFO (Some r)) d = (erep_code r, d\<lparr>encReportMVInfo := r\<rparr>)"
| "enc_setting (ENC_SET_REPORT_SLICEINFO (Some r)) d = (erep_code r, d\<lparr>encReportSliceInfo := r\<rparr>)"
| "enc_setting _ d = (RETCODE_INVALID_PARAM, d)"

text \<open>The commands that are carried out under the lock.\<close>

definition under_lock :: "io_env \<Rightarrow> (dec_lib \<Rightarrow> (enc_reply \<times> dec_lib) option) \<Rightarrow> dec_lib \<Rightarrow>
    ((RetCode \<times> enc_reply) \<times> dec_lib) option" where
  "under_lock e body s =
     locked e (\<lambda>r. (r, NoOut)) (\<lambda>s. do { (out, s) \<leftarrow> body s; unlock e (RETCODE_SUCCESS, out) s }) s"

definition refuse :: "RetCode \<Rightarrow> dec_lib \<Rightarrow> ((RetCode \<times> enc_reply) \<times> dec_lib) option" where
  "refuse ret s = Some ((ret, NoOut), s)"

definition get_header :: "io_env \<Rightarrow> nat \<Rightarrow> int \<Rightarrow> int \<Rightarrow> bool \<Rightarrow> dec_lib \<Rightarrow> ((RetCode \<times> enc_reply) \<times> dec_lib) option" where
  "get_header e i mode type ptr_ok s =
     (if codecMode (the_inst s i) \<noteq> mode then refuse RETCODE_INVALID_COMMAND s
      else if \<not> ptr_ok then refuse RETCODE_INVALID_PARAM s
      else under_lock e (\<lambda>s. do { ((a, n), s) \<leftarrow> GetParaSet e (the_inst s i) type s; Some (ParaOut a n, s) }) s)"

definition put_header :: "io_env \<Rightarrow> nat \<Rightarrow> int \<Rightarrow> int \<Rightarrow> EncHeaderParam option \<Rightarrow> dec_lib \<Rightarrow>
    ((RetCode \<times> enc_reply) \<times> dec_lib) option" where
  "put_header e i mode greatest p s =
     (if codecMode (the_inst s i) \<noteq> mode then refuse RETCODE_INVALID_COMMAND s
      else case p of
        None \<Rightarrow> refuse RETCODE_INVALID_PARAM s
      | Some p \<Rightarrow>
          if \<not> (0 \<le> headerType p \<and> headerType p \<le> greatest) then refuse RETCODE_INVALID_PARAM s
          else under_lock e (\<lambda>s. do { (p, s) \<leftarrow> EncodeHeader e (the_inst s i) p s; Some (HeaderOut p, s) }) s)"

definition rate_mode :: "codec_inst \<Rightarrow> bool" where
  "rate_mode c \<longleftrightarrow> codecMode c = MP4_ENC \<or> codecMode c = AVC_ENC"

text \<open>
  A change of the rate control: the value of the caller, which is read without a null check, must
  be between \<open>lo\<close> and \<open>hi\<close>.
\<close>

definition set_rate :: "io_env \<Rightarrow> nat \<Rightarrow> (codec_inst \<Rightarrow> int \<Rightarrow> bool) \<Rightarrow>
    (codec_inst \<Rightarrow> u32 \<Rightarrow> dec_lib \<Rightarrow> (RetCode \<times> dec_lib) option) \<Rightarrow> int option \<Rightarrow> dec_lib \<Rightarrow>
    ((RetCode \<times> enc_reply) \<times> dec_lib) option" where
  "set_rate e i valid op v s =
     (if \<not> rate_mode (the_inst s i) then refuse RETCODE_INVALID_COMMAND s
      else do {
        v \<leftarrow> v;
        if \<not> valid (the_inst s i) v then refuse RETCODE_INVALID_PARAM s
        else under_lock e (\<lambda>s. do { (_, s) \<leftarrow> op (the_inst s i) (of_int v) s; Some (NoOut, s) }) s })"

definition qp_valid :: "codec_inst \<Rightarrow> int \<Rightarrow> bool" where
  "qp_valid c v \<longleftrightarrow> (if codecMode c = MP4_ENC then 1 \<le> v \<and> v \<le> 31 else 0 \<le> v \<and> v \<le> 51)"

definition set_hec :: "io_env \<Rightarrow> nat \<Rightarrow> int \<Rightarrow> dec_lib \<Rightarrow> ((RetCode \<times> enc_reply) \<times> dec_lib) option" where
  "set_hec e i mode s =
     (if codecMode (the_inst s i) \<noteq> MP4_ENC then refuse RETCODE_INVALID_COMMAND s
      else under_lock e (\<lambda>s. do { (_, s) \<leftarrow> SetHecMode e (the_inst s i) mode s; Some (NoOut, s) }) s)"

definition set_slice :: "io_env \<Rightarrow> nat \<Rightarrow> EncSliceMode option \<Rightarrow> dec_lib \<Rightarrow> ((RetCode \<times> enc_reply) \<times> dec_lib) option" where
  "set_slice e i m s =
     do { m \<leftarrow> m;
          if sliceMode m < 0 \<or> sliceMode m > 1 \<or> sliceSizeMode m < 0 \<or> sliceSizeMode m > 1 then refuse RETCODE_INVALID_PARAM s
          else under_lock e (\<lambda>s. do { (_, s) \<leftarrow> SetSliceMode e (the_inst s i) m s; Some (NoOut, s) }) s }"

definition set_refresh :: "io_env \<Rightarrow> nat \<Rightarrow> int option \<Rightarrow> dec_lib \<Rightarrow> ((RetCode \<times> enc_reply) \<times> dec_lib) option" where
  "set_refresh e i v s =
     under_lock e (\<lambda>s. do { v \<leftarrow> v; (_, s) \<leftarrow> SetIntraRefreshNum e (the_inst s i) (of_int v) s; Some (NoOut, s) }) s"

definition set_search :: "io_env \<Rightarrow> u32 option \<Rightarrow> dec_lib \<Rightarrow> ((RetCode \<times> enc_reply) \<times> dec_lib) option" where
  "set_search e p s =
     (if cpu_is_mx5x (system_rev s) then refuse RETCODE_SUCCESS s
      else case p of
        None \<Rightarrow> refuse RETCODE_INVALID_PARAM s
      | Some a \<Rightarrow> under_lock e (\<lambda>s. do { s \<leftarrow> VpuWriteReg e 0x140 a s; Some (NoOut, s) }) s)"

definition vpu_EncGiveCommand :: "io_env \<Rightarrow> handle \<Rightarrow> EncCommand \<Rightarrow> dec_lib \<Rightarrow> ((RetCode \<times> enc_reply) \<times> dec_lib) option" where
  "vpu_EncGiveCommand e h cmd s =
     enc_call h (\<lambda>r. (r, NoOut)) (\<lambda>i s.
       case cmd of
         ENC_GET_SPS_RBSP p \<Rightarrow> get_header e i AVC_ENC 0 p s
       | ENC_GET_PPS_RBSP p \<Rightarrow> get_header e i AVC_ENC 1 p s
       | ENC_GET_VOS_HEADER p \<Rightarrow> get_header e i MP4_ENC 1 p s
       | ENC_GET_VO_HEADER p \<Rightarrow> get_header e i MP4_ENC 2 p s
       | ENC_GET_VOL_HEADER p \<Rightarrow> get_header e i MP4_ENC 0 p s
       | ENC_PUT_MP4_HEADER p \<Rightarrow> put_header e i MP4_ENC 2 p s
       | ENC_PUT_AVC_HEADER p \<Rightarrow> put_header e i AVC_ENC 1 p s
       | ENC_SET_SEARCHRAM_PARAM p \<Rightarrow> set_search e p s
       | ENC_SET_GOP_NUMBER v \<Rightarrow> set_rate e i (\<lambda>_ v. 0 \<le> v \<and> v \<le> 32767) (SetGopNumber e) v s
       | ENC_SET_INTRA_QP v \<Rightarrow> set_rate e i qp_valid (SetIntraQp e) v s
       | ENC_SET_BITRATE v \<Rightarrow> set_rate e i (\<lambda>_ v. 0 \<le> v \<and> v \<le> 32767) (SetBitrate e) v s
       | ENC_SET_FRAME_RATE v \<Rightarrow> set_rate e i (\<lambda>_ v. 0 < v) (SetFramerate e) v s
       | ENC_SET_INTRA_MB_REFRESH_NUMBER v \<Rightarrow> set_refresh e i v s
       | ENC_SET_SLICE_INFO m \<Rightarrow> set_slice e i m s
       | ENC_ENABLE_HEC \<Rightarrow> set_hec e i 1 s
       | ENC_DISABLE_HEC \<Rightarrow> set_hec e i 0 s
       | _ \<Rightarrow> (case enc_setting cmd (encInfo (the_inst s i)) of
               (ret, d) \<Rightarrow> refuse ret (upd_enc i (\<lambda>_. d) s))) s"

section \<open>Saving a header\<close>

text \<open>
  The file gets the first \<^verbatim>\<open>size\<close> bytes of the words, which are big endian in the parameter buffer
  and exchanged in place for the little-endian processor. \<open>file_ok\<close> is whether the file opens.
\<close>

definition mem_bytes :: "u32 list \<Rightarrow> u8 list" where
  "mem_bytes ws = concat (map (\<lambda>w. [ucast w, ucast (drop_bit 8 w), ucast (drop_bit 16 w), ucast (drop_bit 24 w)]) ws)"

definition swap_word :: "u32 \<Rightarrow> u32" where
  "swap_word w =
     (drop_bit 24 w AND 0xFF) OR push_bit 8 (drop_bit 16 w AND 0xFF) OR push_bit 16 (drop_bit 8 w AND 0xFF) OR
     push_bit 24 (drop_bit 0 w AND 0xFF)"

definition SaveGetEncodeHeader :: "io_env \<Rightarrow> handle \<Rightarrow> EncCommand \<Rightarrow> bool \<Rightarrow> bool \<Rightarrow> dec_lib \<Rightarrow> (u8 list option \<times> dec_lib) option" where
  "SaveGetEncodeHeader e h cmd name_ok file_ok s =
     (if \<not> name_ok then Some (None, s)
      else do {
        ((_, out), s) \<leftarrow> vpu_EncGiveCommand e h cmd s;
        case out of
          ParaOut a n \<Rightarrow>
            let byteSize = (n + 3) AND NOT 3
            in if \<not> malloc_ok e then Some (None, s)
               else if unat byteSize > unat PARA_BUF_SIZE then None
               else if sint n > 0 \<and> file_ok
               then Some (Some (take (unat n) (mem_bytes (map (\<lambda>k. swap_word (umem s (a + 4 * of_nat k))) [0 ..< unat byteSize div 4]))), s)
               else Some (None, s)
        | _ \<Rightarrow> Some (None, s) })"

end
