(* ===== verification/Vpu_Enc_Safety.thy ===== *)
theory Vpu_Enc_Safety
  imports Vpu_Enc Vpu_Dec_Safety
begin

unbundle bit_operations_syntax

text \<open>
  What a caller of the encoder interface may rely on: every call is a step of a state machine of
  encoder instances and of the lock, except that a frame that cannot get its report memory takes
  the lock without being started; and what remains true of the lock under any mixture of encoder
  and decoder calls.
\<close>

section \<open>The abstract machine\<close>

record enc_view =
  e_used :: bool
  e_info :: bool
  e_frames :: bool
  e_angle :: int
  e_dir :: int

record enc_spec =
  e_insts :: "enc_view list"
  e_pending :: "nat option"
  e_held :: bool

text \<open>
  A setting keeps the angle and the direction among those that the start of a frame knows; once
  the sequence has been configured a picture cannot be turned on its side any more.
\<close>

definition turn_law :: "enc_view \<Rightarrow> bool" where
  "turn_law v \<longleftrightarrow> e_angle v \<in> {0, 90, 180, 270} \<and> 0 \<le> e_dir v \<and> e_dir v \<le> 3"

definition fresh_enc :: enc_view where
  "fresh_enc = \<lparr>e_used = True, e_info = False, e_frames = False, e_angle = 0, e_dir = 0\<rparr>"

inductive enc_step :: "enc_spec \<Rightarrow> enc_spec \<Rightarrow> bool" where
  stay: "enc_step a a"
| opened: "i < length (e_insts a) \<Longrightarrow> \<not> e_used (e_insts a ! i) \<Longrightarrow> \<not> e_held a \<Longrightarrow>
    enc_step a (a\<lparr>e_insts := (e_insts a)[i := fresh_enc]\<rparr>)"
| closed: "i < length (e_insts a) \<Longrightarrow> e_used (e_insts a ! i) \<Longrightarrow> \<not> e_held a \<Longrightarrow> e_pending a \<noteq> Some i \<Longrightarrow>
    enc_step a (a\<lparr>e_insts := (e_insts a)[i := (e_insts a ! i)\<lparr>e_used := False\<rparr>]\<rparr>)"
| got_info: "i < length (e_insts a) \<Longrightarrow> e_used (e_insts a ! i) \<Longrightarrow> \<not> e_info (e_insts a ! i) \<Longrightarrow> \<not> e_held a \<Longrightarrow>
    enc_step a (a\<lparr>e_insts := (e_insts a)[i := (e_insts a ! i)\<lparr>e_info := True\<rparr>]\<rparr>)"
| registered: "i < length (e_insts a) \<Longrightarrow> e_used (e_insts a ! i) \<Longrightarrow> e_info (e_insts a ! i) \<Longrightarrow> \<not> e_frames (e_insts a ! i) \<Longrightarrow>
    enc_step a (a\<lparr>e_insts := (e_insts a)[i := (e_insts a ! i)\<lparr>e_frames := True\<rparr>]\<rparr>)"
| started: "i < length (e_insts a) \<Longrightarrow> e_used (e_insts a ! i) \<Longrightarrow> e_frames (e_insts a ! i) \<Longrightarrow> \<not> e_held a \<Longrightarrow>
    enc_step a (a\<lparr>e_pending := Some i, e_held := True\<rparr>)"
| finished: "e_pending a = Some i \<Longrightarrow> enc_step a (a\<lparr>e_pending := None, e_held := False\<rparr>)"
| setting: "i < length (e_insts a) \<Longrightarrow> e_used (e_insts a ! i) \<Longrightarrow> e_used v \<Longrightarrow> e_info v = e_info (e_insts a ! i) \<Longrightarrow>
    e_frames v = e_frames (e_insts a ! i) \<Longrightarrow> (turn_law (e_insts a ! i) \<Longrightarrow> turn_law v) \<Longrightarrow>
    (e_info v \<Longrightarrow> e_angle v = e_angle (e_insts a ! i) \<or> e_angle v \<in> {0, 180}) \<Longrightarrow>
    enc_step a (a\<lparr>e_insts := (e_insts a)[i := v]\<rparr>)"

definition eview :: "codec_inst \<Rightarrow> enc_view" where
  "eview c = (let d = encInfo c in
     \<lparr>e_used = inUse c, e_info = enc_initialInfoObtained d \<noteq> 0, e_frames = enc_frameBufPool d \<noteq> None,
      e_angle = enc_rotationAngle d, e_dir = enc_mirrorDirection d\<rparr>)"

definition espec :: "dec_lib \<Rightarrow> enc_spec" where
  "espec s = \<lparr>e_insts = map eview (codecInstPool (sem s)), e_pending = pendingInst (sem s), e_held = api_lock (sem s)\<rparr>"

section \<open>What the steps do to the abstract state\<close>

lemma espec_simps [simp]:
  "e_pending (espec s) = pendingInst (sem s)" "e_held (espec s) = api_lock (sem s)"
  "length (e_insts (espec s)) = length (codecInstPool (sem s))"
  by (simp_all add: espec_def)

lemma e_insts_nth: "i < length (codecInstPool (sem s)) \<Longrightarrow> e_insts (espec s) ! i = eview (the_inst s i)"
  by (simp add: espec_def the_inst_def)

lemma espec_same_sem: "sem s' = sem s \<Longrightarrow> espec s' = espec s"
  by (simp add: espec_def)

lemma espec_upd_inst:
  "espec (upd_inst i f s) = (espec s)\<lparr>e_insts := (e_insts (espec s))[i := eview (f (the_inst s i))]\<rparr>"
  by (simp add: espec_def upd_inst_def map_update)

lemma espec_upd_enc_same:
  assumes "eview ((the_inst s i)\<lparr>encInfo := f (encInfo (the_inst s i))\<rparr>) = eview (the_inst s i)"
  shows "espec (upd_enc i f s) = espec s"
proof (cases "i < length (codecInstPool (sem s))")
  case True
  then show ?thesis using assms by (simp add: upd_enc_def espec_upd_inst e_insts_nth [symmetric])
next
  case False
  then show ?thesis by (simp add: upd_enc_def espec_upd_inst list_update_beyond)
qed

lemma espec_lock: "sem s' = (sem s)\<lparr>api_lock := b\<rparr> \<Longrightarrow> espec s' = (espec s)\<lparr>e_held := b\<rparr>"
  by (simp add: espec_def)

lemma espec_fields [simp]:
  "espec (upd_enc i (\<lambda>d. d\<lparr>enc_picParaBaseMem := m\<rparr>) s) = espec s"
  "espec (upd_enc i (\<lambda>d. d\<lparr>searchRamMem := m\<rparr>) s) = espec s"
  "espec (upd_enc i (\<lambda>d. d\<lparr>enc_secAxiUse := f d\<rparr>) s) = espec s"
  "espec (upd_enc i (\<lambda>d. d\<lparr>searchRamMem := m, enc_secAxiUse := f d\<rparr>) s) = espec s"
  "espec (upd_enc i (\<lambda>d. d\<lparr>streamRdPtr := r\<rparr>) s) = espec s"
  "espec (s\<lparr>umem := w\<rparr>) = espec s"
  "espec (set_pending p s) = (espec s)\<lparr>e_pending := p\<rparr>"
  by (simp_all add: espec_upd_enc_same eview_def Let_def) (simp_all add: espec_def set_pending_def)

lemma enc_call_ens:
  assumes "\<And>i. h = Slot i \<Longrightarrow> i < 4 \<Longrightarrow> inUse (the_inst s i) \<Longrightarrow> ens Q (body i s)" "\<And>r. r \<noteq> RETCODE_SUCCESS \<Longrightarrow> r \<noteq> RETCODE_FAILURE \<Longrightarrow> Q (out r, s)"
  shows "ens Q (enc_call h out body s)"
  unfolding enc_call_def Let_def
  by (cases h) (auto simp: CheckEncInstanceValidity_def CheckInstanceValidity_def Let_def the_inst_def
      intro!: ens_Some assms split: if_splits)

text \<open>The parts of the calls.\<close>

lemma GetParaSet_ens: "(\<And>x s'. sem s' = sem s \<Longrightarrow> Q (x, s')) \<Longrightarrow> ens Q (GetParaSet e c t s)"
  unfolding GetParaSet_def
  by (intro ens_flow IOClkGateSet_ens VpuWriteReg_ens BitIssueCommand_ens wait_idle_ens VpuReadReg_ens) auto

lemma EncodeHeader_ens: "(\<And>x s'. sem s' = sem s \<Longrightarrow> Q (x, s')) \<Longrightarrow> ens Q (EncodeHeader e c p s)"
  unfolding EncodeHeader_def
  by (intro ens_flow IOClkGateSet_ens VpuWriteReg_ens write_all_ens BitIssueCommand_ens wait_idle_ens VpuReadReg_ens) auto

lemma change_param_ens: "(\<And>x s'. sem s' = sem s \<Longrightarrow> Q (x, s')) \<Longrightarrow> ens Q (change_param e c b r v s)"
  unfolding change_param_def
  by (intro ens_flow IOClkGateSet_ens write_all_ens BitIssueCommand_ens wait_idle_ens) auto

lemma rate_ens:
  assumes "\<And>x s'. sem s' = sem s \<Longrightarrow> Q (x, s')"
  shows "ens Q (SetGopNumber e c v s)" "ens Q (SetIntraQp e c v s)" "ens Q (SetBitrate e c v s)" "ens Q (SetFramerate e c v s)"
    "ens Q (SetIntraRefreshNum e c v s)" "ens Q (SetSliceMode e c m s)" "ens Q (SetHecMode e c b s)"
  unfolding SetGopNumber_def SetIntraQp_def SetBitrate_def SetFramerate_def SetIntraRefreshNum_def SetSliceMode_def SetHecMode_def
  by (intro change_param_ens assms, assumption)+

lemma enc_open_regs_ens: "(\<And>s'. sem s' = sem s \<Longrightarrow> Q s') \<Longrightarrow> ens Q (enc_open_regs e i s)"
  unfolding enc_open_regs_def by (intro ens_flow write_all_ens VpuReadReg_ens VpuWriteReg_ens) auto

lemma free_search_ens: "(\<And>s'. espec s' = espec s \<Longrightarrow> Q s') \<Longrightarrow> ens Q (free_search e i s)"
  unfolding free_search_def by (intro ens_flow IOFreePhyMem_ens) (auto dest!: espec_same_sem)

lemma mjpg_tables_ens: "(\<And>s'. sem s' = sem s \<Longrightarrow> Q s') \<Longrightarrow> ens Q (mjpg_tables q s)"
  unfolding mjpg_tables_def by (auto simp: ens_def Let_def bind_eq_Some_conv)

lemma enc_iram_ens: "(\<And>s'. espec s' = espec s \<Longrightarrow> Q s') \<Longrightarrow> ens Q (enc_iram e ir i s)"
  unfolding enc_iram_def by (intro ens_flow IOGetIramBase_ens) (auto dest!: espec_same_sem)

lemma enc_search_ens: "(\<And>s'. espec s' = espec s \<Longrightarrow> Q s') \<Longrightarrow> ens Q (enc_search e i s)"
  unfolding enc_search_def by (intro ens_flow IOGetPhyMem_ens) (auto dest!: espec_same_sem)

lemma enc_frame_addrs_ens: "(\<And>s'. sem s' = sem s \<Longrightarrow> Q s') \<Longrightarrow> ens Q (enc_frame_addrs m b n s)"
  unfolding enc_frame_addrs_def by (auto simp: ens_def bind_eq_Some_conv)

lemma enc_para_mem_ens:
  assumes "\<And>ok s'. espec s' = espec s \<Longrightarrow> Q (ok, s')"
  shows "ens Q (enc_para_mem e i s)"
proof -
  have a: "ens P (if b then alloc_report e n m s else Some (True, m, s))"
    if "\<And>ok m s'. espec s' = espec s \<Longrightarrow> P (ok, m, s')" for P b n m
    using that by (auto intro!: ens_if alloc_report_ens ens_Some dest: espec_same_sem)
  show ?thesis
    unfolding enc_para_mem_def by (intro ens_flow a VpuWriteReg_ens) (auto intro!: assms dest!: espec_same_sem)
qed

lemma enc_report_ens: "(\<And>r s'. sem s' = sem s \<Longrightarrow> Q (r, s')) \<Longrightarrow> ens Q (enc_report d r' off src old s)"
  unfolding enc_report_def by (auto simp: ens_def Let_def)

lemma enc_output_body_ens:
  assumes "\<And>info s'. sem s' = sem s \<Longrightarrow> Q (info, s')"
  shows "ens Q (enc_output_body e i info s)"
proof -
  have st: "ens P (enc_out_stream e d info s)" if "\<And>info s'. sem s' = sem s \<Longrightarrow> P (info, s')" for P d info s
    unfolding enc_out_stream_def by (intro ens_flow VpuReadReg_ens) (auto intro!: that)
  have pa: "ens P (enc_out_para c info s)" if "\<And>info s'. sem s' = sem s \<Longrightarrow> P (info, s')" for P c info s
    unfolding enc_out_para_def using that by (auto simp: ens_def Let_def)
  show ?thesis
    unfolding enc_output_body_def by (intro ens_flow IOClkGateSet_ens VpuReadReg_ens st pa enc_report_ens assms) auto
qed

section \<open>Every call is a step of the abstract machine\<close>

definition esteps_to :: "dec_lib \<Rightarrow> 'r \<times> dec_lib \<Rightarrow> bool" where
  "esteps_to s = (\<lambda>(r, s'). enc_step (espec s) (espec s'))"

lemma esteps_to_same: "espec s' = espec s \<Longrightarrow> esteps_to s (r, s')"
  by (simp add: esteps_to_def enc_step.stay)

lemma eview_used: "inUse (the_inst s i) \<Longrightarrow> i < length (codecInstPool (sem s)) \<Longrightarrow> e_used (e_insts (espec s) ! i)"
  by (simp add: e_insts_nth eview_def Let_def)

lemma plain_enc_locked:
  assumes "\<And>s'. espec s' = (espec s)\<lparr>e_held := True\<rparr> \<Longrightarrow> ens (\<lambda>(r, t). espec t = (espec s)\<lparr>e_held := False\<rparr>) (body s')"
  shows "ens (esteps_to s) (locked e out body s)"
proof (rule locked_ens)
  fix s' :: dec_lib
  assume l: "\<not> api_lock (sem s)" and s': "sem s' = (sem s)\<lparr>api_lock := True\<rparr>"
  have "espec t = espec s" if "espec t = (espec s)\<lparr>e_held := False\<rparr>" for t using that l by (simp add: espec_def)
  then show "ens (esteps_to s) (body s')"
    by (intro ens_weak [OF assms [OF espec_lock [OF s']]]) (auto intro: esteps_to_same)
next
  fix s' :: dec_lib
  assume "sem s' = sem s"
  then show "esteps_to s (out RETCODE_FAILURE_TIMEOUT, s')" by (intro esteps_to_same espec_same_sem)
qed

lemma EncGetBitstreamBuffer_step: "ens (esteps_to s) (vpu_EncGetBitstreamBuffer e h p s)"
  unfolding vpu_EncGetBitstreamBuffer_def
  by (intro enc_call_ens ens_flow ens_option IOClkGateSet_ens VpuReadReg_ens) (auto intro: esteps_to_same simp: espec_def)

lemma EncUpdateBitstreamBuffer_step: "ens (esteps_to s) (vpu_EncUpdateBitstreamBuffer e h n s)"
  unfolding vpu_EncUpdateBitstreamBuffer_def
  by (intro enc_call_ens ens_flow ens_option IOClkGateSet_ens VpuReadReg_ens VpuWriteReg_ens)
    (auto intro!: esteps_to_same dest!: espec_same_sem)

lemma enc_opened_spec:
  assumes g: "GetCodecInstance zero_codec (codecInstPool (sem s)) = Some (i, q)"
    and t: "sem t = (sem s)\<lparr>codecInstPool := q, api_lock := False\<rparr>" and l: "\<not> api_lock (sem s)"
  shows "espec (upd_inst i (\<lambda>c. c\<lparr>codecMode := m c, encInfo := enc_open_info p regs (encInfo c)\<rparr>) t) =
    (espec s)\<lparr>e_insts := (e_insts (espec s))[i := fresh_enc]\<rparr>"
proof -
  note i = GetCodecInstance_Some [OF g]
  have c: "the_inst t i = \<lparr>instIndex = instIndex (codecInstPool (sem s) ! i), inUse = True, codecMode = 0, \<dots> = zero_codec\<rparr>"
    using i t by (simp add: the_inst_def)
  have v: "eview ((the_inst t i)\<lparr>codecMode := m (the_inst t i), encInfo := enc_open_info p regs (encInfo (the_inst t i))\<rparr>) =
      fresh_enc"
    unfolding c
    by (cases regs) (simp add: eview_def fresh_enc_def enc_open_info_def zero_codec_def codec_inst.defs zero_enc_info_def Let_def)
  have t': "espec t = (espec s)\<lparr>e_insts := (e_insts (espec s))[i := eview (the_inst t i)]\<rparr>"
    unfolding c using i(3) t l by (simp add: espec_def map_update)
  show ?thesis unfolding espec_upd_inst v unfolding t' by simp
qed

lemma enc_open_body_step:
  assumes "\<not> api_lock (sem s)" "sem t = (sem s)\<lparr>api_lock := True\<rparr>"
  shows "ens (esteps_to s) (enc_open_body e pop t)"
proof (cases "GetCodecInstance zero_codec (codecInstPool (sem s))")
  case None
  then show ?thesis
    unfolding enc_open_body_def using assms by (auto intro!: unlock_ens esteps_to_same simp: espec_def)
next
  case (Some iq)
  then obtain i q where g: "GetCodecInstance zero_codec (codecInstPool (sem s)) = Some (i, q)" by (cases iq) simp
  have ok: "esteps_to s (r, t')" if "espec t' = (espec s)\<lparr>e_insts := (e_insts (espec s))[i := fresh_enc]\<rparr>" for t' and r :: enc_open_result
    using that assms(1) GetCodecInstance_Some [OF g]
    by (auto simp: esteps_to_def e_insts_nth the_inst_def eview_def Let_def intro!: enc_step.opened)
  have inner: "ens (esteps_to s) (enc_open_inst e p i t')" if "sem t' = (sem s)\<lparr>codecInstPool := q, api_lock := False\<rparr>" for t' p
    unfolding enc_open_inst_def
    by (intro ens_flow ens_pure [where r = "ptr_regs a" for a] locked_ens enc_open_regs_ens unlock_ens ok)
      (use enc_opened_spec [OF g that assms(1)] assms(1) in \<open>auto simp: espec_def\<close>)
  show ?thesis
    unfolding enc_open_body_def
    by (intro ens_option ens_flow unlock_ens UnlockVpu_ens ens_pure [where r = pop])
      (use assms g in \<open>auto intro!: inner intro: esteps_to_same simp: espec_def\<close>)
qed

lemma EncOpen_step: "ens (esteps_to s) (vpu_EncOpen e pop h s)"
proof -
  have step: "ens (esteps_to s) (locked e out (enc_open_body e p) t)" if "sem t = sem s" for out p t
    by (intro locked_ens enc_open_body_step) (use that in \<open>auto intro!: esteps_to_same simp: espec_def\<close>)
  show ?thesis
    unfolding vpu_EncOpen_def
    by (intro ens_flow isVpuInitialized_ens step) (auto intro!: esteps_to_same dest: espec_same_sem)
qed

lemma enc_free_spec:
  "espec (FreeInstance i s) = (espec s)\<lparr>e_insts := (e_insts (espec s))[i := (e_insts (espec s) ! i)\<lparr>e_used := False\<rparr>]\<rparr>"
proof (cases "i < length (codecInstPool (sem s))")
  case True
  then show ?thesis by (simp add: FreeInstance_def FreeCodecInstance_def espec_def map_update eview_def Let_def)
next
  case False
  then show ?thesis by (simp add: FreeInstance_def FreeCodecInstance_def espec_def list_update_beyond)
qed

lemma enc_close_body_ens:
  assumes "\<And>s'. espec s' = (espec s)\<lparr>e_insts := (e_insts (espec s))[i := (e_insts (espec s) ! i)\<lparr>e_used := False\<rparr>], e_held := False\<rparr> \<Longrightarrow>
    Q (RETCODE_SUCCESS, s')"
  shows "ens Q (enc_close_body e i s)"
proof -
  have seq: "ens P (if b then do { s \<leftarrow> run_cmd e i c s; WaitBitBusyClear e s } else Some s)"
    if "\<And>s'. espec s' = espec s \<Longrightarrow> P s'" for P b c
    by (intro ens_flow run_cmd_ens WaitBitBusyClear_ens) (auto intro!: that dest!: espec_same_sem)
  show ?thesis
    unfolding enc_close_body_def
    by (intro ens_flow seq free_report_ens free_search_ens unlock_ens assms)
      (auto simp: enc_free_spec dest!: espec_same_sem espec_lock)
qed

lemma EncClose_step:
  assumes len: "length (codecInstPool (sem s)) = 4"
  shows "ens (esteps_to s) (vpu_EncClose e h s)"
proof -
  have shut: "esteps_to s (r, t)" if i: "i < 4" "inUse (the_inst s i)" "pendingInst (sem s) \<noteq> Some i" "\<not> api_lock (sem s)"
      and t: "espec t = (espec s)\<lparr>e_insts := (e_insts (espec s))[i := (e_insts (espec s) ! i)\<lparr>e_used := False\<rparr>], e_held := False\<rparr>"
    for i t and r :: RetCode
  proof -
    have "espec t = (espec s)\<lparr>e_insts := (e_insts (espec s))[i := (e_insts (espec s) ! i)\<lparr>e_used := False\<rparr>]\<rparr>"
      using t i(4) by (simp add: espec_def)
    then show ?thesis using i len eview_used [of s i] by (simp add: esteps_to_def enc_step.closed)
  qed
  have lock: "ens (esteps_to s) (locked e id (enc_close_body e i) s)"
    if i: "i < 4" "inUse (the_inst s i)" "pendingInst (sem s) \<noteq> Some i" for i
    by (intro locked_ens enc_close_body_ens) (use i in \<open>auto intro: esteps_to_same shut [OF i] dest!: espec_same_sem espec_lock\<close>)
  show ?thesis unfolding vpu_EncClose_def by (intro enc_call_ens ens_flow lock) (auto intro: esteps_to_same)
qed

lemma enc_got_info_spec:
  assumes "i < length (codecInstPool (sem s))"
  shows "espec (upd_enc i (\<lambda>d. d\<lparr>enc_initialInfo := x, enc_initialInfoObtained := 1\<rparr>) s) =
    (espec s)\<lparr>e_insts := (e_insts (espec s))[i := (e_insts (espec s) ! i)\<lparr>e_info := True\<rparr>]\<rparr>"
  using assms by (simp add: upd_enc_def espec_upd_inst e_insts_nth) (simp add: eview_def Let_def)

lemma enc_seq_init_ens:
  assumes i: "i < length (codecInstPool (sem s))"
    and ok: "\<And>r s'. espec s' = (espec s)\<lparr>e_held := False\<rparr> \<or>
      espec s' = (espec s)\<lparr>e_insts := (e_insts (espec s))[i := (e_insts (espec s) ! i)\<lparr>e_info := True\<rparr>], e_held := False\<rparr> \<Longrightarrow> Q (r, s')"
  shows "ens Q (enc_seq_init e ir i info s)"
proof -
  have info: "Q (r, upd_enc i (\<lambda>d. d\<lparr>enc_initialInfo := x, enc_initialInfoObtained := 1\<rparr>) t)"
    if "espec t = (espec s)\<lparr>e_held := False\<rparr>" for t x r
  proof -
    have "length (e_insts (espec t)) = length (e_insts (espec s))" unfolding that by simp
    then have "i < length (codecInstPool (sem t))" using i by simp
    then show ?thesis using that by (intro ok) (simp add: enc_got_info_spec)
  qed
  show ?thesis
    unfolding enc_seq_init_def
    by (intro ens_flow write_all_ens mjpg_tables_ens enc_iram_ens enc_search_ens run_cmd_ens WaitBitBusyClear_ens
        VpuReadReg_ens unlock_ens UnlockVpu_ens info) (auto intro!: ok dest!: espec_same_sem espec_lock)
qed

lemma EncGetInitialInfo_step:
  assumes len: "length (codecInstPool (sem s)) = 4"
  shows "ens (esteps_to s) (vpu_EncGetInitialInfo e ir h info s)"
proof -
  have ok: "esteps_to s (r, t)"
    if i: "i < 4" "inUse (the_inst s i)" "enc_initialInfoObtained (encInfo (the_inst s i)) = 0" "\<not> api_lock (sem s)"
      and t: "espec t = (espec s)\<lparr>e_held := False\<rparr> \<or>
        espec t = (espec s)\<lparr>e_insts := (e_insts (espec s))[i := (e_insts (espec s) ! i)\<lparr>e_info := True\<rparr>], e_held := False\<rparr>"
    for i t and r :: "RetCode \<times> EncInitialInfo option"
  proof -
    have "\<not> e_info (e_insts (espec s) ! i)" using i(1,3) len by (simp add: e_insts_nth eview_def Let_def)
    moreover have "espec t = espec s \<or> espec t = (espec s)\<lparr>e_insts := (e_insts (espec s))[i := (e_insts (espec s) ! i)\<lparr>e_info := True\<rparr>]\<rparr>"
      using i(4) t by (auto simp: espec_def)
    ultimately show ?thesis
      using i(1,2,4) len eview_used [of s i] by (auto simp: esteps_to_def enc_step.got_info enc_step.stay)
  qed
  have locked: "ens (esteps_to s) (locked e out (enc_seq_init e ir i x) s)"
    if "i < 4" "inUse (the_inst s i)" "enc_initialInfoObtained (encInfo (the_inst s i)) = 0" for i x out
    by (intro locked_ens enc_seq_init_ens) (use that len in \<open>auto intro: ok esteps_to_same dest!: espec_same_sem espec_lock\<close>)
  show ?thesis
    unfolding vpu_EncGetInitialInfo_def by (intro enc_call_ens ens_option ens_flow locked) (auto intro: esteps_to_same)
qed

lemma EncRegisterFrameBuffer_step:
  assumes len: "length (codecInstPool (sem s)) = 4"
  shows "ens (esteps_to s) (vpu_EncRegisterFrameBuffer e h bufs num str src s)"
proof -
  let ?t = "\<lambda>i b. upd_enc i (\<lambda>d. d\<lparr>enc_frameBufPool := Some b, enc_numFrameBuffers := num, enc_stride := str\<rparr>) s"
  have reg: "esteps_to s (r, t)"
    if i: "i < 4" "inUse (the_inst s i)" "enc_initialInfoObtained (encInfo (the_inst s i)) \<noteq> 0"
      "enc_frameBufPool (encInfo (the_inst s i)) = None" and t: "espec t = espec (?t i b)" for i b t and r :: RetCode
  proof -
    have v: "e_info (e_insts (espec s) ! i)" "\<not> e_frames (e_insts (espec s) ! i)"
      using i len by (simp_all add: e_insts_nth eview_def Let_def)
    have "espec t = (espec s)\<lparr>e_insts := (e_insts (espec s))[i := (e_insts (espec s) ! i)\<lparr>e_frames := True\<rparr>]\<rparr>"
      using t i(1) len by (simp add: upd_enc_def espec_upd_inst e_insts_nth) (simp add: eview_def Let_def)
    then show ?thesis using v i(1,2) len eview_used [of s i] by (simp add: esteps_to_def enc_step.registered)
  qed
  have lock: "ens (esteps_to s) (locked e id (enc_register_body e i b num str src) (?t i b))"
    if i: "i < 4" "inUse (the_inst s i)" "enc_initialInfoObtained (encInfo (the_inst s i)) \<noteq> 0"
      "enc_frameBufPool (encInfo (the_inst s i)) = None" for i b
  proof -
    have l: "api_lock (sem (?t i b)) = api_lock (sem s)" by (simp add: upd_enc_def upd_inst_def)
    show ?thesis
      unfolding enc_register_body_def
      by (intro locked_ens ens_flow enc_frame_addrs_ens write_all_ens run_cmd_ens WaitBitBusyClear_ens unlock_ens reg [OF i])
        (use l in \<open>auto simp: espec_def\<close>)
  qed
  show ?thesis
    unfolding vpu_EncRegisterFrameBuffer_def
    by (intro enc_call_ens ens_flow ens_option) (auto intro: esteps_to_same intro!: lock)
qed

lemma enc_start_body_ens:
  assumes "\<And>s'. espec s' = espec s \<Longrightarrow> Q (RETCODE_FAILURE, s')"
    and "\<And>s'. espec s' = (espec s)\<lparr>e_pending := Some i\<rparr> \<Longrightarrow> Q (RETCODE_SUCCESS, s')"
  shows "ens Q (enc_start_body e i p s)"
  unfolding enc_start_body_def
  by (intro ens_flow write_all_ens enc_para_mem_ens VpuWriteReg_ens run_cmd_ens ens_pure [where r = "enc_pic_words d p" for d])
    (auto intro!: assms dest!: espec_same_sem)

text \<open>The result of a start tells which of the three outcomes it had.\<close>

lemma EncStartOneFrame_ens:
  assumes len: "length (codecInstPool (sem s)) = 4"
  shows "ens (\<lambda>(r, t). espec t = espec s \<and> r \<noteq> RETCODE_SUCCESS \<and> r \<noteq> RETCODE_FAILURE \<or>
    (\<exists>i<4. e_used (e_insts (espec s) ! i) \<and> e_frames (e_insts (espec s) ! i) \<and> \<not> api_lock (sem s) \<and>
      (r = RETCODE_FAILURE \<and> espec t = (espec s)\<lparr>e_held := True\<rparr> \<or>
       r = RETCODE_SUCCESS \<and> espec t = (espec s)\<lparr>e_pending := Some i, e_held := True\<rparr>))) (vpu_EncStartOneFrame e h param s)"
    (is "ens ?Q _")
proof -
  have lock: "ens ?Q (locked e id (enc_start_body e i p) s)"
    if i: "i < 4" "inUse (the_inst s i)" "enc_frameBufPool (encInfo (the_inst s i)) \<noteq> None" for i p
  proof -
    have v: "e_used (e_insts (espec s) ! i)" "e_frames (e_insts (espec s) ! i)"
      using i len by (simp_all add: e_insts_nth eview_def Let_def)
    show ?thesis
      by (intro locked_ens enc_start_body_ens) (use i v in \<open>auto dest!: espec_same_sem espec_lock\<close>)
  qed
  have param: "CheckEncParam m r p \<noteq> RETCODE_SUCCESS \<Longrightarrow> CheckEncParam m r p \<noteq> RETCODE_FAILURE" for m r p
    by (auto simp: CheckEncParam_def split: option.splits if_splits)
  show ?thesis
    unfolding vpu_EncStartOneFrame_def Let_def
    by (intro enc_call_ens ens_flow ens_pure [where r = param]) (auto dest: param intro!: lock)
qed

lemma EncGetOutputInfo_step: "ens (esteps_to s) (vpu_EncGetOutputInfo e h info s)"
proof -
  have fin: "esteps_to s (r, u)"
    if "pendingInst (sem s) = Some i" "sem t = sem s" "sem u = (sem (set_pending None t))\<lparr>api_lock := False\<rparr>"
    for i t u and r :: "RetCode \<times> EncOutputInfo option"
  proof -
    have "espec u = (espec s)\<lparr>e_pending := None, e_held := False\<rparr>" using that(2,3) by (simp add: espec_def set_pending_def)
    then show ?thesis using that(1) by (simp add: esteps_to_def enc_step.finished)
  qed
  show ?thesis
    unfolding vpu_EncGetOutputInfo_def
    by (intro enc_call_ens ens_option ens_flow enc_output_body_ens unlock_ens) (auto intro: esteps_to_same fin)
qed

lemma enc_setting_keeps:
  assumes "enc_setting cmd d = (r, d')"
  shows "enc_initialInfoObtained d' = enc_initialInfoObtained d" "enc_frameBufPool d' = enc_frameBufPool d"
    "turn_law (eview (c\<lparr>encInfo := d\<rparr>)) \<Longrightarrow> turn_law (eview (c\<lparr>encInfo := d'\<rparr>))"
    "enc_initialInfoObtained d \<noteq> 0 \<Longrightarrow> enc_rotationAngle d' = enc_rotationAngle d \<or> enc_rotationAngle d' \<in> {0, 180}"
  using assms
  by (cases "(cmd, d)" rule: enc_setting.cases; auto simp: turn_law_def eview_def Let_def split: if_splits)+

lemma enc_setting_step:
  assumes "length (codecInstPool (sem s)) = 4" "i < 4" "inUse (the_inst s i)" "enc_setting cmd (encInfo (the_inst s i)) = (r, d)"
  shows "esteps_to s (x, upd_enc i (\<lambda>_. d) s)"
proof -
  note k = enc_setting_keeps [OF assms(4)]
  have u: "espec (upd_enc i (\<lambda>_. d) s) = (espec s)\<lparr>e_insts := (e_insts (espec s))[i := eview ((the_inst s i)\<lparr>encInfo := d\<rparr>)]\<rparr>"
    by (simp add: upd_enc_def espec_upd_inst)
  have t: "turn_law (eview (the_inst s i)) \<Longrightarrow> turn_law (eview ((the_inst s i)\<lparr>encInfo := d\<rparr>))"
    using k(3) [of "the_inst s i"] by simp
  show ?thesis
    unfolding esteps_to_def u prod.case
    by (rule enc_step.setting) (use assms(1-3) t k(1,2,4) in \<open>auto simp: e_insts_nth\<close>, use k(1,2,4) assms(3) in \<open>auto simp: eview_def Let_def\<close>)
qed

lemma under_lock_step:
  assumes "\<And>t Q. (\<And>x s'. sem s' = sem t \<Longrightarrow> Q (x, s')) \<Longrightarrow> ens Q (body t)"
  shows "ens (esteps_to s) (under_lock e body s)"
  unfolding under_lock_def by (intro plain_enc_locked ens_flow assms unlock_ens) (auto dest!: espec_same_sem espec_lock)

lemma EncGiveCommand_step:
  assumes len: "length (codecInstPool (sem s)) = 4"
  shows "ens (esteps_to s) (vpu_EncGiveCommand e h cmd s)"
proof -
  have ref: "ens (esteps_to s) (refuse r s)" for r by (simp add: refuse_def ens_Some esteps_to_same)
  have gh: "ens (esteps_to s) (get_header e i m t p s)" for i m t p
    unfolding get_header_def by (intro ens_if ref under_lock_step ens_flow GetParaSet_ens) (auto intro: ens_Some)
  have ph: "ens (esteps_to s) (put_header e i m t p s)" for i m t p
    unfolding put_header_def by (intro ens_if ens_option ref under_lock_step ens_flow EncodeHeader_ens) auto
  have ra: "ens (esteps_to s) (set_rate e i valid op v s)"
    if "\<And>c v t Q. (\<And>x s'. sem s' = sem t \<Longrightarrow> Q (x, s')) \<Longrightarrow> ens Q (op c v t)" for i valid op v
    unfolding set_rate_def by (intro ens_if ens_bind ens_pure [where r = v] ref under_lock_step ens_flow that) auto
  have others: "ens (esteps_to s) (set_hec e i m s)" "ens (esteps_to s) (set_slice e i sm s)" "ens (esteps_to s) (set_refresh e i v s)"
    "ens (esteps_to s) (set_search e a s)" for i m sm v a
    unfolding set_hec_def set_slice_def set_refresh_def set_search_def
    by (intro ens_if ens_bind ens_option ens_pure [where r = sm] ens_pure [where r = v] ref under_lock_step ens_flow rate_ens
        VpuWriteReg_ens; auto)+
  have set: "ens (esteps_to s) (case enc_setting c (encInfo (the_inst s i)) of (r, d) \<Rightarrow> refuse r (upd_enc i (\<lambda>_. d) s))"
    if "i < 4" "inUse (the_inst s i)" for i c
    using enc_setting_step [OF len that] by (auto simp: refuse_def intro!: ens_Some split: prod.split)
  show ?thesis
    unfolding vpu_EncGiveCommand_def
    by (rule enc_call_ens; cases cmd) (auto intro!: gh ph ra others rate_ens intro: esteps_to_same set)
qed

section \<open>Sequences of calls\<close>

datatype enc_op =
    EncOpen "EncOpenParam option" "handle option" | EncClose handle
  | EncGetInitialInfo iram_setting handle "EncInitialInfo option"
  | EncRegisterFrameBuffer handle "FrameBuffer list option" int int int
  | EncGetBitstreamBuffer handle bool | EncUpdateBitstreamBuffer handle u32 | EncStartOneFrame handle "EncParam option"
  | EncGetOutputInfo handle "EncOutputInfo option" | EncGiveCommand handle EncCommand

text \<open>The flag of the result: the start of a frame failed for want of report memory.\<close>

fun enc_exec :: "io_env \<Rightarrow> enc_op \<Rightarrow> dec_lib \<Rightarrow> (bool \<times> dec_lib) option" where
  "enc_exec e (EncOpen pop h) s = map_option (\<lambda>x. (False, snd x)) (vpu_EncOpen e pop h s)"
| "enc_exec e (EncClose h) s = map_option (\<lambda>x. (False, snd x)) (vpu_EncClose e h s)"
| "enc_exec e (EncGetInitialInfo ir h info) s = map_option (\<lambda>x. (False, snd x)) (vpu_EncGetInitialInfo e ir h info s)"
| "enc_exec e (EncRegisterFrameBuffer h bufs num str src) s =
     map_option (\<lambda>x. (False, snd x)) (vpu_EncRegisterFrameBuffer e h bufs num str src s)"
| "enc_exec e (EncGetBitstreamBuffer h b) s = map_option (\<lambda>x. (False, snd x)) (vpu_EncGetBitstreamBuffer e h b s)"
| "enc_exec e (EncUpdateBitstreamBuffer h n) s = map_option (\<lambda>x. (False, snd x)) (vpu_EncUpdateBitstreamBuffer e h n s)"
| "enc_exec e (EncStartOneFrame h p) s = map_option (\<lambda>(r, s). (r = RETCODE_FAILURE, s)) (vpu_EncStartOneFrame e h p s)"
| "enc_exec e (EncGetOutputInfo h info) s = map_option (\<lambda>x. (False, snd x)) (vpu_EncGetOutputInfo e h info s)"
| "enc_exec e (EncGiveCommand h c) s = map_option (\<lambda>x. (False, snd x)) (vpu_EncGiveCommand e h c s)"

lemma ens_enc: "ens (esteps_to s) f \<Longrightarrow> f = Some (r, s') \<Longrightarrow> enc_step (espec s) (espec s')"
  by (auto simp: ens_def esteps_to_def)

lemma enc_start_step:
  assumes "length (codecInstPool (sem s)) = 4" "vpu_EncStartOneFrame e h p s = Some (r, s')"
  shows "if r = RETCODE_FAILURE
    then \<not> api_lock (sem s) \<and> (\<exists>i<4. e_used (e_insts (espec s) ! i) \<and> e_frames (e_insts (espec s) ! i)) \<and>
      espec s' = (espec s)\<lparr>e_held := True\<rparr>
    else enc_step (espec s) (espec s')"
  using EncStartOneFrame_ens [OF assms(1), of e h p] assms enc_step.started [of _ "espec s"] by (auto simp: ens_def enc_step.stay)

lemma enc_exec_step:
  assumes "length (codecInstPool (sem s)) = 4" "enc_exec e op s = Some (b, s')"
  shows "if b
    then \<not> api_lock (sem s) \<and> (\<exists>i<4. e_used (e_insts (espec s) ! i) \<and> e_frames (e_insts (espec s) ! i)) \<and>
      espec s' = (espec s)\<lparr>e_held := True\<rparr>
    else enc_step (espec s) (espec s')"
proof (cases op)
  case (EncStartOneFrame h p)
  then obtain r where "vpu_EncStartOneFrame e h p s = Some (r, s')" "b = (r = RETCODE_FAILURE)" using assms(2) by auto
  then show ?thesis using enc_start_step [OF assms(1)] by simp
qed (use assms in \<open>auto intro: EncOpen_step [THEN ens_enc] EncClose_step [THEN ens_enc] EncGetInitialInfo_step [THEN ens_enc]
      EncRegisterFrameBuffer_step [THEN ens_enc] EncGetBitstreamBuffer_step [THEN ens_enc]
      EncUpdateBitstreamBuffer_step [THEN ens_enc] EncGetOutputInfo_step [THEN ens_enc] EncGiveCommand_step [THEN ens_enc]\<close>)

section \<open>The lock under encoder and decoder calls\<close>

text \<open>Which instances are open, whose frame is being processed, and whether the lock is taken.\<close>

record lock_spec =
  l_used :: "bool list"
  l_pending :: "nat option"
  l_held :: bool

definition lock_of :: "dec_lib \<Rightarrow> lock_spec" where
  "lock_of s = \<lparr>l_used = map inUse (codecInstPool (sem s)), l_pending = pendingInst (sem s), l_held = api_lock (sem s)\<rparr>"

inductive lock_step :: "lock_spec \<Rightarrow> lock_spec \<Rightarrow> bool" where
  stay: "lock_step a a"
| opened: "\<not> l_held a \<Longrightarrow> lock_step a (a\<lparr>l_used := (l_used a)[i := True]\<rparr>)"
| closed: "\<not> l_held a \<Longrightarrow> lock_step a (a\<lparr>l_used := (l_used a)[i := False]\<rparr>)"
| started: "i < length (l_used a) \<Longrightarrow> l_used a ! i \<Longrightarrow> \<not> l_held a \<Longrightarrow> lock_step a (a\<lparr>l_pending := Some i, l_held := True\<rparr>)"
| finished: "l_pending a = Some i \<Longrightarrow> lock_step a (a\<lparr>l_pending := None, l_held := False\<rparr>)"
| closed_pending: "l_pending a = Some i \<Longrightarrow>
    lock_step a (a\<lparr>l_used := (l_used a)[i := False], l_pending := None, l_held := False\<rparr>)"

text \<open>Both machines refine the one of the lock.\<close>

definition dec_lock :: "dec_spec \<Rightarrow> lock_spec" where
  "dec_lock a = \<lparr>l_used = map v_used (insts a), l_pending = pending a, l_held = held a\<rparr>"

definition enc_lock :: "enc_spec \<Rightarrow> lock_spec" where
  "enc_lock a = \<lparr>l_used = map e_used (e_insts a), l_pending = e_pending a, l_held = e_held a\<rparr>"

lemma lock_of_specs: "dec_lock (spec s) = lock_of s" "enc_lock (espec s) = lock_of s"
  by (simp_all add: dec_lock_def enc_lock_def lock_of_def spec_def espec_def view_def eview_def Let_def)

lemma map_update_same: "i < length xs \<Longrightarrow> f v = f (xs ! i) \<Longrightarrow> map f (xs[i := v]) = map f xs"
  by (metis list_update_id map_update)

lemma dec_lock_step: "spec_step a b \<Longrightarrow> lock_step (dec_lock a) (dec_lock b)"
proof (induction rule: spec_step.induct)
  case (opened i a)
  then show ?case using lock_step.opened [of "dec_lock a" i] by (simp add: dec_lock_def map_update fresh_view_def)
next
  case (closed i a)
  then show ?case using lock_step.closed [of "dec_lock a" i] by (simp add: dec_lock_def map_update)
next
  case (closed_pending i a)
  then show ?case using lock_step.closed_pending [of "dec_lock a" i] by (simp add: dec_lock_def map_update)
next
  case (started i a)
  then show ?case using lock_step.started [of i "dec_lock a"] by (simp add: dec_lock_def)
next
  case (finished i a)
  then show ?case using lock_step.finished [of "dec_lock a" i] by (simp add: dec_lock_def)
next
  case (abandoned a i)
  then show ?case using lock_step.finished [of "dec_lock a" i] by (simp add: dec_lock_def)
qed (simp_all add: dec_lock_def map_update_same lock_step.stay)

lemma enc_lock_step: "enc_step a b \<Longrightarrow> lock_step (enc_lock a) (enc_lock b)"
proof (induction rule: enc_step.induct)
  case (opened i a)
  then show ?case using lock_step.opened [of "enc_lock a" i] by (simp add: enc_lock_def map_update fresh_enc_def)
next
  case (closed i a)
  then show ?case using lock_step.closed [of "enc_lock a" i] by (simp add: enc_lock_def map_update)
next
  case (started i a)
  then show ?case using lock_step.started [of i "enc_lock a"] by (simp add: enc_lock_def)
next
  case (finished a i)
  then show ?case using lock_step.finished [of "enc_lock a" i] by (simp add: enc_lock_def)
qed (simp_all add: enc_lock_def map_update_same lock_step.stay)

text \<open>Calls of both interfaces; \<open>w\<close> records whether a start of a frame has failed in this way.\<close>

datatype codec_op = Dec dec_op | Enc enc_op

fun codec_exec :: "io_env \<Rightarrow> codec_op \<Rightarrow> dec_lib \<Rightarrow> (bool \<times> dec_lib) option" where
  "codec_exec e (Dec op) s = map_option (\<lambda>s. (False, s)) (dec_exec e op s)"
| "codec_exec e (Enc op) s = enc_exec e op s"

inductive codec_reach :: "dec_lib \<Rightarrow> bool \<Rightarrow> dec_lib \<Rightarrow> bool" for s0 where
  start: "codec_reach s0 False s0"
| call: "codec_reach s0 w s \<Longrightarrow> codec_exec e op s = Some (b, t) \<Longrightarrow> codec_reach s0 (w \<or> b) t"

lemma codec_exec_step:
  assumes "length (codecInstPool (sem s)) = 4" "codec_exec e op s = Some (b, s')"
  shows "if b then \<not> l_held (lock_of s) \<and> lock_of s' = (lock_of s)\<lparr>l_held := True\<rparr> else lock_step (lock_of s) (lock_of s')"
proof (cases op)
  case (Dec d)
  then show ?thesis using assms dec_lock_step [OF dec_exec_step [OF assms(1)], of e d s'] by (auto simp: lock_of_specs)
next
  case (Enc d)
  then have st: "enc_exec e d s = Some (b, s')" using assms(2) by simp
  show ?thesis
  proof (cases b)
    case True
    with enc_exec_step [OF assms(1) st] have "\<not> api_lock (sem s)" "espec s' = (espec s)\<lparr>e_held := True\<rparr>" by simp_all
    then have "enc_lock (espec s') = (enc_lock (espec s))\<lparr>l_held := True\<rparr>" by (simp add: enc_lock_def)
    then show ?thesis using True \<open>\<not> api_lock (sem s)\<close> by (simp add: lock_of_specs) (simp add: lock_of_def)
  next
    case False
    then show ?thesis using enc_lock_step [of "espec s" "espec s'"] enc_exec_step [OF assms(1) st] by (simp add: lock_of_specs)
  qed
qed

definition lock_inv :: "bool \<Rightarrow> lock_spec \<Rightarrow> bool" where
  "lock_inv w a \<longleftrightarrow> length (l_used a) = 4 \<and>
     (if w then l_held a \<and> l_pending a = None else l_held a \<longleftrightarrow> l_pending a \<noteq> None) \<and>
     (\<forall>i. l_pending a = Some i \<longrightarrow> i < 4 \<and> l_used a ! i)"

lemma lock_step_inv: "lock_step a b \<Longrightarrow> lock_inv w a \<Longrightarrow> lock_inv w b"
  by (induction rule: lock_step.induct) (auto simp: lock_inv_def split: if_splits)

lemma codec_reach_inv:
  assumes "codec_reach s0 w s" "lock_inv False (lock_of s0)"
  shows "lock_inv w (lock_of s)"
  using assms
proof (induction rule: codec_reach.induct)
  case (call w s e op b t)
  note inv = call.IH [OF call.prems]
  then have "length (codecInstPool (sem s)) = 4" by (simp add: lock_inv_def lock_of_def)
  note st = codec_exec_step [OF this call.hyps(2)]
  show ?case
  proof (cases b)
    case True
    then show ?thesis using st inv by (auto simp: lock_inv_def split: if_splits)
  next
    case False
    then show ?thesis using st lock_step_inv [OF _ inv] by simp
  qed
qed simp

end
