(* ===== verification/Vpu_Enc_Live.thy ===== *)
theory Vpu_Enc_Live
  imports Vpu_Enc_Safety Vpu_Dec_Live
begin

unbundle bit_operations_syntax

text \<open>
  The properties of the encoder interface: the refinement, the lock under mixed calls with a
  concrete session that loses it, the ring of encoded bytes, the orientation of the pictures and
  the saved headers.
\<close>

section \<open>Refinement and lock\<close>

definition enc_sample_info :: EncInfo where
  "enc_sample_info = zero_enc_info\<lparr>enc_initialInfoObtained := 1, enc_frameBufPool := Some [zero_frame, zero_frame],
     encReportMBInfo := zero_enc_report\<lparr>erep_enable := 1, erep_addr := 0x5000\<rparr>\<rparr>"

definition enc_sample :: dec_lib where
  "enc_sample = dec_sample\<lparr>sem := (sem dec_sample)\<lparr>codecInstPool := (codecInstPool (sem dec_sample))
     [0 := (free_slot 0)\<lparr>inUse := True, codecMode := AVC_ENC, encInfo := enc_sample_info\<rparr>]\<rparr>\<rparr>"

definition enc_picture :: EncParam where
  "enc_picture = \<lparr>sourceFrame = Some zero_frame, encTopOffset = 0, encLeftOffset = 0, forceIPicture = 0, skipPicture = 0,
     quantParam = 20, enc_picStreamBufferAddr = 0, enc_picStreamBufferSize = 0, enableAutoSkip = 0\<rparr>"

text \<open>A kernel without memory for the request.\<close>

definition poor_io :: io_env where
  "poor_io = sample_io\<lparr>ioctl_env := \<lambda>_. idle_env\<lparr>kzalloc_ok := False\<rparr>\<rparr>"

lemma enc_sample_simps:
  "the_inst enc_sample 0 = (free_slot 0)\<lparr>inUse := True, codecMode := AVC_ENC, encInfo := enc_sample_info\<rparr>"
  "encInfo (the_inst enc_sample 0) = enc_sample_info" "codecMode (the_inst enc_sample 0) = AVC_ENC"
  "length (codecInstPool (sem enc_sample)) = 4" "vpu_fd enc_sample = 3" "\<not> api_lock (sem enc_sample)" "pendingInst (sem enc_sample) = None"
  "CheckEncInstanceValidity (system_rev enc_sample) (codecInstPool (sem enc_sample)) (Slot 0) = RETCODE_SUCCESS"
  by (simp_all add: enc_sample_def the_inst_def dec_sample_def free_slot_def zero_codec_def codec_inst.defs
      CheckEncInstanceValidity_def CheckInstanceValidity_def cpu_is_mx27_def cpu_is_mx32_def cpu_is_mx37_def mxc_cpu_def)

text \<open>
  C12. Refinement: every call of the encoder interface that returns, on any device and with any
  failures of the operating system, is a step of a machine that opens instances, configures them
  once, registers their frame buffers once after that, starts frames of instances with frame
  buffers only while the lock is free, and finishes them. There is one exception: a frame whose
  report memory cannot be allocated is not started but leaves the lock taken.
\<close>

theorem encoder_refines:
  assumes "length (codecInstPool (sem s)) = 4" "enc_exec e op s = Some (failed_start, s')"
  shows "if failed_start
    then \<not> api_lock (sem s) \<and> (\<exists>i<4. e_used (e_insts (espec s) ! i) \<and> e_frames (e_insts (espec s) ! i)) \<and>
      espec s' = (espec s)\<lparr>e_held := True\<rparr>
    else enc_step (espec s) (espec s')"
  using assms by (rule enc_exec_step)

theorem encoder_refines_witness:
  "\<exists>s'. enc_exec sample_io (EncGiveCommand (Slot 0) (Shared (SET_ROTATION_ANGLE (Some 180)))) enc_sample = Some (False, s') \<and>
     enc_rotationAngle (encInfo (the_inst s' 0)) = 180 \<and> enc_step (espec enc_sample) (espec s')"
proof -
  let ?s = "upd_enc 0 (\<lambda>_. enc_sample_info\<lparr>enc_rotationAngle := 180\<rparr>) enc_sample"
  have x: "enc_exec sample_io (EncGiveCommand (Slot 0) (Shared (SET_ROTATION_ANGLE (Some 180)))) enc_sample = Some (False, ?s)"
    by (simp add: vpu_EncGiveCommand_def enc_call_def enc_sample_simps refuse_def)
  have "enc_rotationAngle (encInfo (the_inst ?s 0)) = 180"
    using enc_sample_simps(4) by (simp add: upd_enc_def upd_inst_def the_inst_def)
  then show ?thesis using x encoder_refines [OF enc_sample_simps(4) x] by auto
qed

text \<open>
  C2. The lock under any mixture of encoder and decoder calls. As long as no start of an encoder
  frame has failed for want of report memory, the lock is held exactly while a frame is being
  processed, and that frame belongs to an open instance. After such a failure no call of either
  interface ever releases it: it stays taken with no frame pending, and every call that needs it
  times out.
\<close>

theorem codec_lock:
  assumes "length (codecInstPool (sem s0)) = 4" "api_lock (sem s0) \<longleftrightarrow> pendingInst (sem s0) \<noteq> None"
    and "\<forall>i. pendingInst (sem s0) = Some i \<longrightarrow> i < 4 \<and> inUse (the_inst s0 i)" "codec_reach s0 failed_start s"
  shows "(\<forall>i. pendingInst (sem s) = Some i \<longrightarrow> api_lock (sem s) \<and> i < 4 \<and> inUse (the_inst s i)) \<and>
    (\<not> failed_start \<longrightarrow> (api_lock (sem s) \<longleftrightarrow> pendingInst (sem s) \<noteq> None)) \<and>
    (failed_start \<longrightarrow> pendingInst (sem s) = None \<and> (\<forall>e out body. \<exists>t. locked e out body s = Some (out RETCODE_FAILURE_TIMEOUT, t)))"
proof -
  have "lock_inv False (lock_of s0)" using assms(1-3) by (auto simp: lock_inv_def lock_of_def the_inst_def)
  from codec_reach_inv [OF assms(4) this] have inv: "lock_inv failed_start (lock_of s)" .
  then have "length (codecInstPool (sem s)) = 4" by (simp add: lock_inv_def lock_of_def)
  then show ?thesis
    using inv by (auto simp: lock_inv_def lock_of_def the_inst_def locked_def LockVpu_def semaphore_wait_def Let_def split: if_splits)
qed

lemma poor_write: "0 \<le> vpu_fd s \<Longrightarrow> \<exists>s'. write_regs poor_io ws s = Some s' \<and> calm s s'"
  using write_all_ret [of s "calm s"] by (simp add: ret_def)

lemma poor_alloc:
  assumes "0 \<le> vpu_fd s"
  shows "\<exists>m s'. alloc_report poor_io n b s = Some (False, m, s')"
  using assms
  by (auto simp: alloc_report_def IOGetPhyMem_def IOGetPhyMem'_def lib_ioctl_def poor_io_def idle_env_def ioctl_phymem_alloc_def)

lemma enc_sample_wedges:
  "\<exists>s'. vpu_EncStartOneFrame poor_io (Slot 0) (Some enc_picture) enc_sample = Some (RETCODE_FAILURE, s')"
proof -
  have frames: "enc_frameBufPool enc_sample_info = Some [zero_frame, zero_frame]"
    and rep: "erep_enable (encReportMBInfo enc_sample_info) = 1" "phy_addr (enc_picParaBaseMem enc_sample_info) = 0"
    and rate: "bitRate (enc_openParam enc_sample_info) = 0"
    by (simp_all add: enc_sample_info_def zero_enc_info_def zero_enc_open_def zero_mem_desc_def zero_enc_report_def)
  have ok: "CheckEncParam AVC_ENC 0 (Some enc_picture) = RETCODE_SUCCESS" by (simp add: CheckEncParam_def enc_picture_def)
  have body: "ret (\<lambda>(r, s'). r = RETCODE_FAILURE) (enc_start_body poor_io 0 enc_picture t)"
    if t: "sem t = (sem enc_sample)\<lparr>api_lock := True\<rparr>" "vpu_fd t = vpu_fd enc_sample" for t
  proof -
    have inst: "encInfo (the_inst u 0) = enc_sample_info" if "calm t u" for u
      using t(1) that enc_sample_simps(2) by (simp add: the_inst_def calm_def)
    obtain ws where ws: "enc_pic_words enc_sample_info enc_picture = Some ws"
      by (simp add: enc_pic_words_def enc_source_def enc_picture_def Let_def)
    obtain u where u: "write_regs poor_io ws t = Some u" "calm t u"
      using poor_write [of t ws] t(2) enc_sample_simps(5) by auto
    have "0 \<le> vpu_fd u" using u(2) t(2) enc_sample_simps(5) by (simp add: calm_def)
    then obtain m v where "alloc_report poor_io (0x100 + 0x20000 + 0x4000 + 0x4000) (enc_picParaBaseMem enc_sample_info) u = Some (False, m, v)"
      using poor_alloc by blast
    then have "enc_para_mem poor_io 0 u = Some (False, upd_enc 0 (\<lambda>d. d\<lparr>enc_picParaBaseMem := m\<rparr>) v)"
      unfolding enc_para_mem_def Let_def inst [OF u(2)] using rep by simp
    then show ?thesis
      unfolding enc_start_body_def inst [OF calm_refl] ws using u(1) by (simp add: ret_def)
  qed
  have "ret (\<lambda>(r, s'). r = RETCODE_FAILURE) (locked poor_io id (enc_start_body poor_io 0 enc_picture) enc_sample)"
    by (rule locked_ret) (use enc_sample_simps(5,6) body in \<open>simp_all add: poor_io_def sample_io_def\<close>)
  then show ?thesis
    using ok frames rate by (auto simp: vpu_EncStartOneFrame_def enc_call_def enc_sample_simps ret_def)
qed

theorem codec_lock_witness:
  "\<exists>s. codec_reach enc_sample True s \<and> pendingInst (sem s) = None \<and>
     (\<forall>e out body. \<exists>t. locked e out body s = Some (out RETCODE_FAILURE_TIMEOUT :: RetCode, t))"
proof -
  obtain s where "vpu_EncStartOneFrame poor_io (Slot 0) (Some enc_picture) enc_sample = Some (RETCODE_FAILURE, s)"
    using enc_sample_wedges by blast
  then have "codec_exec poor_io (Enc (EncStartOneFrame (Slot 0) (Some enc_picture))) enc_sample = Some (True, s)" by simp
  from codec_reach.call [OF codec_reach.start this] have r: "codec_reach enc_sample True s" by simp
  have a: "api_lock (sem enc_sample) \<longleftrightarrow> pendingInst (sem enc_sample) \<noteq> None"
    "\<forall>i. pendingInst (sem enc_sample) = Some i \<longrightarrow> i < 4 \<and> inUse (the_inst enc_sample i)" by (simp_all add: enc_sample_simps)
  show ?thesis using r codec_lock [OF enc_sample_simps(4) a r] by blast
qed

section \<open>The ring of encoded bytes\<close>

lemma enc_avail_fill:
  assumes "in_ring start fin rd" "in_ring start fin wr"
  shows "\<exists>n. enc_avail True start fin rd wr = Some n \<and> unat n = ring_fill start fin rd wr"
proof (cases "rd \<le> wr")
  case True
  then show ?thesis by (simp add: enc_avail_def ring_fill_nat unat_minus word_le_nat_alt)
next
  case False
  have a: "unat (fin - rd) = unat fin - unat rd" "unat (wr - start) = unat wr - unat start"
    using assms by (simp_all add: unat_minus in_ring_nat)
  have "unat fin < 2 ^ 32" using unsigned_less [of fin] by simp
  then have "unat (fin - rd) + unat (wr - start) < 2 ^ 32" using a False assms by (auto simp: in_ring_nat word_le_nat_alt)
  from unat_plus [OF this] show ?thesis
    using a False assms by (auto simp: enc_avail_def ring_fill_nat in_ring_nat word_le_nat_alt)
qed

lemma enc_consume_fill:
  assumes "in_ring start fin rd" "in_ring start fin wr" "unat fin + (unat fin - unat start) \<le> 2 ^ 32"
    and n: "unat n \<le> ring_fill start fin rd wr"
  shows "\<exists>r. enc_consume True start fin rd wr n = Some r \<and> in_ring start fin r \<and>
    (\<forall>w. in_ring start fin w \<and> unat n \<le> ring_fill start fin rd w \<longrightarrow> ring_fill start fin r w = ring_fill start fin rd w - unat n)"
proof -
  note r = assms(1,2) [unfolded in_ring_nat]
  have nn: "unat n \<le> (if unat rd \<le> unat wr then unat wr - unat rd else unat fin - unat start - (unat rd - unat wr))"
    using n r by (auto simp: ring_fill_nat split: if_splits)
  have "unat rd + unat n < 2 ^ 32" using assms(3) r nn by (auto split: if_splits)
  then have w: "unat (rd + n) = unat rd + unat n" by (rule unat_plus)
  let ?v = "if fin < rd + n then start + (rd + n - fin) else rd + n"
  have v: "unat ?v = (if unat rd + unat n > unat fin then unat start + (unat rd + unat n - unat fin) else unat rd + unat n)"
  proof (cases "fin < rd + n")
    case True
    then have l: "unat fin < unat rd + unat n" using w by (simp add: word_less_nat_alt)
    then have "unat (rd + n - fin) = unat rd + unat n - unat fin" using w by (simp add: unat_minus)
    moreover have "unat start + (unat rd + unat n - unat fin) < 2 ^ 32" using assms(3) r nn l by (auto split: if_splits)
    ultimately have "unat (start + (rd + n - fin)) = unat start + (unat rd + unat n - unat fin)" by (simp add: unat_plus)
    then show ?thesis using True l by simp
  next
    case False
    then show ?thesis using w by (simp add: word_less_nat_alt)
  qed
  define r' where "r' = (if ?v = fin then start else ?v)"
  have ur: "unat r' = (if unat rd + unat n \<ge> unat fin then unat start + (unat rd + unat n - unat fin) else unat rd + unat n)"
    using v nn r unfolding r'_def word_unat_eq_iff by (auto split: if_splits)
  have "\<not> (rd < wr \<and> wr < rd + n)" using nn w by (auto simp: word_less_nat_alt split: if_splits)
  then have "enc_consume True start fin rd wr n = Some r'" by (simp add: enc_consume_def Let_def r'_def)
  moreover have "in_ring start fin r'" using ur nn r by (auto simp: in_ring_nat split: if_splits)
  moreover have "ring_fill start fin r' x = ring_fill start fin rd x - unat n"
    if "in_ring start fin x" "unat n \<le> ring_fill start fin rd x" for x
    using that ur nn r by (auto simp: ring_fill_nat in_ring_nat split: if_splits)
  ultimately show ?thesis by blast
qed


definition enc_ring_ready :: "io_env \<Rightarrow> nat \<Rightarrow> dec_lib \<Rightarrow> bool" where
  "enc_ring_ready e i s \<longleftrightarrow>
     (let d = encInfo (the_inst s i); start = enc_streamBufStartAddr d; fin = enc_streamBufEndAddr d
      in CheckEncInstanceValidity (system_rev s) (codecInstPool (sem s)) (Slot i) = RETCODE_SUCCESS \<and>
         0 \<le> vpu_fd s \<and> length (codecInstPool (sem s)) = 4 \<and>
         (\<exists>x. ptr_regs (instIndex (the_inst s i)) = Some (enc_streamRdPtrRegAddr d, enc_streamWrPtrRegAddr d, x)) \<and>
         ringBufferEnable d = 1 \<and> in_ring start fin (streamRdPtr d) \<and> unat fin + (unat fin - unat start) \<le> 2 ^ 32 \<and>
         (\<forall>k. copy_from_ok (ioctl_env e k) \<and> copy_to_left (ioctl_env e k) = 0) \<and>
         (\<forall>k m. in_ring start fin (vpu_read (ioctl_env e k) m (enc_streamWrPtrRegAddr d))))"

lemma ptr_regs_offset2: "ptr_regs idx = Some (rd, wr, dis) \<Longrightarrow> reg_offset_ok wr"
proof -
  assume p: "ptr_regs idx = Some (rd, wr, dis)"
  then have "nat idx \<in> {0, 1, 2, 3}" by (auto simp: ptr_regs_def split: if_splits)
  then show "reg_offset_ok wr" using p by (auto simp: ptr_regs_def reg_offset_ok_def split: if_splits)
qed

lemma enc_ring_get:
  assumes "enc_ring_ready e i s"
  defines "d \<equiv> encInfo (the_inst s i)"
  shows "\<exists>k m n s'. vpu_EncGetBitstreamBuffer e (Slot i) True s =
      Some ((RETCODE_SUCCESS, Some (streamRdPtr d, vpu_read (ioctl_env e k) m (enc_streamWrPtrRegAddr d), n)), s') \<and> calm s s' \<and>
    unat n = ring_fill (enc_streamBufStartAddr d) (enc_streamBufEndAddr d) (streamRdPtr d)
      (vpu_read (ioctl_env e k) m (enc_streamWrPtrRegAddr d))"
proof -
  note r = assms(1)[unfolded enc_ring_ready_def Let_def, folded d_def]
  let ?wr = "\<lambda>k m. vpu_read (ioctl_env e k) m (enc_streamWrPtrRegAddr d)"
  have ok: "reg_offset_ok (enc_streamWrPtrRegAddr d)" using ptr_regs_offset2 r by blast
  have av: "\<exists>n. enc_avail (ringBufferEnable d = 1) (enc_streamBufStartAddr d) (enc_streamBufEndAddr d) (streamRdPtr d) (?wr k m) = Some n \<and>
      unat n = ring_fill (enc_streamBufStartAddr d) (enc_streamBufEndAddr d) (streamRdPtr d) (?wr k m)" for k m
    using enc_avail_fill r by simp
  have dd: "encInfo (the_inst s i) = d" by (simp add: d_def)
  have "ret (\<lambda>((c, x), s'). c = RETCODE_SUCCESS \<and> calm s s' \<and> (\<exists>k m n. x = Some (streamRdPtr d, ?wr k m, n) \<and>
      unat n = ring_fill (enc_streamBufStartAddr d) (enc_streamBufEndAddr d) (streamRdPtr d) (?wr k m)))
    (vpu_EncGetBitstreamBuffer e (Slot i) True s)"
    unfolding vpu_EncGetBitstreamBuffer_def enc_call_def conjunct1[OF r] Let_def dd handle.case simp_thms if_False if_True
  proof (intro ret_bind IOClkGateSet_ret read_value ret_split)
    fix t k m u v assume c: "calm s t" "calm t u" "calm u v"
    obtain n where n: "enc_avail (ringBufferEnable d = 1) (enc_streamBufStartAddr d) (enc_streamBufEndAddr d) (streamRdPtr d) (?wr k m) = Some n"
      "unat n = ring_fill (enc_streamBufStartAddr d) (enc_streamBufEndAddr d) (streamRdPtr d) (?wr k m)" using av by blast
    show "ret (\<lambda>((c, x), s'). c = RETCODE_SUCCESS \<and> calm s s' \<and> (\<exists>k m n. x = Some (streamRdPtr d, ?wr k m, n) \<and>
        unat n = ring_fill (enc_streamBufStartAddr d) (enc_streamBufEndAddr d) (streamRdPtr d) (?wr k m)))
      (case enc_avail (ringBufferEnable d = 1) (enc_streamBufStartAddr d) (enc_streamBufEndAddr d) (streamRdPtr d) (?wr k m) of
         None \<Rightarrow> Some ((RETCODE_INVALID_PARAM, None), v) | Some room \<Rightarrow> Some ((RETCODE_SUCCESS, Some (streamRdPtr d, ?wr k m, room)), v))"
      using n c by (auto simp: ret_def intro: calm_trans)
  qed (use r ok in \<open>auto simp: calm_def\<close>)
  then show ?thesis by (auto simp: ret_def)
qed

lemma enc_ring_update:
  assumes "enc_ring_ready e i s"
  defines "d \<equiv> encInfo (the_inst s i)"
  defines "fill \<equiv> ring_fill (enc_streamBufStartAddr d) (enc_streamBufEndAddr d)"
  assumes n: "\<forall>k m. unat n \<le> fill (streamRdPtr d) (vpu_read (ioctl_env e k) m (enc_streamWrPtrRegAddr d))"
  shows "\<exists>r s'. vpu_EncUpdateBitstreamBuffer e (Slot i) n s = Some (RETCODE_SUCCESS, s') \<and>
    encInfo (the_inst s' i) = d\<lparr>streamRdPtr := r\<rparr> \<and> in_ring (enc_streamBufStartAddr d) (enc_streamBufEndAddr d) r \<and>
    (\<forall>w. in_ring (enc_streamBufStartAddr d) (enc_streamBufEndAddr d) w \<and> unat n \<le> fill (streamRdPtr d) w \<longrightarrow>
       fill r w = fill (streamRdPtr d) w - unat n)"
proof -
  let ?start = "enc_streamBufStartAddr d" and ?fin = "enc_streamBufEndAddr d"
  let ?wr = "\<lambda>k m. vpu_read (ioctl_env e k) m (enc_streamWrPtrRegAddr d)"
  note r = assms(1)[unfolded enc_ring_ready_def Let_def, folded d_def]
  have ok: "reg_offset_ok (enc_streamWrPtrRegAddr d)" using ptr_regs_offset2 r by blast
  have i: "i < length (codecInstPool (sem s))"
    using r by (auto simp: CheckEncInstanceValidity_def CheckInstanceValidity_def split: if_splits)
  have ex: "\<exists>p. enc_consume True ?start ?fin (streamRdPtr d) (?wr k m) n = Some p \<and> in_ring ?start ?fin p \<and>
      (\<forall>w. in_ring ?start ?fin w \<and> unat n \<le> fill (streamRdPtr d) w \<longrightarrow> fill p w = fill (streamRdPtr d) w - unat n)" for k m
    unfolding fill_def using n r by (intro enc_consume_fill) (auto simp: fill_def)
  then obtain p where p: "enc_consume True ?start ?fin (streamRdPtr d) (?wr 0 0) n = Some p" "in_ring ?start ?fin p"
      "\<forall>w. in_ring ?start ?fin w \<and> unat n \<le> fill (streamRdPtr d) w \<longrightarrow> fill p w = fill (streamRdPtr d) w - unat n"
    by blast
  have same: "enc_consume True ?start ?fin (streamRdPtr d) (?wr k m) n = Some p" for k m
  proof -
    obtain q where q: "enc_consume True ?start ?fin (streamRdPtr d) (?wr k m) n = Some q" using ex by blast
    then have "q = p" using p(1) by (auto simp: enc_consume_def Let_def split: if_splits)
    then show ?thesis using q by simp
  qed
  have dd: "encInfo (the_inst s i) = d" "encInfo (codecInstPool (sem s) ! i) = d" by (simp_all add: d_def the_inst_def)
  have ring: "(ringBufferEnable d = 1) = True" using r by simp
  have "ret (\<lambda>(c, s'). c = RETCODE_SUCCESS \<and> encInfo (the_inst s' i) = d\<lparr>streamRdPtr := p\<rparr>)
      (vpu_EncUpdateBitstreamBuffer e (Slot i) n s)"
    unfolding vpu_EncUpdateBitstreamBuffer_def enc_call_def conjunct1[OF r] Let_def dd handle.case simp_thms if_False ring
    using r ok i
    by (auto intro!: ret_bind IOClkGateSet_ret read_value ret_split ret_Some VpuWriteReg_ret
        simp: same calm_def the_inst_def upd_enc_def upd_inst_def dd)
  then show ?thesis using p(2,3) by (auto simp: ret_def)
qed

text \<open>
  C14. The ring of encoded bytes. \<^verbatim>\<open>vpu_EncGetBitstreamBuffer\<close> tells the caller exactly the bytes
  that the encoder has produced and the caller has not taken. While the encoder only adds,
  \<^verbatim>\<open>vpu_EncUpdateBitstreamBuffer\<close> with at most that many bytes succeeds, keeps the read pointer
  inside the buffer and takes exactly those bytes, also across the end of the buffer and whatever
  the encoder adds meanwhile.
\<close>

theorem encoded_ring:
  fixes s :: dec_lib and i :: nat
  defines "d \<equiv> encInfo (the_inst s i)"
  defines "fill \<equiv> ring_fill (enc_streamBufStartAddr d) (enc_streamBufEndAddr d)"
    and "inside \<equiv> in_ring (enc_streamBufStartAddr d) (enc_streamBufEndAddr d)"
  assumes "enc_ring_ready e i s"
  shows "\<exists>wr room s1.
    vpu_EncGetBitstreamBuffer e (Slot i) True s = Some ((RETCODE_SUCCESS, Some (streamRdPtr d, wr, room)), s1) \<and>
    (\<exists>k m. wr = vpu_read (ioctl_env e k) m (enc_streamWrPtrRegAddr d)) \<and> unat room = fill (streamRdPtr d) wr \<and>
    (\<forall>n. n \<le> room \<and>
       (\<forall>k m. fill (streamRdPtr d) wr \<le> fill (streamRdPtr d) (vpu_read (ioctl_env e k) m (enc_streamWrPtrRegAddr d))) \<longrightarrow>
       (\<exists>s2. vpu_EncUpdateBitstreamBuffer e (Slot i) n s1 = Some (RETCODE_SUCCESS, s2) \<and>
         inside (streamRdPtr (encInfo (the_inst s2 i))) \<and>
         (\<forall>w. inside w \<and> fill (streamRdPtr d) wr \<le> fill (streamRdPtr d) w \<longrightarrow>
            fill (streamRdPtr (encInfo (the_inst s2 i))) w = fill (streamRdPtr d) w - unat n)))"
proof -
  let ?wr = "\<lambda>k m. vpu_read (ioctl_env e k) m (enc_streamWrPtrRegAddr d)"
  obtain k m room s1 where g: "vpu_EncGetBitstreamBuffer e (Slot i) True s = Some ((RETCODE_SUCCESS, Some (streamRdPtr d, ?wr k m, room)), s1)"
    "calm s s1" "unat room = fill (streamRdPtr d) (?wr k m)"
    using enc_ring_get [OF assms(4), folded d_def] unfolding fill_def by blast
  have d1: "encInfo (the_inst s1 i) = d" using g(2) by (simp add: calm_def the_inst_def d_def)
  have r1: "enc_ring_ready e i s1" using assms(4) g(2) by (simp add: enc_ring_ready_def calm_def the_inst_def Let_def)
  have upd: "\<exists>s2. vpu_EncUpdateBitstreamBuffer e (Slot i) n s1 = Some (RETCODE_SUCCESS, s2) \<and>
      inside (streamRdPtr (encInfo (the_inst s2 i))) \<and>
      (\<forall>w. inside w \<and> fill (streamRdPtr d) (?wr k m) \<le> fill (streamRdPtr d) w \<longrightarrow>
         fill (streamRdPtr (encInfo (the_inst s2 i))) w = fill (streamRdPtr d) w - unat n)"
    if n: "n \<le> room" "\<forall>k' m'. fill (streamRdPtr d) (?wr k m) \<le> fill (streamRdPtr d) (?wr k' m')" for n
  proof -
    have le: "unat n \<le> fill (streamRdPtr d) (?wr k m)" using n(1) g(3) by (simp add: word_le_nat_alt)
    have "\<forall>k m. unat n \<le> fill (streamRdPtr d) (?wr k m)" using n(2) le le_trans by blast
    from enc_ring_update [OF r1, unfolded d1, folded fill_def inside_def, OF this] obtain r s2 where
      s2: "vpu_EncUpdateBitstreamBuffer e (Slot i) n s1 = Some (RETCODE_SUCCESS, s2)" "encInfo (the_inst s2 i) = d\<lparr>streamRdPtr := r\<rparr>"
        "inside r" "\<forall>w. inside w \<and> unat n \<le> fill (streamRdPtr d) w \<longrightarrow> fill r w = fill (streamRdPtr d) w - unat n"
      by blast
    then show ?thesis using le by (auto intro: le_trans)
  qed
  show ?thesis using g(1,3) upd by blast
qed

definition enc_ring_info :: EncInfo where
  "enc_ring_info = zero_enc_info\<lparr>ringBufferEnable := 1, enc_streamBufStartAddr := 0x1000, enc_streamBufEndAddr := 0x2000,
     streamRdPtr := 0x1FF0, enc_streamRdPtrRegAddr := 0x120, enc_streamWrPtrRegAddr := 0x124\<rparr>"

definition enc_ring_sample :: dec_lib where
  "enc_ring_sample = dec_sample\<lparr>sem := (sem dec_sample)\<lparr>codecInstPool := (codecInstPool (sem dec_sample))
     [0 := (free_slot 0)\<lparr>inUse := True, codecMode := AVC_ENC, encInfo := enc_ring_info\<rparr>]\<rparr>\<rparr>"

theorem encoded_ring_witness:
  "\<exists>s1 s2. vpu_EncGetBitstreamBuffer ring_io (Slot 0) True enc_ring_sample = Some ((RETCODE_SUCCESS, Some (0x1FF0, 0x1010, 32)), s1) \<and>
     vpu_EncUpdateBitstreamBuffer ring_io (Slot 0) 20 s1 = Some (RETCODE_SUCCESS, s2) \<and>
     ring_fill 0x1000 0x2000 (streamRdPtr (encInfo (the_inst s2 0))) 0x1010 = 12"
proof -
  have inst: "the_inst enc_ring_sample 0 = (free_slot 0)\<lparr>inUse := True, codecMode := AVC_ENC, encInfo := enc_ring_info\<rparr>"
    by (simp add: enc_ring_sample_def the_inst_def dec_sample_def)
  have d: "encInfo (the_inst enc_ring_sample 0) = enc_ring_info"
    by (simp add: inst free_slot_def zero_codec_def codec_inst.defs)
  have f: "ringBufferEnable enc_ring_info = 1" "enc_streamBufStartAddr enc_ring_info = 0x1000" "enc_streamBufEndAddr enc_ring_info = 0x2000"
    "streamRdPtr enc_ring_info = 0x1FF0" "enc_streamRdPtrRegAddr enc_ring_info = 0x120" "enc_streamWrPtrRegAddr enc_ring_info = 0x124"
    by (simp_all add: enc_ring_info_def zero_enc_info_def)
  have r: "vpu_read (ioctl_env ring_io k) m a = 0x1010" "copy_from_ok (ioctl_env ring_io k)" "copy_to_left (ioctl_env ring_io k) = 0"
    for k m a by (simp_all add: ring_io_def idle_env_def)
  have h: "CheckEncInstanceValidity (system_rev enc_ring_sample) (codecInstPool (sem enc_ring_sample)) (Slot 0) = RETCODE_SUCCESS"
    "0 \<le> vpu_fd enc_ring_sample" "length (codecInstPool (sem enc_ring_sample)) = 4"
    by (simp_all add: enc_ring_sample_def dec_sample_def CheckEncInstanceValidity_def CheckInstanceValidity_def cpu_is_mx27_def
        cpu_is_mx32_def cpu_is_mx37_def mxc_cpu_def free_slot_def zero_codec_def codec_inst.defs)
  have p: "ptr_regs (instIndex (the_inst enc_ring_sample 0)) = Some (0x120, 0x124, 0x140)"
    by (simp add: inst free_slot_def zero_codec_def codec_inst.defs ptr_regs_def)
  have "enc_ring_ready ring_io 0 enc_ring_sample"
    unfolding enc_ring_ready_def Let_def d f p using h r by (simp add: in_ring_def)
  from encoded_ring [OF this, unfolded d f r] obtain room s1 where
      g: "vpu_EncGetBitstreamBuffer ring_io (Slot 0) True enc_ring_sample = Some ((RETCODE_SUCCESS, Some (0x1FF0, 0x1010, room)), s1)"
    and room: "unat room = ring_fill 0x1000 0x2000 0x1FF0 0x1010"
    and u: "\<forall>n\<le>room. \<exists>s2. vpu_EncUpdateBitstreamBuffer ring_io (Slot 0) n s1 = Some (RETCODE_SUCCESS, s2) \<and>
        in_ring 0x1000 0x2000 (streamRdPtr (encInfo (the_inst s2 0))) \<and> (\<forall>w. in_ring 0x1000 0x2000 w \<and> ring_fill 0x1000 0x2000 0x1FF0 0x1010 \<le> ring_fill 0x1000 0x2000 0x1FF0 w \<longrightarrow>
          ring_fill 0x1000 0x2000 (streamRdPtr (encInfo (the_inst s2 0))) w = ring_fill 0x1000 0x2000 0x1FF0 w - unat n)"
    by auto
  have full: "ring_fill 0x1000 0x2000 0x1FF0 0x1010 = 32" by (simp add: ring_fill_def)
  then have "room = 32" using room by (simp add: word_unat_eq_iff)
  moreover have "in_ring 0x1000 0x2000 0x1010" by (simp add: in_ring_def)
  ultimately show ?thesis using g u [rule_format, of 20] full by auto
qed

section \<open>Orientation\<close>

text \<open>
  The eight orientations of a picture, on coordinates from its centre: a quarter turn and the two
  mirrors. A mode has the quarter turns in its low bits and the mirrors in bits 2 and 3. The
  decoder turns first and mirrors after, the encoder mirrors first.
\<close>

definition quarter :: "int \<times> int \<Rightarrow> int \<times> int" where
  "quarter = (\<lambda>(x, y). (- y, x))"

definition mirror :: "nat \<Rightarrow> int \<times> int \<Rightarrow> int \<times> int" where
  "mirror m = (\<lambda>(x, y). (if 2 \<le> m then - x else x, if m mod 2 = 1 then - y else y))"

definition post_orient :: "nat \<Rightarrow> int \<times> int \<Rightarrow> int \<times> int" where
  "post_orient m p = mirror (m div 4) ((quarter ^^ (m mod 4)) p)"

definition pre_orient :: "nat \<Rightarrow> int \<times> int \<Rightarrow> int \<times> int" where
  "pre_orient m p = (quarter ^^ (m mod 4)) (mirror (m div 4) p)"

lemma quarter_pow:
  "(quarter ^^ 0) (x, y) = (x, y)" "quarter (x, y) = (- y, x)" "(quarter ^^ 2) (x, y) = (- x, - y)" "(quarter ^^ 3) (x, y) = (y, - x)"
  by (simp_all add: quarter_def numeral_eq_Suc)

lemma orientation_table:
  assumes "m < 16"
  shows "rotatorModeConversion ! m \<in> {0, 1, 2, 3, 4, 5, 6, 7}" "pre_orient (unat (rotatorModeConversion ! m)) p = post_orient m p"
proof -
  obtain x y where p: "p = (x, y)" by (cases p)
  have "set [0 ..< 16] = {0, 1, 2, 3, 4, 5, 6, 7, 8, 9, 10, 11, 12, 13, 14, 15 :: nat}" by code_simp
  then have "m \<in> {0, 1, 2, 3, 4, 5, 6, 7, 8, 9, 10, 11, 12, 13, 14, 15}" using assms by (metis atLeast0LessThan lessThan_iff set_upt)
  then have "rotatorModeConversion ! m \<in> {0, 1, 2, 3, 4, 5, 6, 7} \<and> pre_orient (unat (rotatorModeConversion ! m)) p = post_orient m p"
    unfolding p by (elim insertE emptyE; simp add: rotatorModeConversion_def pre_orient_def post_orient_def quarter_pow mirror_def)
  then show "rotatorModeConversion ! m \<in> {0, 1, 2, 3, 4, 5, 6, 7}" "pre_orient (unat (rotatorModeConversion ! m)) p = post_orient m p"
    by blast+
qed

text \<open>
  C38. The table \<^verbatim>\<open>rotatorModeConversion\<close> is right: for every setting of rotation and mirroring,
  the mode that \<^verbatim>\<open>vpu_EncStartOneFrame\<close> writes for the encoder, which mirrors before it turns,
  orients every pixel as the mode of the settings does for a decoder, which turns before it
  mirrors; the enable bit is set exactly when one of the two is on.
\<close>

theorem encoder_orientation:
  "pre_orient (unat (enc_rot d AND 0xF)) p = post_orient (unat (enc_rot_mode d)) p \<and>
   enc_rot d AND NOT 0xF = (if enc_rotationEnable d = 0 \<and> enc_mirrorEnable d = 0 then 0 else 0x10)"
proof -
  let ?m = "unat (enc_rot_mode d)"
  obtain u v where m: "enc_rot_mode d = u OR v" "u \<in> {0, 1, 2, 3}" "v \<in> {0, 4, 8, 12}"
    unfolding enc_rot_mode_def by (auto split: if_splits)
  then have less: "?m < 16" by auto
  have conv: "rotatorModeConversion ! ?m \<in> {0, 1, 2, 3, 4, 5, 6, 7}"
    "pre_orient (unat (rotatorModeConversion ! ?m)) p = post_orient ?m p"
    using orientation_table [OF less] by blast+
  have "((x :: u32) OR y) AND 0xF = x \<and> (x OR y) AND NOT 0xF = y" if "x \<in> {0, 1, 2, 3, 4, 5, 6, 7}" "y \<in> {0, 0x10}" for x y
    using that by auto
  from this [OF conv(1)] show ?thesis using conv(2) unfolding enc_rot_def by auto
qed

section \<open>Saved headers\<close>

definition big_endian :: "u32 \<Rightarrow> u8 list" where
  "big_endian w = [ucast (drop_bit 24 w), ucast (drop_bit 16 w), ucast (drop_bit 8 w), ucast w]"

lemma mem_bytes_swap: "mem_bytes (map swap_word ws) = concat (map big_endian ws)"
proof -
  have m: "(x :: u32) AND 0xFF = take_bit 8 x" for x by (simp add: take_bit_eq_mask mask_eq_exp_minus_1)
  have "(ucast (swap_word w) :: u8) = ucast (drop_bit 24 w)" "(ucast (drop_bit 8 (swap_word w)) :: u8) = ucast (drop_bit 16 w)"
    "(ucast (drop_bit 16 (swap_word w)) :: u8) = ucast (drop_bit 8 w)" "(ucast (drop_bit 24 (swap_word w)) :: u8) = ucast w" for w
    unfolding swap_word_def m by (rule bit_word_eqI; auto simp: bit_simps)+
  then have "[ucast (swap_word w), ucast (drop_bit 8 (swap_word w)), ucast (drop_bit 16 (swap_word w)), ucast (drop_bit 24 (swap_word w))] =
      big_endian w" for w by (simp add: big_endian_def)
  then show ?thesis by (simp add: mem_bytes_def o_def)
qed

text \<open>The file has the bytes of the header, most significant first in each word.\<close>

lemma saved_header:
  assumes "vpu_EncGiveCommand e h cmd s = Some ((r, ParaOut a n), s')" "malloc_ok e" "0 < n" "n \<le> 10240"
  shows "SaveGetEncodeHeader e h cmd True True s =
    Some (Some (take (unat n) (concat (map (\<lambda>k. big_endian (umem s' (a + 4 * of_nat k))) [0 ..< (unat n + 3) div 4]))), s')"
proof -
  have le: "unat n \<le> 10240" "0 < unat n" using assms(3,4) by (simp_all add: word_le_nat_alt word_less_nat_alt)
  have "unat (n + 3) = unat n + 3" using unat_plus [of n 3] le by simp
  moreover have "unat ((x :: u32) AND NOT 3) = unat x div 4 * 4" for x
  proof -
    have "(3 :: u32) = mask 2" by (simp add: mask_eq_exp_minus_1)
    then have "x AND NOT 3 = x AND NOT (mask 2)" by simp
    also have "\<dots> = push_bit 2 (drop_bit 2 x)" by (rule bit_word_eqI) (auto simp: bit_simps simp flip: add_2_eq_Suc)
    finally have "x AND NOT 3 = push_bit 2 (drop_bit 2 x)" .
    moreover have "unat x < 4294967296" using unsigned_less [of x, where 'a = nat] by simp
    then have "unat x div 4 < 1073741824" by simp
    then have "unat (push_bit 2 (drop_bit 2 x)) = unat x div 4 * 4"
      by (simp add: unsigned_push_bit_eq unsigned_drop_bit_eq push_bit_eq_mult drop_bit_eq_div take_bit_eq_mod unat_mult_lem [THEN iffD1] unat_div)
    ultimately show ?thesis by simp
  qed
  ultimately have b: "unat ((n + 3) AND NOT 3) = (unat n + 3) div 4 * 4" by simp
  have "sint n = int (unat n)" using le by (intro sint_unat) simp
  then have "0 < sint n" using le(2) by (simp only: of_nat_0_less_iff)
  then show ?thesis
    using assms(1,2) b le mem_bytes_swap [of "map (\<lambda>k. umem s' (a + 4 * of_nat k)) [0 ..< (unat n + 3) div 4]"]
    by (simp add: SaveGetEncodeHeader_def Let_def o_def)
qed

end
