(* ===== verification/Spec2Isabelle.thy ===== *)
theory Spec2Isabelle
  imports Driver_Init Stream_Queue Stream_Session Vpu_Enc_Live
begin

text \<open>
  Verification of the Toon VPU stack: the kernel driver \<^verbatim>\<open>src/kernel/mxc_vpu.c\<close> of the i.MX27
  video processing unit, the user-space library \<^verbatim>\<open>src/lib\<close> that commands the BIT processor
  through it, and the streaming application \<^verbatim>\<open>src/apps/vpu_stream.c\<close> that feeds the decoder from
  the network.

  \<^bold>\<open>The program.\<close> The driver owns a pool of physically contiguous pages, the VPU registers, the
  two eMMA units (post-processor PP and pre-processor PrP) that scale and convert pictures, and the
  interrupts. A process opens the device, allocates buffers and accesses registers through
  \<^verbatim>\<open>ioctl\<close>, and maps buffers with \<^verbatim>\<open>mmap\<close>. The library keeps the codec instances and two locks in
  a structure that the processes share, loads the firmware, and runs decoders and encoders by
  writing registers and issuing commands; while a frame is being processed the interface lock stays
  held. The application receives an elementary stream over TCP, or H.264 and MPEG-4 over RTP, puts
  it into the ring of bytes that it shares with the decoder, and starts frames.

  \<^bold>\<open>The theories\<close>, in the order of their dependencies:

  \<^item> \<open>Prelude\<close>: machine integers, kernel error codes, arithmetic of shifts and page rounding.
  \<^item> \<open>Pool\<close> (\<^verbatim>\<open>vpu_pool_*\<close>, \<^verbatim>\<open>vpu_alloc_dma_buffer\<close>): the page bitmaps. The contract of the
    allocator is the locale \<open>dma_allocator\<close>, interpreted on the code as \<open>vpool\<close>; allocation is exact
    (it fails only when no block has room) and freeing undoes it.
  \<^item> \<open>PP_Scale\<close>, \<open>PP_Convert\<close>, \<open>PrP_Scale\<close>, \<open>PrP_Convert\<close>: the resize tables and the register
    programmes of the two units, with reset, interrupt, time-out and every error return. The tables
    consume the source and produce the destination exactly; the packed register words decode to the
    table; the planes that a conversion is pointed at follow one another and are not left.
  \<^item> \<open>Driver\<close>, \<open>Driver_Safety\<close>: \<^verbatim>\<open>open\<close>, every \<^verbatim>\<open>ioctl\<close>, \<^verbatim>\<open>release\<close>, \<^verbatim>\<open>mmap\<close> and the interrupt
    as functions on \<open>vpu_state\<close>, sequences of calls as the step relation \<open>vpu_step\<close>. Buffers of all
    users stay disjoint, registers are accessed inside their window, completions are not lost, the
    last close returns everything.
  \<^item> \<open>Driver_Init\<close>: module load and unload, with the resources held as a list, so that what an
    error path forgets is visible.
  \<^item> \<open>Vpu_Util\<close>, \<open>Vpu_Types\<close> (\<^verbatim>\<open>vpu_util.c\<close>, \<^verbatim>\<open>vpu_lib.h\<close>): firmware loading, the pool of codec
    instances (locale \<open>slot_pool\<close>, interpreted as \<open>inst\<close>), parameter checks, internal RAM layout.
  \<^item> \<open>Vpu_IO\<close>, \<open>Vpu_IO_Safety\<close> (\<^verbatim>\<open>vpu_io.c\<close>): the access layer; its \<^verbatim>\<open>ioctl\<close>s run the driver model
    \<open>vpu_ioctl\<close> on the \<open>kernel\<close> field of the library state, so driver and library are one system.
  \<^item> \<open>Vpu_Cmd\<close>, \<open>Vpu_Cmd_Safety\<close>: boot, reset and commands of the BIT processor, and the waits for it.
  \<^item> \<open>Vpu_Dec\<close>, \<open>Vpu_Dec_Safety\<close>, \<open>Vpu_Dec_Live\<close>: the whole decoder interface of \<^verbatim>\<open>vpu_lib.c\<close>. It
    refines the abstract machine \<open>spec_step\<close> of instances, headers, frame buffers and the lock; the
    invariants of that machine hold after any calls; an abandoned frame is closed on a processor that
    never finishes, when the lock is granted; the ring of stream bytes is accounted for exactly.
  \<^item> \<open>Vpu_Enc\<close>, \<open>Vpu_Enc_Safety\<close>, \<open>Vpu_Enc_Live\<close>: the whole encoder interface on the same state, its
    abstract machine \<open>enc_step\<close>, and the lock under any mixture of decoder and encoder calls
    (\<open>codec_reach\<close>); the ring of encoded bytes; the orientation of the source picture.
  \<^item> \<open>Stream_MD5\<close>, \<open>Stream_Auth\<close>: the digest and the base64 coding of the RTSP authentication. The
    digest is the one of RFC 1321, stated on the whole message; base64 decoding undoes encoding.
  \<^item> \<open>Stream_RTP\<close>, \<open>Stream_Delivery\<close>: the receiver of H.264 over RTP. Whatever arrives, it stays in
    its buffers and passes on units that the packets carry byte for byte (\<open>carried\<close>); what a sender
    following RFC 6184 transmits without loss, single units, fragments and aggregation packets, is
    delivered completely and in order; an intact unit after a loss can be discarded.
  \<^item> \<open>Stream_RTSP\<close>, \<open>Stream_Session\<close>: the RTSP client, from the address to the packets of the
    connection. It ends whatever arrives, and gives up when the header of a packet is cut; against a source that answers, it sends the
    requests with the authorisation of RFC 2617 and delivers everything that is transmitted.
  \<^item> \<open>Stream_Ring\<close>, \<open>Stream_Queue\<close>: every way in which the application fills the ring. What it relies
    on in the library is the locale \<open>stream_port\<close>, interpreted on the decoder calls as \<open>dec\<close>; the
    ring then is a queue of bytes that writes append to and feeding from the socket loses nothing of.

  \<^bold>\<open>Conventions.\<close> Unsigned integers are words of their width; C \<^verbatim>\<open>int\<close>s are \<open>int\<close> where the theory
  says why they cannot overflow. Kernel functions return negative error codes, library functions
  \<open>RetCode\<close>. An operation that touches memory outside its objects is \<open>None\<close>. Busy-waiting loops
  (\<open>wait_idle\<close>, \<open>wait_not_busy\<close>, \<open>busy_loop\<close>) are partial functions, where \<open>None\<close> is also a loop
  that never ends; the theorems that a call returns are stated as such (\<open>busy_waits\<close>,
  \<open>abandoned_frame_closes\<close>).

  \<^bold>\<open>Parameters.\<close> The kernel's bitmap routines are \<open>bitmap_ops\<close> with their documented behaviour
  \<open>bitmap_api_ok\<close>. What the hardware answers and what the operating system decides is quantified:
  \<open>vpu_env\<close> (device reads, copies from and to user memory, allocations, the event that ends a sleep),
  \<open>init_env\<close> (resources of module load) and \<open>io_env\<close> (file descriptors, mappings, locks, the clock).
  \<^verbatim>\<open>vpu_dec_iram_enabled\<close>, which the library calls and the sources do not define, is a parameter.

  What the socket offers is a list of answers, and the file behind the decoder input of the RTP
  receiver has a list of the lengths that its writes accept. The network of the RTSP client is a
  function that answers a connection with the segments of bytes that will arrive on it.

  \<^bold>\<open>Not modelled.\<close> The display, the options and the main loop of the application and the two test
  programs under \<^verbatim>\<open>src/apps\<close> are sequences of socket, console and frame buffer calls.
  Spinlocks are not modelled (the target has one processor). Register dumps and log messages have no
  effect on the state. \<^verbatim>\<open>src/reference/mx27_prphw.c\<close> is the vendor code from which the PrP part of
  the driver was derived and is not built.
\<close>

end
